(* ===== verification/Prelude.thy ===== *)
theory Prelude
  imports Main "HOL-Library.Word"
begin

text \<open>
  Shared vocabulary of the development: machine integers and byte strings, results of fallible
  Rust code (a value, an error, or a panic), slice and array accesses that panic out of range,
  checked arithmetic, and bounded vectors.

  A Rust function that returns \<open>Result<T, E>\<close> and may panic becomes a function into
  \<open>('e, 'a) res\<close>: \<open>Ok\<close> and \<open>Err\<close> are the two values of the \<open>Result\<close>, and \<open>Panic\<close> is
  an index out of range, a failed \<open>expect\<close>, or an arithmetic overflow under overflow checks. The
  \<open>?\<close> operator is \<open>and_then\<close>.
\<close>

unbundle bit_operations_syntax

subsection \<open>Types\<close>

type_synonym u8 = "8 word"
type_synonym u16 = "16 word"
type_synonym u32 = "32 word"
type_synonym u64 = "64 word"
type_synonym bytes = "u8 list"

datatype ('e, 'a) res = Ok 'a | Err 'e | Panic

named_theorems res_simps \<open>unfolding rules of the result combinators\<close>
named_theorems slice_simps \<open>when an access to a slice succeeds\<close>
named_theorems vec_simps \<open>when a bounded vector accepts data\<close>

subsection \<open>Results\<close>

primrec and_then :: "('e, 'a) res \<Rightarrow> ('a \<Rightarrow> ('e, 'b) res) \<Rightarrow> ('e, 'b) res" where
  "and_then (Ok x) f = f x"
| "and_then (Err e) f = Err e"
| "and_then Panic f = Panic"

primrec map_err :: "('e \<Rightarrow> 'f) \<Rightarrow> ('e, 'a) res \<Rightarrow> ('f, 'a) res" where
  "map_err g (Ok x) = Ok x"
| "map_err g (Err e) = Err (g e)"
| "map_err g Panic = Panic"

primrec ok_or :: "'e \<Rightarrow> 'a option \<Rightarrow> ('e, 'a) res" where
  "ok_or e None = Err e"
| "ok_or e (Some x) = Ok x"

primrec expect :: "'a option \<Rightarrow> ('e, 'a) res" where
  "expect None = Panic"
| "expect (Some x) = Ok x"

definition guard :: "bool \<Rightarrow> 'e \<Rightarrow> ('e, unit) res" where
  "guard b e = (if b then Ok () else Err e)"

lemma and_then_eq_Ok [res_simps]:
  "and_then m f = Ok y \<longleftrightarrow> (\<exists>x. m = Ok x \<and> f x = Ok y)"
  by (cases m) auto

lemma and_then_eq_Err [res_simps]:
  "and_then m f = Err e \<longleftrightarrow> m = Err e \<or> (\<exists>x. m = Ok x \<and> f x = Err e)"
  by (cases m) auto

lemma and_then_eq_Panic [res_simps]:
  "and_then m f = Panic \<longleftrightarrow> m = Panic \<or> (\<exists>x. m = Ok x \<and> f x = Panic)"
  by (cases m) auto

lemma map_err_eq [res_simps]:
  "map_err g m = Ok x \<longleftrightarrow> m = Ok x"
  "map_err g m = Panic \<longleftrightarrow> m = Panic"
  "map_err g m = Err e' \<longleftrightarrow> (\<exists>e. m = Err e \<and> e' = g e)"
  by (cases m; auto)+

lemma ok_or_eq [res_simps]:
  "ok_or e m = Ok x \<longleftrightarrow> m = Some x"
  "ok_or e m = Err e' \<longleftrightarrow> m = None \<and> e' = e"
  "ok_or e m \<noteq> Panic"
  by (cases m; auto)+

lemma expect_eq [res_simps]:
  "expect m = Ok x \<longleftrightarrow> m = Some x"
  "expect m = Panic \<longleftrightarrow> m = None"
  "expect m \<noteq> Err e"
  by (cases m; auto)+

lemma guard_eq [res_simps]:
  "guard b e = Ok u \<longleftrightarrow> b"
  "guard b e = Err e' \<longleftrightarrow> \<not> b \<and> e' = e"
  "guard b e \<noteq> Panic"
  by (auto simp: guard_def)

lemma guard_True [simp]: "guard True e = Ok ()"
  by (simp add: guard_def)

lemma guard_False [simp]: "guard False e = Err e"
  by (simp add: guard_def)

lemma and_then_cong [fundef_cong]:
  "m = m' \<Longrightarrow> (\<And>x. m' = Ok x \<Longrightarrow> f x = g x) \<Longrightarrow> and_then m f = and_then m' g"
  by (cases m') auto

lemma and_then_assoc: "and_then (and_then m f) g = and_then m (\<lambda>x. and_then (f x) g)"
  by (cases m) auto

subsection \<open>Slices and arrays\<close>

text \<open>\<open>xs[i]\<close>, \<open>&xs[a..b]\<close>, \<open>&xs[a..]\<close>, \<open>xs[i] = v\<close> and
  \<open>xs[a..a + src.len()].copy_from_slice(src)\<close>.\<close>

definition index :: "'a list \<Rightarrow> nat \<Rightarrow> ('e, 'a) res" where
  "index xs i = (if i < length xs then Ok (xs ! i) else Panic)"

definition slice :: "'a list \<Rightarrow> nat \<Rightarrow> nat \<Rightarrow> ('e, 'a list) res" where
  "slice xs a b = (if a \<le> b \<and> b \<le> length xs then Ok (take (b - a) (drop a xs)) else Panic)"

definition slice_from :: "'a list \<Rightarrow> nat \<Rightarrow> ('e, 'a list) res" where
  "slice_from xs a = (if a \<le> length xs then Ok (drop a xs) else Panic)"

definition store_at :: "'a list \<Rightarrow> nat \<Rightarrow> 'a \<Rightarrow> ('e, 'a list) res" where
  "store_at xs i v = (if i < length xs then Ok (xs[i := v]) else Panic)"

definition copy_at :: "'a list \<Rightarrow> nat \<Rightarrow> 'a list \<Rightarrow> ('e, 'a list) res" where
  "copy_at xs a src =
     (if a + length src \<le> length xs
      then Ok (take a xs @ src @ drop (a + length src) xs) else Panic)"

text \<open>\<open>slice.get(i)\<close> and \<open>slice.get(a..b)\<close>: the accesses that return an option.\<close>

definition get_at :: "'a list \<Rightarrow> nat \<Rightarrow> 'a option" where
  "get_at xs i = (if i < length xs then Some (xs ! i) else None)"

definition get_range :: "'a list \<Rightarrow> nat \<Rightarrow> nat \<Rightarrow> 'a list option" where
  "get_range xs a b = (if a \<le> b \<and> b \<le> length xs then Some (take (b - a) (drop a xs)) else None)"

lemma index_eq [slice_simps]:
  "index xs i = Ok x \<longleftrightarrow> i < length xs \<and> x = xs ! i"
  "index xs i = Panic \<longleftrightarrow> length xs \<le> i"
  "index xs i \<noteq> Err e"
  by (auto simp: index_def)

lemma slice_eq [slice_simps]:
  "slice xs a b = Ok ys \<longleftrightarrow> a \<le> b \<and> b \<le> length xs \<and> ys = take (b - a) (drop a xs)"
  "slice xs a b = Panic \<longleftrightarrow> \<not> (a \<le> b \<and> b \<le> length xs)"
  "slice xs a b \<noteq> Err e"
  by (auto simp: slice_def)

lemma slice_from_eq [slice_simps]:
  "slice_from xs a = Ok ys \<longleftrightarrow> a \<le> length xs \<and> ys = drop a xs"
  "slice_from xs a = Panic \<longleftrightarrow> length xs < a"
  "slice_from xs a \<noteq> Err e"
  by (auto simp: slice_from_def)

lemma store_at_eq [slice_simps]:
  "store_at xs i v = Ok ys \<longleftrightarrow> i < length xs \<and> ys = xs[i := v]"
  "store_at xs i v = Panic \<longleftrightarrow> length xs \<le> i"
  "store_at xs i v \<noteq> Err e"
  by (auto simp: store_at_def)

lemma copy_at_eq [slice_simps]:
  "copy_at xs a src = Ok ys \<longleftrightarrow>
     a + length src \<le> length xs \<and> ys = take a xs @ src @ drop (a + length src) xs"
  "copy_at xs a src = Panic \<longleftrightarrow> length xs < a + length src"
  "copy_at xs a src \<noteq> Err e"
  by (auto simp: copy_at_def)

lemma get_at_eq [slice_simps]:
  "get_at xs i = Some x \<longleftrightarrow> i < length xs \<and> x = xs ! i"
  "get_at xs i = None \<longleftrightarrow> length xs \<le> i"
  by (auto simp: get_at_def)

lemma get_range_eq [slice_simps]:
  "get_range xs a b = Some ys \<longleftrightarrow> a \<le> b \<and> b \<le> length xs \<and> ys = take (b - a) (drop a xs)"
  "get_range xs a b = None \<longleftrightarrow> \<not> (a \<le> b \<and> b \<le> length xs)"
  by (auto simp: get_range_def)

lemma copy_at_replicate [simp]:
  "length src \<le> n \<Longrightarrow> copy_at (replicate n z) 0 src = Ok (src @ replicate (n - length src) z)"
  by (simp add: copy_at_def)

subsection \<open>Checked arithmetic\<close>

text \<open>
  A \<open>usize\<close> is a natural number at most \<open>usize_max\<close>, the bound of the 32-bit targets this
  \<open>no_std\<close> crate is written for; a slice is never longer than \<open>isize_max\<close>.
\<close>

definition usize_max :: nat where "usize_max = 2 ^ 32 - 1"
definition isize_max :: nat where "isize_max = 2 ^ 31 - 1"

definition checked_add_usize :: "nat \<Rightarrow> nat \<Rightarrow> nat option" where
  "checked_add_usize a b = (if a + b \<le> usize_max then Some (a + b) else None)"

definition checked_add_u16 :: "u16 \<Rightarrow> u16 \<Rightarrow> u16 option" where
  "checked_add_u16 a b = (if unat a + unat b < 2 ^ 16 then Some (a + b) else None)"

definition checked_add_u64 :: "u64 \<Rightarrow> u64 \<Rightarrow> u64 option" where
  "checked_add_u64 a b = (if unat a + unat b < 2 ^ 64 then Some (a + b) else None)"

text \<open>The \<open>+\<close> of a \<open>u16\<close>: with overflow checks (the default of debug builds) an overflow
  panics, without them (the default of release builds) it wraps.\<close>

definition add_u16 :: "bool \<Rightarrow> u16 \<Rightarrow> u16 \<Rightarrow> ('e, u16) res" where
  "add_u16 overflow_checks a b =
     (if overflow_checks \<and> 2 ^ 16 \<le> unat a + unat b then Panic else Ok (a + b))"

text \<open>\<open>n as u8\<close> and \<open>b as usize\<close>.\<close>

abbreviation as_u8 :: "nat \<Rightarrow> u8" where "as_u8 n \<equiv> of_nat n"
abbreviation as_usize :: "u8 \<Rightarrow> nat" where "as_usize b \<equiv> unat b"

lemma checked_add_usize_Some [res_simps]:
  "checked_add_usize a b = Some c \<longleftrightarrow> a + b \<le> usize_max \<and> c = a + b"
  "checked_add_usize a b = None \<longleftrightarrow> usize_max < a + b"
  by (auto simp: checked_add_usize_def)

lemma unat_of_nat_u8 [simp]: "n < 256 \<Longrightarrow> unat (as_u8 n) = n"
  by (simp add: unat_of_nat)

lemma unat_u8_bound [simp]: "unat (b :: u8) < 256"
  using unsigned_less [of b] by simp

lemma unat_u8_le [simp]: "unat (b :: u8) \<le> 255"
  using unat_u8_bound [of b] by linarith

lemma u8_pair_bound: "unat (hi :: u8) * 256 + unat (lo :: u8) < 65536"
  using unat_u8_bound [of hi] unat_u8_bound [of lo] by linarith

lemma usize_max_val: "usize_max = 4294967295"
  by (simp add: usize_max_def)

subsection \<open>Bounded vectors\<close>

text \<open>
  A \<open>heapless::Vec<u8, N>\<close> is the list of its elements; its documented operations refuse data
  that does not fit the capacity \<open>N\<close> and leave the vector as it was. \<open>e\<close> is the error the
  caller maps the refusal to.
\<close>

definition vec_push :: "nat \<Rightarrow> 'e \<Rightarrow> 'a list \<Rightarrow> 'a \<Rightarrow> ('e, 'a list) res" where
  "vec_push N e v x = (if length v < N then Ok (v @ [x]) else Err e)"

definition vec_extend :: "nat \<Rightarrow> 'e \<Rightarrow> 'a list \<Rightarrow> 'a list \<Rightarrow> ('e, 'a list) res" where
  "vec_extend N e v xs = (if length v + length xs \<le> N then Ok (v @ xs) else Err e)"

lemma vec_push_eq [vec_simps]:
  "vec_push N e v x = Ok w \<longleftrightarrow> length v < N \<and> w = v @ [x]"
  "vec_push N e v x = Err e' \<longleftrightarrow> N \<le> length v \<and> e' = e"
  "vec_push N e v x \<noteq> Panic"
  by (auto simp: vec_push_def)

lemma vec_extend_eq [vec_simps]:
  "vec_extend N e v xs = Ok w \<longleftrightarrow> length v + length xs \<le> N \<and> w = v @ xs"
  "vec_extend N e v xs = Err e' \<longleftrightarrow> N < length v + length xs \<and> e' = e"
  "vec_extend N e v xs \<noteq> Panic"
  by (auto simp: vec_extend_def)

lemma vec_push_Ok: "length v < N \<Longrightarrow> vec_push N e v x = Ok (v @ [x])"
  by (simp add: vec_push_def)

lemma vec_extend_Ok: "length v + length xs \<le> N \<Longrightarrow> vec_extend N e v xs = Ok (v @ xs)"
  by (simp add: vec_extend_def)

subsection \<open>Big-endian numbers\<close>

text \<open>The value of a big-endian byte string, its fixed-width encoding, and the shortest
  encoding of a number.\<close>

definition be_val :: "bytes \<Rightarrow> nat" where
  "be_val bs = foldl (\<lambda>a b. a * 256 + unat b) 0 bs"

primrec be_fixed :: "nat \<Rightarrow> nat \<Rightarrow> bytes" where
  "be_fixed 0 n = []"
| "be_fixed (Suc k) n = be_fixed k (n div 256) @ [as_u8 n]"

fun be_bytes :: "nat \<Rightarrow> bytes" where
  "be_bytes n = (if n < 256 then [as_u8 n] else be_bytes (n div 256) @ [as_u8 n])"

declare be_bytes.simps [simp del]

definition canonical_be :: "bytes \<Rightarrow> bool" where
  "canonical_be bs \<longleftrightarrow> bs \<noteq> [] \<and> (1 < length bs \<longrightarrow> bs ! 0 \<noteq> 0)"

lemma be_val_Nil [simp]: "be_val [] = 0"
  by (simp add: be_val_def)

lemma be_val_snoc [simp]: "be_val (bs @ [b]) = be_val bs * 256 + unat b"
  by (simp add: be_val_def)

lemma be_val_bound: "be_val bs < 256 ^ length bs"
proof (induction bs rule: rev_induct)
  case (snoc b bs)
  have "be_val bs * 256 + unat b < (be_val bs + 1) * 256"
    using unat_u8_bound [of b] by (simp add: algebra_simps)
  also have "\<dots> \<le> 256 ^ length bs * 256"
    using snoc by simp
  finally show ?case by simp
qed simp

lemma length_be_fixed [simp]: "length (be_fixed k n) = k"
  by (induction k arbitrary: n) auto

lemma be_bytes_not_Nil [simp]: "be_bytes n \<noteq> []"
  by (subst be_bytes.simps) simp

lemma unat_as_u8: "unat (as_u8 n) = n mod 256"
  by (simp add: unat_of_nat)

lemma be_val_be_bytes [simp]: "be_val (be_bytes n) = n"
proof (induction n rule: be_bytes.induct)
  case (1 n)
  show ?case
  proof (cases "n < 256")
    case True
    then have "be_bytes n = [] @ [as_u8 n]"
      by (subst be_bytes.simps) simp
    with True show ?thesis by (simp only: be_val_snoc) simp
  next
    case False
    then have "be_bytes n = be_bytes (n div 256) @ [as_u8 n]"
      by (subst be_bytes.simps) simp
    with 1 False show ?thesis by (simp add: unat_as_u8)
  qed
qed

lemma length_be_bytes_le: "n < 256 ^ k \<Longrightarrow> 0 < k \<Longrightarrow> length (be_bytes n) \<le> k"
proof (induction n arbitrary: k rule: be_bytes.induct)
  case (1 n)
  show ?case
  proof (cases "n < 256")
    case True
    with "1.prems" show ?thesis by (subst be_bytes.simps) simp
  next
    case False
    with "1.prems" obtain j where k: "k = Suc j" and j: "0 < j"
      by (cases k; cases "k - 1") auto
    have "n div 256 < 256 ^ j"
      using "1.prems"(1) k by (simp add: less_mult_imp_div_less mult.commute)
    with "1.IH" False j have "length (be_bytes (n div 256)) \<le> j" by blast
    with False k show ?thesis by (subst be_bytes.simps) simp
  qed
qed

lemma be_bytes_hd: "0 < n \<Longrightarrow> be_bytes n ! 0 \<noteq> 0"
proof (induction n rule: be_bytes.induct)
  case (1 n)
  show ?case
  proof (cases "n < 256")
    case True
    with "1.prems" have "unat (as_u8 n) \<noteq> 0" by simp
    then have "as_u8 n \<noteq> 0" by (metis unat_0)
    with True show ?thesis by (subst be_bytes.simps) simp
  next
    case False
    with "1.IH" have "be_bytes (n div 256) ! 0 \<noteq> 0" by simp
    with False show ?thesis by (subst be_bytes.simps) (simp add: nth_append)
  qed
qed

lemma canonical_be_bytes [simp]: "canonical_be (be_bytes n)"
proof (cases "n = 0")
  case True
  then show ?thesis by (simp add: canonical_be_def be_bytes.simps [of 0])
next
  case False
  then show ?thesis using be_bytes_hd [of n] by (simp add: canonical_be_def)
qed

lemma be_fixed_be_bytes: "be_fixed (length (be_bytes n)) n = be_bytes n"
proof (induction n rule: be_bytes.induct)
  case (1 n)
  then show ?case
    by (cases "n < 256") (simp_all add: be_bytes.simps [of n])
qed

lemma be_fixed_be_val: "be_fixed (length bs) (be_val bs) = bs"
proof (induction bs rule: rev_induct)
  case (snoc b bs)
  have "(be_val bs * 256 + unat b) div 256 = be_val bs"
    by simp
  moreover have "as_u8 (be_val bs * 256 + unat b) = b"
    by (rule word_unat_eq_iff [THEN iffD2]) (simp only: unat_as_u8, simp)
  ultimately show ?case using snoc by simp
qed simp

lemma be_val_inject: "length bs = length cs \<Longrightarrow> be_val bs = be_val cs \<Longrightarrow> bs = cs"
  by (metis be_fixed_be_val)

lemma canonical_be_snoc:
  "canonical_be (bs @ [b]) \<Longrightarrow> bs \<noteq> [] \<Longrightarrow> canonical_be bs \<and> 0 < be_val bs"
proof (induction bs arbitrary: b rule: rev_induct)
  case (snoc c cs)
  show ?case
  proof (cases "cs = []")
    case True
    with snoc.prems have "c \<noteq> 0" by (simp add: canonical_be_def)
    then have "unat c \<noteq> 0" by (metis unat_eq_zero)
    with True show ?thesis using be_val_snoc [of "[]" c] by (simp add: canonical_be_def)
  next
    case False
    with snoc.prems have "canonical_be (cs @ [c])"
      by (auto simp: canonical_be_def nth_append split: if_splits)
    with snoc.IH False have "0 < be_val cs" by blast
    with \<open>canonical_be (cs @ [c])\<close> show ?thesis by simp
  qed
qed simp

lemma be_bytes_be_val: "canonical_be bs \<Longrightarrow> be_bytes (be_val bs) = bs"
proof (induction bs rule: rev_induct)
  case Nil
  then show ?case by (simp add: canonical_be_def)
next
  case (snoc b bs)
  have low: "as_u8 (be_val bs * 256 + unat b) = b"
    by (rule word_unat_eq_iff [THEN iffD2]) (simp only: unat_as_u8, simp)
  show ?case
  proof (cases "bs = []")
    case True
    then show ?thesis using be_val_snoc [of "[]" b] by (simp add: be_bytes.simps [of "unat b"])
  next
    case False
    with canonical_be_snoc [OF snoc.prems] snoc.IH
    have "be_bytes (be_val bs) = bs" and "0 < be_val bs" by auto
    with low show ?thesis by (simp add: be_bytes.simps [of "be_val bs * 256 + unat b"])
  qed
qed

lemma be_val_append: "be_val (xs @ ys) = be_val xs * 256 ^ length ys + be_val ys"
proof (induction ys rule: rev_induct)
  case (snoc y ys)
  have "be_val (xs @ ys @ [y]) = be_val (xs @ ys) * 256 + unat y"
    using be_val_snoc [of "xs @ ys" y] by simp
  with snoc show ?case by (simp add: algebra_simps)
qed simp

lemma be_val_zeros [simp]: "be_val (replicate n 0) = 0"
proof (induction n)
  case (Suc n)
  have "be_val (0 # replicate n 0) = be_val (replicate n 0 @ [0])"
    by (simp add: replicate_append_same)
  with Suc show ?case by (simp only: be_val_snoc) simp
qed simp

lemma canonical_pad_inject:
  assumes "canonical_be p" and "canonical_be q"
    and "replicate m 0 @ p = replicate n 0 @ q"
  shows "p = q"
proof -
  have "be_val p = be_val q"
    using arg_cong [OF assms(3), of be_val] by (simp add: be_val_append)
  with assms show ?thesis by (metis be_bytes_be_val)
qed

lemma as_u8_inject: "m < 256 \<Longrightarrow> n < 256 \<Longrightarrow> as_u8 m = as_u8 n \<longleftrightarrow> m = n"
  by (metis unat_of_nat_u8)

lemma map2_xor_inject:
  "length xs = length ks \<Longrightarrow> length ys = length ks \<Longrightarrow>
   map2 (\<lambda>n (b :: u8). n XOR b) xs ks = map2 (\<lambda>n b. n XOR b) ys ks \<Longrightarrow> xs = ys"
proof (induction ks arbitrary: xs ys)
  case (Cons k ks)
  from Cons.prems(1,2) obtain x xs' y ys' where xs: "xs = x # xs'" and ys: "ys = y # ys'"
    by (metis length_Suc_conv list.size(4) add_Suc_right add_0_right)
  from Cons.prems(3) have eq: "x XOR k = y XOR k"
    and rest: "map2 (\<lambda>n b. n XOR b) xs' ks = map2 (\<lambda>n b. n XOR b) ys' ks"
    unfolding xs ys by (simp_all only: zip_Cons_Cons list.map prod.case list.inject)
  from arg_cong [OF eq, of "\<lambda>z. z XOR k"] have "x = y"
    by (simp only: xor.assoc xor_self_eq xor.right_neutral)
  with Cons.IH [OF _ _ rest] Cons.prems(1,2) xs ys show ?case by simp
qed simp

end
