(* ===== verification/Seqnum.thy ===== *)
theory Seqnum
  imports Prelude
begin

text \<open>
  \<^verbatim>\<open>src/seqnum.rs\<close>: the 40-bit sender sequence number and its variable-length encoding as a
  Partial IV. The lemmas show that every constructor keeps the 40-bit bound, that encoding never
  panics and yields the shortest big-endian form, and that decoding accepts exactly that form.
\<close>

subsection \<open>The model\<close>

datatype oscore_seq_num = OscoreSeqNum (get: u64)

definition SEQ_MAX :: u64 where "SEQ_MAX = push_bit 40 1 - 1"

definition EXHAUSTION_THRESHOLD :: u64 where "EXHAUSTION_THRESHOLD = SEQ_MAX - 1000"

definition seq_new :: "u64 \<Rightarrow> oscore_seq_num option" where
  "seq_new value = (if value \<le> SEQ_MAX then Some (OscoreSeqNum value) else None)"

definition seq_default :: oscore_seq_num where "seq_default = OscoreSeqNum 0"

definition seq_increment :: "oscore_seq_num \<Rightarrow> oscore_seq_num option" where
  "seq_increment self =
     (case checked_add_u64 (get self) 1 of
        Some v \<Rightarrow> if v \<le> SEQ_MAX then Some (OscoreSeqNum v) else None
      | None \<Rightarrow> None)"

text \<open>\<open>fetch_increment\<close> updates \<open>self\<close> in place: the new value comes first.\<close>

definition fetch_increment :: "oscore_seq_num \<Rightarrow> oscore_seq_num \<times> oscore_seq_num option" where
  "fetch_increment self =
     (let old = self in
      case seq_increment self of
        None \<Rightarrow> (self, None)
      | Some next \<Rightarrow> (next, Some old))"

definition is_near_exhaustion :: "oscore_seq_num \<Rightarrow> bool" where
  "is_near_exhaustion self \<longleftrightarrow> EXHAUSTION_THRESHOLD \<le> get self"

text \<open>The two loops of \<open>encode_piv\<close>: counting the bytes, then writing them from the last.\<close>

function piv_len_loop :: "nat \<Rightarrow> u64 \<Rightarrow> nat" where
  "piv_len_loop len tmp = (if 0 < tmp then piv_len_loop (len + 1) (drop_bit 8 tmp) else len)"
  by pat_completeness auto
termination
proof (relation "measure (\<lambda>(len, tmp). unat tmp)")
  fix len :: nat and tmp :: u64
  assume "0 < tmp"
  then have "0 < unat tmp" by (simp add: unat_gt_0)
  then have "unat tmp div 256 < unat tmp" by simp
  moreover have "unat (drop_bit 8 tmp) = unat tmp div 256"
    by (simp only: unat_drop_bit_eq) (simp add: drop_bit_eq_div)
  ultimately show "((len + 1, drop_bit 8 tmp), len, tmp) \<in> measure (\<lambda>(len, tmp). unat tmp)"
    by simp
qed simp

declare piv_len_loop.simps [simp del]

function piv_write_loop :: "nat \<Rightarrow> nat \<Rightarrow> u64 \<Rightarrow> bytes \<Rightarrow> ('e, bytes) res" where
  "piv_write_loop len i s piv =
     (if i < len then
        and_then (store_at piv (len - 1 - i) (ucast (s AND 0xFF)))
          (\<lambda>piv. piv_write_loop len (i + 1) (drop_bit 8 s) piv)
      else Ok piv)"
  by pat_completeness auto
termination
  by (relation "measure (\<lambda>(len, i, s, piv). len - i)") auto

declare piv_write_loop.simps [simp del]

definition encode_piv :: "oscore_seq_num \<Rightarrow> bytes \<Rightarrow> ('e, bytes \<times> nat) res" where
  "encode_piv self piv =
     (let seq = get self in
      if seq = 0 then and_then (store_at piv 0 0) (\<lambda>piv. Ok (piv, 1))
      else
        let len = piv_len_loop 0 seq in
        and_then (piv_write_loop len 0 seq piv) (\<lambda>piv. Ok (piv, len)))"

definition from_piv :: "bytes \<Rightarrow> oscore_seq_num option" where
  "from_piv piv =
     (if piv = [] \<or> 5 < length piv \<or> (1 < length piv \<and> piv ! 0 = 0) then None
      else seq_new (foldl (\<lambda>acc byte. push_bit 8 acc OR ucast byte) 0 piv))"

text \<open>The conversion traits.\<close>

definition seq_from_u32 :: "u32 \<Rightarrow> oscore_seq_num" where
  "seq_from_u32 value = OscoreSeqNum (ucast value)"

definition seq_try_from_u64 :: "u64 \<Rightarrow> (unit, oscore_seq_num) res" where
  "seq_try_from_u64 value = ok_or () (seq_new value)"

definition u64_from_seq :: "oscore_seq_num \<Rightarrow> u64" where
  "u64_from_seq value = get value"

subsection \<open>The 40-bit invariant\<close>

text \<open>The field of \<open>OscoreSeqNum\<close> is private, so every value outside the module comes from
  one of the constructors below; each of them keeps the bound.\<close>

definition seq_wf :: "oscore_seq_num \<Rightarrow> bool" where
  "seq_wf s \<longleftrightarrow> unat (get s) < 2 ^ 40"

lemma unat_SEQ_MAX [simp]: "unat SEQ_MAX = 2 ^ 40 - 1"
  by (simp add: SEQ_MAX_def)

lemma le_SEQ_MAX_iff: "v \<le> SEQ_MAX \<longleftrightarrow> unat v < 2 ^ 40"
  by (simp add: word_le_nat_alt) linarith

lemma seq_wf_iff: "seq_wf s \<longleftrightarrow> get s \<le> SEQ_MAX"
  by (simp add: seq_wf_def le_SEQ_MAX_iff)

lemma seq_new_eq_Some: "seq_new v = Some s \<longleftrightarrow> s = OscoreSeqNum v \<and> unat v < 2 ^ 40"
  by (auto simp: seq_new_def le_SEQ_MAX_iff)

lemma seq_new_get [simp]: "seq_wf s \<Longrightarrow> seq_new (get s) = Some s"
  by (cases s) (simp add: seq_new_def seq_wf_iff)

lemma seq_new_wf: "seq_new v = Some s \<Longrightarrow> seq_wf s \<and> get s = v"
  by (auto simp: seq_new_eq_Some seq_wf_def)

lemma seq_default_wf [simp]: "seq_wf seq_default"
  by (simp add: seq_default_def seq_wf_def)

lemma seq_from_u32_wf: "seq_wf (seq_from_u32 v)"
proof -
  have "unat v < 2 ^ 32" using unsigned_less [of v] by simp
  then show ?thesis
    by (simp add: seq_wf_def seq_from_u32_def unsigned_ucast_eq take_bit_nat_eq_self)
qed

lemma seq_try_from_u64_wf: "seq_try_from_u64 v = Ok s \<Longrightarrow> seq_wf s \<and> u64_from_seq s = v"
  by (auto simp: seq_try_from_u64_def u64_from_seq_def res_simps dest: seq_new_wf)

lemma seq_increment_eq:
  assumes "seq_wf s"
  shows "seq_increment s =
    (if unat (get s) < 2 ^ 40 - 1 then Some (OscoreSeqNum (get s + 1)) else None)"
proof -
  from assms have lt: "unat (get s) < 2 ^ 40" by (simp add: seq_wf_def)
  then have sum: "unat (get s + 1) = unat (get s) + 1"
    by (simp add: unat_word_ariths)
  with lt show ?thesis
    by (auto simp: seq_increment_def checked_add_u64_def le_SEQ_MAX_iff)
qed

lemma seq_increment_Some:
  assumes "seq_wf s" and "seq_increment s = Some t"
  shows "seq_wf t \<and> unat (get t) = unat (get s) + 1"
proof -
  from assms have lt: "unat (get s) < 2 ^ 40 - 1" and t: "t = OscoreSeqNum (get s + 1)"
    by (auto simp: seq_increment_eq split: if_splits)
  then have "unat (get s + 1) = unat (get s) + 1"
    by (simp add: unat_word_ariths)
  with lt t show ?thesis by (simp add: seq_wf_def)
qed

lemma fetch_increment_wf:
  "seq_wf s \<Longrightarrow> fetch_increment s = (s', r) \<Longrightarrow> seq_wf s'"
  by (auto simp: fetch_increment_def Let_def split: option.splits dest: seq_increment_Some)

subsection \<open>Encoding\<close>

text \<open>The encoding that the code promises: the fewest bytes of the big-endian form.\<close>

definition piv_bytes :: "oscore_seq_num \<Rightarrow> bytes" where
  "piv_bytes s = be_bytes (unat (get s))"

lemma unat_drop_bit_8: "unat (drop_bit 8 (w :: u64)) = unat w div 256"
  by (simp only: unat_drop_bit_eq) (simp add: drop_bit_eq_div)

lemma low_byte: "(ucast ((w :: u64) AND 0xFF) :: u8) = as_u8 (unat w)"
proof -
  have "(ucast (w AND mask 8) :: u8) = ucast w"
    by (auto intro!: bit_word_eqI simp: bit_simps)
  moreover have "(mask 8 :: u64) = 0xFF" by (simp add: mask_eq_exp_minus_1)
  ultimately show ?thesis by simp
qed

lemma piv_len_loop_eq: "0 < w \<Longrightarrow> piv_len_loop len w = len + length (be_bytes (unat w))"
proof (induction len w rule: piv_len_loop.induct)
  case (1 len w)
  then have pos: "0 < w" by simp
  show ?case
  proof (cases "unat w < 256")
    case True
    then have "drop_bit 8 w = 0"
      by (simp add: word_unat_eq_iff unat_drop_bit_8)
    with pos True show ?thesis
      by (simp add: piv_len_loop.simps [of len w] piv_len_loop.simps [of _ 0] be_bytes.simps)
  next
    case False
    then have "0 < unat (drop_bit 8 w)" by (simp add: unat_drop_bit_8 div_greater_zero_iff)
    then have "0 < drop_bit 8 w" by (simp only: unat_gt_0 word_gt_0)
    with "1.IH" pos False show ?thesis
      by (simp add: piv_len_loop.simps [of len w] be_bytes.simps [of "unat w"] unat_drop_bit_8)
  qed
qed

lemma piv_write_loop_eq:
  "i \<le> len \<Longrightarrow> len - i \<le> length piv \<Longrightarrow>
   piv_write_loop len i s piv = Ok (be_fixed (len - i) (unat s) @ drop (len - i) piv)"
proof (induction "len - i" arbitrary: i s piv)
  case 0
  then show ?case by (simp add: piv_write_loop.simps)
next
  case (Suc k)
  let ?b = "as_u8 (unat s)"
  from Suc.hyps(2) Suc.prems have i: "i < len" and k: "k = len - (i + 1)" "k < length piv"
    and idx: "len - 1 - i = k" "len - i = Suc k" by auto
  have "drop k (piv[k := ?b]) = ?b # drop (Suc k) piv"
    using k(2) by (simp add: Cons_nth_drop_Suc [symmetric])
  moreover note Suc.hyps(1) [of "i + 1" "piv[k := ?b]" "drop_bit 8 s"]
  ultimately show ?case
    using i k idx
    by (subst piv_write_loop.simps) (simp add: store_at_def low_byte unat_drop_bit_8)
qed

lemma length_piv_bytes: "seq_wf s \<Longrightarrow> length (piv_bytes s) \<le> 5"
  using length_be_bytes_le [of "unat (get s)" 5] by (simp add: seq_wf_def piv_bytes_def)

lemma piv_bytes_not_Nil [simp]: "piv_bytes s \<noteq> []"
  by (simp add: piv_bytes_def)

lemma length_piv_bytes_pos [simp]: "0 < length (piv_bytes s)"
  by simp

lemma encode_piv_eq:
  assumes "seq_wf s" and "length piv = 5"
  shows "encode_piv s piv = Ok (piv_bytes s @ drop (length (piv_bytes s)) piv, length (piv_bytes s))"
proof (cases "get s = 0")
  case True
  with assms show ?thesis
    by (cases piv) (simp_all add: encode_piv_def piv_bytes_def be_bytes.simps [of 0] store_at_def)
next
  case False
  then have "piv_len_loop 0 (get s) = length (piv_bytes s)"
    by (simp add: piv_len_loop_eq piv_bytes_def word_gt_0)
  then show ?thesis
    using False assms length_piv_bytes [OF assms(1)]
    by (simp add: encode_piv_def Let_def piv_write_loop_eq) (simp add: piv_bytes_def be_fixed_be_bytes)
qed

subsection \<open>Decoding\<close>

lemma push_or_byte:
  assumes "unat acc < 2 ^ 56"
  shows "unat (push_bit 8 (acc :: u64) OR ucast (b :: u8)) = unat acc * 256 + unat b"
proof -
  have disj: "\<not> bit (push_bit 8 acc) n \<or> \<not> bit (ucast b :: u64) n" for n
    by (auto simp: bit_simps dest: bit_imp_le_length)
  then have "push_bit 8 acc OR ucast b = push_bit 8 acc + (ucast b :: u64)"
    by (intro disjunctive_add_eq_or [symmetric] bit_word_eqI) (auto simp: bit_simps)
  moreover have "unat (push_bit 8 acc) = unat acc * 256"
    using assms by (simp add: push_bit_eq_mult unat_word_ariths)
  moreover have "unat (ucast b :: u64) = unat b"
    by (simp add: unsigned_ucast_eq take_bit_nat_eq_self less_trans [OF unat_u8_bound])
  moreover have "unat acc < 72057594037927936" using assms by simp
  then have "unat acc * 256 + unat b < 18446744073709551616"
    using unat_u8_bound [of b] by linarith
  ultimately show ?thesis by (simp add: unat_word_ariths)
qed

lemma fold_piv:
  "length piv \<le> 7 \<Longrightarrow>
   unat (foldl (\<lambda>acc byte. push_bit 8 acc OR ucast byte) (0 :: u64) piv) = be_val piv"
proof (induction piv rule: rev_induct)
  case (snoc b bs)
  have "be_val bs < 256 ^ length bs" by (rule be_val_bound)
  also have "\<dots> \<le> 256 ^ 6" using snoc.prems by (intro power_increasing) auto
  finally have "be_val bs < 2 ^ 56" by simp
  with snoc show ?case by (simp add: push_or_byte)
qed simp

lemma from_piv_eq:
  "from_piv piv =
     (if canonical_be piv \<and> length piv \<le> 5
      then Some (OscoreSeqNum (of_nat (be_val piv))) else None)"
proof (cases "canonical_be piv \<and> length piv \<le> 5")
  case True
  let ?w = "foldl (\<lambda>acc byte. push_bit 8 acc OR ucast byte) (0 :: u64) piv"
  have w: "unat ?w = be_val piv" using True by (simp add: fold_piv)
  have "be_val piv < 256 ^ length piv" by (rule be_val_bound)
  also have "\<dots> \<le> 256 ^ 5" using True by (intro power_increasing) auto
  finally have "?w \<le> SEQ_MAX" by (simp add: le_SEQ_MAX_iff w)
  moreover have "?w = of_nat (be_val piv)" by (simp flip: w)
  ultimately show ?thesis
    using True by (auto simp: from_piv_def seq_new_def canonical_be_def)
next
  case False
  then show ?thesis by (auto simp: from_piv_def canonical_be_def)
qed

lemma unat_be_val_u64: "length piv \<le> 5 \<Longrightarrow> unat (of_nat (be_val piv) :: u64) = be_val piv"
proof -
  assume len: "length piv \<le> 5"
  have "be_val piv < 256 ^ length piv" by (rule be_val_bound)
  also have "\<dots> \<le> 256 ^ 5" using len by (intro power_increasing) auto
  finally show ?thesis by (simp add: unat_of_nat)
qed

lemma from_piv_Some:
  assumes "from_piv piv = Some s"
  shows "seq_wf s" and "piv_bytes s = piv" and "unat (get s) = be_val piv" and "length piv \<le> 5"
proof -
  from assms have c: "canonical_be piv" "length piv \<le> 5"
    and s: "s = OscoreSeqNum (of_nat (be_val piv))"
    by (auto simp: from_piv_eq split: if_splits)
  show len: "length piv \<le> 5" by (fact c)
  show val: "unat (get s) = be_val piv" using c s by (simp add: unat_be_val_u64)
  show "piv_bytes s = piv" using c val by (simp add: piv_bytes_def be_bytes_be_val)
  have "be_val piv < 256 ^ length piv" by (rule be_val_bound)
  also have "\<dots> \<le> 256 ^ 5" using len by (intro power_increasing) auto
  finally show "seq_wf s" using val by (simp add: seq_wf_def)
qed

lemma from_piv_piv_bytes [simp]:
  assumes "seq_wf s" shows "from_piv (piv_bytes s) = Some s"
proof -
  have "canonical_be (piv_bytes s)" "length (piv_bytes s) \<le> 5"
    using assms length_piv_bytes by (auto simp: piv_bytes_def)
  then show ?thesis
    by (cases s) (simp add: from_piv_eq piv_bytes_def)
qed

lemma from_piv_inject: "from_piv p = Some s \<Longrightarrow> from_piv q = Some s \<Longrightarrow> p = q"
  by (metis from_piv_Some(2))

lemma piv_bytes_inject: "seq_wf s \<Longrightarrow> seq_wf t \<Longrightarrow> piv_bytes s = piv_bytes t \<longleftrightarrow> s = t"
  by (metis from_piv_piv_bytes option.inject)

end
