(* ===== verification/OscoreTypes.thy ===== *)
theory OscoreTypes
  imports Seqnum
begin

text \<open>
  The constants, error types and small records of \<^verbatim>\<open>src/lib.rs\<close> and \<^verbatim>\<open>src/error.rs\<close>, and
  the bit-level facts about flag bytes and nibbles that the codecs share.
\<close>

subsection \<open>Constants\<close>

definition KEY_LEN :: nat where "KEY_LEN = 16"
definition NONCE_LEN :: nat where "NONCE_LEN = 13"
definition TAG_LEN :: nat where "TAG_LEN = 8"
definition ID_MAX_LEN :: nat where "ID_MAX_LEN = 8"
definition SALT_MAX_LEN :: nat where "SALT_MAX_LEN = 8"
definition PIV_MAX_LEN :: nat where "PIV_MAX_LEN = 5"
definition ID_CONTEXT_CAPACITY :: nat where "ID_CONTEXT_CAPACITY = 8"
definition NONCE_ID_END :: nat where "NONCE_ID_END = 8"
definition NONCE_PIV_START :: nat where "NONCE_PIV_START = 8"
definition NONCE_ID_LEN :: nat where "NONCE_ID_LEN = NONCE_ID_END - 1"
definition OSCORE_OPTION_MAX_LEN :: nat where
  "OSCORE_OPTION_MAX_LEN = 1 + PIV_MAX_LEN + 1 + ID_CONTEXT_CAPACITY + NONCE_ID_LEN"
definition ALG_AEAD :: u8 where "ALG_AEAD = 10"
definition WINDOW_SIZE :: u32 where "WINDOW_SIZE = 32"

lemmas size_consts [simp] =
  KEY_LEN_def NONCE_LEN_def TAG_LEN_def ID_MAX_LEN_def SALT_MAX_LEN_def PIV_MAX_LEN_def
  ID_CONTEXT_CAPACITY_def NONCE_ID_END_def NONCE_PIV_START_def NONCE_ID_LEN_def
  OSCORE_OPTION_MAX_LEN_def ALG_AEAD_def

text \<open>The compile-time assertions on the nonce layout.\<close>

lemma nonce_layout:
  "NONCE_ID_END = NONCE_PIV_START"
  "NONCE_PIV_START + PIV_MAX_LEN = NONCE_LEN"
  "1 + NONCE_ID_LEN + PIV_MAX_LEN = NONCE_LEN"
  by simp_all

subsection \<open>Errors and small records\<close>

record buffer_too_small =
  needed :: nat
  available :: nat

definition buffer_too_small_new :: "nat \<Rightarrow> nat \<Rightarrow> buffer_too_small" where
  "buffer_too_small_new n a = \<lparr>needed = n, available = a\<rparr>"

datatype oscore_error =
    InvalidParam
  | NoContext
  | Replay
  | EncryptFailed
  | DecryptFailed
  | BufferTooSmall buffer_too_small
  | KeyDerivation
  | SeqExhausted
  | EntropyFailure

text \<open>\<open>BufferTooSmall::new(n, a).into()\<close>.\<close>

abbreviation too_small :: "nat \<Rightarrow> nat \<Rightarrow> oscore_error" where
  "too_small n a \<equiv> BufferTooSmall (buffer_too_small_new n a)"

datatype 'x context_store_error = Oscore oscore_error | Storage 'x | Missing | Conflict

datatype 'x reservation_error =
  SequenceExhausted | ReservationConflict | ReservationStorage 'x

record sender_sequence_state =
  next_sequence :: u64
  exhausted :: bool

record recipient_replay_state =
  rs_recipient_seq :: u64
  rs_replay_window :: u32
  rs_response_seq :: u64
  rs_response_window :: u32
  rs_response_window_initialized :: bool
  rs_received_response_seq :: u64
  rs_received_response_window :: u32
  rs_received_response_window_initialized :: bool
  rs_received_response_piv_seq :: u64
  rs_received_response_piv_window :: u32
  rs_received_response_piv_window_initialized :: bool

datatype context_id = ContextId (context_id_bytes: bytes)

subsection \<open>Bits of a byte\<close>

lemma unat_and_mask_u8: "unat ((b :: u8) AND mask n) = unat b mod 2 ^ n"
  by (simp only: take_bit_eq_mask [symmetric] unsigned_take_bit_eq) (simp add: take_bit_eq_mod)

lemma byte_and_7: "unat ((b :: u8) AND 7) = unat b mod 8"
  using unat_and_mask_u8 [of b 3] by (simp add: mask_eq_exp_minus_1)

lemma byte_and_15: "unat ((b :: u8) AND 15) = unat b mod 16"
  using unat_and_mask_u8 [of b 4] by (simp add: mask_eq_exp_minus_1)

lemma byte_drop_4: "unat (drop_bit 4 (b :: u8)) = unat b div 16"
  by (simp only: unat_drop_bit_eq) (simp add: drop_bit_eq_div)

lemma byte_drop_5: "unat (drop_bit 5 (b :: u8)) = unat b div 32"
  by (simp only: unat_drop_bit_eq) (simp add: drop_bit_eq_div)

lemma bit_byte_iff: "bit (b :: u8) n \<longleftrightarrow> odd (unat b div 2 ^ n)"
proof -
  have "bit b n \<longleftrightarrow> bit (unat b) n"
    by (auto simp: bit_unsigned_iff dest: bit_imp_le_length)
  then show ?thesis by (simp add: bit_iff_odd)
qed

lemma byte_and_8: "(b :: u8) AND 8 \<noteq> 0 \<longleftrightarrow> odd (unat b div 8)"
  using bit_iff_and_push_bit_not_eq_0 [of b 3] bit_byte_iff [of b 3] by simp

lemma byte_and_16: "(b :: u8) AND 16 \<noteq> 0 \<longleftrightarrow> odd (unat b div 16)"
  using bit_iff_and_push_bit_not_eq_0 [of b 4] bit_byte_iff [of b 4] by simp

lemma byte_and_E0: "(b :: u8) AND 0xE0 = 0 \<longleftrightarrow> unat b < 32"
proof -
  have "b AND push_bit 5 (mask 3) = push_bit 5 (drop_bit 5 b)"
    by (rule bit_word_eqI) (auto simp: bit_simps)
  moreover have "push_bit 5 (mask 3) = (0xE0 :: u8)"
    by (simp add: mask_eq_exp_minus_1)
  ultimately have "b AND 0xE0 = 0 \<longleftrightarrow> push_bit 5 (drop_bit 5 b) = 0" by simp
  also have "\<dots> \<longleftrightarrow> drop_bit 5 b = 0"
  proof
    assume "push_bit 5 (drop_bit 5 b) = 0"
    then have "drop_bit 5 (push_bit 5 (drop_bit 5 b)) = 0" by simp
    moreover have "drop_bit 5 (push_bit 5 (drop_bit 5 b)) = drop_bit 5 b"
      by (rule bit_word_eqI) (auto simp: bit_simps dest: bit_imp_le_length)
    ultimately show "drop_bit 5 b = 0" by simp
  qed simp
  also have "\<dots> \<longleftrightarrow> unat b < 32"
    using byte_drop_5 [of b] by (simp add: word_unat_eq_iff div_eq_0_iff)
  finally show ?thesis .
qed

lemmas byte_bits = byte_and_7 byte_and_15 byte_drop_4 byte_and_8 byte_and_16 byte_and_E0

lemma byte_eq_iff: "(a :: u8) = b \<longleftrightarrow> unat a = unat b"
  by (rule word_unat_eq_iff)

definition u16_from_be :: "u8 \<Rightarrow> u8 \<Rightarrow> u16" where
  "u16_from_be hi lo = push_bit 8 (ucast hi) OR ucast lo"

lemma unat_u16_from_be: "unat (u16_from_be hi lo) = unat hi * 256 + unat lo"
proof -
  have "push_bit 8 (ucast hi) OR ucast lo = push_bit 8 (ucast hi) + (ucast lo :: u16)"
    by (intro disjunctive_add_eq_or [symmetric] bit_word_eqI)
      (auto simp: bit_simps dest: bit_imp_le_length)
  moreover have "unat (ucast b :: u16) = unat b" for b :: u8
    by (simp add: unsigned_ucast_eq take_bit_nat_eq_self less_trans [OF unat_u8_bound])
  moreover have "unat hi * 256 + unat lo < 65536"
    using unat_u8_bound [of hi] unat_u8_bound [of lo] by linarith
  ultimately show ?thesis
    by (simp add: u16_from_be_def push_bit_eq_mult unat_word_ariths)
qed

end
