(* ===== verification/OptionCodec.thy ===== *)
theory OptionCodec
  imports OscoreTypes
begin

text \<open>
  The OSCORE option of \<^verbatim>\<open>src/lib.rs\<close>: \<open>parse_option\<close> and the two public functions on top
  of it. The parser is shown to accept exactly the encodings of \<open>option_encoding\<close>, to return what
  was encoded, and never to panic.
\<close>

subsection \<open>The model\<close>

record oscore_option =
  opt_piv :: bytes
  opt_piv_len :: u8
  opt_kid_context :: bytes
  opt_kid_context_len :: u8
  opt_kid_context_present :: bool
  opt_kid :: bytes
  opt_kid_len :: u8
  opt_kid_present :: bool

definition empty_option :: oscore_option where
  "empty_option = \<lparr>
     opt_piv = replicate PIV_MAX_LEN 0, opt_piv_len = 0,
     opt_kid_context = replicate ID_CONTEXT_CAPACITY 0, opt_kid_context_len = 0,
     opt_kid_context_present = False,
     opt_kid = replicate ID_MAX_LEN 0, opt_kid_len = 0, opt_kid_present = False\<rparr>"

text \<open>The three sections of \<open>parse_option\<close>, each from the current position.\<close>

definition parse_option_piv ::
    "bytes \<Rightarrow> nat \<Rightarrow> nat \<Rightarrow> oscore_option \<Rightarrow> (oscore_error, oscore_option \<times> nat) res" where
  "parse_option_piv data n pos opt =
     (if 0 < n then
        if PIV_MAX_LEN < n \<or> length data < pos + n then Err InvalidParam
        else
          and_then (slice data pos (pos + n)) (\<lambda>src.
          and_then (copy_at (opt_piv opt) 0 src) (\<lambda>piv.
          and_then (slice piv 0 n) (\<lambda>p.
            if from_piv p = None then Err InvalidParam
            else Ok (opt\<lparr>opt_piv := piv, opt_piv_len := as_u8 n\<rparr>, pos + n))))
      else Ok (opt, pos))"

definition parse_option_kid_context ::
    "bytes \<Rightarrow> bool \<Rightarrow> nat \<Rightarrow> oscore_option \<Rightarrow> (oscore_error, oscore_option \<times> nat) res" where
  "parse_option_kid_context data h_flag pos opt =
     (if h_flag then
        if length data \<le> pos then Err InvalidParam
        else
          and_then (index data pos) (\<lambda>b.
          let s = as_usize b; pos = pos + 1 in
          if length (opt_kid_context opt) < s \<or> length data < pos + s then Err InvalidParam
          else
            and_then (slice data pos (pos + s)) (\<lambda>src.
            and_then (copy_at (opt_kid_context opt) 0 src) (\<lambda>kc.
              Ok (opt\<lparr>opt_kid_context := kc, opt_kid_context_len := as_u8 s,
                      opt_kid_context_present := True\<rparr>, pos + s))))
      else Ok (opt, pos))"

definition parse_option_kid ::
    "bytes \<Rightarrow> bool \<Rightarrow> nat \<Rightarrow> oscore_option \<Rightarrow> (oscore_error, oscore_option) res" where
  "parse_option_kid data k_flag pos opt =
     (if k_flag then
        let opt = opt\<lparr>opt_kid_present := True\<rparr>; remaining = length data - pos in
        if NONCE_ID_LEN < remaining then Err InvalidParam
        else
          and_then (slice_from data pos) (\<lambda>src.
          and_then (copy_at (opt_kid opt) 0 src) (\<lambda>kid.
            Ok (opt\<lparr>opt_kid := kid, opt_kid_len := as_u8 remaining\<rparr>)))
      else if pos \<noteq> length data then Err InvalidParam
      else Ok opt)"

definition parse_option :: "bytes \<Rightarrow> (oscore_error, oscore_option) res" where
  "parse_option data =
     (let opt = empty_option in
      if data = [] then Ok opt
      else if data = [0] then Err InvalidParam
      else
        and_then (index data 0) (\<lambda>flags.
        let pos = 1 in
        if flags AND 0xE0 \<noteq> 0 then Err InvalidParam
        else
          let h_flag = flags AND 0x10 \<noteq> 0; k_flag = flags AND 0x08 \<noteq> 0;
              n = as_usize (flags AND 0x07) in
          and_then (parse_option_piv data n pos opt) (\<lambda>(opt, pos).
          and_then (parse_option_kid_context data h_flag pos opt) (\<lambda>(opt, pos).
            parse_option_kid data k_flag pos opt))))"

definition validate_option :: "bytes \<Rightarrow> (oscore_error, unit) res" where
  "validate_option data = and_then (parse_option data) (\<lambda>_. Ok ())"

record request_identifiers_t =
  ri_kid :: bytes
  ri_kid_len :: u8
  ri_piv :: bytes
  ri_piv_len :: u8

text \<open>The public accessors \<open>RequestIdentifiers::kid\<close> and \<open>piv\<close>.\<close>

definition ri_kid_bytes :: "request_identifiers_t \<Rightarrow> bytes" where
  "ri_kid_bytes self = take (as_usize (ri_kid_len self)) (ri_kid self)"

definition ri_piv_bytes :: "request_identifiers_t \<Rightarrow> bytes" where
  "ri_piv_bytes self = take (as_usize (ri_piv_len self)) (ri_piv self)"

definition request_identifiers :: "bytes \<Rightarrow> (oscore_error, request_identifiers_t) res" where
  "request_identifiers data =
     and_then (parse_option data) (\<lambda>option.
       if \<not> opt_kid_present option \<or> opt_piv_len option = 0 then Err InvalidParam
       else Ok \<lparr>ri_kid = opt_kid option, ri_kid_len = opt_kid_len option,
                ri_piv = opt_piv option, ri_piv_len = opt_piv_len option\<rparr>)"

text \<open>The slices \<open>&opt.piv[..opt.piv_len as usize]\<close> etc. that the callers read.\<close>

definition piv_of :: "oscore_option \<Rightarrow> bytes" where
  "piv_of opt = take (as_usize (opt_piv_len opt)) (opt_piv opt)"

definition kid_of :: "oscore_option \<Rightarrow> bytes" where
  "kid_of opt = take (as_usize (opt_kid_len opt)) (opt_kid opt)"

definition kid_context_of :: "oscore_option \<Rightarrow> bytes" where
  "kid_context_of opt = take (as_usize (opt_kid_context_len opt)) (opt_kid_context opt)"

subsection \<open>The specification: what an option encodes\<close>

text \<open>An option value carries a Partial IV (empty when absent), a KID context and a KID.\<close>

definition option_flags :: "bytes \<Rightarrow> bytes option \<Rightarrow> bytes option \<Rightarrow> u8" where
  "option_flags piv ctx kid =
     as_u8 ((if ctx = None then 0 else 16) + (if kid = None then 0 else 8) + length piv)"

definition option_encoding :: "bytes \<Rightarrow> bytes option \<Rightarrow> bytes option \<Rightarrow> bytes" where
  "option_encoding piv ctx kid =
     (if piv = [] \<and> ctx = None \<and> kid = None then []
      else option_flags piv ctx kid # piv @
           (case ctx of None \<Rightarrow> [] | Some c \<Rightarrow> as_u8 (length c) # c) @
           (case kid of None \<Rightarrow> [] | Some k \<Rightarrow> k))"

definition option_parts_ok :: "bytes \<Rightarrow> bytes option \<Rightarrow> bytes option \<Rightarrow> bool" where
  "option_parts_ok piv ctx kid \<longleftrightarrow>
     (piv = [] \<or> canonical_be piv \<and> length piv \<le> 5) \<and>
     (case ctx of None \<Rightarrow> True | Some c \<Rightarrow> length c \<le> 8) \<and>
     (case kid of None \<Rightarrow> True | Some k \<Rightarrow> length k \<le> 7)"

definition pad :: "nat \<Rightarrow> bytes \<Rightarrow> bytes" where
  "pad n bs = bs @ replicate (n - length bs) 0"

definition option_value :: "bytes \<Rightarrow> bytes option \<Rightarrow> bytes option \<Rightarrow> oscore_option" where
  "option_value piv ctx kid = \<lparr>
     opt_piv = pad 5 piv, opt_piv_len = as_u8 (length piv),
     opt_kid_context = pad 8 (case ctx of None \<Rightarrow> [] | Some c \<Rightarrow> c),
     opt_kid_context_len = as_u8 (case ctx of None \<Rightarrow> 0 | Some c \<Rightarrow> length c),
     opt_kid_context_present = (ctx \<noteq> None),
     opt_kid = pad 8 (case kid of None \<Rightarrow> [] | Some k \<Rightarrow> k),
     opt_kid_len = as_u8 (case kid of None \<Rightarrow> 0 | Some k \<Rightarrow> length k),
     opt_kid_present = (kid \<noteq> None)\<rparr>"

lemma take_pad [simp]: "take (length bs) (pad n bs) = bs"
  by (simp add: pad_def)

lemma length_pad [simp]: "length bs \<le> n \<Longrightarrow> length (pad n bs) = n"
  by (simp add: pad_def)

lemma pad_Nil [simp]: "pad n [] = replicate n 0"
  by (simp add: pad_def)

lemma option_value_parts:
  assumes "option_parts_ok piv ctx kid"
  shows "piv_of (option_value piv ctx kid) = piv"
    and "kid_of (option_value piv ctx kid) = (case kid of None \<Rightarrow> [] | Some k \<Rightarrow> k)"
    and "kid_context_of (option_value piv ctx kid) = (case ctx of None \<Rightarrow> [] | Some c \<Rightarrow> c)"
    and "opt_piv_len (option_value piv ctx kid) = 0 \<longleftrightarrow> piv = []"
    and "opt_kid_present (option_value piv ctx kid) \<longleftrightarrow> kid \<noteq> None"
    and "opt_kid_context_present (option_value piv ctx kid) \<longleftrightarrow> ctx \<noteq> None"
proof -
  have "length piv \<le> 5" using assms by (auto simp: option_parts_ok_def)
  then show "piv_of (option_value piv ctx kid) = piv"
    and "opt_piv_len (option_value piv ctx kid) = 0 \<longleftrightarrow> piv = []"
    by (auto simp: piv_of_def option_value_def byte_eq_iff)
qed (use assms in \<open>auto simp: option_parts_ok_def kid_of_def kid_context_of_def option_value_def
       split: option.splits\<close>)

subsection \<open>The sections against the specification\<close>

lemma from_piv_None_iff: "length p \<le> 5 \<Longrightarrow> from_piv p = None \<longleftrightarrow> \<not> canonical_be p"
  by (simp add: from_piv_eq)

lemma parse_option_piv_eq:
  assumes "opt_piv opt = replicate 5 0" and "opt_piv_len opt = 0" and "pos \<le> length data"
  shows "parse_option_piv data n pos opt =
    (if n = 0 then Ok (opt, pos)
     else if 5 < n \<or> length data < pos + n then Err InvalidParam
     else let p = take n (drop pos data) in
       if canonical_be p then Ok (opt\<lparr>opt_piv := pad 5 p, opt_piv_len := as_u8 n\<rparr>, pos + n)
       else Err InvalidParam)"
  using assms
  by (auto simp: parse_option_piv_def slice_def pad_def from_piv_None_iff min_def)

lemma parse_option_kid_context_eq:
  assumes "opt_kid_context opt = replicate 8 0"
  shows "parse_option_kid_context data h pos opt =
    (if \<not> h then Ok (opt, pos)
     else if length data \<le> pos then Err InvalidParam
     else let s = unat (data ! pos) in
       if 8 < s \<or> length data < pos + 1 + s then Err InvalidParam
       else Ok (opt\<lparr>opt_kid_context := pad 8 (take s (drop (pos + 1) data)),
                    opt_kid_context_len := data ! pos, opt_kid_context_present := True\<rparr>,
                pos + 1 + s))"
  using assms
  by (auto simp: parse_option_kid_context_def slice_def index_def pad_def Let_def min_def)

lemma parse_option_kid_eq:
  assumes "opt_kid opt = replicate 8 0" and "pos \<le> length data"
  shows "parse_option_kid data k pos opt =
    (if \<not> k then (if pos = length data then Ok opt else Err InvalidParam)
     else if 7 < length data - pos then Err InvalidParam
     else Ok (opt\<lparr>opt_kid_present := True, opt_kid := pad 8 (drop pos data),
                  opt_kid_len := as_u8 (length data - pos)\<rparr>))"
  using assms
  by (auto simp: parse_option_kid_def slice_from_def pad_def Let_def min_def)

subsection \<open>Acceptance, round trip, absence of panics\<close>

lemma empty_option_fields [simp]:
  "opt_piv empty_option = replicate 5 0" "opt_piv_len empty_option = 0"
  "opt_kid_context empty_option = replicate 8 0" "opt_kid_context_len empty_option = 0"
  "\<not> opt_kid_context_present empty_option"
  "opt_kid empty_option = replicate 8 0" "opt_kid_len empty_option = 0"
  "\<not> opt_kid_present empty_option"
  by (simp_all add: empty_option_def)

lemma empty_option_value: "empty_option = option_value [] None None"
  by (simp add: empty_option_def option_value_def)

lemma option_flags_unat:
  assumes "option_parts_ok piv ctx kid"
  shows "unat (option_flags piv ctx kid) =
    (if ctx = None then 0 else 16) + (if kid = None then 0 else 8) + length piv"
  using assms
  by (simp only: option_flags_def unat_as_u8) (auto simp: option_parts_ok_def)

lemma flags_decode:
  assumes "unat (f :: u8) = (if h then 16 else 0) + (if k then 8 else 0) + n" and "n < 8"
  shows "f AND 0xE0 = 0" "f AND 0x10 \<noteq> 0 \<longleftrightarrow> h" "f AND 0x08 \<noteq> 0 \<longleftrightarrow> k" "unat (f AND 7) = n"
proof -
  show "f AND 0xE0 = 0" using assms by (simp only: byte_and_E0) simp
  have "odd (((if h then 16 else 0) + (if k then 8 else 0) + n) div 16) \<longleftrightarrow> h"
    using assms(2) by (cases h; cases k) (simp; presburger)+
  then show "f AND 0x10 \<noteq> 0 \<longleftrightarrow> h" by (simp only: byte_and_16 assms(1))
  have "odd (((if h then 16 else 0) + (if k then 8 else 0) + n) div 8) \<longleftrightarrow> k"
    using assms(2) by (cases h; cases k) (simp; presburger)+
  then show "f AND 0x08 \<noteq> 0 \<longleftrightarrow> k" by (simp only: byte_and_8 assms(1))
  have "((if h then 16 else 0) + (if k then 8 else 0) + n) mod 8 = n"
    using assms(2) by (cases h; cases k) (simp; presburger)+
  then show "unat (f AND 7) = n" by (simp only: byte_and_7 assms(1))
qed

lemma parse_option_encoding:
  assumes ok: "option_parts_ok piv ctx kid"
  shows "parse_option (option_encoding piv ctx kid) = Ok (option_value piv ctx kid)"
proof (cases "piv = [] \<and> ctx = None \<and> kid = None")
  case True
  then show ?thesis
    by (simp add: parse_option_def option_encoding_def empty_option_value)
next
  case False
  let ?f = "option_flags piv ctx kid"
  have len: "length piv < 8" and len5: "length piv \<le> 5"
    using ok by (auto simp: option_parts_ok_def)
  have f: "unat ?f = (if ctx \<noteq> None then 16 else 0) + (if kid \<noteq> None then 8 else 0) + length piv"
    using option_flags_unat [OF ok] by simp
  note dec = flags_decode [OF f len]
  have "?f \<noteq> 0" using f False by (auto simp: byte_eq_iff)
  with dec ok len5 show ?thesis
    unfolding parse_option_def option_encoding_def
    by (cases ctx; cases kid)
      (auto simp: parse_option_piv_eq parse_option_kid_context_eq parse_option_kid_eq Let_def
        index_def option_value_def option_parts_ok_def empty_option_def)
qed

lemma nat_bits_split:
  "(m :: nat) < 32 \<Longrightarrow>
   m = (if odd (m div 16) then 16 else 0) + (if odd (m div 8) then 8 else 0) + m mod 8"
proof -
  assume "m < 32"
  then have "m div 8 < 4" by simp
  then consider "m div 8 = 0" | "m div 8 = 1" | "m div 8 = 2" | "m div 8 = 3" by linarith
  moreover have "m div 16 = m div 8 div 2" by (simp add: div_mult2_eq [symmetric])
  moreover have "m = m div 8 * 8 + m mod 8" by simp
  ultimately show ?thesis by cases (simp_all (no_asm_simp))
qed

lemma flags_split:
  assumes "(f :: u8) AND 0xE0 = 0"
  shows "unat f = (if f AND 0x10 \<noteq> 0 then 16 else 0) + (if f AND 0x08 \<noteq> 0 then 8 else 0)
    + unat (f AND 7)" (is "_ = ?r")
proof -
  have "unat f < 32" using assms by (simp only: byte_and_E0)
  from nat_bits_split [OF this] show ?thesis
    by (simp only: byte_and_7 byte_and_8 byte_and_16)
qed

lemma parse_option_Cons:
  assumes "f # rest \<noteq> [0]" and "f AND 0xE0 = 0"
  shows "parse_option (f # rest) =
    and_then (parse_option_piv (f # rest) (unat (f AND 7)) 1 empty_option) (\<lambda>(opt, pos).
    and_then (parse_option_kid_context (f # rest) (f AND 0x10 \<noteq> 0) pos opt) (\<lambda>(opt, pos).
      parse_option_kid (f # rest) (f AND 0x08 \<noteq> 0) pos opt))"
  using assms by (auto simp: parse_option_def Let_def index_def)

text \<open>What each section leaves behind when it succeeds.\<close>

lemma piv_section:
  assumes "parse_option_piv (f # rest) n 1 empty_option = Ok (opt, pos)" and "n < 8"
  obtains piv r where "rest = piv @ r" "length piv = n" "pos = 1 + n"
    "piv = [] \<or> canonical_be piv \<and> length piv \<le> 5"
    "opt = empty_option\<lparr>opt_piv := pad 5 piv, opt_piv_len := as_u8 n\<rparr>"
proof (cases "n = 0")
  case True
  with assms show ?thesis
    by (intro that [of "[]" rest]) (auto simp: parse_option_piv_eq empty_option_def)
next
  case False
  with assms show ?thesis
    by (intro that [of "take n rest" "drop n rest"])
      (auto simp: parse_option_piv_eq Let_def split: if_splits)
qed

lemma kid_context_section:
  assumes "parse_option_kid_context (xs @ r) h (length xs) opt = Ok (opt', pos)"
    and "opt_kid_context opt = replicate 8 0" and "opt_kid_context_len opt = 0"
    and "\<not> opt_kid_context_present opt"
  obtains ctx r' where
    "r = (case ctx of None \<Rightarrow> [] | Some c \<Rightarrow> as_u8 (length c) # c) @ r'"
    "pos + length r' = length xs + length r" "h \<longleftrightarrow> ctx \<noteq> None"
    "case ctx of None \<Rightarrow> True | Some c \<Rightarrow> length c \<le> 8"
    "opt' = opt\<lparr>opt_kid_context := pad 8 (case ctx of None \<Rightarrow> [] | Some c \<Rightarrow> c),
       opt_kid_context_len := as_u8 (case ctx of None \<Rightarrow> 0 | Some c \<Rightarrow> length c),
       opt_kid_context_present := (ctx \<noteq> None)\<rparr>"
proof (cases h)
  case False
  with assms show ?thesis
    by (intro that [of None r]) (auto simp: parse_option_kid_context_eq)
next
  case True
  with assms obtain b r1x where r: "r = b # r1x"
    by (cases r) (auto simp: parse_option_kid_context_eq)
  let ?s = "unat b"
  from assms True r have s: "?s \<le> 8" "?s \<le> length r1x" and pos: "pos = length xs + 1 + ?s"
    and opt': "opt' = opt\<lparr>opt_kid_context := pad 8 (take ?s r1x), opt_kid_context_len := b,
      opt_kid_context_present := True\<rparr>"
    by (auto simp: parse_option_kid_context_eq Let_def nth_append split: if_splits)
  from True r s pos opt' show ?thesis
    by (intro that [of "Some (take ?s r1x)" "drop ?s r1x"]) auto
qed

lemma kid_section:
  assumes "parse_option_kid (xs @ r) k (length xs) opt = Ok opt'"
    and "opt_kid opt = replicate 8 0" and "opt_kid_len opt = 0" and "\<not> opt_kid_present opt"
  obtains kid where "r = (case kid of None \<Rightarrow> [] | Some c \<Rightarrow> c)" "k \<longleftrightarrow> kid \<noteq> None"
    "case kid of None \<Rightarrow> True | Some c \<Rightarrow> length c \<le> 7"
    "opt' = opt\<lparr>opt_kid := pad 8 (case kid of None \<Rightarrow> [] | Some c \<Rightarrow> c),
       opt_kid_len := as_u8 (case kid of None \<Rightarrow> 0 | Some c \<Rightarrow> length c),
       opt_kid_present := (kid \<noteq> None)\<rparr>"
proof (cases k)
  case False
  with assms show ?thesis
    by (intro that [of None]) (auto simp: parse_option_kid_eq split: if_splits)
next
  case True
  with assms show ?thesis
    by (intro that [of "Some r"]) (auto simp: parse_option_kid_eq split: if_splits)
qed

lemma parse_option_sound:
  assumes "parse_option data = Ok opt"
  obtains piv ctx kid where "option_parts_ok piv ctx kid" "data = option_encoding piv ctx kid"
    "opt = option_value piv ctx kid"
proof (cases data)
  case Nil
  with assms show ?thesis
    by (intro that [of "[]" None None])
      (auto simp: parse_option_def option_encoding_def empty_option_value option_parts_ok_def)
next
  case (Cons f rest)
  let ?n = "unat (f AND 7)"
  from assms Cons have ne: "f # rest \<noteq> [0]" and E0: "f AND 0xE0 = 0"
    by (auto simp: parse_option_def Let_def index_def split: if_splits)
  have n: "?n < 8" by (simp add: byte_and_7)
  from assms Cons obtain opt1 p1 opt2 p2
    where s1: "parse_option_piv (f # rest) ?n 1 empty_option = Ok (opt1, p1)"
      and s2: "parse_option_kid_context (f # rest) (f AND 0x10 \<noteq> 0) p1 opt1 = Ok (opt2, p2)"
      and s3: "parse_option_kid (f # rest) (f AND 0x08 \<noteq> 0) p2 opt2 = Ok opt"
    by (auto simp: parse_option_Cons [OF ne E0] res_simps)
  from piv_section [OF s1 n] obtain piv r1x
    where r1: "rest = piv @ r1x" "length piv = ?n" "p1 = 1 + ?n"
      and pok: "piv = [] \<or> canonical_be piv \<and> length piv \<le> 5"
      and o1: "opt1 = empty_option\<lparr>opt_piv := pad 5 piv, opt_piv_len := as_u8 ?n\<rparr>" by blast
  have s2': "parse_option_kid_context ((f # piv) @ r1x) (f AND 0x10 \<noteq> 0) (length (f # piv)) opt1
      = Ok (opt2, p2)" using s2 r1 by simp
  obtain ctx r2x where r2: "r1x = (case ctx of None \<Rightarrow> [] | Some c \<Rightarrow> as_u8 (length c) # c) @ r2x"
      "p2 + length r2x = length (f # piv) + length r1x"
    and h: "f AND 0x10 \<noteq> 0 \<longleftrightarrow> ctx \<noteq> None" and cok: "case ctx of None \<Rightarrow> True | Some c \<Rightarrow> length c \<le> 8"
    and o2: "opt2 = opt1\<lparr>opt_kid_context := pad 8 (case ctx of None \<Rightarrow> [] | Some c \<Rightarrow> c),
       opt_kid_context_len := as_u8 (case ctx of None \<Rightarrow> 0 | Some c \<Rightarrow> length c),
       opt_kid_context_present := (ctx \<noteq> None)\<rparr>"
    by (rule kid_context_section [OF s2']) (auto simp: o1)
  let ?xs = "f # piv @ (case ctx of None \<Rightarrow> [] | Some c \<Rightarrow> as_u8 (length c) # c)"
  have s3': "parse_option_kid (?xs @ r2x) (f AND 0x08 \<noteq> 0) (length ?xs) opt2 = Ok opt"
    using s3 r1 r2 by simp
  obtain kid where r3: "r2x = (case kid of None \<Rightarrow> [] | Some c \<Rightarrow> c)"
    and k: "f AND 0x08 \<noteq> 0 \<longleftrightarrow> kid \<noteq> None"
    and kok: "case kid of None \<Rightarrow> True | Some c \<Rightarrow> length c \<le> 7"
    and o3: "opt = opt2\<lparr>opt_kid := pad 8 (case kid of None \<Rightarrow> [] | Some c \<Rightarrow> c),
       opt_kid_len := as_u8 (case kid of None \<Rightarrow> 0 | Some c \<Rightarrow> length c),
       opt_kid_present := (kid \<noteq> None)\<rparr>"
    by (rule kid_section [OF s3']) (auto simp: o1 o2)
  have ok: "option_parts_ok piv ctx kid" using pok cok kok by (simp add: option_parts_ok_def)
  have f: "f = option_flags piv ctx kid"
    unfolding byte_eq_iff option_flags_unat [OF ok]
    by (subst flags_split [OF E0]) (simp only: h k r1(2) [symmetric], simp)
  have rest: "rest = piv @ (case ctx of None \<Rightarrow> [] | Some c \<Rightarrow> as_u8 (length c) # c) @
      (case kid of None \<Rightarrow> [] | Some c \<Rightarrow> c)"
    using r1(1) r2(1) r3 by simp
  have "\<not> (piv = [] \<and> ctx = None \<and> kid = None)"
  proof
    assume none: "piv = [] \<and> ctx = None \<and> kid = None"
    then have "f = 0" and "rest = []" unfolding f rest by (simp_all add: option_flags_def)
    with ne show False by simp
  qed
  then have data: "data = option_encoding piv ctx kid"
    unfolding option_encoding_def Cons rest f by simp
  have "opt = option_value piv ctx kid"
    unfolding o3 o2 o1 r1(2) [symmetric] by (simp add: option_value_def empty_option_def)
  with ok data show ?thesis by (rule that)
qed

lemma section_no_panic:
  "length (opt_piv opt) = 5 \<Longrightarrow> parse_option_piv data n pos opt \<noteq> Panic"
  "parse_option_kid_context data h pos opt \<noteq> Panic"
  "length (opt_kid opt) = 8 \<Longrightarrow> pos \<le> length data \<Longrightarrow> parse_option_kid data k pos opt \<noteq> Panic"
  by (auto simp: parse_option_piv_def parse_option_kid_context_def parse_option_kid_def
      res_simps slice_simps Let_def split: if_splits)

lemma section_Err:
  "parse_option_piv data n pos opt = Err e \<Longrightarrow> e = InvalidParam"
  "parse_option_kid_context data h pos opt = Err e \<Longrightarrow> e = InvalidParam"
  "parse_option_kid data k pos opt = Err e \<Longrightarrow> e = InvalidParam"
  by (auto simp: parse_option_piv_def parse_option_kid_context_def parse_option_kid_def
      res_simps slice_simps Let_def split: if_splits)

lemma parse_option_no_panic: "parse_option data \<noteq> Panic"
proof (cases "data = [] \<or> data = [0] \<or> data ! 0 AND 0xE0 \<noteq> 0")
  case True
  then show ?thesis by (auto simp: parse_option_def index_def Let_def)
next
  case False
  then obtain f rest where data: "data = f # rest"
    and ne: "f # rest \<noteq> [0]" and E0: "f AND 0xE0 = 0"
    by (cases data) auto
  let ?n = "unat (f AND 7)"
  have n: "?n < 8" by (simp add: byte_and_7)
  show ?thesis
  proof
    assume "parse_option data = Panic"
    then consider (piv) "parse_option_piv (f # rest) ?n 1 empty_option = Panic"
      | (ctx) opt1 p1 where
          "parse_option_kid_context (f # rest) (f AND 0x10 \<noteq> 0) p1 opt1 = Panic"
      | (kid) opt1 p1 opt2 p2 where
          "parse_option_piv (f # rest) ?n 1 empty_option = Ok (opt1, p1)"
          "parse_option_kid_context (f # rest) (f AND 0x10 \<noteq> 0) p1 opt1 = Ok (opt2, p2)"
          "parse_option_kid (f # rest) (f AND 0x08 \<noteq> 0) p2 opt2 = Panic"
      unfolding data parse_option_Cons [OF ne E0] by (auto simp: res_simps)
    then show False
    proof cases
      case piv
      then show ?thesis by (simp add: section_no_panic)
    next
      case ctx
      then show ?thesis by (simp add: section_no_panic)
    next
      case kid
      from piv_section [OF kid(1) n] obtain piv r where r: "rest = piv @ r" "length piv = ?n"
        "p1 = 1 + ?n" and o1: "opt1 = empty_option\<lparr>opt_piv := pad 5 piv, opt_piv_len := as_u8 ?n\<rparr>"
        by blast
      have k2: "parse_option_kid_context ((f # piv) @ r) (f AND 0x10 \<noteq> 0) (length (f # piv)) opt1
        = Ok (opt2, p2)" using kid(2) r by simp
      have "p2 \<le> length (f # rest) \<and> opt_kid opt2 = replicate 8 0"
        by (rule kid_context_section [OF k2]) (use r in \<open>auto simp: o1\<close>)
      with kid(3) show ?thesis by (simp add: section_no_panic)
    qed
  qed
qed

lemma parse_option_Err: "parse_option data = Err e \<Longrightarrow> e = InvalidParam"
  by (auto simp: parse_option_def res_simps slice_simps Let_def dest: section_Err split: if_splits)

end
