(* ===== verification/InnerBody.thy ===== *)
theory InnerBody
  imports OscoreTypes
begin

text \<open>
  The two parsers of the inner CoAP message in \<^verbatim>\<open>src/lib.rs\<close>: \<open>parse_inner_body\<close>, which splits
  options and payload and is used by the preflight checks, and \<open>find_payload_marker\<close>, which the
  unprotect paths use. Both walk the delta/length encoded options of RFC 7252. The lemmas relate
  them: on every body \<open>parse_inner_body\<close> accepts, \<open>find_payload_marker\<close> finds the same boundary;
  the converse fails only where the \<open>u16\<close> addition of the extended delta overflows.
\<close>

subsection \<open>parse_inner_body\<close>

text \<open>The closure \<open>decode_nibble\<close>: it reads at \<open>pos\<close> and returns the value and the new
  position.\<close>

definition decode_nibble :: "bytes \<Rightarrow> nat \<Rightarrow> u8 \<Rightarrow> (oscore_error, nat \<times> nat) res" where
  "decode_nibble data pos nibble =
     (if nibble \<le> 12 then Ok (as_usize nibble, pos)
      else if nibble = 13 then
        and_then (ok_or InvalidParam (get_at data pos)) (\<lambda>b.
        let value = as_usize b in
        and_then (ok_or InvalidParam (checked_add_usize pos 1)) (\<lambda>pos.
        and_then (ok_or InvalidParam (checked_add_usize 13 value)) (\<lambda>r. Ok (r, pos))))
      else if nibble = 14 then
        and_then (ok_or InvalidParam (checked_add_usize pos 2)) (\<lambda>stop.
        and_then (ok_or InvalidParam (get_range data pos stop)) (\<lambda>bs.
        let pos = stop in
        and_then (index bs 0) (\<lambda>b0.
        and_then (index bs 1) (\<lambda>b1.
        let value = unat (u16_from_be b0 b1) in
        and_then (ok_or InvalidParam (checked_add_usize 269 value)) (\<lambda>r. Ok (r, pos))))))
      else if nibble = 15 then Err InvalidParam
      else Panic)"

definition u16_try_from :: "nat \<Rightarrow> u16 option" where
  "u16_try_from n = (if n < 2 ^ 16 then Some (of_nat n) else None)"

text \<open>One turn of the \<open>while\<close> loop after the payload-marker test: the option's header byte,
  its extended delta and length, and the bound on its value.\<close>

definition inner_option ::
    "bytes \<Rightarrow> nat \<Rightarrow> u16 \<Rightarrow> u8 \<Rightarrow> (oscore_error, nat \<times> u16) res" where
  "inner_option data pos option_number header =
     and_then (decode_nibble data pos (drop_bit 4 header)) (\<lambda>(delta, pos).
     and_then (decode_nibble data pos (header AND 0x0F)) (\<lambda>(len, pos).
     and_then (ok_or InvalidParam (u16_try_from delta)) (\<lambda>delta.
     and_then (ok_or InvalidParam (checked_add_u16 option_number delta)) (\<lambda>option_number.
     and_then (ok_or InvalidParam (checked_add_usize pos len)) (\<lambda>stop.
       if length data < stop then Err InvalidParam else Ok (stop, option_number))))))"

lemma decode_nibble_pos: "decode_nibble data pos b = Ok (v, pos') \<Longrightarrow> pos \<le> pos'"
  by (auto simp: decode_nibble_def res_simps slice_simps Let_def split: if_splits)

lemma inner_option_pos: "inner_option data pos num h = Ok (pos', num') \<Longrightarrow> pos \<le> pos' \<and> pos' \<le> length data"
  by (auto simp: inner_option_def res_simps split: if_splits dest!: decode_nibble_pos)

function parse_inner_body_loop :: "bytes \<Rightarrow> nat \<Rightarrow> u16 \<Rightarrow> (oscore_error, bytes \<times> bytes) res" where
  "parse_inner_body_loop data pos option_number =
     (if pos < length data then
        let option_start = pos in
        and_then (index data pos) (\<lambda>header.
        and_then (ok_or InvalidParam (checked_add_usize pos 1)) (\<lambda>pos1.
        if header = 0xFF then
          if pos1 = length data then Err InvalidParam
          else and_then (slice data 0 option_start) (\<lambda>opts.
               and_then (slice_from data pos1) (\<lambda>payload. Ok (opts, payload)))
        else
          and_then (inner_option data pos1 option_number header) (\<lambda>(pos2, option_number).
            parse_inner_body_loop data pos2 option_number)))
      else Ok (data, []))"
  by pat_completeness auto
termination
  by (relation "measure (\<lambda>(data, pos, _). length data - pos)")
    (auto simp: res_simps slice_simps dest!: inner_option_pos)

declare parse_inner_body_loop.simps [simp del]

definition parse_inner_body :: "bytes \<Rightarrow> (oscore_error, bytes \<times> bytes) res" where
  "parse_inner_body data = parse_inner_body_loop data 0 0"

subsection \<open>find_payload_marker\<close>

text \<open>The extended delta is a \<open>u16\<close> sum, which the argument \<open>oc\<close> (overflow checks on) decides
  how to treat.\<close>

definition marker_delta :: "bool \<Rightarrow> bytes \<Rightarrow> nat \<Rightarrow> u8 \<Rightarrow> (oscore_error, u16 \<times> nat) res" where
  "marker_delta oc data pos delta_nibble =
     (if delta_nibble \<le> 12 then Ok (ucast delta_nibble, pos)
      else if delta_nibble = 13 then
        if length data \<le> pos then Err InvalidParam
        else
          and_then (index data pos) (\<lambda>b.
          and_then (add_u16 oc (ucast b) 13) (\<lambda>d. Ok (d, pos + 1)))
      else if delta_nibble = 14 then
        if length data \<le> pos + 1 then Err InvalidParam
        else
          and_then (index data pos) (\<lambda>b0.
          and_then (index data (pos + 1)) (\<lambda>b1.
          and_then (add_u16 oc (push_bit 8 (ucast b0) OR ucast b1) 269) (\<lambda>d. Ok (d, pos + 2))))
      else Panic)"

definition marker_length :: "bytes \<Rightarrow> nat \<Rightarrow> u8 \<Rightarrow> (oscore_error, nat \<times> nat) res" where
  "marker_length data pos len_nibble =
     (if len_nibble \<le> 12 then Ok (as_usize len_nibble, pos)
      else if len_nibble = 13 then
        if length data \<le> pos then Err InvalidParam
        else and_then (index data pos) (\<lambda>b. Ok (as_usize b + 13, pos + 1))
      else if len_nibble = 14 then
        if length data \<le> pos + 1 then Err InvalidParam
        else
          and_then (index data pos) (\<lambda>b0.
          and_then (index data (pos + 1)) (\<lambda>b1.
            Ok ((push_bit 8 (as_usize b0) OR as_usize b1) + 269, pos + 2)))
      else Panic)"

definition marker_option ::
    "bool \<Rightarrow> bytes \<Rightarrow> nat \<Rightarrow> u16 \<Rightarrow> u8 \<Rightarrow> (oscore_error, nat \<times> u16) res" where
  "marker_option oc data pos cumulative_number first =
     (let delta_nibble = drop_bit 4 first AND 0x0F; len_nibble = first AND 0x0F in
      if delta_nibble = 15 then Err InvalidParam
      else if len_nibble = 15 then Err InvalidParam
      else
        let pos = pos + 1 in
        and_then (marker_delta oc data pos delta_nibble) (\<lambda>(delta, pos).
        and_then (ok_or InvalidParam (checked_add_u16 cumulative_number delta))
          (\<lambda>cumulative_number.
        and_then (marker_length data pos len_nibble) (\<lambda>(opt_len, pos).
        and_then (ok_or InvalidParam (checked_add_usize pos opt_len)) (\<lambda>stop.
          if length data < stop then Err InvalidParam
          else Ok (pos + opt_len, cumulative_number))))))"

lemma marker_delta_pos: "marker_delta oc data pos b = Ok (v, pos') \<Longrightarrow> pos \<le> pos'"
  by (auto simp: marker_delta_def res_simps split: if_splits)

lemma marker_length_pos: "marker_length data pos b = Ok (v, pos') \<Longrightarrow> pos \<le> pos'"
  by (auto simp: marker_length_def res_simps split: if_splits)

lemma marker_option_pos:
  "marker_option oc data pos num b = Ok (pos', num') \<Longrightarrow> pos < pos' \<and> pos' \<le> length data"
  by (auto simp: marker_option_def res_simps Let_def split: if_splits
      dest!: marker_delta_pos marker_length_pos)

function find_payload_marker_loop ::
    "bool \<Rightarrow> bytes \<Rightarrow> nat \<Rightarrow> u16 \<Rightarrow> (oscore_error, nat option) res" where
  "find_payload_marker_loop oc data pos cumulative_number =
     (if pos < length data then
        and_then (index data pos) (\<lambda>first.
        if first = 0xFF then Ok (Some pos)
        else
          and_then (marker_option oc data pos cumulative_number first)
            (\<lambda>(pos2, cumulative_number). find_payload_marker_loop oc data pos2 cumulative_number))
      else Ok None)"
  by pat_completeness auto
termination
  by (relation "measure (\<lambda>(oc, data, pos, _). length data - pos)")
    (auto simp: slice_simps dest!: marker_option_pos)

declare find_payload_marker_loop.simps [simp del]

definition find_payload_marker :: "bool \<Rightarrow> bytes \<Rightarrow> (oscore_error, nat option) res" where
  "find_payload_marker oc data = find_payload_marker_loop oc data 0 0"

subsection \<open>One option, in natural numbers\<close>

text \<open>The reference both parsers are compared with: the value of a nibble with its extension
  bytes, over natural numbers.\<close>

definition nibble_value :: "bytes \<Rightarrow> nat \<Rightarrow> nat \<Rightarrow> (nat \<times> nat) option" where
  "nibble_value data pos nib =
     (if nib \<le> 12 then Some (nib, pos)
      else if nib = 13 then if pos < length data then Some (13 + unat (data ! pos), pos + 1) else None
      else if nib = 14 then
        if pos + 1 < length data
        then Some (269 + (unat (data ! pos) * 256 + unat (data ! (pos + 1))), pos + 2) else None
      else None)"

lemma unat_le_12: "(b :: u8) \<le> 12 \<longleftrightarrow> unat b \<le> 12"
  by (simp add: word_le_nat_alt)

lemma get_range_two:
  "get_range xs p (Suc (Suc p)) =
    (if Suc p < length xs then Some [xs ! p, xs ! Suc p] else None)"
  by (auto simp: get_range_def take_Suc_conv_app_nth numeral_2_eq_2)

lemma decode_nibble_eq:
  assumes "unat b < 16" and "pos \<le> length data" and "length data \<le> isize_max"
  shows "decode_nibble data pos b = ok_or InvalidParam (nibble_value data pos (unat b))"
proof -
  have um: "pos + 2 \<le> usize_max" "pos + 1 \<le> usize_max"
    using assms by (simp_all add: isize_max_def usize_max_def)
  have small: "13 + unat c \<le> usize_max" "269 + (unat c * 256 + unat d) \<le> usize_max" for c d :: u8
    using unat_u8_bound [of c] u8_pair_bound [of c d] unfolding usize_max_val by linarith+
  have eqs: "b = 13 \<longleftrightarrow> unat b = 13" "b = 14 \<longleftrightarrow> unat b = 14" "b = 15 \<longleftrightarrow> unat b = 15"
    by (simp_all add: byte_eq_iff)
  consider "unat b \<le> 12" | "unat b = 13" | "unat b = 14" | "unat b = 15"
    using assms(1) by linarith
  then show ?thesis
    using um
    by cases (simp_all add: decode_nibble_def nibble_value_def unat_le_12 eqs get_at_def
        get_range_two checked_add_usize_def small index_def unat_u16_from_be)
qed

lemma shift_or_nat: "push_bit 8 (unat (a :: u8)) OR unat (b :: u8) = unat a * 256 + unat b"
proof -
  have "push_bit 8 (unat a) OR unat b = push_bit 8 (unat a) + unat b"
  proof (rule disjunctive_add_eq_or [symmetric], rule bit_eqI)
    fix n
    have "n < 8" if "bit (unat b) n"
      using that by (auto simp: bit_unsigned_iff dest: bit_imp_le_length)
    then show "bit (push_bit 8 (unat a) AND unat b) n = bit (0 :: nat) n"
      by (auto simp: bit_simps)
  qed
  then show ?thesis by (simp add: push_bit_eq_mult)
qed

lemma marker_length_eq:
  assumes "unat b < 15"
  shows "marker_length data pos b = ok_or InvalidParam (nibble_value data pos (unat b))"
proof -
  have eqs: "b = 13 \<longleftrightarrow> unat b = 13" "b = 14 \<longleftrightarrow> unat b = 14"
    by (simp_all add: byte_eq_iff)
  consider "unat b \<le> 12" | "unat b = 13" | "unat b = 14" using assms by linarith
  then show ?thesis
    by cases (simp_all add: marker_length_def nibble_value_def unat_le_12 eqs index_def shift_or_nat)
qed

text \<open>The \<open>u16\<close> sum of the extended delta overflows for large deltas only.\<close>

lemma unat_ucast_u16: "unat (ucast (b :: u8) :: u16) = unat b"
  by (simp add: unsigned_ucast_eq take_bit_nat_eq_self less_trans [OF unat_u8_bound])

definition delta_result :: "bool \<Rightarrow> (nat \<times> nat) option \<Rightarrow> (oscore_error, u16 \<times> nat) res" where
  "delta_result oc v = (case v of None \<Rightarrow> Err InvalidParam
     | Some (d, p) \<Rightarrow> if oc \<and> 2 ^ 16 \<le> d then Panic else Ok (of_nat d, p))"

lemma add_u16_13: "add_u16 oc (ucast (c :: u8)) 13 = Ok (of_nat (13 + unat c))"
proof -
  have "unat (13 :: u16) = 13" by simp
  moreover have "unat c + 13 < 65536" using unat_u8_bound [of c] by linarith
  ultimately show ?thesis by (simp add: add_u16_def unat_ucast_u16)
qed

lemma be_u16_of_nat:
  "push_bit 8 (ucast (hi :: u8)) OR ucast (lo :: u8) = (of_nat (unat hi * 256 + unat lo) :: u16)"
  unfolding u16_from_be_def [symmetric] word_unat_eq_iff unat_u16_from_be
  using u8_pair_bound [of hi lo] by (simp only: unat_of_nat) simp

lemma add_u16_269:
  "add_u16 oc (push_bit 8 (ucast (hi :: u8)) OR ucast (lo :: u8)) 269 =
   (if oc \<and> 65536 \<le> 269 + (unat hi * 256 + unat lo) then Panic
    else Ok (of_nat (269 + (unat hi * 256 + unat lo))))"
proof -
  have "unat (of_nat (unat hi * 256 + unat lo) :: u16) = unat hi * 256 + unat lo"
    using u8_pair_bound [of hi lo] by (simp only: unat_of_nat) simp
  moreover have "unat (269 :: u16) = 269" by simp
  ultimately show ?thesis
    by (simp only: add_u16_def be_u16_of_nat) (simp add: add.commute)
qed

lemma marker_delta_eq:
  assumes "unat b < 15"
  shows "marker_delta oc data pos b = delta_result oc (nibble_value data pos (unat b))"
proof -
  have eqs: "b = 13 \<longleftrightarrow> unat b = 13" "b = 14 \<longleftrightarrow> unat b = 14"
    by (simp_all add: byte_eq_iff)
  consider "unat b \<le> 12" | "unat b = 13" | "unat b = 14" using assms by linarith
  then show ?thesis
  proof cases
    case 1
    then show ?thesis
      by (simp add: marker_delta_def delta_result_def nibble_value_def unat_le_12)
  next
    case 2
    with less_le_trans [OF unat_u8_bound [of "data ! pos"], of 65523] show ?thesis
      by (simp add: marker_delta_def delta_result_def nibble_value_def unat_le_12 eqs index_def
          add_u16_13)
  next
    case 3
    then show ?thesis
      by (simp add: marker_delta_def delta_result_def nibble_value_def unat_le_12 eqs index_def
          add_u16_269)
  qed
qed

text \<open>One option: the reference step, and both parsers' steps in terms of it.\<close>

definition option_step :: "bytes \<Rightarrow> nat \<Rightarrow> u16 \<Rightarrow> u8 \<Rightarrow> (nat \<times> u16) option" where
  "option_step data pos num h =
     (case nibble_value data pos (unat h div 16) of None \<Rightarrow> None
      | Some (d, p1) \<Rightarrow>
        (case nibble_value data p1 (unat h mod 16) of None \<Rightarrow> None
         | Some (l, p2) \<Rightarrow>
           if unat num + d < 2 ^ 16 \<and> p2 + l \<le> length data
           then Some (p2 + l, num + of_nat d) else None))"

lemma nibble_value_pos:
  "nibble_value data p n = Some (v, p') \<Longrightarrow>
   p \<le> p' \<and> (p \<le> length data \<longrightarrow> p' \<le> length data) \<and> v < 65536 + 269"
  using u8_pair_bound [of "data ! p" "data ! Suc p"] unat_u8_bound [of "data ! p"]
  by (auto simp: nibble_value_def simp del: unat_u8_bound unat_u8_le split: if_splits)

lemma nibbles:
  "unat (drop_bit 4 (h :: u8)) = unat h div 16" "unat (h AND 0x0F) = unat h mod 16"
  "unat h div 16 mod 16 = unat h div 16" "unat h div 16 < 16"
proof -
  show lt: "unat h div 16 < 16" using unat_u8_bound [of h] by linarith
  then show "unat h div 16 mod 16 = unat h div 16" by simp
qed (simp_all only: byte_and_15 byte_drop_4)

lemma nibbles_15: "(b :: u8) AND 0x0F = 15 \<longleftrightarrow> unat b mod 16 = 15"
  unfolding byte_eq_iff byte_and_15 by simp

lemma checked_add_u16_of_nat:
  "d < 2 ^ 16 \<Longrightarrow> checked_add_u16 num (of_nat d) =
     (if unat num + d < 2 ^ 16 then Some (num + of_nat d) else None)"
  by (simp add: checked_add_u16_def unat_of_nat)

lemma inner_option_eq:
  assumes "pos \<le> length data" and "length data \<le> isize_max"
  shows "inner_option data pos num h = ok_or InvalidParam (option_step data pos num h)"
proof -
  have d1: "decode_nibble data pos (drop_bit 4 h)
      = ok_or InvalidParam (nibble_value data pos (unat h div 16))"
    using decode_nibble_eq [of "drop_bit 4 h" pos data] assms nibbles [of h] by simp
  have d2: "decode_nibble data p1 (h AND 0x0F)
      = ok_or InvalidParam (nibble_value data p1 (unat h mod 16))" if "p1 \<le> length data" for p1
    using decode_nibble_eq [of "h AND 0x0F" p1 data] assms that by (simp only: nibbles)
  have cu: "checked_add_usize p2 l = Some (p2 + l)" if "p2 \<le> length data" "l < 65536 + 269" for p2 l
    using that assms by (simp add: checked_add_usize_def isize_max_def usize_max_def)
  show ?thesis
  proof (cases "nibble_value data pos (unat h div 16)")
    case None
    then show ?thesis by (simp add: inner_option_def option_step_def d1)
  next
    case (Some r1)
    then obtain d p1 where n1: "nibble_value data pos (unat h div 16) = Some (d, p1)" by (cases r1) auto
    with assms have p1: "p1 \<le> length data" by (auto dest: nibble_value_pos)
    show ?thesis
    proof (cases "nibble_value data p1 (unat h mod 16)")
      case None
      with n1 p1 show ?thesis by (simp add: inner_option_def option_step_def d1 d2)
    next
      case (Some r2)
      then obtain l p2 where n2: "nibble_value data p1 (unat h mod 16) = Some (l, p2)"
        by (cases r2) auto
      with p1 have "p2 \<le> length data" "l < 65536 + 269" by (auto dest: nibble_value_pos)
      with n1 n2 p1 show ?thesis
        by (auto simp: inner_option_def option_step_def d1 d2 cu u16_try_from_def
            checked_add_u16_of_nat)
    qed
  qed
qed

text \<open>\<open>find_payload_marker\<close> takes the step whenever the reference does, whatever the overflow
  mode; with overflow checks on, it takes no other.\<close>

lemma marker_option_of_step:
  assumes "option_step data (Suc pos) num h = Some r"
    and "pos < length data" and "length data \<le> isize_max"
  shows "marker_option oc data pos num h = Ok r"
proof -
  from assms(1) obtain d p1 l p2
    where n1: "nibble_value data (Suc pos) (unat h div 16) = Some (d, p1)"
      and n2: "nibble_value data p1 (unat h mod 16) = Some (l, p2)"
      and b: "unat num + d < 2 ^ 16" "p2 + l \<le> length data" and r: "r = (p2 + l, num + of_nat d)"
    by (auto simp: option_step_def split: option.splits if_splits)
  from n1 n2 have ne: "unat h div 16 \<noteq> 15" "unat h mod 16 \<noteq> 15"
    by (auto simp: nibble_value_def split: if_splits)
  then have lt: "unat (drop_bit 4 h AND 0x0F) < 15" "unat (h AND 0x0F) < 15"
    unfolding nibbles using nibbles(4) [of h] by simp_all
  have "p2 + l \<le> usize_max" using b assms(3) by (simp add: isize_max_def usize_max_def)
  with n1 n2 b r ne show ?thesis
    unfolding marker_option_def Let_def nibbles_15 marker_delta_eq [OF lt(1)]
      marker_length_eq [OF lt(2)] nibbles
    by (auto simp: delta_result_def checked_add_u16_of_nat checked_add_usize_def)
qed

lemma step_of_marker_option:
  assumes "marker_option True data pos num h = Ok r"
  shows "option_step data (Suc pos) num h = Some r"
proof -
  from assms have ne: "unat h div 16 \<noteq> 15" "unat h mod 16 \<noteq> 15"
    unfolding marker_option_def Let_def nibbles_15 nibbles by (auto split: if_splits)
  then have lt: "unat (drop_bit 4 h AND 0x0F) < 15" "unat (h AND 0x0F) < 15"
    unfolding nibbles using nibbles(4) [of h] by simp_all
  from assms show ?thesis
    unfolding marker_option_def Let_def nibbles_15 marker_delta_eq [OF lt(1)]
      marker_length_eq [OF lt(2)] nibbles
    by (auto simp: delta_result_def checked_add_u16_of_nat checked_add_usize_def res_simps
        option_step_def split: option.splits if_splits)
qed

lemma marker_option_Err: "marker_option oc data pos num h = Err e \<Longrightarrow> e = InvalidParam"
  by (auto simp: marker_option_def marker_delta_def marker_length_def res_simps slice_simps
      Let_def add_u16_def split: if_splits)

subsection \<open>The loops\<close>

lemma parse_loop_step:
  assumes "pos < length data" and "data ! pos \<noteq> 0xFF" and "length data \<le> isize_max"
  shows "parse_inner_body_loop data pos num =
    (case option_step data (Suc pos) num (data ! pos) of None \<Rightarrow> Err InvalidParam
     | Some (p2, num2) \<Rightarrow> parse_inner_body_loop data p2 num2)"
proof -
  have "Suc pos \<le> usize_max" using assms by (simp add: isize_max_def usize_max_def)
  with assms show ?thesis
    by (subst parse_inner_body_loop.simps)
      (simp add: index_def checked_add_usize_def inner_option_eq split: option.splits)
qed

lemma parse_loop_marker:
  assumes "pos < length data" and "data ! pos = 0xFF" and "length data \<le> isize_max"
  shows "parse_inner_body_loop data pos num =
    (if Suc pos = length data then Err InvalidParam else Ok (take pos data, drop (Suc pos) data))"
proof -
  have "Suc pos \<le> usize_max" using assms by (simp add: isize_max_def usize_max_def)
  with assms show ?thesis
    by (subst parse_inner_body_loop.simps)
      (simp add: index_def checked_add_usize_def slice_def slice_from_def)
qed

lemma parse_loop_end: "length data \<le> pos \<Longrightarrow> parse_inner_body_loop data pos num = Ok (data, [])"
  by (subst parse_inner_body_loop.simps) simp

lemma find_loop_simps:
  "pos < length data \<Longrightarrow> data ! pos = 0xFF \<Longrightarrow> find_payload_marker_loop oc data pos num = Ok (Some pos)"
  "pos < length data \<Longrightarrow> data ! pos \<noteq> 0xFF \<Longrightarrow> find_payload_marker_loop oc data pos num =
     and_then (marker_option oc data pos num (data ! pos))
       (\<lambda>(p2, num2). find_payload_marker_loop oc data p2 num2)"
  "length data \<le> pos \<Longrightarrow> find_payload_marker_loop oc data pos num = Ok None"
  by (subst find_payload_marker_loop.simps; simp add: index_def)+

lemma option_step_pos:
  "option_step data p num h = Some (p2, n2) \<Longrightarrow> p \<le> p2 \<and> p2 \<le> length data"
  by (auto simp: option_step_def split: option.splits if_splits dest!: nibble_value_pos)

text \<open>Induction over the walk of the options.\<close>

lemma walk_induct [case_names finish marker step stuck]:
  fixes data :: bytes
  assumes "\<And>pos num. length data \<le> pos \<Longrightarrow> P pos num"
    and "\<And>pos num. pos < length data \<Longrightarrow> data ! pos = 0xFF \<Longrightarrow> P pos num"
    and "\<And>pos num p2 n2. pos < length data \<Longrightarrow> data ! pos \<noteq> 0xFF \<Longrightarrow>
          option_step data (Suc pos) num (data ! pos) = Some (p2, n2) \<Longrightarrow> P p2 n2 \<Longrightarrow> P pos num"
    and "\<And>pos num. pos < length data \<Longrightarrow> data ! pos \<noteq> 0xFF \<Longrightarrow>
          option_step data (Suc pos) num (data ! pos) = None \<Longrightarrow> P pos num"
  shows "P pos (num :: u16)"
proof (induction "length data - pos" arbitrary: pos num rule: less_induct)
  case (less pos num)
  consider "length data \<le> pos" | "pos < length data" "data ! pos = 0xFF"
    | p2 n2 where "pos < length data" "data ! pos \<noteq> 0xFF"
        "option_step data (Suc pos) num (data ! pos) = Some (p2, n2)"
    | "pos < length data" "data ! pos \<noteq> 0xFF" "option_step data (Suc pos) num (data ! pos) = None"
    by (cases "option_step data (Suc pos) num (data ! pos)") (force simp: not_le)+
  then show ?case
  proof cases
    case (3 p2 n2)
    then have "length data - p2 < length data - pos" by (auto dest: option_step_pos)
    with 3 less assms(3) show ?thesis by blast
  qed (use assms in blast)+
qed

lemma parse_inner_body_find_loop:
  assumes "length data \<le> isize_max"
  shows "parse_inner_body_loop data pos num = Ok (opts, payload) \<Longrightarrow>
    find_payload_marker_loop oc data pos num =
      Ok (if payload = [] then None else Some (length opts))"
proof (induction pos num rule: walk_induct [where data = data])
  case (step pos num p2 n2)
  with assms show ?case
    by (simp add: parse_loop_step find_loop_simps marker_option_of_step)
next
  case (marker pos num)
  with assms show ?case by (auto simp: parse_loop_marker find_loop_simps split: if_splits)
qed (use assms in \<open>auto simp: parse_loop_step parse_loop_end find_loop_simps\<close>)

lemma find_parse_inner_body_loop:
  assumes "length data \<le> isize_max"
  shows "find_payload_marker_loop True data pos num = Ok m \<Longrightarrow>
    parse_inner_body_loop data pos num =
      (case m of None \<Rightarrow> Ok (data, [])
       | Some p \<Rightarrow> if Suc p = length data then Err InvalidParam else Ok (take p data, drop (Suc p) data))"
proof (induction pos num rule: walk_induct [where data = data])
  case (step pos num p2 n2)
  with assms show ?case
    by (simp add: parse_loop_step find_loop_simps marker_option_of_step)
next
  case (stuck pos num)
  then show ?case by (auto simp: find_loop_simps res_simps dest!: step_of_marker_option)
qed (use assms in \<open>auto simp: parse_loop_marker parse_loop_end find_loop_simps\<close>)

lemma parse_inner_body_find:
  "length data \<le> isize_max \<Longrightarrow> parse_inner_body data = Ok (opts, payload) \<Longrightarrow>
   find_payload_marker oc data = Ok (if payload = [] then None else Some (length opts))"
  by (simp add: parse_inner_body_def find_payload_marker_def parse_inner_body_find_loop)

lemma find_parse_inner_body:
  "length data \<le> isize_max \<Longrightarrow> find_payload_marker True data = Ok m \<Longrightarrow>
   parse_inner_body data =
     (case m of None \<Rightarrow> Ok (data, [])
      | Some p \<Rightarrow> if Suc p = length data then Err InvalidParam else Ok (take p data, drop (Suc p) data))"
  by (simp add: parse_inner_body_def find_payload_marker_def find_parse_inner_body_loop)

lemma parse_inner_body_split:
  assumes "length data \<le> isize_max" and "parse_inner_body data = Ok (opts, payload)"
  shows "if payload = [] then opts = data else data = opts @ 0xFF # payload"
proof -
  have "parse_inner_body_loop data pos num = Ok (opts, payload) \<Longrightarrow>
    if payload = [] then opts = data else data = opts @ 0xFF # payload" for pos num
  proof (induction pos num rule: walk_induct [where data = data])
    case (marker pos num)
    with assms(1) id_take_nth_drop [of pos data] show ?case
      by (auto simp: parse_loop_marker split: if_splits)
  qed (use assms(1) in \<open>auto simp: parse_loop_step parse_loop_end\<close>)
  from this [of 0 0] assms(2) show ?thesis by (simp add: parse_inner_body_def)
qed

text \<open>\<open>parse_inner_body\<close> never panics, and its only error is \<open>InvalidParam\<close>.\<close>

lemma parse_inner_body_total:
  assumes "length data \<le> isize_max"
  shows "parse_inner_body data \<noteq> Panic" "parse_inner_body data = Err e \<Longrightarrow> e = InvalidParam"
proof -
  have "parse_inner_body_loop data pos num \<noteq> Panic \<and>
      (\<forall>e. parse_inner_body_loop data pos num = Err e \<longrightarrow> e = InvalidParam)" for pos num
    by (induction pos num rule: walk_induct [where data = data])
      (use assms in \<open>auto simp: parse_loop_step parse_loop_marker parse_loop_end split: if_splits\<close>)
  then show "parse_inner_body data \<noteq> Panic" "parse_inner_body data = Err e \<Longrightarrow> e = InvalidParam"
    by (auto simp: parse_inner_body_def)
qed

subsection \<open>Options followed by a payload\<close>

lemma nibble_value_append:
  "nibble_value xs p n = Some r \<Longrightarrow> nibble_value (xs @ ys) p n = Some r"
  by (auto simp: nibble_value_def nth_append split: if_splits)

lemma option_step_append:
  "option_step xs p num h = Some r \<Longrightarrow> option_step (xs @ ys) p num h = Some r"
  by (auto simp: option_step_def nibble_value_append split: option.splits if_splits)

lemma parse_loop_append:
  assumes "length (xs @ ys) \<le> isize_max"
  shows "parse_inner_body_loop xs pos num = Ok (xs, []) \<Longrightarrow> pos \<le> length xs \<Longrightarrow>
    \<exists>num'. parse_inner_body_loop (xs @ ys) pos num = parse_inner_body_loop (xs @ ys) (length xs) num'"
proof (induction pos num rule: walk_induct [where data = xs])
  case (step pos num p2 n2)
  moreover have "length xs \<le> isize_max" using assms by simp
  ultimately show ?case
    using assms by (auto simp: parse_loop_step nth_append option_step_append dest: option_step_pos)
next
  case (marker pos num)
  moreover have "length xs \<le> isize_max" using assms by simp
  ultimately show ?case by (auto simp: parse_loop_marker split: if_splits)
next
  case (stuck pos num)
  moreover have "length xs \<le> isize_max" using assms by simp
  ultimately show ?case by (auto simp: parse_loop_step)
qed auto

lemma parse_inner_body_payload:
  assumes opts: "parse_inner_body opts = Ok (opts, [])" and ne: "payload \<noteq> []"
    and len: "length (opts @ 0xFF # payload) \<le> isize_max"
  shows "parse_inner_body (opts @ 0xFF # payload) = Ok (opts, payload)"
proof -
  from parse_loop_append [OF len] opts obtain num' where
    "parse_inner_body (opts @ 0xFF # payload) =
     parse_inner_body_loop (opts @ 0xFF # payload) (length opts) num'"
    unfolding parse_inner_body_def by blast
  with ne len show ?thesis by (simp add: parse_loop_marker)
qed

subsection \<open>Where find_payload_marker stops\<close>

lemma nibble_range: "((b :: u8) AND 0x0F) \<noteq> 15 \<Longrightarrow> (b AND 0x0F) \<noteq> 13 \<Longrightarrow> (b AND 0x0F) \<noteq> 14 \<Longrightarrow>
  (b AND 0x0F) \<le> 12"
proof -
  have "n mod 16 \<noteq> 15 \<Longrightarrow> n mod 16 \<noteq> 13 \<Longrightarrow> n mod 16 \<noteq> 14 \<Longrightarrow> n mod 16 \<le> 12" for n :: nat
    by presburger
  from this [of "unat b"] show "(b AND 0x0F) \<noteq> 15 \<Longrightarrow> (b AND 0x0F) \<noteq> 13 \<Longrightarrow> (b AND 0x0F) \<noteq> 14 \<Longrightarrow>
      (b AND 0x0F) \<le> 12"
    by (simp only: word_le_nat_alt byte_eq_iff byte_and_15) simp
qed

lemma marker_option_no_panic:
  assumes "pos < length data"
  shows "marker_option False data pos num h \<noteq> Panic"
proof -
  note nibble_range [of "drop_bit 4 h"] nibble_range [of h]
  then show ?thesis
    by (auto simp: marker_option_def marker_delta_def marker_length_def res_simps slice_simps
        Let_def add_u16_def split: if_splits)
qed

lemma find_payload_marker_no_panic: "find_payload_marker False data \<noteq> Panic"
proof -
  have "find_payload_marker_loop oc data pos num \<noteq> Panic" if "\<not> oc" for oc pos num
    using that
  proof (induction oc data pos num rule: find_payload_marker_loop.induct)
    case (1 oc data pos num)
    show ?case
    proof (cases "pos < length data \<and> data ! pos \<noteq> 0xFF")
      case True
      with 1 marker_option_no_panic [of pos data num "data ! pos"] show ?thesis
        by (auto simp: find_loop_simps res_simps index_def)
    next
      case False
      then show ?thesis by (cases "pos < length data") (simp_all add: find_loop_simps)
    qed
  qed
  from this [of False 0 0] show ?thesis by (simp add: find_payload_marker_def)
qed

lemma find_payload_marker_Some:
  "find_payload_marker oc data = Ok (Some p) \<Longrightarrow> p < length data \<and> data ! p = 0xFF"
proof -
  have "find_payload_marker_loop oc data pos num = Ok (Some p) \<Longrightarrow> p < length data \<and> data ! p = 0xFF"
    for pos num
  proof (induction oc data pos num rule: find_payload_marker_loop.induct)
    case (1 oc data pos num)
    show ?case
    proof (cases "pos < length data \<and> data ! pos \<noteq> 0xFF")
      case True
      with 1 show ?thesis by (auto simp: find_loop_simps res_simps index_def)
    next
      case False
      with 1 show ?thesis
        by (cases "pos < length data") (simp_all add: find_loop_simps)
    qed
  qed
  then show "find_payload_marker oc data = Ok (Some p) \<Longrightarrow> p < length data \<and> data ! p = 0xFF"
    by (simp add: find_payload_marker_def)
qed

lemma find_payload_marker_Err: "find_payload_marker oc data = Err e \<Longrightarrow> e = InvalidParam"
proof -
  have "find_payload_marker_loop oc data pos num = Err e \<Longrightarrow> e = InvalidParam" for pos num
  proof (induction oc data pos num rule: find_payload_marker_loop.induct)
    case (1 oc data pos num)
    show ?case
    proof (cases "pos < length data \<and> data ! pos \<noteq> 0xFF")
      case True
      with 1 show ?thesis by (auto simp: find_loop_simps res_simps index_def dest: marker_option_Err)
    next
      case False
      with 1 show ?thesis
        by (cases "pos < length data") (simp_all add: find_loop_simps)
    qed
  qed
  then show "find_payload_marker oc data = Err e \<Longrightarrow> e = InvalidParam"
    by (simp add: find_payload_marker_def)
qed

end
