(* ===== verification/OscoreCrypto.thy ===== *)
theory OscoreCrypto
  imports OscoreTypes
begin

text \<open>
  The byte-level constructions of \<^verbatim>\<open>src/lib.rs\<close> that feed the cryptographic primitives: the
  HKDF info structure, the additional authenticated data, the AEAD nonce, the context identifier and
  the three key derivations. The primitives themselves (SHA-256, HKDF, AES-CCM of the crates
  \<^verbatim>\<open>sha2\<close>, \<^verbatim>\<open>hkdf\<close>, \<^verbatim>\<open>ccm\<close>) are fields of the record \<open>crypto\<close>, an argument of every
  definition that uses them. The lemmas give closed forms of the buffers and show that the
  encodings are injective: distinct (identifier, Partial IV) pairs give distinct nonces and distinct
  additional data, and distinct derivation inputs give distinct info structures.
\<close>

subsection \<open>The primitives\<close>

record crypto =
  sha256 :: "bytes \<Rightarrow> bytes"
  hkdf_extract :: "bytes option \<Rightarrow> bytes \<Rightarrow> bytes"
  hkdf_from_prk :: "bytes \<Rightarrow> bytes option"
  hkdf_expand :: "bytes \<Rightarrow> bytes \<Rightarrow> nat \<Rightarrow> bytes option"
  ccm_new :: "bytes \<Rightarrow> bytes option"
  ccm_encrypt :: "bytes \<Rightarrow> bytes \<Rightarrow> bytes \<Rightarrow> bytes \<Rightarrow> (bytes \<times> bytes) option"
  ccm_decrypt :: "bytes \<Rightarrow> bytes \<Rightarrow> bytes \<Rightarrow> bytes \<Rightarrow> bytes \<Rightarrow> bytes option"

text \<open>
  \<open>hkdf_extract salt ikm\<close> is the pseudorandom key, \<open>hkdf_expand prk info n\<close> the \<open>n\<close> output
  bytes, \<open>ccm_new key\<close> the cipher (or the refusal of a key of the wrong length),
  \<open>ccm_encrypt cipher nonce aad plaintext\<close> the pair of ciphertext and detached tag, and
  \<open>ccm_decrypt cipher nonce aad ciphertext tag\<close> the plaintext.

  The documented behaviour that some properties rely on, as predicates on the record.
\<close>

definition hkdf_contract :: "crypto \<Rightarrow> bool" where
  "hkdf_contract C \<longleftrightarrow>
     (\<forall>prk info n. n \<le> 255 * 32 \<longrightarrow> (\<exists>okm. hkdf_expand C prk info n = Some okm \<and> length okm = n))"

definition ccm_contract :: "crypto \<Rightarrow> bool" where
  "ccm_contract C \<longleftrightarrow>
     (\<forall>key. length key = 16 \<longrightarrow> ccm_new C key \<noteq> None) \<and>
     (\<forall>key cipher nonce aad pt. ccm_new C key = Some cipher \<and> length nonce = 13 \<and> length pt < 2 ^ 16 \<longrightarrow>
        (\<exists>ct tag. ccm_encrypt C cipher nonce aad pt = Some (ct, tag) \<and>
           length ct = length pt \<and> length tag = 8 \<and>
           ccm_decrypt C cipher nonce aad ct tag = Some pt))"

subsection \<open>Writing into a buffer\<close>

text \<open>\<open>buf[off] = b; off += 1\<close> and \<open>buf[off..off + n].copy_from_slice(bs); off += n\<close>.\<close>

definition put :: "bytes \<Rightarrow> nat \<Rightarrow> u8 \<Rightarrow> ('e, bytes \<times> nat) res" where
  "put buf off b = and_then (store_at buf off b) (\<lambda>buf. Ok (buf, off + 1))"

definition put_slice :: "bytes \<Rightarrow> nat \<Rightarrow> bytes \<Rightarrow> ('e, bytes \<times> nat) res" where
  "put_slice buf off bs = and_then (copy_at buf off bs) (\<lambda>buf. Ok (buf, off + length bs))"

text \<open>A zeroed buffer of \<open>n\<close> bytes after the prefix \<open>w\<close> has been written.\<close>

definition written :: "nat \<Rightarrow> bytes \<Rightarrow> bytes" where
  "written n w = w @ replicate (n - length w) 0"

named_theorems write_simps \<open>evaluating writes into a fresh buffer\<close>

lemma written_Nil: "replicate n 0 = written n []"
  by (simp add: written_def)

lemma take_written [simp]: "take (length w) (written n w) = w"
  by (simp add: written_def)

lemma take_written_len: "k = length w \<Longrightarrow> take k (written n w) = w"
  by simp

lemma length_written [simp]: "length w \<le> n \<Longrightarrow> length (written n w) = n"
  by (simp add: written_def)

lemma put_written [write_simps]:
  "length w < n \<Longrightarrow> off = length w \<Longrightarrow>
   put (written n w) off b = Ok (written n (w @ [b]), Suc off)"
  by (simp add: put_def written_def store_at_def list_update_append Suc_diff_Suc [symmetric])

lemma put_slice_written [write_simps]:
  "length w + length bs \<le> n \<Longrightarrow> off = length w \<Longrightarrow>
   put_slice (written n w) off bs = Ok (written n (w @ bs), off + length bs)"
  by (simp add: put_slice_def written_def copy_at_def diff_diff_left)

subsection \<open>The HKDF info structure\<close>

definition ascii :: "string \<Rightarrow> bytes" where
  "ascii s = map of_char s"

lemma length_ascii [simp]: "length (ascii s) = length s"
  by (simp add: ascii_def)

text \<open>The header of a byte or text string of major type \<open>mt\<close>: short, or one length byte.\<close>

definition put_string_head :: "u8 \<Rightarrow> u8 \<Rightarrow> nat \<Rightarrow> bytes \<Rightarrow> nat \<Rightarrow> ('e, bytes \<times> nat) res" where
  "put_string_head short long len buf off =
     (if len \<le> 23 then put buf off (short OR as_u8 len)
      else
        and_then (store_at buf off long) (\<lambda>buf.
        and_then (store_at buf (off + 1) (as_u8 len)) (\<lambda>buf. Ok (buf, off + 2))))"

definition build_info_cbor ::
    "bytes \<Rightarrow> bytes option \<Rightarrow> string \<Rightarrow> nat \<Rightarrow> bytes \<Rightarrow> (oscore_error, bytes \<times> nat) res" where
  "build_info_cbor ident id_context type_str out_len buf =
     and_then (put buf 0 0x85) (\<lambda>(buf, off).
     and_then (put_string_head 0x40 0x58 (length ident) buf off) (\<lambda>(buf, off).
     and_then (put_slice buf off ident) (\<lambda>(buf, off).
     and_then
       (case id_context of
          Some ic \<Rightarrow>
            and_then (put_string_head 0x40 0x58 (length ic) buf off) (\<lambda>(buf, off).
              put_slice buf off ic)
        | None \<Rightarrow> put buf off 0xF6) (\<lambda>(buf, off).
     and_then (put buf off ALG_AEAD) (\<lambda>(buf, off).
     let type_bytes = ascii type_str in
     and_then (put_string_head 0x60 0x78 (length type_bytes) buf off) (\<lambda>(buf, off).
     and_then (put_slice buf off type_bytes) (\<lambda>(buf, off).
       if out_len \<le> 23 then put buf off (as_u8 out_len)
       else if out_len \<le> 255 then
         and_then (store_at buf off 0x18) (\<lambda>buf.
         and_then (store_at buf (off + 1) (as_u8 out_len)) (\<lambda>buf. Ok (buf, off + 2)))
       else Err InvalidParam)))))))"

subsection \<open>The additional authenticated data\<close>

text \<open>The inner \<open>aad_array\<close>, in its own 64-byte buffer.\<close>

definition build_aad_inner ::
    "bytes \<Rightarrow> bytes \<Rightarrow> (oscore_error, bytes \<times> nat) res" where
  "build_aad_inner request_kid request_piv =
     and_then (put (replicate 64 0) 0 0x85) (\<lambda>(inner, ioff).
     and_then (put inner ioff 0x01) (\<lambda>(inner, ioff).
     and_then (put inner ioff 0x81) (\<lambda>(inner, ioff).
     and_then (put inner ioff ALG_AEAD) (\<lambda>(inner, ioff).
     if 23 < length request_kid then Err InvalidParam
     else
       and_then (put inner ioff (0x40 OR as_u8 (length request_kid))) (\<lambda>(inner, ioff).
       and_then (if request_kid \<noteq> [] then put_slice inner ioff request_kid else Ok (inner, ioff))
         (\<lambda>(inner, ioff).
       if 23 < length request_piv then Err InvalidParam
       else
         and_then (put inner ioff (0x40 OR as_u8 (length request_piv))) (\<lambda>(inner, ioff).
         and_then (if request_piv \<noteq> [] then put_slice inner ioff request_piv else Ok (inner, ioff))
           (\<lambda>(inner, ioff).
             put inner ioff 0x40))))))))"

definition build_aad_cbor ::
    "bytes \<Rightarrow> bytes \<Rightarrow> bytes \<Rightarrow> (oscore_error, bytes \<times> nat) res" where
  "build_aad_cbor request_kid request_piv buf =
     and_then (build_aad_inner request_kid request_piv) (\<lambda>(inner, ioff).
     let off = 0 in
     if length buf \<le> off then Err InvalidParam
     else
       and_then (put buf off 0x83) (\<lambda>(buf, off).
       if length buf < off + 9 then Err InvalidParam
       else
         and_then (put buf off 0x68) (\<lambda>(buf, off).
         and_then (put_slice buf off (ascii ''Encrypt0'')) (\<lambda>(buf, off).
         if length buf \<le> off then Err InvalidParam
         else
           and_then (put buf off 0x40) (\<lambda>(buf, off).
           and_then
             (if ioff \<le> 23 then
                if length buf \<le> off then Err InvalidParam
                else put buf off (0x40 OR as_u8 ioff)
              else
                if length buf \<le> off + 1 then Err InvalidParam
                else
                  and_then (store_at buf off 0x58) (\<lambda>buf.
                  and_then (store_at buf (off + 1) (as_u8 ioff)) (\<lambda>buf. Ok (buf, off + 2))))
             (\<lambda>(buf, off).
           if length buf < off + ioff then Err InvalidParam
           else
             and_then (slice inner 0 ioff) (\<lambda>src. put_slice buf off src)))))))"

subsection \<open>The nonce\<close>

text \<open>\<open>nonce[a..a + n].copy_from_slice(src)\<close>, where the guards keep the range inside.\<close>

definition overwrite :: "bytes \<Rightarrow> nat \<Rightarrow> bytes \<Rightarrow> bytes" where
  "overwrite xs a src = take a xs @ src @ drop (a + length src) xs"

definition compute_nonce :: "bytes \<Rightarrow> bytes \<Rightarrow> bytes \<Rightarrow> bytes" where
  "compute_nonce sender_id piv common_iv =
     (let nonce = replicate NONCE_LEN 0;
          nonce = nonce[0 := as_u8 (length sender_id)];
          nonce = (if length sender_id \<le> NONCE_ID_LEN
                   then overwrite nonce (NONCE_ID_END - length sender_id) sender_id else nonce);
          nonce = (if piv \<noteq> [] \<and> length piv \<le> PIV_MAX_LEN
                   then overwrite nonce (NONCE_LEN - length piv) piv else nonce)
      in map2 (\<lambda>n b. n XOR b) nonce common_iv)"

subsection \<open>Key derivation\<close>

definition len_prefixed :: "bytes \<Rightarrow> bytes" where
  "len_prefixed part = as_u8 (length part) # part"

definition derive_context_id ::
    "crypto \<Rightarrow> bytes \<Rightarrow> bytes \<Rightarrow> bytes option \<Rightarrow> bytes \<Rightarrow> context_id" where
  "derive_context_id C master_secret master_salt id_context sender_id =
     ContextId (sha256 C
       (ascii ''LICHEN OSCORE sender context'' @ [0] @
        concat (map len_prefixed [master_secret, master_salt]) @
        [if id_context = None then 0 else 1] @
        (case id_context of None \<Rightarrow> [] | Some ic \<Rightarrow> len_prefixed ic) @
        len_prefixed sender_id))"

definition derive_key ::
    "crypto \<Rightarrow> bytes \<Rightarrow> bytes \<Rightarrow> bytes \<Rightarrow> bytes option \<Rightarrow> (oscore_error, bytes) res" where
  "derive_key C master_secret master_salt ident id_context =
     and_then (build_info_cbor ident id_context ''Key'' KEY_LEN (replicate 64 0)) (\<lambda>(info, info_len).
     let hk = hkdf_extract C (Some master_salt) master_secret in
     and_then (slice info 0 info_len) (\<lambda>info.
       ok_or KeyDerivation (hkdf_expand C hk info KEY_LEN)))"

definition derive_iv ::
    "crypto \<Rightarrow> bytes \<Rightarrow> bytes \<Rightarrow> bytes option \<Rightarrow> (oscore_error, bytes) res" where
  "derive_iv C master_secret master_salt id_context =
     and_then (build_info_cbor [] id_context ''IV'' NONCE_LEN (replicate 64 0)) (\<lambda>(info, info_len).
     let hk = hkdf_extract C (Some master_salt) master_secret in
     and_then (slice info 0 info_len) (\<lambda>info.
       ok_or KeyDerivation (hkdf_expand C hk info NONCE_LEN)))"

subsection \<open>Closed forms\<close>

text \<open>The specification of the two buffers as concatenations.\<close>

definition cbor_bstr :: "bytes \<Rightarrow> bytes" where
  "cbor_bstr bs = as_u8 (64 + length bs) # bs"

definition info_cbor :: "bytes \<Rightarrow> bytes option \<Rightarrow> string \<Rightarrow> nat \<Rightarrow> bytes" where
  "info_cbor ident ctx ty len =
     [0x85] @ cbor_bstr ident @ (case ctx of None \<Rightarrow> [0xF6] | Some c \<Rightarrow> cbor_bstr c) @ [10] @
     (as_u8 (96 + length ty) # ascii ty) @ [as_u8 len]"

definition aad_array :: "bytes \<Rightarrow> bytes \<Rightarrow> bytes" where
  "aad_array kid piv = [0x85, 0x01, 0x81, 10] @ cbor_bstr kid @ cbor_bstr piv @ [0x40]"

definition enc_structure :: "bytes \<Rightarrow> bytes \<Rightarrow> bytes" where
  "enc_structure kid piv =
     [0x83, 0x68] @ ascii ''Encrypt0'' @ [0x40] @ cbor_bstr (aad_array kid piv)"

lemma or_small:
  assumes "n < 32"
  shows "0x40 OR as_u8 n = as_u8 (64 + n)" "0x60 OR as_u8 n = as_u8 (96 + n)"
proof -
  have "as_u8 n = take_bit 5 (as_u8 n)"
    using assms by (simp only: word_unat_eq_iff unsigned_take_bit_eq)
      (simp add: take_bit_nat_eq_self unat_of_nat)
  then have n: "as_u8 n = as_u8 n AND mask 5" by (simp only: take_bit_eq_mask)
  have disj: "b AND as_u8 n = 0" if "b AND mask 5 = 0" for b :: u8
    by (subst n) (simp only: and.left_commute [of b] that and_zero_eq)
  have "(0x40 :: u8) AND mask 5 = 0" "(0x60 :: u8) AND mask 5 = 0"
    by (simp_all add: mask_eq_exp_minus_1)
  then have "0x40 OR as_u8 n = 0x40 + as_u8 n" "0x60 OR as_u8 n = 0x60 + as_u8 n"
    by (simp_all only: disj disjunctive_add_eq_or)
  then show "0x40 OR as_u8 n = as_u8 (64 + n)" "0x60 OR as_u8 n = as_u8 (96 + n)" by simp_all
qed

lemma put_string_head_written [write_simps]:
  "len \<le> 23 \<Longrightarrow> length w < n \<Longrightarrow> off = length w \<Longrightarrow>
   put_string_head 0x40 0x58 len (written n w) off = Ok (written n (w @ [as_u8 (64 + len)]), Suc off)"
  "len \<le> 23 \<Longrightarrow> length w < n \<Longrightarrow> off = length w \<Longrightarrow>
   put_string_head 0x60 0x78 len (written n w) off = Ok (written n (w @ [as_u8 (96 + len)]), Suc off)"
  by (simp_all add: put_string_head_def put_written or_small del: of_nat_add)

lemma build_info_cbor_eq:
  assumes "length ident \<le> 23" and "case ctx of None \<Rightarrow> True | Some c \<Rightarrow> length c \<le> 23"
    and "length ty \<le> 3" and "len \<le> 23"
  shows "build_info_cbor ident ctx ty len (replicate 64 0) =
    Ok (written 64 (info_cbor ident ctx ty len), length (info_cbor ident ctx ty len))"
  using assms
  by (cases ctx)
    (simp_all add: build_info_cbor_def written_Nil write_simps info_cbor_def cbor_bstr_def Let_def
      del: of_nat_add replicate_0)

lemma length_info_cbor:
  "length (info_cbor ident ctx ty len) =
   5 + length ident + length ty + (case ctx of None \<Rightarrow> 1 | Some c \<Rightarrow> 1 + length c)"
  by (simp add: info_cbor_def cbor_bstr_def split: option.splits)

lemma length_aad_array [simp]: "length (aad_array kid piv) = 7 + length kid + length piv"
  by (simp add: aad_array_def cbor_bstr_def)

lemma build_aad_inner_eq:
  assumes "length kid \<le> 23" and "length piv \<le> 23"
  shows "build_aad_inner kid piv =
    Ok (written 64 (aad_array kid piv), length (aad_array kid piv))"
  using assms
  by (cases "kid = []"; cases "piv = []")
    (simp_all add: build_aad_inner_def written_Nil write_simps aad_array_def cbor_bstr_def or_small
      del: of_nat_add replicate_0)

lemma build_aad_cbor_eq:
  assumes "length kid + length piv \<le> 16"
  shows "build_aad_cbor kid piv (replicate 64 0) =
    Ok (written 64 (enc_structure kid piv), length (enc_structure kid piv))"
  using assms
  by (simp add: build_aad_cbor_def build_aad_inner_eq written_Nil write_simps enc_structure_def
      cbor_bstr_def [of "aad_array kid piv"] or_small slice_def Let_def
      take_written_len [of "7 + length kid + length piv" "aad_array kid piv"]
      del: of_nat_add replicate_0)

lemma derive_key_eq:
  assumes "length ident \<le> 23" and "case ctx of None \<Rightarrow> True | Some c \<Rightarrow> length c \<le> 23"
  shows "derive_key C ms salt ident ctx =
    ok_or KeyDerivation
      (hkdf_expand C (hkdf_extract C (Some salt) ms) (info_cbor ident ctx ''Key'' 16) 16)"
proof -
  have "length (info_cbor ident ctx ''Key'' 16) \<le> 64"
    using assms by (auto simp: length_info_cbor split: option.splits)
  with assms show ?thesis
    by (simp add: derive_key_def build_info_cbor_eq slice_def)
qed

lemma derive_iv_eq:
  assumes "case ctx of None \<Rightarrow> True | Some c \<Rightarrow> length c \<le> 23"
  shows "derive_iv C ms salt ctx =
    ok_or KeyDerivation
      (hkdf_expand C (hkdf_extract C (Some salt) ms) (info_cbor [] ctx ''IV'' 13) 13)"
proof -
  have "length (info_cbor [] ctx ''IV'' 13) \<le> 64"
    using assms by (auto simp: length_info_cbor split: option.splits)
  with assms show ?thesis
    by (simp add: derive_iv_def build_info_cbor_eq slice_def)
qed

subsection \<open>Injectivity\<close>

lemma cbor_bstr_prefix_free:
  assumes "length a \<le> 23" "length b \<le> 23" and "cbor_bstr a @ x = cbor_bstr b @ y"
  shows "a = b \<and> x = y"
proof -
  from assms(3) have "as_u8 (64 + length a) = as_u8 (64 + length b)"
    by (simp add: cbor_bstr_def del: of_nat_add)
  then have "length a = length b"
    using assms(1,2) as_u8_inject [of "64 + length a" "64 + length b"] by (simp del: of_nat_add)
  with assms(3) show ?thesis by (simp add: cbor_bstr_def)
qed

lemma cbor_bstr_inject: "cbor_bstr a = cbor_bstr b \<Longrightarrow> a = b"
  by (simp only: cbor_bstr_def list.inject)

lemma enc_structure_inject:
  assumes "length kid \<le> 23" "length piv \<le> 23" "length kid' \<le> 23" "length piv' \<le> 23"
    and "enc_structure kid piv = enc_structure kid' piv'"
  shows "kid = kid' \<and> piv = piv'"
proof -
  from assms(5) have "cbor_bstr (aad_array kid piv) = cbor_bstr (aad_array kid' piv')"
    by (simp only: enc_structure_def same_append_eq)
  from cbor_bstr_inject [OF this]
  have "cbor_bstr kid @ cbor_bstr piv @ [0x40] = cbor_bstr kid' @ cbor_bstr piv' @ [0x40]"
    by (simp only: aad_array_def same_append_eq)
  with cbor_bstr_prefix_free [OF assms(1,3)] cbor_bstr_prefix_free [OF assms(2,4)]
  show ?thesis by blast
qed

lemma info_cbor_inject:
  assumes len: "length a \<le> 23" "length a' \<le> 23"
      "case c of None \<Rightarrow> True | Some x \<Rightarrow> length x \<le> 23"
      "case c' of None \<Rightarrow> True | Some x \<Rightarrow> length x \<le> 23"
    and eq: "info_cbor a c ty n = info_cbor a' c' ty' n'"
  shows "a = a' \<and> c = c'"
proof -
  define tl where "tl = [10 :: u8] @ (as_u8 (96 + length ty) # ascii ty) @ [as_u8 n]"
  define tl' where "tl' = [10 :: u8] @ (as_u8 (96 + length ty') # ascii ty') @ [as_u8 n']"
  let ?ctx = "\<lambda>c. case c of None \<Rightarrow> [0xF6] | Some x \<Rightarrow> cbor_bstr x"
  from eq have "cbor_bstr a @ (?ctx c @ tl) = cbor_bstr a' @ (?ctx c' @ tl')"
    by (simp add: info_cbor_def tl_def tl'_def)
  from cbor_bstr_prefix_free [OF len(1,2) this] have a: "a = a'" and c: "?ctx c @ tl = ?ctx c' @ tl'"
    by auto
  have ne: "as_u8 (64 + k) \<noteq> 0xF6" if "k \<le> 23" for k
    using that by (simp add: word_unat_eq_iff unat_as_u8 del: of_nat_add)
  have "c = c'"
  proof (cases c; cases c')
    fix x x' assume "c = Some x" "c' = Some x'"
    with c len show ?thesis by (auto dest: cbor_bstr_prefix_free)
  qed (use c len ne in \<open>auto simp: cbor_bstr_def simp del: of_nat_add dest: sym\<close>)
  with a show ?thesis by simp
qed

text \<open>The nonce before the exclusive-or: the identifier's length, the left-padded identifier
  and the left-padded Partial IV.\<close>

definition nonce_fields :: "bytes \<Rightarrow> bytes \<Rightarrow> bytes" where
  "nonce_fields sid piv =
     as_u8 (length sid) # replicate (7 - length sid) 0 @ sid @ replicate (5 - length piv) 0 @ piv"

lemma length_nonce_fields [simp]:
  "length sid \<le> 7 \<Longrightarrow> length piv \<le> 5 \<Longrightarrow> length (nonce_fields sid piv) = 13"
  by (simp add: nonce_fields_def)

lemma compute_nonce_eq:
  assumes "length sid \<le> 7" and "length piv \<le> 5" and "piv \<noteq> []"
  shows "compute_nonce sid piv iv = map2 (\<lambda>n b. n XOR b) (nonce_fields sid piv) iv"
proof -
  have z: "(replicate 13 0 :: bytes)[0 := b] = b # replicate 12 0" for b
    by (simp add: eval_nat_numeral)
  have id: "overwrite (b # replicate 12 0) (8 - length sid) sid
      = b # replicate (7 - length sid) 0 @ sid @ replicate 5 0" for b
    using assms(1) by (simp add: overwrite_def take_Cons' drop_Cons' min_def)
  have pv: "overwrite (b # replicate (7 - length sid) 0 @ sid @ replicate 5 0) (13 - length piv) piv
      = b # replicate (7 - length sid) 0 @ sid @ replicate (5 - length piv) 0 @ piv" for b
  proof -
    define zs where "zs = b # replicate (7 - length sid) 0 @ sid"
    have z: "length zs = 8" using assms(1) by (simp add: zs_def)
    have t: "13 - length piv - 8 = 5 - length piv" "length piv \<le> 13 - 8" "13 - length piv + length piv = 13"
      using assms(2) by simp_all
    have "overwrite (zs @ replicate 5 0) (13 - length piv) piv = zs @ replicate (5 - length piv) 0 @ piv"
      using assms(2) z by (simp add: overwrite_def t)
    then show ?thesis by (simp add: zs_def)
  qed
  show ?thesis
    using assms by (simp add: compute_nonce_def z id pv nonce_fields_def Let_def del: replicate.simps)
qed

lemma length_compute_nonce:
  "length sid \<le> 7 \<Longrightarrow> length piv \<le> 5 \<Longrightarrow> piv \<noteq> [] \<Longrightarrow> length iv = 13 \<Longrightarrow>
   length (compute_nonce sid piv iv) = 13"
  by (simp add: compute_nonce_eq)

lemma nonce_fields_inject:
  assumes len: "length a \<le> 7" "length b \<le> 7" "length p \<le> 5" "length q \<le> 5"
    and can: "canonical_be p" "canonical_be q" and eq: "nonce_fields a p = nonce_fields b q"
  shows "a = b \<and> p = q"
proof -
  from eq have hd: "as_u8 (length a) = as_u8 (length b)"
    by (simp only: nonce_fields_def list.inject)
  with len as_u8_inject [of "length a" "length b"] have l: "length a = length b" by simp
  from eq have "a @ replicate (5 - length p) 0 @ p = b @ replicate (5 - length q) 0 @ q"
    by (simp only: nonce_fields_def list.inject l same_append_eq)
  with l have ab: "a = b" and pq: "replicate (5 - length p) 0 @ p = replicate (5 - length q) 0 @ q"
    by auto
  from canonical_pad_inject [OF can pq] ab show ?thesis by simp
qed

lemma compute_nonce_inject:
  assumes len: "length a \<le> 7" "length b \<le> 7" "length iv = 13"
    and piv: "from_piv p = Some s" "from_piv q = Some t"
    and eq: "compute_nonce a p iv = compute_nonce b q iv"
  shows "a = b \<and> p = q"
proof -
  from piv have can: "canonical_be p" "canonical_be q" and l: "length p \<le> 5" "length q \<le> 5"
    by (auto simp: from_piv_eq split: if_splits)
  then have ne: "p \<noteq> []" "q \<noteq> []" by (auto simp: canonical_be_def)
  from eq have "map2 (\<lambda>n b. n XOR b) (nonce_fields a p) iv = map2 (\<lambda>n b. n XOR b) (nonce_fields b q) iv"
    by (simp only: compute_nonce_eq [OF len(1) l(1) ne(1)] compute_nonce_eq [OF len(2) l(2) ne(2)])
  from map2_xor_inject [OF _ _ this] have "nonce_fields a p = nonce_fields b q"
    by (simp add: len l)
  from nonce_fields_inject [OF len(1,2) l can this] show ?thesis .
qed

end
