(* ===== verification/Window.thy ===== *)
theory Window
  imports OscoreTypes
begin

text \<open>
  Sliding replay windows. \<^verbatim>\<open>src/lib.rs\<close> keeps four of them in a context: one for incoming
  requests (\<open>is_replay\<close>, \<open>update_replay_window\<close>) and three for responses
  (\<open>is_response_reuse\<close>, \<open>is_received_response_reuse\<close>, \<open>is_received_response_piv_reuse\<close>
  and their \<open>mark\<close> functions), which share one body up to the fields they touch. The bodies are
  defined here over the fields; \<^verbatim>\<open>Context\<close> instantiates them.

  The locale \<open>replay_window\<close> is what every caller relies on: a number that was not rejected can
  be marked, and afterwards exactly the marked number and the numbers that fell out of the window
  are rejected in addition. Its lemmas describe whole runs: no number is accepted twice, and a
  number is rejected exactly when it was accepted before or lies 32 or more below an accepted one.
\<close>

subsection \<open>The bodies\<close>

text \<open>\<open>1u32 << n\<close>: a shift by 32 or more panics under overflow checks and is masked otherwise.\<close>

definition shl_one :: "bool \<Rightarrow> nat \<Rightarrow> ('e, u32) res" where
  "shl_one oc n =
     (if n < 32 then Ok (push_bit n 1) else if oc then Panic else Ok (push_bit (n mod 32) 1))"

definition window_reuse :: "bool \<Rightarrow> oscore_seq_num \<Rightarrow> u32 \<Rightarrow> oscore_seq_num \<Rightarrow> bool" where
  "window_reuse initialized highest window seq =
     (if \<not> initialized \<or> get highest < get seq then False
      else
        let diff = get highest - get seq in
        ucast WINDOW_SIZE \<le> diff \<or> window AND push_bit (unat diff) 1 \<noteq> 0)"

definition window_mark ::
    "bool \<Rightarrow> bool \<Rightarrow> oscore_seq_num \<Rightarrow> u32 \<Rightarrow> oscore_seq_num \<Rightarrow> ('e, oscore_seq_num \<times> u32) res" where
  "window_mark oc initialized highest window seq =
     (if \<not> initialized then Ok (seq, 1)
      else if get highest < get seq then
        let shift = get seq - get highest in
        Ok (seq, if ucast WINDOW_SIZE \<le> shift then 1 else push_bit (unat shift) window OR 1)
      else
        let diff = get highest - get seq in
        and_then (shl_one oc (unat diff)) (\<lambda>bit. Ok (highest, window OR bit)))"

definition replay_check :: "oscore_seq_num \<Rightarrow> u32 \<Rightarrow> oscore_seq_num \<Rightarrow> bool" where
  "replay_check highest window seq =
     (if get highest < get seq then False
      else
        let diff = get highest - get seq in
        if ucast WINDOW_SIZE \<le> diff then True
        else let mask = push_bit (unat diff) 1 in window AND mask \<noteq> 0)"

definition replay_update ::
    "oscore_seq_num \<Rightarrow> u32 \<Rightarrow> oscore_seq_num \<Rightarrow> oscore_seq_num \<times> u32" where
  "replay_update highest window seq =
     (if get highest < get seq then
        let shift = get seq - get highest;
            window = (if ucast WINDOW_SIZE \<le> shift then 0 else push_bit (unat shift) window)
        in (seq, window OR 1)
      else
        let diff = get highest - get seq in
        if diff < ucast WINDOW_SIZE then (highest, window OR push_bit (unat diff) 1)
        else (highest, window))"

subsection \<open>The bodies over natural numbers\<close>

declare push_bit_of_1 [simp del]

abbreviation seq_val :: "oscore_seq_num \<Rightarrow> nat" where
  "seq_val s \<equiv> unat (get s)"

lemma seq_val_inject: "seq_val s = seq_val t \<longleftrightarrow> s = t"
  by (cases s; cases t) (simp add: word_unat_eq_iff)

lemma WINDOW_SIZE_le: "ucast WINDOW_SIZE \<le> (d :: u64) \<longleftrightarrow> 32 \<le> unat d"
  by (simp add: WINDOW_SIZE_def word_le_nat_alt)

lemma less_WINDOW_SIZE: "(d :: u64) < ucast WINDOW_SIZE \<longleftrightarrow> unat d < 32"
  by (simp add: WINDOW_SIZE_def word_less_nat_alt)

lemma and_push_bit_one: "(w :: u32) AND push_bit n 1 \<noteq> 0 \<longleftrightarrow> bit w n"
  by (simp add: bit_iff_and_push_bit_not_eq_0)

lemma window_reuse_iff:
  "window_reuse initialized highest w s \<longleftrightarrow>
     initialized \<and> seq_val s \<le> seq_val highest \<and>
     (seq_val s + 32 \<le> seq_val highest \<or> bit w (seq_val highest - seq_val s))"
proof (cases "get highest < get s")
  case False
  then have le: "get s \<le> get highest" by simp
  then have "unat (get highest - get s) = seq_val highest - seq_val s" "seq_val s \<le> seq_val highest"
    by (simp_all add: unat_sub word_le_nat_alt)
  with False show ?thesis
    by (auto simp: window_reuse_def Let_def WINDOW_SIZE_le and_push_bit_one)
qed (simp add: window_reuse_def word_less_nat_alt)

lemma replay_check_eq: "replay_check highest w s \<longleftrightarrow> window_reuse True highest w s"
  by (simp add: replay_check_def window_reuse_def Let_def)

lemma bit_window_or:
  "bit ((w :: u32) OR push_bit n 1) k \<longleftrightarrow> bit w k \<or> (n = k \<and> n < 32)"
  by (auto simp: bit_or_iff bit_push_bit_iff bit_1_iff dest: bit_imp_le_length)

lemma bit_window_shift:
  "bit (push_bit n (w :: u32) OR 1) k \<longleftrightarrow> k = 0 \<or> (n \<le> k \<and> k < 32 \<and> bit w (k - n))"
  by (auto simp: bit_or_iff bit_push_bit_iff bit_1_iff)

text \<open>
  What marking a number that is not rejected does, for a window that has been initialised and for
  one that has not.
\<close>

lemma window_mark_exact:
  assumes "\<not> window_reuse initialized highest w s"
  shows "\<exists>highest' w'. window_mark oc initialized highest w s = Ok (highest', w') \<and>
    (\<forall>t. window_reuse True highest' w' t \<longleftrightarrow>
       window_reuse initialized highest w t \<or> t = s \<or> seq_val t + 32 \<le> seq_val s)"
proof (cases "initialized")
  case False
  then show ?thesis
    by (auto simp: window_mark_def window_reuse_iff bit_1_iff seq_val_inject [symmetric])
next
  case True
  show ?thesis
  proof (cases "get highest < get s")
    case above: True
    then have lt: "seq_val highest < seq_val s" by (simp add: word_less_nat_alt)
    from above have sh: "unat (get s - get highest) = seq_val s - seq_val highest"
      by (simp add: unat_sub word_le_nat_alt word_less_nat_alt)
    show ?thesis
    proof (cases "32 \<le> seq_val s - seq_val highest")
      case far: True
      have m: "window_mark oc initialized highest w s = Ok (s, 1)"
        using \<open>initialized\<close> above far sh by (simp add: window_mark_def Let_def WINDOW_SIZE_le)
      have "window_reuse True s 1 t \<longleftrightarrow>
          window_reuse initialized highest w t \<or> t = s \<or> seq_val t + 32 \<le> seq_val s" for t
        using far lt \<open>initialized\<close>
        by (auto simp: window_reuse_iff bit_1_iff seq_val_inject [symmetric])
      with m show ?thesis by auto
    next
      case near: False
      have m: "window_mark oc initialized highest w s =
          Ok (s, push_bit (seq_val s - seq_val highest) w OR 1)"
        using \<open>initialized\<close> above near sh by (simp add: window_mark_def Let_def WINDOW_SIZE_le)
      have "window_reuse True s (push_bit (seq_val s - seq_val highest) w OR 1) t \<longleftrightarrow>
          window_reuse initialized highest w t \<or> t = s \<or> seq_val t + 32 \<le> seq_val s" for t
      proof -
        have "seq_val s - seq_val t - (seq_val s - seq_val highest) = seq_val highest - seq_val t"
          "seq_val s - seq_val highest \<le> seq_val s - seq_val t \<longleftrightarrow> seq_val t \<le> seq_val highest \<or> seq_val s \<le> seq_val highest"
          if "seq_val t \<le> seq_val s"
          using lt that by auto
        then show ?thesis
          using near lt \<open>initialized\<close>
          by (auto simp: window_reuse_iff bit_window_shift seq_val_inject [symmetric])
      qed
      with m show ?thesis by blast
    qed
  next
    case below: False
    then have le: "seq_val s \<le> seq_val highest" by (simp add: word_less_nat_alt)
    with below have d: "unat (get highest - get s) = seq_val highest - seq_val s"
      by (simp add: unat_sub word_le_nat_alt)
    from assms le True have near: "seq_val highest - seq_val s < 32"
      by (auto simp: window_reuse_iff)
    have m: "window_mark oc initialized highest w s =
        Ok (highest, w OR push_bit (seq_val highest - seq_val s) 1)"
      using True below near d by (simp add: window_mark_def Let_def shl_one_def)
    have "window_reuse True highest (w OR push_bit (seq_val highest - seq_val s) 1) t \<longleftrightarrow>
        window_reuse initialized highest w t \<or> t = s \<or> seq_val t + 32 \<le> seq_val s" for t
      using near le True
      by (auto simp: window_reuse_iff bit_window_or seq_val_inject [symmetric])
    with m show ?thesis by blast
  qed
qed

text \<open>The request window does the same; its uninitialised state is an empty window at zero.\<close>

lemma replay_update_mark:
  assumes "\<not> replay_check highest w s"
  shows "window_mark oc True highest w s = Ok (replay_update highest w s)"
proof (cases "get highest < get s")
  case False
  with assms have "get highest - get s < ucast WINDOW_SIZE"
    by (simp add: replay_check_def Let_def not_le split: if_splits)
  moreover then have "unat (get highest - get s) < 32" by (simp add: less_WINDOW_SIZE)
  ultimately show ?thesis
    using False by (simp add: window_mark_def replay_update_def Let_def shl_one_def)
qed (simp add: window_mark_def replay_update_def Let_def)

lemma replay_update_exact:
  assumes "\<not> replay_check highest w s" and "replay_update highest w s = (highest', w')"
  shows "replay_check highest' w' t \<longleftrightarrow>
    replay_check highest w t \<or> t = s \<or> seq_val t + 32 \<le> seq_val s"
proof -
  have m: "window_mark True True highest w s = (Ok (highest', w') :: (unit, _) res)"
    using replay_update_mark [OF assms(1)] assms(2) by simp
  have "\<not> window_reuse True highest w s"
    using assms(1) by (simp add: replay_check_eq)
  from window_mark_exact [OF this, where oc = True, where 'a = unit] m show ?thesis
    unfolding replay_check_eq by (elim exE conjE) simp
qed

subsection \<open>The contract of a window\<close>

locale replay_window =
  fixes reuse :: "'w \<Rightarrow> oscore_seq_num \<Rightarrow> bool"
    and mark :: "'w \<Rightarrow> oscore_seq_num \<Rightarrow> ('e, 'w) res"
  assumes mark_exact: "\<not> reuse w s \<Longrightarrow>
    \<exists>w'. mark w s = Ok w' \<and> (\<forall>t. reuse w' t \<longleftrightarrow> reuse w t \<or> t = s \<or> seq_val t + 32 \<le> seq_val s)"
begin

text \<open>A run: each arriving number is checked and, when it is not rejected, marked.\<close>

primrec run :: "'w \<Rightarrow> oscore_seq_num list \<Rightarrow> ('e, oscore_seq_num list \<times> 'w) res" where
  "run w [] = Ok ([], w)"
| "run w (s # ss) =
     (if reuse w s then run w ss
      else and_then (mark w s) (\<lambda>w. and_then (run w ss) (\<lambda>(acc, w). Ok (s # acc, w))))"

lemma mark_Ok:
  assumes "\<not> reuse w s"
  obtains w' where "mark w s = Ok w'"
    "\<And>t. reuse w' t \<longleftrightarrow> reuse w t \<or> t = s \<or> seq_val t + 32 \<le> seq_val s"
  using mark_exact [OF assms] by blast

lemma run_exact:
  "\<exists>acc w'. run w ss = Ok (acc, w') \<and> distinct acc \<and> set acc \<subseteq> set ss \<and>
     (\<forall>s \<in> set acc. \<not> reuse w s) \<and>
     (\<forall>t. reuse w' t \<longleftrightarrow> reuse w t \<or> t \<in> set acc \<or> (\<exists>s \<in> set acc. seq_val t + 32 \<le> seq_val s))"
proof (induction ss arbitrary: w)
  case (Cons s ss)
  show ?case
  proof (cases "reuse w s")
    case True
    with Cons.IH [of w] show ?thesis by auto
  next
    case False
    then obtain w1 where w1: "mark w s = Ok w1"
      and r: "\<And>t. reuse w1 t \<longleftrightarrow> reuse w t \<or> t = s \<or> seq_val t + 32 \<le> seq_val s"
      by (rule mark_Ok) blast
    from Cons.IH [of w1] obtain acc w' where
      "run w1 ss = Ok (acc, w')" "distinct acc" "set acc \<subseteq> set ss" "\<forall>s \<in> set acc. \<not> reuse w1 s"
      "\<forall>t. reuse w' t \<longleftrightarrow> reuse w1 t \<or> t \<in> set acc \<or> (\<exists>s \<in> set acc. seq_val t + 32 \<le> seq_val s)"
      by blast
    with False w1 r have "run w (s # ss) = Ok (s # acc, w')" "distinct (s # acc)"
      "set (s # acc) \<subseteq> set (s # ss)" "\<forall>x \<in> set (s # acc). \<not> reuse w x"
      "\<forall>t. reuse w' t \<longleftrightarrow>
         reuse w t \<or> t \<in> set (s # acc) \<or> (\<exists>x \<in> set (s # acc). seq_val t + 32 \<le> seq_val x)"
      by auto
    then show ?thesis by blast
  qed
qed simp

lemma mark_keeps_reuse: "\<not> reuse w s \<Longrightarrow> mark w s = Ok w' \<Longrightarrow> reuse w t \<Longrightarrow> reuse w' t"
  using mark_exact [of w s] by auto

lemma mark_reuse: "\<not> reuse w s \<Longrightarrow> mark w s = Ok w' \<Longrightarrow> reuse w' s"
  using mark_exact [of w s] by auto

lemma run_no_panic: "run w ss \<noteq> Panic"
  using run_exact [of w ss] by auto

end

text \<open>The two bodies meet the contract.\<close>

interpretation request_window: replay_window
  "\<lambda>(highest, w). replay_check highest w" "\<lambda>(highest, w) s. Ok (replay_update highest w s)"
proof
  fix w :: "oscore_seq_num \<times> u32" and s
  assume "\<not> (case w of (highest, w) \<Rightarrow> replay_check highest w) s"
  then show "\<exists>w'. (case w of (highest, w) \<Rightarrow> \<lambda>s. Ok (replay_update highest w s)) s = (Ok w' :: ('e, _) res) \<and>
      (\<forall>t. (case w' of (highest, w) \<Rightarrow> replay_check highest w) t \<longleftrightarrow>
        (case w of (highest, w) \<Rightarrow> replay_check highest w) t \<or> t = s \<or> seq_val t + 32 \<le> seq_val s)"
    by (cases w; cases "replay_update (fst w) (snd w) s") (auto simp: replay_update_exact)
qed

end
