(* ===== verification/OscoreContext.thy ===== *)
theory OscoreContext
  imports OptionCodec InnerBody OscoreCrypto Window
begin

text \<open>
  The security context of \<^verbatim>\<open>src/lib.rs\<close>: the struct \<open>Context\<close> with its arrays and length
  bytes, its construction and key derivation, the durable-store trait with registration and
  restoration, the sender reservation, the preflight checks and the four replay windows. The record
  keeps every field of the struct; \<open>wf_context\<close> is the invariant that the constructor establishes
  and every operation keeps.
\<close>

subsection \<open>The struct\<close>

record oscore_context =
  ctx_master_secret :: bytes
  ctx_master_salt :: bytes
  ctx_master_salt_len :: u8
  ctx_common_iv :: bytes
  ctx_id_context :: bytes
  ctx_id_context_len :: u8
  ctx_id_context_present :: bool
  ctx_sender_id :: bytes
  ctx_sender_id_len :: u8
  ctx_sender_key :: bytes
  ctx_sender_seq :: oscore_seq_num
  ctx_sender_seq_exhausted :: bool
  ctx_restored :: bool
  ctx_active :: bool
  ctx_recipient_id :: bytes
  ctx_recipient_id_len :: u8
  ctx_recipient_key :: bytes
  ctx_recipient_seq :: oscore_seq_num
  ctx_replay_window :: u32
  ctx_response_seq :: oscore_seq_num
  ctx_response_window :: u32
  ctx_response_window_initialized :: bool
  ctx_received_response_seq :: oscore_seq_num
  ctx_received_response_window :: u32
  ctx_received_response_window_initialized :: bool
  ctx_received_response_piv_seq :: oscore_seq_num
  ctx_received_response_piv_window :: u32
  ctx_received_response_piv_window_initialized :: bool
  ctx_allow_no_piv_response :: bool
  ctx_context_id :: context_id

subsection \<open>Construction\<close>

definition context_new ::
    "crypto \<Rightarrow> bytes \<Rightarrow> bytes option \<Rightarrow> bytes option \<Rightarrow> bytes \<Rightarrow> bytes \<Rightarrow> (oscore_error, oscore_context) res" where
  "context_new C master_secret master_salt id_context sid rid =
     (if NONCE_ID_LEN < length sid \<or> NONCE_ID_LEN < length rid then Err InvalidParam
      else if sid = [] \<and> rid = [] then Err InvalidParam
      else if sid = rid then Err InvalidParam
      else
        let salt = (case master_salt of None \<Rightarrow> [] | Some s \<Rightarrow> s) in
        if SALT_MAX_LEN < length salt then Err InvalidParam
        else if (case id_context of Some ic \<Rightarrow> ID_CONTEXT_CAPACITY < length ic | None \<Rightarrow> False)
          then Err InvalidParam
        else
          let id_context_value = (case id_context of None \<Rightarrow> [] | Some ic \<Rightarrow> ic);
              context_id = derive_context_id C master_secret salt id_context sid in
          and_then (copy_at (replicate SALT_MAX_LEN 0) 0 salt) (\<lambda>salt_buf.
          and_then (copy_at (replicate ID_CONTEXT_CAPACITY 0) 0 id_context_value) (\<lambda>id_context_buf.
          and_then (copy_at (replicate ID_MAX_LEN 0) 0 sid) (\<lambda>sid_buf.
          and_then (copy_at (replicate ID_MAX_LEN 0) 0 rid) (\<lambda>rid_buf.
          and_then (derive_key C master_secret salt sid id_context) (\<lambda>sender_key.
          and_then (derive_key C master_secret salt rid id_context) (\<lambda>recipient_key.
          and_then (derive_iv C master_secret salt id_context) (\<lambda>common_iv.
            Ok \<lparr>ctx_master_secret = master_secret,
                ctx_master_salt = salt_buf,
                ctx_master_salt_len = as_u8 (length salt),
                ctx_common_iv = common_iv,
                ctx_id_context = id_context_buf,
                ctx_id_context_len = as_u8 (length id_context_value),
                ctx_id_context_present = (id_context \<noteq> None),
                ctx_sender_id = sid_buf,
                ctx_sender_id_len = as_u8 (length sid),
                ctx_sender_key = sender_key,
                ctx_sender_seq = seq_default,
                ctx_sender_seq_exhausted = False,
                ctx_restored = False,
                ctx_active = False,
                ctx_recipient_id = rid_buf,
                ctx_recipient_id_len = as_u8 (length rid),
                ctx_recipient_key = recipient_key,
                ctx_recipient_seq = seq_default,
                ctx_replay_window = 0,
                ctx_response_seq = seq_default,
                ctx_response_window = 0,
                ctx_response_window_initialized = False,
                ctx_received_response_seq = seq_default,
                ctx_received_response_window = 0,
                ctx_received_response_window_initialized = False,
                ctx_received_response_piv_seq = seq_default,
                ctx_received_response_piv_window = 0,
                ctx_received_response_piv_window_initialized = False,
                ctx_allow_no_piv_response = False,
                ctx_context_id = context_id\<rparr>))))))))"

definition context_new_fresh ::
    "crypto \<Rightarrow> bytes \<Rightarrow> bytes option \<Rightarrow> bytes option \<Rightarrow> bytes \<Rightarrow> bytes \<Rightarrow> (oscore_error, oscore_context) res" where
  "context_new_fresh C master_secret master_salt id_context sid rid =
     and_then (context_new C master_secret master_salt id_context sid rid) (\<lambda>ctx.
       Ok (ctx\<lparr>ctx_restored := False, ctx_active := False, ctx_allow_no_piv_response := True\<rparr>))"

subsection \<open>State snapshots\<close>

definition set_sender_state ::
    "oscore_context \<Rightarrow> sender_sequence_state \<Rightarrow> (oscore_error, oscore_context) res" where
  "set_sender_state ctx state =
     and_then (ok_or InvalidParam (seq_new (next_sequence state))) (\<lambda>sequence.
       if exhausted state \<and> next_sequence state \<noteq> SEQ_MAX then Err InvalidParam
       else Ok (ctx\<lparr>ctx_sender_seq := sequence, ctx_sender_seq_exhausted := exhausted state\<rparr>))"

definition restore_for_vectors ::
    "crypto \<Rightarrow> bytes \<Rightarrow> bytes option \<Rightarrow> bytes \<Rightarrow> bytes \<Rightarrow> u64 \<Rightarrow> (oscore_error, oscore_context) res" where
  "restore_for_vectors C master_secret master_salt sid rid next_seq =
     and_then (context_new C master_secret master_salt None sid rid) (\<lambda>ctx.
     let state = \<lparr>next_sequence = next_seq, exhausted = False\<rparr> in
     and_then (set_sender_state ctx state) (\<lambda>ctx.
       Ok (ctx\<lparr>ctx_restored := True, ctx_active := True, ctx_allow_no_piv_response := True\<rparr>)))"

text \<open>The constructors that are compiled for tests only.\<close>

definition new_ephemeral ::
    "crypto \<Rightarrow> bytes \<Rightarrow> bytes option \<Rightarrow> bytes \<Rightarrow> bytes \<Rightarrow> (oscore_error, oscore_context) res" where
  "new_ephemeral C master_secret salt_opt sid rid =
     and_then (context_new C master_secret salt_opt None sid rid) (\<lambda>ctx.
       Ok (ctx\<lparr>ctx_restored := False, ctx_active := True, ctx_allow_no_piv_response := True\<rparr>))"

definition restore ::
    "crypto \<Rightarrow> bytes \<Rightarrow> bytes option \<Rightarrow> bytes \<Rightarrow> bytes \<Rightarrow> u64 \<Rightarrow> bool \<Rightarrow> (oscore_error, oscore_context) res" where
  "restore C master_secret salt_opt sid rid next_seq is_exhausted =
     and_then (context_new C master_secret salt_opt None sid rid) (\<lambda>ctx.
     let state = \<lparr>next_sequence = next_seq, exhausted = is_exhausted\<rparr> in
     and_then (set_sender_state ctx state) (\<lambda>ctx.
       Ok (ctx\<lparr>ctx_restored := True, ctx_active := True, ctx_allow_no_piv_response := False\<rparr>)))"

datatype construction = Fresh | Ephemeral | Stored sender_sequence_state

definition from_sender_state ::
    "crypto \<Rightarrow> bytes \<Rightarrow> bytes option \<Rightarrow> bytes option \<Rightarrow> bytes \<Rightarrow> bytes \<Rightarrow> construction \<Rightarrow>
     (oscore_error, oscore_context) res" where
  "from_sender_state C master_secret salt_opt id_ctx sid rid how =
     and_then (context_new C master_secret salt_opt id_ctx sid rid) (\<lambda>ctx.
       case how of
         Fresh \<Rightarrow> Ok (ctx\<lparr>ctx_restored := False, ctx_active := False, ctx_allow_no_piv_response := True\<rparr>)
       | Ephemeral \<Rightarrow> Ok (ctx\<lparr>ctx_restored := False, ctx_active := True, ctx_allow_no_piv_response := True\<rparr>)
       | Stored state \<Rightarrow>
           and_then (set_sender_state ctx state) (\<lambda>ctx.
             Ok (ctx\<lparr>ctx_restored := True, ctx_active := True, ctx_allow_no_piv_response := False\<rparr>)))"

definition sender_seq :: "oscore_context \<Rightarrow> oscore_seq_num option" where
  "sender_seq ctx = (if \<not> ctx_sender_seq_exhausted ctx then Some (ctx_sender_seq ctx) else None)"

definition sender_sequence_state :: "oscore_context \<Rightarrow> sender_sequence_state" where
  "sender_sequence_state ctx =
     \<lparr>next_sequence = get (ctx_sender_seq ctx), exhausted = ctx_sender_seq_exhausted ctx\<rparr>"

definition recipient_replay_state :: "oscore_context \<Rightarrow> recipient_replay_state" where
  "recipient_replay_state ctx = \<lparr>
     rs_recipient_seq = get (ctx_recipient_seq ctx),
     rs_replay_window = ctx_replay_window ctx,
     rs_response_seq = get (ctx_response_seq ctx),
     rs_response_window = ctx_response_window ctx,
     rs_response_window_initialized = ctx_response_window_initialized ctx,
     rs_received_response_seq = get (ctx_received_response_seq ctx),
     rs_received_response_window = ctx_received_response_window ctx,
     rs_received_response_window_initialized = ctx_received_response_window_initialized ctx,
     rs_received_response_piv_seq = get (ctx_received_response_piv_seq ctx),
     rs_received_response_piv_window = ctx_received_response_piv_window ctx,
     rs_received_response_piv_window_initialized =
       ctx_received_response_piv_window_initialized ctx\<rparr>"

definition seq_or_default :: "u64 \<Rightarrow> oscore_seq_num" where
  "seq_or_default v = (case seq_new v of None \<Rightarrow> seq_default | Some s \<Rightarrow> s)"

definition set_recipient_replay_state :: "oscore_context \<Rightarrow> recipient_replay_state \<Rightarrow> oscore_context" where
  "set_recipient_replay_state ctx s = ctx\<lparr>
     ctx_recipient_seq := seq_or_default (rs_recipient_seq s),
     ctx_replay_window := rs_replay_window s,
     ctx_response_seq := seq_or_default (rs_response_seq s),
     ctx_response_window := rs_response_window s,
     ctx_response_window_initialized := rs_response_window_initialized s,
     ctx_received_response_seq := seq_or_default (rs_received_response_seq s),
     ctx_received_response_window := rs_received_response_window s,
     ctx_received_response_window_initialized := rs_received_response_window_initialized s,
     ctx_received_response_piv_seq := seq_or_default (rs_received_response_piv_seq s),
     ctx_received_response_piv_window := rs_received_response_piv_window s,
     ctx_received_response_piv_window_initialized := rs_received_response_piv_window_initialized s\<rparr>"

subsection \<open>Accessors\<close>

definition is_restored :: "oscore_context \<Rightarrow> bool" where
  "is_restored ctx = ctx_restored ctx"

definition sender_id :: "oscore_context \<Rightarrow> bytes" where
  "sender_id ctx = take (as_usize (ctx_sender_id_len ctx)) (ctx_sender_id ctx)"

definition recipient_id :: "oscore_context \<Rightarrow> bytes" where
  "recipient_id ctx = take (as_usize (ctx_recipient_id_len ctx)) (ctx_recipient_id ctx)"

definition master_salt :: "oscore_context \<Rightarrow> bytes" where
  "master_salt ctx = take (as_usize (ctx_master_salt_len ctx)) (ctx_master_salt ctx)"

definition id_context :: "oscore_context \<Rightarrow> bytes" where
  "id_context ctx = take (as_usize (ctx_id_context_len ctx)) (ctx_id_context ctx)"

subsection \<open>The durable store\<close>

text \<open>The trait \<open>ContextStateStore\<close>: its four operations on a store of type \<open>'s\<close> with errors
  of type \<open>'x\<close>, as a record that the operations below take as an argument.\<close>

record ('s, 'x) context_state_store =
  load_sender :: "'s \<Rightarrow> context_id \<Rightarrow> 's \<times> ('x, sender_sequence_state option) res"
  compare_exchange_sender ::
    "'s \<Rightarrow> context_id \<Rightarrow> sender_sequence_state option \<Rightarrow> sender_sequence_state \<Rightarrow> 's \<times> ('x, bool) res"
  load_recipient :: "'s \<Rightarrow> context_id \<Rightarrow> 's \<times> ('x, recipient_replay_state option) res"
  save_recipient :: "'s \<Rightarrow> context_id \<Rightarrow> recipient_replay_state \<Rightarrow> 's \<times> ('x, unit) res"

definition register_fresh ::
    "('s, 'x) context_state_store \<Rightarrow> oscore_context \<Rightarrow> 's \<Rightarrow> 's \<times> ('x context_store_error, oscore_context) res" where
  "register_fresh S ctx st =
     (if ctx_restored ctx \<or> ctx_active ctx then (st, Err (Oscore InvalidParam))
      else
        let (st, r) = compare_exchange_sender S st (ctx_context_id ctx) None (sender_sequence_state ctx)
        in (st, and_then (map_err Storage r) (\<lambda>swapped.
             if \<not> swapped then Err Conflict
             else Ok (ctx\<lparr>ctx_active := True, ctx_allow_no_piv_response := True\<rparr>))))"

definition restore_existing ::
    "('s, 'x) context_state_store \<Rightarrow> oscore_context \<Rightarrow> 's \<Rightarrow> 's \<times> ('x context_store_error, oscore_context) res" where
  "restore_existing S ctx st =
     (let (st, r) = load_sender S st (ctx_context_id ctx) in
      case and_then (map_err Storage r) (\<lambda>loaded.
           and_then (ok_or Missing loaded) (\<lambda>state.
             map_err Oscore (set_sender_state ctx state))) of
        Err e \<Rightarrow> (st, Err e)
      | Panic \<Rightarrow> (st, Panic)
      | Ok ctx \<Rightarrow>
          (let (st, r) = load_recipient S st (ctx_context_id ctx) in
           (st, and_then (map_err Storage r) (\<lambda>rs.
              let ctx = (case rs of Some rs \<Rightarrow> set_recipient_replay_state ctx rs | None \<Rightarrow> ctx)
              in Ok (ctx\<lparr>ctx_restored := True, ctx_active := True,
                         ctx_allow_no_piv_response := False\<rparr>)))))"

text \<open>
  \<open>reserve_sender\<close> hands out the reserved sequence together with exclusive access to the
  context; the model returns the store, the context and the sequence.
\<close>

definition reserve_sender ::
    "('s, 'x) context_state_store \<Rightarrow> oscore_context \<Rightarrow> 's \<Rightarrow>
     's \<times> oscore_context \<times> ('x reservation_error, oscore_seq_num) res" where
  "reserve_sender S ctx st =
     (if \<not> ctx_active ctx then (st, ctx, Err ReservationConflict)
      else if ctx_sender_seq_exhausted ctx then (st, ctx, Err SequenceExhausted)
      else
        let sequence = ctx_sender_seq ctx;
            expected = sender_sequence_state ctx;
            next = (case seq_increment sequence of
                      Some n \<Rightarrow> \<lparr>next_sequence = get n, exhausted = False\<rparr>
                    | None \<Rightarrow> \<lparr>next_sequence = SEQ_MAX, exhausted = True\<rparr>);
            (st, r) = compare_exchange_sender S st (ctx_context_id ctx) (Some expected) next
        in case map_err ReservationStorage r of
             Err e \<Rightarrow> (st, ctx, Err e)
           | Panic \<Rightarrow> (st, ctx, Panic)
           | Ok swapped \<Rightarrow>
               if \<not> swapped then (st, ctx, Err ReservationConflict)
               else
                 (case seq_new (next_sequence next) of
                    None \<Rightarrow> (st, ctx, Panic)
                  | Some s \<Rightarrow>
                      (st, ctx\<lparr>ctx_sender_seq := s, ctx_sender_seq_exhausted := exhausted next\<rparr>,
                       Ok sequence)))"

subsection \<open>Preflight checks\<close>

text \<open>The sum \<open>1 + options + marker + payload + tag\<close> of the two preflights.\<close>

definition required_len :: "bytes \<Rightarrow> bytes \<Rightarrow> nat option" where
  "required_len class_e_options payload =
     Option.bind (checked_add_usize 1 (length class_e_options)) (\<lambda>n.
     Option.bind (checked_add_usize n (of_bool (payload \<noteq> []))) (\<lambda>n.
     Option.bind (checked_add_usize n (length payload)) (\<lambda>n.
       checked_add_usize n TAG_LEN)))"

definition request_option_len :: "oscore_context \<Rightarrow> nat \<Rightarrow> nat" where
  "request_option_len ctx piv_len =
     1 + piv_len
       + of_bool (ctx_id_context_present ctx) * (1 + as_usize (ctx_id_context_len ctx))
       + as_usize (ctx_sender_id_len ctx)"

definition preflight_protect_request ::
    "oscore_context \<Rightarrow> bytes \<Rightarrow> bytes \<Rightarrow> (oscore_error, unit) res" where
  "preflight_protect_request ctx class_e_options payload =
     (if \<not> ctx_active ctx then Err InvalidParam
      else if 128 < length class_e_options then Err (too_small (length class_e_options) 128)
      else if 128 < length payload then Err (too_small (length payload) 128)
      else
        and_then (ok_or InvalidParam (required_len class_e_options payload)) (\<lambda>required.
          if 280 < required then Err (too_small required 280)
          else
            let option_required = request_option_len ctx PIV_MAX_LEN in
            if OSCORE_OPTION_MAX_LEN < option_required
            then Err (too_small option_required OSCORE_OPTION_MAX_LEN)
            else Ok ()))"

definition next_request_option_len :: "oscore_context \<Rightarrow> (oscore_error, nat) res" where
  "next_request_option_len ctx =
     (if \<not> ctx_active ctx \<or> ctx_sender_seq_exhausted ctx then Err SeqExhausted
      else
        and_then (encode_piv (ctx_sender_seq ctx) (replicate PIV_MAX_LEN 0)) (\<lambda>(piv, piv_len).
          Ok (request_option_len ctx piv_len)))"

definition preflight_protect_response ::
    "oscore_context \<Rightarrow> bytes \<Rightarrow> bytes \<Rightarrow> bytes \<Rightarrow> bytes \<Rightarrow> (oscore_error, unit) res" where
  "preflight_protect_response ctx class_e_options payload request_kid request_piv =
     (if \<not> ctx_active ctx \<or> NONCE_ID_LEN < length request_kid \<or> request_kid \<noteq> recipient_id ctx \<or>
         from_piv request_piv = None
      then Err InvalidParam
      else if 128 < length class_e_options then Err (too_small (length class_e_options) 128)
      else if 128 < length payload then Err (too_small (length payload) 128)
      else
        and_then (parse_inner_body class_e_options) (\<lambda>(parsed_options, parsed_payload).
        if parsed_options \<noteq> class_e_options \<or> parsed_payload \<noteq> [] then Err InvalidParam
        else
          and_then (ok_or InvalidParam (required_len class_e_options payload)) (\<lambda>required.
            if 280 < required then Err (too_small required 280) else Ok ())))"

subsection \<open>The replay windows of a context\<close>

definition is_response_reuse :: "oscore_context \<Rightarrow> oscore_seq_num \<Rightarrow> bool" where
  "is_response_reuse ctx seq =
     window_reuse (ctx_response_window_initialized ctx) (ctx_response_seq ctx)
       (ctx_response_window ctx) seq"

definition mark_response_used ::
    "bool \<Rightarrow> oscore_context \<Rightarrow> oscore_seq_num \<Rightarrow> (oscore_error, oscore_context) res" where
  "mark_response_used oc ctx seq =
     and_then (window_mark oc (ctx_response_window_initialized ctx) (ctx_response_seq ctx)
                 (ctx_response_window ctx) seq) (\<lambda>(s, w).
       Ok (ctx\<lparr>ctx_response_seq := s, ctx_response_window := w,
               ctx_response_window_initialized := True\<rparr>))"

definition is_received_response_reuse :: "oscore_context \<Rightarrow> oscore_seq_num \<Rightarrow> bool" where
  "is_received_response_reuse ctx seq =
     window_reuse (ctx_received_response_window_initialized ctx) (ctx_received_response_seq ctx)
       (ctx_received_response_window ctx) seq"

definition mark_received_response ::
    "bool \<Rightarrow> oscore_context \<Rightarrow> oscore_seq_num \<Rightarrow> (oscore_error, oscore_context) res" where
  "mark_received_response oc ctx seq =
     and_then (window_mark oc (ctx_received_response_window_initialized ctx)
                 (ctx_received_response_seq ctx) (ctx_received_response_window ctx) seq) (\<lambda>(s, w).
       Ok (ctx\<lparr>ctx_received_response_seq := s, ctx_received_response_window := w,
               ctx_received_response_window_initialized := True\<rparr>))"

definition is_received_response_piv_reuse :: "oscore_context \<Rightarrow> oscore_seq_num \<Rightarrow> bool" where
  "is_received_response_piv_reuse ctx seq =
     window_reuse (ctx_received_response_piv_window_initialized ctx)
       (ctx_received_response_piv_seq ctx) (ctx_received_response_piv_window ctx) seq"

definition mark_received_response_piv ::
    "bool \<Rightarrow> oscore_context \<Rightarrow> oscore_seq_num \<Rightarrow> (oscore_error, oscore_context) res" where
  "mark_received_response_piv oc ctx seq =
     and_then (window_mark oc (ctx_received_response_piv_window_initialized ctx)
                 (ctx_received_response_piv_seq ctx) (ctx_received_response_piv_window ctx) seq)
       (\<lambda>(s, w).
       Ok (ctx\<lparr>ctx_received_response_piv_seq := s, ctx_received_response_piv_window := w,
               ctx_received_response_piv_window_initialized := True\<rparr>))"

definition is_replay :: "oscore_context \<Rightarrow> oscore_seq_num \<Rightarrow> bool" where
  "is_replay ctx seq = replay_check (ctx_recipient_seq ctx) (ctx_replay_window ctx) seq"

definition update_replay_window :: "oscore_context \<Rightarrow> oscore_seq_num \<Rightarrow> oscore_context" where
  "update_replay_window ctx seq =
     (let (s, w) = replay_update (ctx_recipient_seq ctx) (ctx_replay_window ctx) seq
      in ctx\<lparr>ctx_recipient_seq := s, ctx_replay_window := w\<rparr>)"

subsection \<open>The invariant\<close>

definition wf_context :: "oscore_context \<Rightarrow> bool" where
  "wf_context c \<longleftrightarrow>
     length (ctx_master_secret c) = 16 \<and>
     length (ctx_master_salt c) = 8 \<and> unat (ctx_master_salt_len c) \<le> 8 \<and>
     length (ctx_common_iv c) = 13 \<and>
     length (ctx_id_context c) = 8 \<and> unat (ctx_id_context_len c) \<le> 8 \<and>
     (\<not> ctx_id_context_present c \<longrightarrow> ctx_id_context_len c = 0) \<and>
     length (ctx_sender_id c) = 8 \<and> unat (ctx_sender_id_len c) \<le> 7 \<and>
     length (ctx_sender_key c) = 16 \<and>
     length (ctx_recipient_id c) = 8 \<and> unat (ctx_recipient_id_len c) \<le> 7 \<and>
     length (ctx_recipient_key c) = 16 \<and>
     sender_id c \<noteq> recipient_id c \<and>
     seq_wf (ctx_sender_seq c) \<and>
     (ctx_sender_seq_exhausted c \<longrightarrow> get (ctx_sender_seq c) = SEQ_MAX) \<and>
     seq_wf (ctx_recipient_seq c) \<and> seq_wf (ctx_response_seq c) \<and>
     seq_wf (ctx_received_response_seq c) \<and> seq_wf (ctx_received_response_piv_seq c)"

text \<open>The slices that the accessors take are in range.\<close>

lemma accessors_in_range:
  assumes "wf_context c"
  shows "slice (ctx_sender_id c) 0 (unat (ctx_sender_id_len c)) = Ok (sender_id c)"
    and "slice (ctx_recipient_id c) 0 (unat (ctx_recipient_id_len c)) = Ok (recipient_id c)"
    and "slice (ctx_id_context c) 0 (unat (ctx_id_context_len c)) = Ok (id_context c)"
    and "slice (ctx_master_salt c) 0 (unat (ctx_master_salt_len c)) = Ok (master_salt c)"
  using assms
  by (simp_all add: wf_context_def slice_def sender_id_def recipient_id_def id_context_def
      master_salt_def)

lemma accessor_lengths:
  assumes "wf_context c"
  shows "length (sender_id c) = unat (ctx_sender_id_len c)" "length (sender_id c) \<le> 7"
    and "length (recipient_id c) = unat (ctx_recipient_id_len c)" "length (recipient_id c) \<le> 7"
    and "length (id_context c) = unat (ctx_id_context_len c)" "length (id_context c) \<le> 8"
  using assms by (simp_all add: wf_context_def sender_id_def recipient_id_def id_context_def)

subsection \<open>Construction and derivation\<close>

definition new_params_ok :: "bytes option \<Rightarrow> bytes option \<Rightarrow> bytes \<Rightarrow> bytes \<Rightarrow> bool" where
  "new_params_ok salt ctx sid rid \<longleftrightarrow>
     length sid \<le> 7 \<and> length rid \<le> 7 \<and> sid \<noteq> rid \<and>
     (case salt of None \<Rightarrow> True | Some s \<Rightarrow> length s \<le> 8) \<and>
     (case ctx of None \<Rightarrow> True | Some c \<Rightarrow> length c \<le> 8)"

abbreviation opt_bytes :: "bytes option \<Rightarrow> bytes" where
  "opt_bytes x \<equiv> (case x of None \<Rightarrow> [] | Some b \<Rightarrow> b)"

text \<open>The key material of RFC 8613: HKDF-Expand over the info structure of the identifier.\<close>

definition hkdf_derive ::
    "crypto \<Rightarrow> bytes \<Rightarrow> bytes option \<Rightarrow> bytes option \<Rightarrow> bytes \<Rightarrow> string \<Rightarrow> nat \<Rightarrow> bytes option" where
  "hkdf_derive C secret salt ctx ident ty n =
     hkdf_expand C (hkdf_extract C (Some (opt_bytes salt)) secret) (info_cbor ident ctx ty n) n"

lemma context_new_eq:
  "context_new C secret salt ctx sid rid =
   (if \<not> new_params_ok salt ctx sid rid then Err InvalidParam
    else case (hkdf_derive C secret salt ctx sid ''Key'' 16,
               hkdf_derive C secret salt ctx rid ''Key'' 16,
               hkdf_derive C secret salt ctx [] ''IV'' 13) of
      (Some sk, Some rk, Some iv) \<Rightarrow>
        Ok \<lparr>ctx_master_secret = secret,
            ctx_master_salt = pad 8 (opt_bytes salt),
            ctx_master_salt_len = as_u8 (length (opt_bytes salt)),
            ctx_common_iv = iv,
            ctx_id_context = pad 8 (opt_bytes ctx),
            ctx_id_context_len = as_u8 (length (opt_bytes ctx)),
            ctx_id_context_present = (ctx \<noteq> None),
            ctx_sender_id = pad 8 sid,
            ctx_sender_id_len = as_u8 (length sid),
            ctx_sender_key = sk,
            ctx_sender_seq = seq_default, ctx_sender_seq_exhausted = False,
            ctx_restored = False, ctx_active = False,
            ctx_recipient_id = pad 8 rid,
            ctx_recipient_id_len = as_u8 (length rid),
            ctx_recipient_key = rk,
            ctx_recipient_seq = seq_default, ctx_replay_window = 0,
            ctx_response_seq = seq_default, ctx_response_window = 0,
            ctx_response_window_initialized = False,
            ctx_received_response_seq = seq_default, ctx_received_response_window = 0,
            ctx_received_response_window_initialized = False,
            ctx_received_response_piv_seq = seq_default, ctx_received_response_piv_window = 0,
            ctx_received_response_piv_window_initialized = False,
            ctx_allow_no_piv_response = False,
            ctx_context_id = derive_context_id C secret (opt_bytes salt) ctx sid\<rparr>
    | _ \<Rightarrow> Err KeyDerivation)"
proof (cases "new_params_ok salt ctx sid rid")
  case False
  then show ?thesis
    by (auto simp: context_new_def new_params_ok_def Let_def split: option.splits)
next
  case True
  then have bounds: "length sid \<le> 7" "length rid \<le> 7" "sid \<noteq> rid" "length (opt_bytes salt) \<le> 8"
    "length (opt_bytes ctx) \<le> 8" "case ctx of None \<Rightarrow> True | Some c \<Rightarrow> length c \<le> 23"
    by (auto simp: new_params_ok_def split: option.splits)
  have ctx8: "(case ctx of None \<Rightarrow> False | Some ic \<Rightarrow> ID_CONTEXT_CAPACITY < length ic) = False"
    using bounds(5) by (auto split: option.splits)
  have keys:
    "derive_key C secret (opt_bytes salt) sid ctx = ok_or KeyDerivation (hkdf_derive C secret salt ctx sid ''Key'' 16)"
    "derive_key C secret (opt_bytes salt) rid ctx = ok_or KeyDerivation (hkdf_derive C secret salt ctx rid ''Key'' 16)"
    "derive_iv C secret (opt_bytes salt) ctx = ok_or KeyDerivation (hkdf_derive C secret salt ctx [] ''IV'' 13)"
    using bounds by (simp_all add: derive_key_eq derive_iv_eq hkdf_derive_def)
  show ?thesis
    using True bounds
    by (cases "hkdf_derive C secret salt ctx sid ''Key'' 16";
        cases "hkdf_derive C secret salt ctx rid ''Key'' 16";
        cases "hkdf_derive C secret salt ctx [] ''IV'' 13")
      (auto simp: context_new_def Let_def keys ctx8 pad_def)
qed

lemma hkdf_derive_ok:
  assumes "hkdf_contract C" and "n \<le> 16"
  shows "\<exists>k. hkdf_derive C secret salt ctx ident ty n = Some k \<and> length k = n"
proof -
  from assms(2) have "n \<le> 255 * 32" by simp
  with assms(1) show ?thesis by (simp only: hkdf_contract_def hkdf_derive_def)
qed

lemma hkdf_derive_length:
  assumes "hkdf_contract C" and "n \<le> 16" and "hkdf_derive C secret salt ctx ident ty n = Some k"
  shows "length k = n"
  using hkdf_derive_ok [OF assms(1,2), of secret salt ctx ident ty] assms(3) by auto

text \<open>With the documented HKDF, construction succeeds exactly on valid parameters.\<close>

lemma context_new_total:
  assumes "hkdf_contract C" and "new_params_ok salt ctx sid rid"
  obtains c where "context_new C secret salt ctx sid rid = Ok c"
proof -
  obtain sk where "hkdf_derive C secret salt ctx sid ''Key'' 16 = Some sk"
    using hkdf_derive_ok [OF assms(1), of 16 secret salt ctx sid "''Key''"] by auto
  moreover obtain rk where "hkdf_derive C secret salt ctx rid ''Key'' 16 = Some rk"
    using hkdf_derive_ok [OF assms(1), of 16 secret salt ctx rid "''Key''"] by auto
  moreover obtain iv where "hkdf_derive C secret salt ctx [] ''IV'' 13 = Some iv"
    using hkdf_derive_ok [OF assms(1), of 13 secret salt ctx "[]" "''IV''"] by auto
  ultimately show ?thesis
    using assms(2) by (intro that) (simp only: context_new_eq, simp)
qed

lemma context_new_Ok:
  assumes "context_new C secret salt ctx sid rid = Ok c"
  shows "new_params_ok salt ctx sid rid"
    and "sender_id c = sid" and "recipient_id c = rid"
    and "id_context c = opt_bytes ctx" and "ctx_id_context_present c \<longleftrightarrow> ctx \<noteq> None"
    and "hkdf_derive C secret salt ctx sid ''Key'' 16 = Some (ctx_sender_key c)"
    and "hkdf_derive C secret salt ctx rid ''Key'' 16 = Some (ctx_recipient_key c)"
    and "hkdf_derive C secret salt ctx [] ''IV'' 13 = Some (ctx_common_iv c)"
    and "ctx_context_id c = derive_context_id C secret (opt_bytes salt) ctx sid"
    and "ctx_sender_seq c = seq_default" and "\<not> ctx_sender_seq_exhausted c"
    and "\<not> ctx_active c" and "\<not> ctx_restored c" and "\<not> ctx_allow_no_piv_response c"
proof -
  show ok: "new_params_ok salt ctx sid rid"
    using assms by (auto simp: context_new_eq split: if_splits)
  then have "length sid \<le> 7" "length rid \<le> 7" "length (opt_bytes ctx) \<le> 8"
    by (auto simp: new_params_ok_def split: option.splits)
  then show "sender_id c = sid" and "recipient_id c = rid"
    and "id_context c = opt_bytes ctx" and "ctx_id_context_present c \<longleftrightarrow> ctx \<noteq> None"
    and "hkdf_derive C secret salt ctx sid ''Key'' 16 = Some (ctx_sender_key c)"
    and "hkdf_derive C secret salt ctx rid ''Key'' 16 = Some (ctx_recipient_key c)"
    and "hkdf_derive C secret salt ctx [] ''IV'' 13 = Some (ctx_common_iv c)"
    and "ctx_context_id c = derive_context_id C secret (opt_bytes salt) ctx sid"
    and "ctx_sender_seq c = seq_default" and "\<not> ctx_sender_seq_exhausted c"
    and "\<not> ctx_active c" and "\<not> ctx_restored c" and "\<not> ctx_allow_no_piv_response c"
    using assms ok
    by (auto simp: context_new_eq sender_id_def recipient_id_def id_context_def
        split: option.splits simp del: case_prod_conv)
qed

lemma context_new_wf:
  assumes "hkdf_contract C" and "length secret = 16"
    and new: "context_new C secret salt ctx sid rid = Ok c"
  shows "wf_context c"
proof -
  note ok = context_new_Ok [OF new]
  from ok(1) have b: "length sid \<le> 7" "length rid \<le> 7" "sid \<noteq> rid" "length (opt_bytes salt) \<le> 8"
    "length (opt_bytes ctx) \<le> 8"
    by (auto simp: new_params_ok_def split: option.splits)
  have k: "length (ctx_sender_key c) = 16" "length (ctx_recipient_key c) = 16"
    "length (ctx_common_iv c) = 13"
    using ok(6-8) hkdf_derive_length [OF assms(1)] by auto
  have "length (ctx_master_secret c) = 16" "length (ctx_master_salt c) = 8"
    "unat (ctx_master_salt_len c) \<le> 8" "length (ctx_id_context c) = 8"
    "unat (ctx_id_context_len c) \<le> 8" "\<not> ctx_id_context_present c \<longrightarrow> ctx_id_context_len c = 0"
    "length (ctx_sender_id c) = 8" "unat (ctx_sender_id_len c) \<le> 7"
    "length (ctx_recipient_id c) = 8" "unat (ctx_recipient_id_len c) \<le> 7"
    "ctx_recipient_seq c = seq_default" "ctx_response_seq c = seq_default"
    "ctx_received_response_seq c = seq_default" "ctx_received_response_piv_seq c = seq_default"
    using new ok(1) b assms(2)
    by (auto simp: context_new_eq split: option.splits simp del: case_prod_conv)
  with k ok b show ?thesis
    by (simp add: wf_context_def)
qed

text \<open>Two contexts made from the same material with swapped identifiers mirror each other.\<close>

definition mirrored :: "oscore_context \<Rightarrow> oscore_context \<Rightarrow> bool" where
  "mirrored a b \<longleftrightarrow>
     sender_id a = recipient_id b \<and> recipient_id a = sender_id b \<and>
     ctx_sender_key a = ctx_recipient_key b \<and> ctx_recipient_key a = ctx_sender_key b \<and>
     ctx_common_iv a = ctx_common_iv b \<and>
     ctx_id_context_present a = ctx_id_context_present b \<and> id_context a = id_context b"

lemma mirrored_sym: "mirrored a b \<Longrightarrow> mirrored b a"
  by (auto simp: mirrored_def)

lemma context_new_mirrored:
  assumes "context_new C secret salt ctx x y = Ok a" and "context_new C secret salt ctx y x = Ok b"
  shows "mirrored a b"
  using context_new_Ok [OF assms(1)] context_new_Ok [OF assms(2)]
  by (auto simp: mirrored_def)

subsection \<open>Snapshots and restoration\<close>

lemma sender_sequence_state_fields [simp]:
  "next_sequence (sender_sequence_state c) = get (ctx_sender_seq c)"
  "exhausted (sender_sequence_state c) = ctx_sender_seq_exhausted c"
  by (simp_all add: sender_sequence_state_def)

definition sender_state_ok :: "sender_sequence_state \<Rightarrow> bool" where
  "sender_state_ok s \<longleftrightarrow> unat (next_sequence s) < 2 ^ 40 \<and> (exhausted s \<longrightarrow> next_sequence s = SEQ_MAX)"

lemma set_sender_state_eq:
  "set_sender_state c s =
    (if sender_state_ok s
     then Ok (c\<lparr>ctx_sender_seq := OscoreSeqNum (next_sequence s), ctx_sender_seq_exhausted := exhausted s\<rparr>)
     else Err InvalidParam)"
  by (cases "seq_new (next_sequence s)")
    (auto simp: set_sender_state_def sender_state_ok_def seq_new_eq_Some seq_new_def
      le_SEQ_MAX_iff split: if_splits)

lemma wf_sender_state: "wf_context c \<Longrightarrow> sender_state_ok (sender_sequence_state c)"
  by (auto simp: wf_context_def sender_state_ok_def seq_wf_def)

lemma wf_sender_fields:
  "wf_context c \<Longrightarrow> seq_wf q \<Longrightarrow> e \<longrightarrow> get q = SEQ_MAX \<Longrightarrow>
   wf_context (c\<lparr>ctx_sender_seq := q, ctx_sender_seq_exhausted := e\<rparr>)"
  by (simp add: wf_context_def sender_id_def recipient_id_def)

lemma wf_set_sender_state:
  "wf_context c \<Longrightarrow> set_sender_state c s = Ok d \<Longrightarrow> wf_context d"
  by (auto simp: set_sender_state_eq sender_state_ok_def seq_wf_def intro!: wf_sender_fields split: if_splits)

text \<open>Snapshot and restore are inverse to each other on well-formed contexts.\<close>

lemma set_sender_state_snapshot:
  "wf_context c \<Longrightarrow> set_sender_state d (sender_sequence_state c) =
    Ok (d\<lparr>ctx_sender_seq := ctx_sender_seq c, ctx_sender_seq_exhausted := ctx_sender_seq_exhausted c\<rparr>)"
  by (cases "ctx_sender_seq c") (simp add: set_sender_state_eq wf_sender_state)

lemma seq_or_default_wf [simp]: "seq_wf (seq_or_default v)"
  by (auto simp: seq_or_default_def dest: seq_new_wf split: option.splits)

lemma seq_or_default_get [simp]: "seq_wf s \<Longrightarrow> seq_or_default (get s) = s"
  by (simp add: seq_or_default_def)

lemma wf_set_recipient_replay_state:
  "wf_context c \<Longrightarrow> wf_context (set_recipient_replay_state c s)"
  by (simp add: wf_context_def set_recipient_replay_state_def sender_id_def recipient_id_def)

lemma recipient_replay_state_restore:
  "wf_context c \<Longrightarrow>
   recipient_replay_state (set_recipient_replay_state d (recipient_replay_state c)) =
   recipient_replay_state c"
  by (simp add: wf_context_def set_recipient_replay_state_def recipient_replay_state_def)

lemma windows_restore:
  fixes d :: oscore_context
  assumes "wf_context c"
  defines "d' \<equiv> set_recipient_replay_state d (recipient_replay_state c)"
  shows "is_replay d' s = is_replay c s" "is_response_reuse d' s = is_response_reuse c s"
    "is_received_response_reuse d' s = is_received_response_reuse c s"
    "is_received_response_piv_reuse d' s = is_received_response_piv_reuse c s"
  using assms(1)
  by (simp_all add: d'_def wf_context_def set_recipient_replay_state_def recipient_replay_state_def
      is_replay_def is_response_reuse_def is_received_response_reuse_def
      is_received_response_piv_reuse_def)

subsection \<open>Registration, restoration, reservation\<close>

lemma register_fresh_Ok:
  "register_fresh S c st = (st', Ok c') \<longleftrightarrow>
   \<not> ctx_restored c \<and> \<not> ctx_active c \<and>
   compare_exchange_sender S st (ctx_context_id c) None (sender_sequence_state c) = (st', Ok True) \<and>
   c' = c\<lparr>ctx_active := True, ctx_allow_no_piv_response := True\<rparr>"
  by (auto simp: register_fresh_def res_simps split: prod.splits if_splits)

lemma wf_flags:
  "wf_context (c\<lparr>ctx_restored := r\<rparr>) = wf_context c"
  "wf_context (c\<lparr>ctx_active := a, ctx_allow_no_piv_response := b\<rparr>) = wf_context c"
  "wf_context (c\<lparr>ctx_restored := r, ctx_active := a, ctx_allow_no_piv_response := b\<rparr>) = wf_context c"
  by (simp_all add: wf_context_def sender_id_def recipient_id_def)

lemma register_fresh_wf: "wf_context c \<Longrightarrow> register_fresh S c st = (st', Ok c') \<Longrightarrow> wf_context c'"
  by (auto simp: register_fresh_Ok wf_flags)

lemma restore_existing_Ok:
  assumes "restore_existing S c st = (st', Ok c')"
  obtains st1 s rs c1 where
    "load_sender S st (ctx_context_id c) = (st1, Ok (Some s))" "set_sender_state c s = Ok c1"
    "load_recipient S st1 (ctx_context_id c) = (st', Ok rs)"
    "c' = (case rs of Some rs \<Rightarrow> set_recipient_replay_state c1 rs | None \<Rightarrow> c1)
       \<lparr>ctx_restored := True, ctx_active := True, ctx_allow_no_piv_response := False\<rparr>"
proof -
  obtain st1 r where l: "load_sender S st (ctx_context_id c) = (st1, r)" by fastforce
  with assms obtain s c1 where s: "r = Ok (Some s)" and c1: "set_sender_state c s = Ok c1"
    by (auto simp: restore_existing_def res_simps split: res.splits)
  from c1 have k: "ctx_context_id c1 = ctx_context_id c"
    by (auto simp: set_sender_state_eq split: if_splits)
  obtain st2 r2 where l2: "load_recipient S st1 (ctx_context_id c) = (st2, r2)" by fastforce
  with assms l s c1 k obtain rs where "r2 = Ok rs"
    by (auto simp: restore_existing_def res_simps Let_def)
  with assms l s c1 k l2 show ?thesis
    by (intro that [of st1 s c1 rs]) (auto simp: restore_existing_def Let_def)
qed

lemma restore_existing_wf:
  assumes "wf_context c" and "restore_existing S c st = (st', Ok c')"
  shows "wf_context c'"
  using assms(2)
proof (rule restore_existing_Ok)
  fix st1 s rs c1
  assume "set_sender_state c s = Ok c1"
    and c': "c' = (case rs of Some rs \<Rightarrow> set_recipient_replay_state c1 rs | None \<Rightarrow> c1)
       \<lparr>ctx_restored := True, ctx_active := True, ctx_allow_no_piv_response := False\<rparr>"
  with assms(1) have "wf_context c1" by (blast intro: wf_set_sender_state)
  then show ?thesis
    unfolding c' by (auto simp: wf_flags wf_set_recipient_replay_state split: option.splits)
qed

text \<open>The state that a reservation writes, and its position in the sender's sequence space.\<close>

definition next_sender_state :: "oscore_context \<Rightarrow> sender_sequence_state" where
  "next_sender_state c =
     (if seq_val (ctx_sender_seq c) = 2 ^ 40 - 1 then \<lparr>next_sequence = SEQ_MAX, exhausted = True\<rparr>
      else \<lparr>next_sequence = get (ctx_sender_seq c) + 1, exhausted = False\<rparr>)"

definition sender_position :: "sender_sequence_state \<Rightarrow> nat" where
  "sender_position s = (if exhausted s then 2 ^ 40 else unat (next_sequence s))"

lemma increment_state:
  assumes "seq_wf (ctx_sender_seq c)"
  shows "(case seq_increment (ctx_sender_seq c) of
      Some n \<Rightarrow> \<lparr>next_sequence = get n, exhausted = False\<rparr>
    | None \<Rightarrow> \<lparr>next_sequence = SEQ_MAX, exhausted = True\<rparr>) = next_sender_state c"
  using assms by (auto simp: seq_increment_eq next_sender_state_def seq_wf_def)

lemma next_sender_state_ok: "seq_wf (ctx_sender_seq c) \<Longrightarrow> sender_state_ok (next_sender_state c)"
proof -
  assume "seq_wf (ctx_sender_seq c)"
  then have b: "seq_val (ctx_sender_seq c) < 2 ^ 40" by (simp add: seq_wf_def)
  then have "unat (get (ctx_sender_seq c) + 1) = seq_val (ctx_sender_seq c) + 1"
    by (simp add: unat_word_ariths)
  with b show ?thesis by (auto simp: sender_state_ok_def next_sender_state_def)
qed

lemma sender_position_next:
  assumes "wf_context c" and "\<not> ctx_sender_seq_exhausted c"
  shows "sender_position (sender_sequence_state c) = seq_val (ctx_sender_seq c)"
    and "sender_position (next_sender_state c) = seq_val (ctx_sender_seq c) + 1"
proof -
  from assms have b: "seq_val (ctx_sender_seq c) < 2 ^ 40" by (simp add: wf_context_def seq_wf_def)
  then have "unat (get (ctx_sender_seq c) + 1) = seq_val (ctx_sender_seq c) + 1"
    by (simp add: unat_word_ariths)
  with b assms(2) show "sender_position (sender_sequence_state c) = seq_val (ctx_sender_seq c)"
    and "sender_position (next_sender_state c) = seq_val (ctx_sender_seq c) + 1"
    by (auto simp: sender_position_def next_sender_state_def)
qed

definition after_reservation :: "oscore_context \<Rightarrow> oscore_context" where
  "after_reservation c = c\<lparr>ctx_sender_seq := OscoreSeqNum (next_sequence (next_sender_state c)),
     ctx_sender_seq_exhausted := exhausted (next_sender_state c)\<rparr>"

lemma reserve_sender_eq:
  assumes "seq_wf (ctx_sender_seq c)"
  shows "reserve_sender S c st =
    (if \<not> ctx_active c then (st, c, Err ReservationConflict)
     else if ctx_sender_seq_exhausted c then (st, c, Err SequenceExhausted)
     else
       let (st', r) = compare_exchange_sender S st (ctx_context_id c)
              (Some (sender_sequence_state c)) (next_sender_state c)
       in (case r of
             Ok True \<Rightarrow> (st', after_reservation c, Ok (ctx_sender_seq c))
           | Ok False \<Rightarrow> (st', c, Err ReservationConflict)
           | Err x \<Rightarrow> (st', c, Err (ReservationStorage x))
           | Panic \<Rightarrow> (st', c, Panic)))"
proof -
  have "seq_new (next_sequence (next_sender_state c)) =
      Some (OscoreSeqNum (next_sequence (next_sender_state c)))"
    using next_sender_state_ok [OF assms] by (simp add: seq_new_eq_Some sender_state_ok_def)
  then show ?thesis
    by (auto simp: reserve_sender_def increment_state [OF assms] Let_def after_reservation_def
        split: prod.splits res.splits bool.splits)
qed

lemma reserve_sender_Ok:
  assumes "seq_wf (ctx_sender_seq c)"
  shows "reserve_sender S c st = (st', c', Ok s) \<longleftrightarrow>
    ctx_active c \<and> \<not> ctx_sender_seq_exhausted c \<and>
    compare_exchange_sender S st (ctx_context_id c) (Some (sender_sequence_state c))
      (next_sender_state c) = (st', Ok True) \<and>
    c' = after_reservation c \<and> s = ctx_sender_seq c"
  by (auto simp: reserve_sender_eq [OF assms] Let_def split: prod.splits res.splits bool.splits)

lemma after_reservation_wf: "wf_context c \<Longrightarrow> wf_context (after_reservation c)"
proof -
  assume wf: "wf_context c"
  then have "sender_state_ok (next_sender_state c)"
    by (simp add: next_sender_state_ok wf_context_def)
  with wf show ?thesis
    by (auto simp: wf_context_def after_reservation_def sender_state_ok_def seq_wf_def
        sender_id_def recipient_id_def)
qed

lemma after_reservation_state [simp]:
  "sender_sequence_state (after_reservation c) = next_sender_state c"
  by (simp add: sender_sequence_state_def after_reservation_def)

lemma reserve_sender_wf:
  assumes "wf_context c" and "reserve_sender S c st = (st', c', r)"
  shows "wf_context c'"
proof -
  from assms(1) have "seq_wf (ctx_sender_seq c)" by (simp add: wf_context_def)
  from assms(2) have "c' = c \<or> c' = after_reservation c"
    by (auto simp: reserve_sender_eq [OF \<open>seq_wf _\<close>] Let_def
        split: prod.splits res.splits bool.splits if_splits)
  with assms(1) after_reservation_wf show ?thesis by blast
qed

subsection \<open>The windows meet the contract\<close>

lemmas window_defs = is_response_reuse_def mark_response_used_def is_received_response_reuse_def
  mark_received_response_def is_received_response_piv_reuse_def mark_received_response_piv_def

lemma update_replay_window_exact:
  assumes "\<not> is_replay c s"
  shows "is_replay (update_replay_window c s) t \<longleftrightarrow>
    is_replay c t \<or> t = s \<or> seq_val t + 32 \<le> seq_val s"
proof -
  obtain h w where u: "replay_update (ctx_recipient_seq c) (ctx_replay_window c) s = (h, w)"
    by fastforce
  with replay_update_exact [OF _ u, of t] assms show ?thesis
    by (simp add: is_replay_def update_replay_window_def)
qed

interpretation requests: replay_window is_replay
  "\<lambda>c s. Ok (update_replay_window c s) :: (oscore_error, oscore_context) res"
  by unfold_locales (simp add: update_replay_window_exact)

interpretation responses: replay_window is_response_reuse "mark_response_used oc" for oc
proof
  fix c s
  assume "\<not> is_response_reuse c s"
  from window_mark_exact [OF this [unfolded is_response_reuse_def], of oc, where 'a = oscore_error]
  show "\<exists>c'. mark_response_used oc c s = Ok c' \<and> (\<forall>t. is_response_reuse c' t \<longleftrightarrow>
      is_response_reuse c t \<or> t = s \<or> seq_val t + 32 \<le> seq_val s)"
    unfolding window_defs by (elim exE conjE) simp
qed

interpretation received_responses:
  replay_window is_received_response_reuse "mark_received_response oc" for oc
proof
  fix c s
  assume "\<not> is_received_response_reuse c s"
  from window_mark_exact [OF this [unfolded is_received_response_reuse_def], of oc, where 'a = oscore_error]
  show "\<exists>c'. mark_received_response oc c s = Ok c' \<and> (\<forall>t. is_received_response_reuse c' t \<longleftrightarrow>
      is_received_response_reuse c t \<or> t = s \<or> seq_val t + 32 \<le> seq_val s)"
    unfolding window_defs by (elim exE conjE) simp
qed

interpretation received_response_pivs:
  replay_window is_received_response_piv_reuse "mark_received_response_piv oc" for oc
proof
  fix c s
  assume "\<not> is_received_response_piv_reuse c s"
  from window_mark_exact [OF this [unfolded is_received_response_piv_reuse_def], of oc, where 'a = oscore_error]
  show "\<exists>c'. mark_received_response_piv oc c s = Ok c' \<and> (\<forall>t. is_received_response_piv_reuse c' t \<longleftrightarrow>
      is_received_response_piv_reuse c t \<or> t = s \<or> seq_val t + 32 \<le> seq_val s)"
    unfolding window_defs by (elim exE conjE) simp
qed

text \<open>What a mark leaves alone: everything but its own window.\<close>

lemma replay_update_wf: "seq_wf h \<Longrightarrow> seq_wf s \<Longrightarrow> seq_wf (fst (replay_update h w s))"
  by (auto simp: replay_update_def Let_def)

lemma window_mark_wf:
  "window_mark oc i h w s = Ok (h', w') \<Longrightarrow> seq_wf h \<Longrightarrow> seq_wf s \<Longrightarrow> seq_wf h'"
  by (auto simp: window_mark_def Let_def res_simps split: if_splits)

lemma update_replay_window_wf: "wf_context c \<Longrightarrow> seq_wf s \<Longrightarrow> wf_context (update_replay_window c s)"
  using replay_update_wf [of "ctx_recipient_seq c" s "ctx_replay_window c"]
  by (simp add: wf_context_def update_replay_window_def sender_id_def recipient_id_def split_beta)

lemma wf_window_seqs:
  assumes "wf_context c"
  shows "seq_wf (ctx_response_seq c)" "seq_wf (ctx_received_response_seq c)"
    "seq_wf (ctx_received_response_piv_seq c)"
  using assms by (simp_all add: wf_context_def)

lemma wf_window_fields:
  assumes "wf_context c" "seq_wf h"
  shows "wf_context (c\<lparr>ctx_response_seq := h, ctx_response_window := w, ctx_response_window_initialized := b\<rparr>)"
    "wf_context (c\<lparr>ctx_received_response_seq := h, ctx_received_response_window := w,
       ctx_received_response_window_initialized := b\<rparr>)"
    "wf_context (c\<lparr>ctx_received_response_piv_seq := h, ctx_received_response_piv_window := w,
       ctx_received_response_piv_window_initialized := b\<rparr>)"
  using assms by (simp_all add: wf_context_def sender_id_def recipient_id_def)

lemma mark_wf:
  assumes "wf_context c" and "seq_wf s"
  shows "mark_response_used oc c s = Ok d \<Longrightarrow> wf_context d"
    and "mark_received_response oc c s = Ok d \<Longrightarrow> wf_context d"
    and "mark_received_response_piv oc c s = Ok d \<Longrightarrow> wf_context d"
  using wf_window_fields [OF assms(1)] wf_window_seqs [OF assms(1)] assms(2)
  by (auto simp: mark_response_used_def mark_received_response_def mark_received_response_piv_def res_simps
      dest: window_mark_wf)

lemma mark_keeps:
  "mark_response_used oc c s = Ok d \<Longrightarrow> ctx_sender_seq d = ctx_sender_seq c \<and> is_replay d = is_replay c \<and>
     is_received_response_reuse d = is_received_response_reuse c \<and>
     is_received_response_piv_reuse d = is_received_response_piv_reuse c"
  "mark_received_response oc c s = Ok d \<Longrightarrow> ctx_sender_seq d = ctx_sender_seq c \<and> is_replay d = is_replay c \<and>
     is_response_reuse d = is_response_reuse c \<and>
     is_received_response_piv_reuse d = is_received_response_piv_reuse c"
  "mark_received_response_piv oc c s = Ok d \<Longrightarrow> ctx_sender_seq d = ctx_sender_seq c \<and> is_replay d = is_replay c \<and>
     is_response_reuse d = is_response_reuse c \<and>
     is_received_response_reuse d = is_received_response_reuse c"
  by (auto simp: window_defs res_simps is_replay_def fun_eq_iff)

text \<open>A new context has empty windows: nothing is rejected.\<close>

lemma context_new_fresh_windows:
  assumes "context_new C secret salt ctx sid rid = Ok c"
  shows "\<not> is_replay c s" "\<not> is_response_reuse c s" "\<not> is_received_response_reuse c s"
    "\<not> is_received_response_piv_reuse c s"
proof -
  from assms have "ctx_recipient_seq c = seq_default" "ctx_replay_window c = 0"
    "\<not> ctx_response_window_initialized c" "\<not> ctx_received_response_window_initialized c"
    "\<not> ctx_received_response_piv_window_initialized c"
    by (auto simp: context_new_eq split: option.splits if_splits simp del: case_prod_conv)
  then show "\<not> is_replay c s" "\<not> is_response_reuse c s" "\<not> is_received_response_reuse c s"
    "\<not> is_received_response_piv_reuse c s"
    by (auto simp: is_replay_def replay_check_eq window_reuse_iff is_response_reuse_def
        is_received_response_reuse_def is_received_response_piv_reuse_def seq_default_def)
qed

subsection \<open>The preflights\<close>

lemma required_len_small:
  assumes "length opts \<le> 128" and "length payload \<le> 128"
  shows "required_len opts payload = Some (1 + length opts + of_bool (payload \<noteq> []) + length payload + 8)"
  using assms by (simp add: required_len_def checked_add_usize_def usize_max_def)

lemma request_option_len_eq:
  "wf_context c \<Longrightarrow> request_option_len c n =
    1 + n + (if ctx_id_context_present c then 1 + length (id_context c) else 0) + length (sender_id c)"
  by (simp add: request_option_len_def accessor_lengths)

lemma preflight_request_eq:
  assumes "wf_context c"
  shows "preflight_protect_request c opts payload =
    (if \<not> ctx_active c then Err InvalidParam
     else if 128 < length opts then Err (too_small (length opts) 128)
     else if 128 < length payload then Err (too_small (length payload) 128)
     else Ok ())"
proof -
  have "request_option_len c 5 \<le> 22"
    using accessor_lengths [OF assms] by (simp add: request_option_len_eq [OF assms])
  then show ?thesis
    by (auto simp: preflight_protect_request_def required_len_small Let_def)
qed

lemma preflight_response_Ok:
  assumes "wf_context c"
  shows "preflight_protect_response c opts payload kid piv = Ok () \<longleftrightarrow>
    ctx_active c \<and> kid = recipient_id c \<and> from_piv piv \<noteq> None \<and>
    length opts \<le> 128 \<and> length payload \<le> 128 \<and> parse_inner_body opts = Ok (opts, [])"
  using accessor_lengths [OF assms]
  by (auto simp: preflight_protect_response_def res_simps required_len_small)

lemma next_request_option_len_eq:
  assumes "wf_context c" and "ctx_active c" and "\<not> ctx_sender_seq_exhausted c"
  shows "next_request_option_len c = Ok (request_option_len c (length (piv_bytes (ctx_sender_seq c))))"
  using assms by (simp add: next_request_option_len_def encode_piv_eq wf_context_def)

end
