(* ===== verification/Protect.thy ===== *)
theory Protect
  imports OscoreContext
begin

text \<open>
  Protection of requests and responses in \<^verbatim>\<open>src/lib.rs\<close>: the request path of a reserved
  sequence, the response path with and without a Partial IV of its own, and the two operations of
  \<open>ReservedSender\<close>. Each function keeps the order of the code: what is computed before a failing
  step, and what the context holds when the function returns an error. The lemmas give the closed
  form of the two outputs, when protection succeeds, and what it leaves unchanged.
\<close>

subsection \<open>Shared steps\<close>

text \<open>The size that a \<open>BufferTooSmall\<close> error reports.\<close>

definition ct_required :: "bytes \<Rightarrow> bytes \<Rightarrow> nat" where
  "ct_required class_e_options payload =
     1 + length class_e_options + (if payload = [] then 0 else 1 + length payload) + TAG_LEN"

text \<open>Filling the 280-byte vector with \<open>code || options || 0xFF || payload\<close>.\<close>

definition fill_plaintext :: "nat \<Rightarrow> u8 \<Rightarrow> bytes \<Rightarrow> bytes \<Rightarrow> (oscore_error, bytes) res" where
  "fill_plaintext required code class_e_options payload =
     (let ct_err = too_small required 280 in
      and_then (vec_push 280 ct_err [] code) (\<lambda>ct_out.
      and_then (vec_extend 280 ct_err ct_out class_e_options) (\<lambda>ct_out.
        if payload \<noteq> [] then
          and_then (vec_push 280 ct_err ct_out 0xFF) (\<lambda>ct_out.
            vec_extend 280 ct_err ct_out payload)
        else Ok ct_out)))"

text \<open>Encrypting in place and appending the detached tag.\<close>

definition seal ::
    "crypto \<Rightarrow> nat \<Rightarrow> bytes \<Rightarrow> bytes \<Rightarrow> bytes \<Rightarrow> bytes \<Rightarrow> (oscore_error, bytes) res" where
  "seal C required cipher nonce aad ct_out =
     and_then (ok_or EncryptFailed (ccm_encrypt C cipher nonce aad ct_out)) (\<lambda>(ct_out, tag).
       vec_extend 280 (too_small required 280) ct_out tag)"

subsection \<open>Requests\<close>

definition request_option ::
    "oscore_context \<Rightarrow> bytes \<Rightarrow> nat \<Rightarrow> (oscore_error, bytes) res" where
  "request_option ctx piv piv_len =
     (let has_context = ctx_id_context_present ctx;
          flags = 0x08 OR push_bit 4 (of_bool has_context) OR (as_u8 piv_len AND 0x07);
          opt_required = request_option_len ctx piv_len;
          cap = OSCORE_OPTION_MAX_LEN;
          opt_err = too_small opt_required cap in
      and_then (vec_push cap opt_err [] flags) (\<lambda>opt.
      and_then (vec_extend cap opt_err opt piv) (\<lambda>opt.
      and_then
        (if has_context then
           and_then (vec_push cap opt_err opt (ctx_id_context_len ctx)) (\<lambda>opt.
             vec_extend cap opt_err opt (id_context ctx))
         else Ok opt) (\<lambda>opt.
        vec_extend cap opt_err opt (sender_id ctx)))))"

definition protect_request_reserved ::
    "crypto \<Rightarrow> oscore_context \<Rightarrow> oscore_seq_num \<Rightarrow> u8 \<Rightarrow> bytes \<Rightarrow> bytes \<Rightarrow>
     (oscore_error, bytes \<times> bytes) res" where
  "protect_request_reserved C ctx seq code class_e_options payload =
     and_then (encode_piv seq (replicate PIV_MAX_LEN 0)) (\<lambda>(piv_buf, piv_len).
     and_then (slice piv_buf 0 piv_len) (\<lambda>piv.
     let nonce = compute_nonce (sender_id ctx) piv (ctx_common_iv ctx) in
     and_then (ok_or KeyDerivation (ccm_new C (ctx_sender_key ctx))) (\<lambda>cipher.
     let required = ct_required class_e_options payload in
     and_then (fill_plaintext required code class_e_options payload) (\<lambda>ct_out.
     and_then (build_aad_cbor (sender_id ctx) piv (replicate 64 0)) (\<lambda>(aad_buf, aad_len).
     and_then (slice aad_buf 0 aad_len) (\<lambda>aad.
     and_then (seal C required cipher nonce aad ct_out) (\<lambda>ct_out.
     and_then (request_option ctx piv piv_len) (\<lambda>opt.
       Ok (ct_out, opt)))))))))"

subsection \<open>Responses\<close>

text \<open>The choice of the nonce's Partial IV. With \<open>include_piv\<close> the context's own sequence number
  advances here, whatever happens later.\<close>

definition response_nonce_piv ::
    "oscore_context \<Rightarrow> bytes \<Rightarrow> bool \<Rightarrow>
     oscore_context \<times> (oscore_error, bytes \<times> nat \<times> nat option \<times> oscore_seq_num option) res" where
  "response_nonce_piv ctx request_piv include_piv =
     (if include_piv then
        let (s, old) = fetch_increment (ctx_sender_seq ctx) in
        (ctx\<lparr>ctx_sender_seq := s\<rparr>,
         and_then (ok_or SeqExhausted old) (\<lambda>seq.
         and_then (encode_piv seq (replicate PIV_MAX_LEN 0)) (\<lambda>(piv, len).
           Ok (piv, len, Some len, None))))
      else
        (ctx,
         and_then (ok_or InvalidParam (from_piv request_piv)) (\<lambda>seq.
         if is_response_reuse ctx seq then Err Replay
         else
           and_then (copy_at (replicate PIV_MAX_LEN 0) 0 request_piv) (\<lambda>piv.
             Ok (piv, length request_piv, None, Some seq)))))"

definition response_body ::
    "crypto \<Rightarrow> oscore_context \<Rightarrow> u8 \<Rightarrow> bytes \<Rightarrow> bytes \<Rightarrow> bytes \<Rightarrow> bytes \<Rightarrow> bytes \<Rightarrow> bytes \<Rightarrow>
     (oscore_error, bytes) res" where
  "response_body C ctx code class_e_options payload request_kid request_piv nonce_id piv =
     (let nonce = compute_nonce nonce_id piv (ctx_common_iv ctx);
          required = ct_required class_e_options payload in
      and_then (fill_plaintext required code class_e_options payload) (\<lambda>ct_out.
      and_then (build_aad_cbor request_kid request_piv (replicate 64 0)) (\<lambda>(aad_buf, aad_len).
      and_then (ok_or KeyDerivation (ccm_new C (ctx_sender_key ctx))) (\<lambda>cipher.
      and_then (slice aad_buf 0 aad_len) (\<lambda>aad.
        seal C required cipher nonce aad ct_out)))))"

definition response_option :: "bytes \<Rightarrow> (oscore_error, bytes) res" where
  "response_option piv =
     (let opt_err = too_small (1 + length piv) OSCORE_OPTION_MAX_LEN in
      and_then (vec_push OSCORE_OPTION_MAX_LEN opt_err [] (as_u8 (length piv) AND 0x07)) (\<lambda>opt.
        vec_extend OSCORE_OPTION_MAX_LEN opt_err opt piv))"

definition protect_response ::
    "bool \<Rightarrow> crypto \<Rightarrow> oscore_context \<Rightarrow> u8 \<Rightarrow> bytes \<Rightarrow> bytes \<Rightarrow> bytes \<Rightarrow> bytes \<Rightarrow> bool \<Rightarrow>
     oscore_context \<times> (oscore_error, bytes \<times> bytes) res" where
  "protect_response oc C ctx code class_e_options payload request_kid request_piv include_piv =
     (if NONCE_ID_LEN < length request_kid \<or> from_piv request_piv = None \<or>
         request_kid \<noteq> recipient_id ctx
      then (ctx, Err InvalidParam)
      else if \<not> ctx_active ctx then (ctx, Err InvalidParam)
      else if \<not> include_piv \<and> \<not> ctx_allow_no_piv_response ctx then (ctx, Err InvalidParam)
      else
        let (ctx, r) = response_nonce_piv ctx request_piv include_piv in
        case and_then r (\<lambda>(nonce_piv, piv_len, piv_for_option, resp_seq).
             let nonce_id = (if include_piv then sender_id ctx else request_kid) in
             and_then (slice nonce_piv 0 piv_len) (\<lambda>piv.
             and_then (response_body C ctx code class_e_options payload request_kid request_piv
                         nonce_id piv) (\<lambda>ct_out.
             and_then
               (case piv_for_option of
                  Some len \<Rightarrow> and_then (slice nonce_piv 0 len) response_option
                | None \<Rightarrow> Ok []) (\<lambda>opt.
             and_then
               (case resp_seq of
                  Some seq \<Rightarrow> mark_response_used oc ctx seq
                | None \<Rightarrow> Ok ctx) (\<lambda>ctx.
               Ok (ctx, ct_out, opt)))))) of
          Ok (ctx, ct_out, opt) \<Rightarrow> (ctx, Ok (ct_out, opt))
        | Err e \<Rightarrow> (ctx, Err e)
        | Panic \<Rightarrow> (ctx, Panic))"

definition protect_response_with_piv_inner ::
    "crypto \<Rightarrow> oscore_context \<Rightarrow> u8 \<Rightarrow> bytes \<Rightarrow> bytes \<Rightarrow> bytes \<Rightarrow> bytes \<Rightarrow> bytes \<Rightarrow>
     (oscore_error, bytes \<times> bytes) res" where
  "protect_response_with_piv_inner C ctx code class_e_options payload request_kid request_piv
     response_piv =
     and_then (response_body C ctx code class_e_options payload request_kid request_piv
                 (sender_id ctx) response_piv) (\<lambda>ct_out.
     and_then (response_option response_piv) (\<lambda>opt.
       Ok (ct_out, opt)))"

definition protect_response_with_reserved_piv ::
    "crypto \<Rightarrow> oscore_context \<Rightarrow> oscore_seq_num \<Rightarrow> u8 \<Rightarrow> bytes \<Rightarrow> bytes \<Rightarrow> bytes \<Rightarrow> bytes \<Rightarrow>
     (oscore_error, bytes \<times> bytes) res" where
  "protect_response_with_reserved_piv C ctx seq code class_e_options payload request_kid
     request_piv =
     (if NONCE_ID_LEN < length request_kid \<or> from_piv request_piv = None \<or>
         request_kid \<noteq> recipient_id ctx
      then Err InvalidParam
      else
        and_then (encode_piv seq (replicate PIV_MAX_LEN 0)) (\<lambda>(piv, piv_len).
        and_then (slice piv 0 piv_len) (\<lambda>piv.
          protect_response_with_piv_inner C ctx code class_e_options payload request_kid
            request_piv piv)))"

subsection \<open>The reserved sender\<close>

record reserved_sender =
  rsv_context :: oscore_context
  rsv_sequence :: oscore_seq_num

definition reserved_protect_request ::
    "crypto \<Rightarrow> reserved_sender \<Rightarrow> u8 \<Rightarrow> bytes \<Rightarrow> bytes \<Rightarrow> (oscore_error, bytes \<times> bytes) res" where
  "reserved_protect_request C rsv code class_e_options payload =
     protect_request_reserved C (rsv_context rsv) (rsv_sequence rsv) code class_e_options payload"

definition reserved_protect_response_with_piv ::
    "crypto \<Rightarrow> reserved_sender \<Rightarrow> u8 \<Rightarrow> bytes \<Rightarrow> bytes \<Rightarrow> bytes \<Rightarrow> bytes \<Rightarrow>
     (oscore_error, bytes \<times> bytes) res" where
  "reserved_protect_response_with_piv C rsv code class_e_options payload request_kid request_piv =
     protect_response_with_reserved_piv C (rsv_context rsv) (rsv_sequence rsv) code class_e_options
       payload request_kid request_piv"

subsection \<open>Closed forms\<close>

text \<open>The plaintext of a message, what sealing yields under the documented AEAD, and the KID
  context an option carries.\<close>

definition plaintext_of :: "u8 \<Rightarrow> bytes \<Rightarrow> bytes \<Rightarrow> bytes" where
  "plaintext_of code opts payload = code # opts @ (if payload = [] then [] else 0xFF # payload)"

definition ccm_seal :: "crypto \<Rightarrow> bytes \<Rightarrow> bytes \<Rightarrow> bytes \<Rightarrow> bytes \<Rightarrow> bytes option" where
  "ccm_seal C key nonce aad pt =
     Option.bind (ccm_new C key) (\<lambda>cipher.
       map_option (\<lambda>(ct, tag). ct @ tag) (ccm_encrypt C cipher nonce aad pt))"

definition kid_context :: "oscore_context \<Rightarrow> bytes option" where
  "kid_context c = (if ctx_id_context_present c then Some (id_context c) else None)"

lemma length_plaintext_of:
  "length (plaintext_of code opts payload) =
   1 + length opts + (if payload = [] then 0 else 1 + length payload)"
  by (simp add: plaintext_of_def)

lemma plaintext_of_not_Nil [simp]: "plaintext_of code opts payload \<noteq> []"
  by (simp add: plaintext_of_def)

lemma ct_required_eq: "ct_required opts payload = length (plaintext_of code opts payload) + 8"
  by (simp add: ct_required_def length_plaintext_of)

lemma fill_plaintext_eq:
  "fill_plaintext required code opts payload =
   (if length (plaintext_of code opts payload) \<le> 280 then Ok (plaintext_of code opts payload)
    else Err (too_small required 280))"
  by (auto simp: fill_plaintext_def vec_push_def vec_extend_def plaintext_of_def Let_def)

lemma ccm_seal_Some:
  assumes "ccm_contract C" and "length key = 16" and "length nonce = 13" and "length pt < 2 ^ 16"
  obtains cipher ct tag where "ccm_new C key = Some cipher"
    "ccm_encrypt C cipher nonce aad pt = Some (ct, tag)" "length ct = length pt" "length tag = 8"
    "ccm_decrypt C cipher nonce aad ct tag = Some pt" "ccm_seal C key nonce aad pt = Some (ct @ tag)"
proof -
  from assms(1,2) obtain cipher where new: "ccm_new C key = Some cipher"
    unfolding ccm_contract_def by blast
  with assms obtain ct tag where "ccm_encrypt C cipher nonce aad pt = Some (ct, tag)"
    "length ct = length pt" "length tag = 8" "ccm_decrypt C cipher nonce aad ct tag = Some pt"
    unfolding ccm_contract_def by metis
  with new that show ?thesis by (simp add: ccm_seal_def)
qed

lemma seal_eq:
  assumes "ccm_contract C" and "length key = 16" and "length nonce = 13" and "length pt < 2 ^ 16"
    and "ccm_new C key = Some cipher"
  shows "seal C required cipher nonce aad pt =
    (if length pt + 8 \<le> 280 then Ok (the (ccm_seal C key nonce aad pt))
     else Err (too_small required 280))"
  using ccm_seal_Some [OF assms(1-4), of aad]
  by (rule ccm_seal_Some [OF assms(1-4), of aad])
    (use assms(5) in \<open>auto simp: seal_def vec_extend_def\<close>)

subsection \<open>The request option\<close>

lemma request_flags:
  assumes "n \<le> 5"
  shows "0x08 OR push_bit 4 (of_bool h) OR (as_u8 n AND 0x07) =
    as_u8 ((if h then 16 else 0) + 8 + n)"
proof -
  from assms consider "n = 0" | "n = 1" | "n = 2" | "n = 3" | "n = 4" | "n = 5" by linarith
  then show ?thesis by cases (cases h; simp)+
qed

lemma option_encoding_kid:
  "option_encoding piv ctx (Some kid) =
     as_u8 ((if ctx \<noteq> None then 16 else 0) + 8 + length piv) # piv @
       (case ctx of None \<Rightarrow> [] | Some c \<Rightarrow> as_u8 (length c) # c) @ kid"
  by (simp add: option_encoding_def option_flags_def del: of_nat_add split: option.splits)

lemma request_option_eq:
  assumes "wf_context c" and "length piv \<le> 5"
  shows "request_option c piv (length piv) =
    Ok (option_encoding piv (kid_context c) (Some (sender_id c)))"
proof -
  note b = accessor_lengths [OF assms(1)]
  have len: "as_u8 (length (id_context c)) = ctx_id_context_len c" by (simp add: b)
  show ?thesis
    using b(2,6) assms(2)
    by (auto simp: request_option_def Let_def request_flags vec_push_def vec_extend_def
        option_encoding_kid kid_context_def len simp del: of_nat_add)
qed

lemma length_option_encoding_kid:
  "length (option_encoding piv ctx (Some kid)) =
   1 + length piv + (case ctx of None \<Rightarrow> 0 | Some c \<Rightarrow> 1 + length c) + length kid"
  by (simp add: option_encoding_def split: option.splits)

subsection \<open>Protecting a request\<close>

definition request_nonce :: "oscore_context \<Rightarrow> oscore_seq_num \<Rightarrow> bytes" where
  "request_nonce c s = compute_nonce (sender_id c) (piv_bytes s) (ctx_common_iv c)"

lemma length_request_nonce: "wf_context c \<Longrightarrow> seq_wf s \<Longrightarrow> length (request_nonce c s) = 13"
  using accessor_lengths [of c]
  by (simp add: request_nonce_def length_compute_nonce length_piv_bytes wf_context_def)

lemma encode_slice:
  assumes "seq_wf s"
  shows "encode_piv s (replicate 5 0) = Ok (written 5 (piv_bytes s), length (piv_bytes s))"
    and "slice (written 5 (piv_bytes s)) 0 (length (piv_bytes s)) = Ok (piv_bytes s)"
  using assms length_piv_bytes [OF assms]
  by (simp_all add: encode_piv_eq slice_def written_def)

lemma aad_slice:
  assumes "length kid + length piv \<le> 16"
  shows "slice (written 64 (enc_structure kid piv)) 0 (length (enc_structure kid piv)) =
    Ok (enc_structure kid piv)"
proof -
  have "length (enc_structure kid piv) \<le> 64"
    using assms by (simp add: enc_structure_def cbor_bstr_def [of "aad_array kid piv"])
  then show ?thesis by (simp add: slice_def)
qed

lemma protect_request_eq:
  assumes wf: "wf_context c" and s: "seq_wf s" and C: "ccm_contract C"
  shows "protect_request_reserved C c s code opts payload =
    (if length (plaintext_of code opts payload) \<le> 272
     then Ok (the (ccm_seal C (ctx_sender_key c) (request_nonce c s)
                     (enc_structure (sender_id c) (piv_bytes s)) (plaintext_of code opts payload)),
              option_encoding (piv_bytes s) (kid_context c) (Some (sender_id c)))
     else Err (too_small (ct_required opts payload) 280))"
proof -
  let ?pt = "plaintext_of code opts payload"
  have key: "length (ctx_sender_key c) = 16" using wf by (simp add: wf_context_def)
  with C obtain cipher where new: "ccm_new C (ctx_sender_key c) = Some cipher"
    unfolding ccm_contract_def by blast
  have small: "length (sender_id c) + length (piv_bytes s) \<le> 16"
    using accessor_lengths(2) [OF wf] length_piv_bytes [OF s] by linarith
  have sealed: "seal C r cipher (request_nonce c s) aad ?pt =
      (if length ?pt + 8 \<le> 280 then Ok (the (ccm_seal C (ctx_sender_key c) (request_nonce c s) aad ?pt))
       else Err (too_small r 280))" if "length ?pt \<le> 280" for aad r
    using that by (intro seal_eq [OF C key length_request_nonce [OF wf s] _ new]) simp
  show ?thesis
    by (simp add: protect_request_reserved_def encode_slice [OF s] fill_plaintext_eq new
        build_aad_cbor_eq [OF small] aad_slice [OF small] Let_def sealed
        request_option_eq [OF wf length_piv_bytes [OF s]] flip: request_nonce_def)
qed

subsection \<open>Protecting a response\<close>

definition response_ok :: "oscore_context \<Rightarrow> bytes \<Rightarrow> bytes \<Rightarrow> bool" where
  "response_ok c request_kid request_piv \<longleftrightarrow>
     request_kid = recipient_id c \<and> from_piv request_piv \<noteq> None"

lemma response_guard:
  assumes "wf_context c"
  shows "(NONCE_ID_LEN < length kid \<or> from_piv piv = None \<or> kid \<noteq> recipient_id c) \<longleftrightarrow>
    \<not> response_ok c kid piv"
  using accessor_lengths(4) [OF assms] by (auto simp: response_ok_def)

lemma response_body_eq:
  assumes wf: "wf_context c" and ok: "response_ok c kid rpiv" and C: "ccm_contract C"
    and nonce: "length nid \<le> 7" "length piv \<le> 5" "piv \<noteq> []"
  shows "response_body C c code opts payload kid rpiv nid piv =
    (if length (plaintext_of code opts payload) \<le> 272
     then Ok (the (ccm_seal C (ctx_sender_key c) (compute_nonce nid piv (ctx_common_iv c))
                     (enc_structure kid rpiv) (plaintext_of code opts payload)))
     else Err (too_small (ct_required opts payload) 280))"
proof -
  let ?pt = "plaintext_of code opts payload"
  have key: "length (ctx_sender_key c) = 16" and iv: "length (ctx_common_iv c) = 13"
    using wf by (simp_all add: wf_context_def)
  from key C obtain cipher where new: "ccm_new C (ctx_sender_key c) = Some cipher"
    unfolding ccm_contract_def by blast
  have small: "length kid + length rpiv \<le> 16"
    using accessor_lengths(4) [OF wf] ok by (auto simp: response_ok_def dest: from_piv_Some(4))
  have sealed: "seal C r cipher (compute_nonce nid piv (ctx_common_iv c)) aad ?pt =
      (if length ?pt + 8 \<le> 280
       then Ok (the (ccm_seal C (ctx_sender_key c) (compute_nonce nid piv (ctx_common_iv c)) aad ?pt))
       else Err (too_small r 280))" if "length ?pt \<le> 280" for aad r
    using that by (intro seal_eq [OF C key length_compute_nonce [OF nonce iv] _ new]) simp
  show ?thesis
    by (simp add: response_body_def fill_plaintext_eq new build_aad_cbor_eq [OF small]
        aad_slice [OF small] Let_def sealed)
qed

lemma response_option_eq:
  assumes "length piv \<le> 5" and "piv \<noteq> []"
  shows "response_option piv = Ok (option_encoding piv None None)"
proof -
  have f: "as_u8 n AND 7 = as_u8 n" if "n \<le> 5" for n
  proof -
    from that consider "n = 0" | "n = 1" | "n = 2" | "n = 3" | "n = 4" | "n = 5" by linarith
    then show ?thesis by cases simp_all
  qed
  with assms show ?thesis
    by (simp add: response_option_def Let_def vec_push_def vec_extend_def option_encoding_def
        option_flags_def)
qed

text \<open>Reusing the request's nonce: once per request, and only where the context allows it.\<close>

lemma protect_response_no_piv:
  assumes wf: "wf_context c" and ok: "response_ok c kid rpiv" and C: "ccm_contract C"
    and act: "ctx_active c" "ctx_allow_no_piv_response c" and s: "from_piv rpiv = Some s"
  shows "protect_response oc C c code opts payload kid rpiv False =
    (if is_response_reuse c s then (c, Err Replay)
     else if 272 < length (plaintext_of code opts payload)
     then (c, Err (too_small (ct_required opts payload) 280))
     else case mark_response_used oc c s of
       Ok c' \<Rightarrow> (c', Ok (the (ccm_seal C (ctx_sender_key c) (compute_nonce kid rpiv (ctx_common_iv c))
                     (enc_structure kid rpiv) (plaintext_of code opts payload)), []))
     | Err e \<Rightarrow> (c, Err e) | Panic \<Rightarrow> (c, Panic))"
proof -
  have len: "length rpiv \<le> 5" "rpiv \<noteq> []"
    using from_piv_Some(2,4) [OF s] piv_bytes_not_Nil [of s] by auto
  have kid: "length kid \<le> 7" using ok accessor_lengths(4) [OF wf] by (simp add: response_ok_def)
  have sl: "slice (rpiv @ replicate (5 - length rpiv) 0) 0 (length rpiv) = Ok rpiv"
    by (simp add: slice_def)
  have k: "kid = recipient_id c" using ok by (simp add: response_ok_def)
  note body = response_body_eq [OF wf ok C kid len, unfolded k]
  show ?thesis
    using act len kid unfolding k
    by (cases "mark_response_used oc c s")
      (simp_all add: protect_response_def response_nonce_piv_def s Let_def sl body)
qed

text \<open>A response with a Partial IV: the context's sequence number advances whatever happens.\<close>

lemma protect_response_piv:
  assumes wf: "wf_context c" and ok: "response_ok c kid rpiv" and C: "ccm_contract C"
    and act: "ctx_active c"
  shows "protect_response oc C c code opts payload kid rpiv True =
    (case seq_increment (ctx_sender_seq c) of
       None \<Rightarrow> (c, Err SeqExhausted)
     | Some n \<Rightarrow>
         (c\<lparr>ctx_sender_seq := n\<rparr>,
          if 272 < length (plaintext_of code opts payload)
          then Err (too_small (ct_required opts payload) 280)
          else Ok (the (ccm_seal C (ctx_sender_key c) (request_nonce c (ctx_sender_seq c))
                     (enc_structure kid rpiv) (plaintext_of code opts payload)),
                   option_encoding (piv_bytes (ctx_sender_seq c)) None None)))"
proof -
  let ?s = "ctx_sender_seq c"
  have s: "seq_wf ?s" using wf by (simp add: wf_context_def)
  note len = length_piv_bytes [OF s] piv_bytes_not_Nil [of ?s]
  show ?thesis
  proof (cases "seq_increment ?s")
    case None
    then show ?thesis
      using act by (simp add: protect_response_def response_guard [OF wf, simplified] ok
          response_nonce_piv_def fetch_increment_def)
  next
    case (Some n)
    let ?c = "c\<lparr>ctx_sender_seq := n\<rparr>"
    have body: "response_body C ?c code opts payload kid rpiv nid piv =
        response_body C c code opts payload kid rpiv nid piv" for nid piv
      by (simp add: response_body_def)
    have sid: "sender_id ?c = sender_id c" by (simp add: sender_id_def)
    show ?thesis
      using act Some
      by (simp add: protect_response_def response_guard [OF wf, simplified] ok
          response_nonce_piv_def fetch_increment_def encode_slice [OF s] Let_def body sid
          response_body_eq [OF wf ok C accessor_lengths(2) [OF wf] len] response_option_eq [OF len]
          request_nonce_def)
  qed
qed

lemma protect_response_reserved_eq:
  assumes wf: "wf_context c" and s: "seq_wf s" and C: "ccm_contract C"
  shows "protect_response_with_reserved_piv C c s code opts payload kid rpiv =
    (if \<not> response_ok c kid rpiv then Err InvalidParam
     else if 272 < length (plaintext_of code opts payload)
     then Err (too_small (ct_required opts payload) 280)
     else Ok (the (ccm_seal C (ctx_sender_key c) (request_nonce c s) (enc_structure kid rpiv)
                (plaintext_of code opts payload)),
              option_encoding (piv_bytes s) None None))"
proof -
  note len = length_piv_bytes [OF s] piv_bytes_not_Nil [of s]
  show ?thesis
    by (simp add: protect_response_with_reserved_piv_def response_guard [OF wf, simplified]
        encode_slice [OF s] protect_response_with_piv_inner_def
        response_body_eq [OF wf _ C accessor_lengths(2) [OF wf] len] response_option_eq [OF len]
        request_nonce_def)
qed

text \<open>What any call leaves behind: the context is the old one, or its own sequence number has
  advanced, or the response window has one more mark.\<close>

lemma protect_response_context:
  assumes "protect_response oc C c code opts payload kid rpiv incl = (c', r)"
  shows "c' = c \<or>
    (incl \<and> (\<exists>n. seq_increment (ctx_sender_seq c) = Some n \<and> c' = c\<lparr>ctx_sender_seq := n\<rparr>)) \<or>
    (\<not> incl \<and> (\<exists>s out. from_piv rpiv = Some s \<and> \<not> is_response_reuse c s \<and>
       mark_response_used oc c s = Ok c' \<and> r = Ok out))"
  using assms
  by (auto simp: protect_response_def response_nonce_piv_def fetch_increment_def Let_def res_simps
      split: if_splits option.splits res.splits)

lemma protect_response_wf:
  assumes "wf_context c" and "protect_response oc C c code opts payload kid rpiv incl = (c', r)"
  shows "wf_context c'"
  using protect_response_context [OF assms(2)]
proof (elim disjE conjE exE)
  fix n assume n: "seq_increment (ctx_sender_seq c) = Some n" and c': "c' = c\<lparr>ctx_sender_seq := n\<rparr>"
  have ex: "\<not> ctx_sender_seq_exhausted c"
  proof
    assume "ctx_sender_seq_exhausted c"
    then have "get (ctx_sender_seq c) = SEQ_MAX" using assms(1) by (simp add: wf_context_def)
    with n assms(1) show False by (auto simp: seq_increment_eq wf_context_def split: if_splits)
  qed
  from n have "seq_wf n" using assms(1) seq_increment_Some by (auto simp: wf_context_def)
  with assms(1) ex c' show ?thesis by (simp add: wf_context_def sender_id_def recipient_id_def)
next
  fix s out assume "from_piv rpiv = Some s" "mark_response_used oc c s = Ok c'"
  with assms(1) show ?thesis by (auto intro: mark_wf from_piv_Some(1))
qed (use assms(1) in simp)

end
