(* ===== verification/Unprotect.thy ===== *)
theory Unprotect
  imports Protect
begin

text \<open>
  Unprotection of requests and responses in \<^verbatim>\<open>src/lib.rs\<close>. A request is checked against the
  replay window before decryption and marked after every output fits; a response is first turned
  into a pending response, which leaves the context alone, and only its commit marks the windows.
\<close>

subsection \<open>Shared steps\<close>

definition open_ciphertext ::
    "crypto \<Rightarrow> bytes \<Rightarrow> bytes \<Rightarrow> bytes \<Rightarrow> bytes \<Rightarrow> (oscore_error, bytes) res" where
  "open_ciphertext C key nonce aad ciphertext =
     (let tag_start = length ciphertext - TAG_LEN in
      and_then (slice_from ciphertext tag_start) (\<lambda>tag.
      and_then (ok_or KeyDerivation (ccm_new C key)) (\<lambda>cipher.
      and_then (slice ciphertext 0 tag_start) (\<lambda>body.
      and_then (vec_extend 256 (too_small tag_start 256) [] body) (\<lambda>plaintext.
        ok_or DecryptFailed (ccm_decrypt C cipher nonce aad plaintext tag))))))"

text \<open>Splitting what follows the code into options and payload.\<close>

definition split_rest :: "bool \<Rightarrow> bytes \<Rightarrow> (oscore_error, bytes \<times> bytes) res" where
  "split_rest oc rest =
     and_then (find_payload_marker oc rest) (\<lambda>m.
       case m of
         Some pos \<Rightarrow>
           and_then (slice_from rest (pos + 1)) (\<lambda>payload.
             if payload = [] then Err InvalidParam
             else and_then (slice rest 0 pos) (\<lambda>opts. Ok (opts, payload)))
       | None \<Rightarrow> Ok (rest, []))"

definition bounded_outputs :: "bytes \<Rightarrow> bytes \<Rightarrow> (oscore_error, bytes \<times> bytes) res" where
  "bounded_outputs options_slice payload_slice =
     and_then (vec_extend 128 (too_small (length options_slice) 128) [] options_slice) (\<lambda>opts.
     and_then (vec_extend 128 (too_small (length payload_slice) 128) [] payload_slice) (\<lambda>payload.
       Ok (opts, payload)))"

text \<open>The KID context of an option is not that of the context.\<close>

definition kid_context_mismatch :: "oscore_context \<Rightarrow> oscore_option \<Rightarrow> bool" where
  "kid_context_mismatch ctx opt \<longleftrightarrow>
     opt_kid_context_present opt \<and>
     (\<not> ctx_id_context_present ctx \<or> kid_context_of opt \<noteq> id_context ctx)"

subsection \<open>Requests\<close>

definition unprotect_request_body ::
    "bool \<Rightarrow> crypto \<Rightarrow> oscore_context \<Rightarrow> bytes \<Rightarrow> bytes \<Rightarrow>
     (oscore_error, oscore_seq_num \<times> u8 \<times> bytes \<times> bytes) res" where
  "unprotect_request_body oc C ctx oscore_option ciphertext =
     (if length ciphertext < TAG_LEN + 1 then Err InvalidParam
      else
        and_then (parse_option oscore_option) (\<lambda>opt.
        if opt_piv_len opt = 0 \<or> \<not> opt_kid_present opt then Err InvalidParam
        else if kid_of opt \<noteq> recipient_id ctx then Err NoContext
        else if kid_context_mismatch ctx opt then Err NoContext
        else
          and_then (ok_or InvalidParam (from_piv (piv_of opt))) (\<lambda>seq.
          if is_replay ctx seq then Err Replay
          else
            let nonce = compute_nonce (recipient_id ctx) (piv_of opt) (ctx_common_iv ctx) in
            and_then (build_aad_cbor (kid_of opt) (piv_of opt) (replicate 64 0))
              (\<lambda>(aad_buf, aad_len).
            and_then (slice aad_buf 0 aad_len) (\<lambda>aad.
            and_then (open_ciphertext C (ctx_recipient_key ctx) nonce aad ciphertext) (\<lambda>plaintext.
            if plaintext = [] then Err InvalidParam
            else
              and_then (index plaintext 0) (\<lambda>code.
              and_then (slice_from plaintext 1) (\<lambda>rest.
              and_then (split_rest oc rest) (\<lambda>(options_slice, payload_slice).
              and_then (bounded_outputs options_slice payload_slice) (\<lambda>(opts, payload).
                Ok (seq, code, opts, payload)))))))))))"

definition unprotect_request ::
    "bool \<Rightarrow> crypto \<Rightarrow> oscore_context \<Rightarrow> bytes \<Rightarrow> bytes \<Rightarrow>
     oscore_context \<times> (oscore_error, u8 \<times> bytes \<times> bytes) res" where
  "unprotect_request oc C ctx oscore_option ciphertext =
     (case unprotect_request_body oc C ctx oscore_option ciphertext of
        Ok (seq, out) \<Rightarrow> (update_replay_window ctx seq, Ok out)
      | Err e \<Rightarrow> (ctx, Err e)
      | Panic \<Rightarrow> (ctx, Panic))"

subsection \<open>Responses\<close>

record pending_response =
  pr_request_seq :: oscore_seq_num
  pr_response_seq :: "oscore_seq_num option"
  pr_mark_request_used :: bool
  pr_code :: u8
  pr_options :: bytes
  pr_payload :: bytes

text \<open>\<open>matches!(code >> 5, 2..=5)\<close>.\<close>

definition response_class :: "u8 \<Rightarrow> bool" where
  "response_class code \<longleftrightarrow> 2 \<le> drop_bit 5 code \<and> drop_bit 5 code \<le> 5"

definition begin_unprotect_response_mode ::
    "bool \<Rightarrow> crypto \<Rightarrow> oscore_context \<Rightarrow> bytes \<Rightarrow> bytes \<Rightarrow> bytes \<Rightarrow> bool \<Rightarrow>
     (oscore_error, pending_response) res" where
  "begin_unprotect_response_mode oc C ctx oscore_option ciphertext request_piv observe =
     (if length ciphertext < TAG_LEN + 1 then Err InvalidParam
      else
        and_then (parse_option oscore_option) (\<lambda>opt.
        if kid_context_mismatch ctx opt then Err NoContext
        else if opt_kid_present opt \<and> kid_of opt \<noteq> recipient_id ctx then Err NoContext
        else
          and_then (ok_or InvalidParam (from_piv request_piv)) (\<lambda>request_seq.
          if \<not> observe \<and> is_received_response_reuse ctx request_seq then Err Replay
          else if observe \<and> opt_piv_len opt = 0 then Err InvalidParam
          else
            let piv = (if 0 < opt_piv_len opt then piv_of opt else request_piv) in
            and_then
              (if 0 < opt_piv_len opt then
                 and_then (ok_or InvalidParam (from_piv piv)) (\<lambda>seq.
                   if is_received_response_piv_reuse ctx seq then Err Replay else Ok (Some seq))
               else Ok None) (\<lambda>response_seq.
            let nonce_id = (if 0 < opt_piv_len opt then recipient_id ctx else sender_id ctx);
                nonce = compute_nonce nonce_id piv (ctx_common_iv ctx) in
            and_then (build_aad_cbor (sender_id ctx) request_piv (replicate 64 0))
              (\<lambda>(aad_buf, aad_len).
            and_then (slice aad_buf 0 aad_len) (\<lambda>aad.
            and_then (open_ciphertext C (ctx_recipient_key ctx) nonce aad ciphertext) (\<lambda>plaintext.
            if plaintext = [] then Err InvalidParam
            else
              and_then (index plaintext 0) (\<lambda>code.
              if \<not> response_class code then Err InvalidParam
              else
                and_then (slice_from plaintext 1) (\<lambda>rest.
                and_then (split_rest oc rest) (\<lambda>(options_slice, payload_slice).
                and_then (bounded_outputs options_slice payload_slice) (\<lambda>(opts, payload).
                  Ok \<lparr>pr_request_seq = request_seq, pr_response_seq = response_seq,
                      pr_mark_request_used = (\<not> observe), pr_code = code,
                      pr_options = opts, pr_payload = payload\<rparr>)))))))))))"

definition begin_unprotect_response ::
    "bool \<Rightarrow> crypto \<Rightarrow> oscore_context \<Rightarrow> bytes \<Rightarrow> bytes \<Rightarrow> bytes \<Rightarrow>
     (oscore_error, pending_response) res" where
  "begin_unprotect_response oc C ctx oscore_option ciphertext request_piv =
     begin_unprotect_response_mode oc C ctx oscore_option ciphertext request_piv False"

definition begin_unprotect_observe_response ::
    "bool \<Rightarrow> crypto \<Rightarrow> oscore_context \<Rightarrow> bytes \<Rightarrow> bytes \<Rightarrow> bytes \<Rightarrow>
     (oscore_error, pending_response) res" where
  "begin_unprotect_observe_response oc C ctx oscore_option ciphertext request_piv =
     begin_unprotect_response_mode oc C ctx oscore_option ciphertext request_piv True"

text \<open>Accepting a pending response: the marks, then the plaintext.\<close>

definition commit ::
    "bool \<Rightarrow> oscore_context \<Rightarrow> pending_response \<Rightarrow>
     oscore_context \<times> (oscore_error, u8 \<times> bytes \<times> bytes) res" where
  "commit oc ctx p =
     (if \<not> response_class (pr_code p) then (ctx, Err InvalidParam)
      else
        case and_then
               (case pr_response_seq p of
                  Some seq \<Rightarrow> mark_received_response_piv oc ctx seq
                | None \<Rightarrow> Ok ctx) (\<lambda>ctx.
               if pr_mark_request_used p then mark_received_response oc ctx (pr_request_seq p)
               else Ok ctx) of
          Ok ctx \<Rightarrow> (ctx, Ok (pr_code p, pr_options p, pr_payload p))
        | Err e \<Rightarrow> (ctx, Err e)
        | Panic \<Rightarrow> (ctx, Panic))"

definition accept_response ::
    "bool \<Rightarrow> oscore_context \<Rightarrow> (oscore_error, pending_response) res \<Rightarrow>
     oscore_context \<times> (oscore_error, u8 \<times> bytes \<times> bytes) res" where
  "accept_response oc ctx r =
     (case r of Ok p \<Rightarrow> commit oc ctx p | Err e \<Rightarrow> (ctx, Err e) | Panic \<Rightarrow> (ctx, Panic))"

definition unprotect_response ::
    "bool \<Rightarrow> crypto \<Rightarrow> oscore_context \<Rightarrow> bytes \<Rightarrow> bytes \<Rightarrow> bytes \<Rightarrow>
     oscore_context \<times> (oscore_error, u8 \<times> bytes \<times> bytes) res" where
  "unprotect_response oc C ctx oscore_option ciphertext request_piv =
     accept_response oc ctx
       (begin_unprotect_response oc C ctx oscore_option ciphertext request_piv)"

definition unprotect_observe_response ::
    "bool \<Rightarrow> crypto \<Rightarrow> oscore_context \<Rightarrow> bytes \<Rightarrow> bytes \<Rightarrow> bytes \<Rightarrow>
     oscore_context \<times> (oscore_error, u8 \<times> bytes \<times> bytes) res" where
  "unprotect_observe_response oc C ctx oscore_option ciphertext request_piv =
     accept_response oc ctx
       (begin_unprotect_observe_response oc C ctx oscore_option ciphertext request_piv)"

subsection \<open>The shared steps against sealing\<close>

lemma open_seal:
  assumes C: "ccm_contract C" and key: "length key = 16" and n: "length nonce = 13"
    and pt: "length pt \<le> 256"
  shows "open_ciphertext C key nonce aad (the (ccm_seal C key nonce aad pt)) = Ok pt"
    and "length (the (ccm_seal C key nonce aad pt)) = length pt + 8"
proof -
  have small: "length pt < 2 ^ 16" using pt by simp
  obtain cipher ct tag where s: "ccm_new C key = Some cipher" "length ct = length pt" "length tag = 8"
    "ccm_decrypt C cipher nonce aad ct tag = Some pt" "ccm_seal C key nonce aad pt = Some (ct @ tag)"
    using ccm_seal_Some [OF C key n small] by metis
  then show "open_ciphertext C key nonce aad (the (ccm_seal C key nonce aad pt)) = Ok pt"
    using pt by (simp add: open_ciphertext_def slice_from_def slice_def vec_extend_def Let_def)
  show "length (the (ccm_seal C key nonce aad pt)) = length pt + 8"
    using s by simp
qed

lemma open_too_long:
  assumes C: "ccm_contract C" and key: "length key = 16" and "256 < length ct - 8"
  shows "open_ciphertext C key nonce aad ct = Err (too_small (length ct - 8) 256)"
proof -
  from C key obtain cipher where "ccm_new C key = Some cipher" unfolding ccm_contract_def by blast
  with assms(3) show ?thesis
    by (simp add: open_ciphertext_def slice_from_def slice_def vec_extend_def Let_def)
qed

lemma open_ciphertext_no_panic: "open_ciphertext C key nonce aad ct \<noteq> Panic"
  by (auto simp: open_ciphertext_def Let_def res_simps slice_simps vec_simps)

lemma open_ciphertext_Ok:
  "open_ciphertext C key nonce aad ct = Ok pt \<Longrightarrow>
   \<exists>cipher. ccm_new C key = Some cipher \<and> length ct - 8 \<le> 256 \<and>
     ccm_decrypt C cipher nonce aad (take (length ct - 8) ct) (drop (length ct - 8) ct) = Some pt"
  by (auto simp: open_ciphertext_def Let_def res_simps slice_simps vec_simps)

definition body_ok :: "bytes \<Rightarrow> bytes \<Rightarrow> bool" where
  "body_ok opts payload \<longleftrightarrow>
     parse_inner_body opts = Ok (opts, []) \<and> length opts \<le> 128 \<and> length payload \<le> 128"

text \<open>The code, the options and the payload come back from the plaintext.\<close>

lemma split_rest_eq:
  assumes "length rest \<le> isize_max" and "parse_inner_body rest = Ok (opts, payload)"
  shows "split_rest oc rest = Ok (opts, payload)"
  using parse_inner_body_find [OF assms, of oc] parse_inner_body_split [OF assms]
  by (auto simp: split_rest_def slice_from_def slice_def split: if_splits)

lemma split_plaintext:
  assumes "body_ok opts payload"
  shows "split_rest oc (opts @ (if payload = [] then [] else 0xFF # payload)) = Ok (opts, payload)"
  using assms
  by (intro split_rest_eq) (auto simp: body_ok_def isize_max_def intro!: parse_inner_body_payload)

lemma bounded_outputs_eq:
  "bounded_outputs opts payload =
    (if 128 < length opts then Err (too_small (length opts) 128)
     else if 128 < length payload then Err (too_small (length payload) 128)
     else Ok (opts, payload))"
  by (simp add: bounded_outputs_def vec_extend_def)

lemma split_rest_no_panic: "split_rest False rest \<noteq> Panic"
  using find_payload_marker_no_panic [of rest]
  by (auto simp: split_rest_def res_simps slice_simps dest: find_payload_marker_Some
      split: option.splits)

text \<open>With overflow checks, what a split returns is what the reference parser returns.\<close>

lemma split_rest_sound:
  assumes "length rest \<le> isize_max" and "split_rest True rest = Ok (opts, payload)"
  shows "parse_inner_body rest = Ok (opts, payload)"
proof -
  from assms(2) obtain m where m: "find_payload_marker True rest = Ok m"
    by (auto simp: split_rest_def res_simps)
  with assms find_parse_inner_body [OF assms(1) m] find_payload_marker_Some [of True rest] show ?thesis
    by (auto simp: split_rest_def res_simps slice_simps split: option.splits if_splits)
qed

subsection \<open>Requests\<close>

lemma kid_context_matches:
  assumes "wf_context c" and "option_parts_ok piv (kid_context c) kid"
    and "ctx_id_context_present c = ctx_id_context_present d" "id_context c = id_context d"
  shows "\<not> kid_context_mismatch d (option_value piv (kid_context c) kid)"
  using assms(3,4) option_value_parts [OF assms(2)]
  by (auto simp: kid_context_mismatch_def kid_context_def)

lemma request_parts_ok:
  assumes "wf_context c" and "seq_wf s"
  shows "option_parts_ok (piv_bytes s) (kid_context c) (Some (sender_id c))"
  using accessor_lengths [OF assms(1)] from_piv_piv_bytes [OF assms(2)] length_piv_bytes [OF assms(2)]
  by (auto simp: option_parts_ok_def kid_context_def from_piv_eq split: if_splits)

text \<open>Decrypting what a mirrored context protected: the steps up to the plaintext.\<close>

lemma sealed_request_facts:
  assumes wf: "wf_context c" "wf_context d" and m: "mirrored c d" and s: "seq_wf s"
    and C: "ccm_contract C" and len: "length pt \<le> 256" and ne: "pt \<noteq> []"
  defines "ct \<equiv> the (ccm_seal C (ctx_sender_key c) (request_nonce c s)
      (enc_structure (sender_id c) (piv_bytes s)) pt)"
    and "opt \<equiv> option_value (piv_bytes s) (kid_context c) (Some (sender_id c))"
  shows "9 \<le> length ct" "recipient_id d = sender_id c" "\<not> kid_context_mismatch d opt"
    "parse_option (option_encoding (piv_bytes s) (kid_context c) (Some (sender_id c))) = Ok opt"
    "open_ciphertext C (ctx_recipient_key d) (compute_nonce (sender_id c) (piv_bytes s) (ctx_common_iv d))
       (enc_structure (sender_id c) (piv_bytes s)) ct = Ok pt"
    "length (sender_id c) + length (piv_bytes s) \<le> 16"
    "index pt 0 = Ok (hd pt)" "slice_from pt 1 = Ok (tl pt)"
proof -
  note parts = request_parts_ok [OF wf(1) s]
  have key: "length (ctx_sender_key c) = 16" using wf(1) by (simp add: wf_context_def)
  note nonce = length_request_nonce [OF wf(1) s]
  note opened = open_seal [OF C key nonce len, of "enc_structure (sender_id c) (piv_bytes s)", folded ct_def]
  show "length (sender_id c) + length (piv_bytes s) \<le> 16"
    using accessor_lengths(2) [OF wf(1)] length_piv_bytes [OF s] by linarith
  show "9 \<le> length ct" using opened(2) ne by (cases pt) simp_all
  show "recipient_id d = sender_id c" using m by (simp add: mirrored_def)
  show "open_ciphertext C (ctx_recipient_key d) (compute_nonce (sender_id c) (piv_bytes s) (ctx_common_iv d))
      (enc_structure (sender_id c) (piv_bytes s)) ct = Ok pt"
    using opened(1) m by (simp add: mirrored_def request_nonce_def)
  show "\<not> kid_context_mismatch d opt"
    unfolding opt_def using m by (intro kid_context_matches [OF wf(1) parts]) (auto simp: mirrored_def)
  show "parse_option (option_encoding (piv_bytes s) (kid_context c) (Some (sender_id c))) = Ok opt"
    unfolding opt_def by (rule parse_option_encoding [OF parts])
  show "index pt 0 = Ok (hd pt)" "slice_from pt 1 = Ok (tl pt)"
    using ne by (cases pt; simp add: index_def slice_from_def)+
qed

lemma unprotect_request_sealed:
  assumes wf: "wf_context c" "wf_context d" and m: "mirrored c d" and s: "seq_wf s"
    and C: "ccm_contract C" and new: "\<not> is_replay d s" and len: "length pt \<le> 256" and ne: "pt \<noteq> []"
  defines "ct \<equiv> the (ccm_seal C (ctx_sender_key c) (request_nonce c s)
    (enc_structure (sender_id c) (piv_bytes s)) pt)"
  shows "unprotect_request_body oc C d (option_encoding (piv_bytes s) (kid_context c) (Some (sender_id c))) ct =
    and_then (split_rest oc (tl pt)) (\<lambda>(opts, payload).
    and_then (bounded_outputs opts payload) (\<lambda>(opts, payload). Ok (s, hd pt, opts, payload)))"
proof -
  note f = sealed_request_facts [OF wf m s C len ne, folded ct_def]
  show ?thesis
    using f(1,3) ne new
    by (simp add: unprotect_request_body_def f(2,4-8) option_value_parts [OF request_parts_ok [OF wf(1) s]] s
        build_aad_cbor_eq [OF f(6)] aad_slice [OF f(6)] Let_def del: One_nat_def)
qed

lemma request_round_trip:
  assumes wf: "wf_context c" "wf_context d" and m: "mirrored c d" and s: "seq_wf s"
    and C: "ccm_contract C" and new: "\<not> is_replay d s" and body: "body_ok opts payload"
    and len: "length (plaintext_of code opts payload) \<le> 256"
    and p: "protect_request_reserved C c s code opts payload = Ok (ct, opt)"
  shows "unprotect_request oc C d opt ct = (update_replay_window d s, Ok (code, opts, payload))"
proof -
  have out: "ct = the (ccm_seal C (ctx_sender_key c) (request_nonce c s)
      (enc_structure (sender_id c) (piv_bytes s)) (plaintext_of code opts payload))"
    "opt = option_encoding (piv_bytes s) (kid_context c) (Some (sender_id c))"
    using p by (auto simp: protect_request_eq [OF wf(1) s C] split: if_splits)
  have t: "tl (plaintext_of code opts payload) = opts @ (if payload = [] then [] else 0xFF # payload)"
    "hd (plaintext_of code opts payload) = code"
    by (simp_all add: plaintext_of_def)
  have "unprotect_request_body oc C d opt ct = Ok (s, code, opts, payload)"
    unfolding out unprotect_request_sealed [OF wf m s C new len plaintext_of_not_Nil] t
      split_plaintext [OF body]
    using body by (simp add: bounded_outputs_eq body_ok_def)
  then show ?thesis by (simp add: unprotect_request_def)
qed

text \<open>What an accepted request means, and what a refused one leaves behind.\<close>

lemma unprotect_request_body_Ok:
  assumes "unprotect_request_body oc C d option ct = Ok (s, code, opts, payload)"
  obtains opt pt where "parse_option option = Ok opt" "opt_kid_present opt"
    "kid_of opt = recipient_id d" "from_piv (piv_of opt) = Some s" "\<not> is_replay d s"
    "\<not> kid_context_mismatch d opt"
    "open_ciphertext C (ctx_recipient_key d)
       (compute_nonce (recipient_id d) (piv_of opt) (ctx_common_iv d))
       (enc_structure (recipient_id d) (piv_of opt)) ct = Ok (code # pt)"
    "split_rest oc pt = Ok (opts, payload)" "length opts \<le> 128" "length payload \<le> 128"
proof -
  from assms obtain opt where opt: "parse_option option = Ok opt"
    by (auto simp: unprotect_request_body_def res_simps split: if_splits)
  from parse_option_sound [OF opt] obtain piv ctx kid where parts: "option_parts_ok piv ctx kid"
    and val: "opt = option_value piv ctx kid" by metis
  from assms have kid: "kid_of opt = recipient_id d"
    by (auto simp: unprotect_request_body_def opt split: if_splits)
  then have "length (recipient_id d) + length (piv_of opt) \<le> 16"
    using parts option_value_parts [OF parts] val
    by (auto simp: option_parts_ok_def split: option.splits)
  note aad = build_aad_cbor_eq [OF this] aad_slice [OF this]
  from assms obtain pt where pt: "open_ciphertext C (ctx_recipient_key d)
       (compute_nonce (recipient_id d) (piv_of opt) (ctx_common_iv d))
       (enc_structure (recipient_id d) (piv_of opt)) ct = Ok pt" and ne: "pt \<noteq> []"
    by (auto simp: unprotect_request_body_def opt kid aad res_simps Let_def split: if_splits)
  then obtain c pt' where pt': "pt = c # pt'" by (cases pt) auto
  with assms pt show ?thesis
    by (intro that [of opt pt'])
      (auto simp: unprotect_request_body_def opt kid aad res_simps slice_simps bounded_outputs_eq
        split: if_splits)
qed

lemma unprotect_request_cases:
  obtains (accepted) s code opts payload where
      "unprotect_request_body oc C d option ct = Ok (s, code, opts, payload)"
      "unprotect_request oc C d option ct = (update_replay_window d s, Ok (code, opts, payload))"
  | (refused) e where "unprotect_request oc C d option ct = (d, Err e)"
  | (panicked) "unprotect_request oc C d option ct = (d, Panic)"
      "unprotect_request_body oc C d option ct = Panic"
  by (cases "unprotect_request_body oc C d option ct") (auto simp: unprotect_request_def)

lemma unprotect_request_wf:
  assumes "wf_context d" and "unprotect_request oc C d option ct = (d', r)"
  shows "wf_context d'"
proof (cases rule: unprotect_request_cases [of oc C d option ct])
  case (accepted s code opts payload)
  from unprotect_request_body_Ok [OF accepted(1)] have "seq_wf s"
    by (blast intro: from_piv_Some(1))
  with accepted assms show ?thesis by (auto intro: update_replay_window_wf)
qed (use assms in auto)

lemma aad_no_panic:
  assumes "option_parts_ok piv ctx kid" and "opt = option_value piv ctx kid"
  shows "length (kid_of opt) + length (piv_of opt) \<le> 16" "length (piv_of opt) \<le> 5"
  using assms option_value_parts [OF assms(1)]
  by (auto simp: option_parts_ok_def split: option.splits)

lemma tail_no_panic:
  "pt \<noteq> [] \<Longrightarrow> index pt 0 \<noteq> Panic" "pt \<noteq> [] \<Longrightarrow> slice_from pt 1 \<noteq> Panic"
  by (cases pt; simp add: index_def slice_from_def)+

lemma unprotect_request_no_panic:
  "snd (unprotect_request False C d option ct) \<noteq> Panic"
proof -
  have "unprotect_request_body False C d option ct \<noteq> Panic"
  proof
    assume p: "unprotect_request_body False C d option ct = Panic"
    then obtain opt where opt: "parse_option option = Ok opt"
      by (auto simp: unprotect_request_body_def res_simps parse_option_no_panic split: if_splits)
    from parse_option_sound [OF opt] obtain piv ctx kid where "option_parts_ok piv ctx kid"
      "opt = option_value piv ctx kid" by metis
    note aad = aad_no_panic [OF this]
    from p have kid: "kid_of opt = recipient_id d"
      by (auto simp: unprotect_request_body_def opt split: if_splits)
    note a = build_aad_cbor_eq [OF aad(1) [unfolded kid]] aad_slice [OF aad(1) [unfolded kid]]
    show False
      using p tail_no_panic split_rest_no_panic
      by (auto simp: unprotect_request_body_def opt kid a res_simps Let_def open_ciphertext_no_panic
          bounded_outputs_eq simp del: One_nat_def split: if_splits)
  qed
  then show ?thesis by (cases "unprotect_request_body False C d option ct") (auto simp: unprotect_request_def)
qed

text \<open>After acceptance the same number is refused, whatever the rest of the message.\<close>

lemma replayed_request:
  assumes "parse_option option = Ok opt" and "from_piv (piv_of opt) = Some s" and "is_replay d s"
  shows "unprotect_request oc C d option ct = (d, Err e) \<longleftrightarrow>
    e = (if length ct < 9 \<or> opt_piv_len opt = 0 \<or> \<not> opt_kid_present opt then InvalidParam
         else if kid_of opt \<noteq> recipient_id d \<or> kid_context_mismatch d opt then NoContext
         else Replay)"
  using assms by (auto simp: unprotect_request_def unprotect_request_body_def)

subsection \<open>Responses\<close>

lemma begin_response_sealed:
  assumes wf: "wf_context c" "wf_context d" and m: "mirrored c d" and C: "ccm_contract C"
    and rs: "from_piv rpiv = Some rs"
    and fresh: "observe \<or> \<not> is_received_response_reuse c rs"
    and piv: "if piv = [] then \<not> observe else from_piv piv = Some ps \<and> \<not> is_received_response_piv_reuse c ps"
    and code: "response_class code" and body: "body_ok opts payload"
    and len: "length (plaintext_of code opts payload) \<le> 256"
  defines "ct \<equiv> the (ccm_seal C (ctx_sender_key d)
    (if piv = [] then compute_nonce (recipient_id d) rpiv (ctx_common_iv d)
     else compute_nonce (sender_id d) piv (ctx_common_iv d))
    (enc_structure (recipient_id d) rpiv) (plaintext_of code opts payload))"
  shows "begin_unprotect_response_mode oc C c (option_encoding piv None None) ct rpiv observe =
    Ok \<lparr>pr_request_seq = rs, pr_response_seq = (if piv = [] then None else Some ps),
        pr_mark_request_used = (\<not> observe), pr_code = code, pr_options = opts, pr_payload = payload\<rparr>"
proof -
  let ?pt = "plaintext_of code opts payload" and ?opt = "option_value piv None None"
  have plen: "length piv \<le> 5" and rlen: "length rpiv \<le> 5" "rpiv \<noteq> []"
    and pok: "option_parts_ok piv None None"
    using piv rs from_piv_Some(2,4) [OF rs] piv_bytes_not_Nil [of rs]
    by (auto simp: option_parts_ok_def from_piv_eq split: if_splits)
  note parts = option_value_parts [OF pok]
  have key: "length (ctx_sender_key d) = 16" "length (ctx_common_iv d) = 13"
    using wf(2) by (simp_all add: wf_context_def)
  have ids: "sender_id c = recipient_id d" "recipient_id c = sender_id d"
    "ctx_recipient_key c = ctx_sender_key d" "ctx_common_iv c = ctx_common_iv d"
    using m by (auto simp: mirrored_def)
  define nonce where "nonce = (if piv = [] then compute_nonce (recipient_id d) rpiv (ctx_common_iv d)
     else compute_nonce (sender_id d) piv (ctx_common_iv d))"
  have nlen: "length nonce = 13"
    using accessor_lengths(2,4) [OF wf(2)] plen rlen key by (simp add: nonce_def length_compute_nonce)
  note opened = open_seal [OF C key(1) nlen len, of "enc_structure (recipient_id d) rpiv",
      folded ct_def [folded nonce_def]]
  have small: "length (recipient_id d) + length rpiv \<le> 16"
    using accessor_lengths(4) [OF wf(2)] rlen by linarith
  have lct: "9 \<le> length ct" using opened(2) by (simp add: length_plaintext_of)
  have pt: "index ?pt 0 = Ok code"
    "slice_from ?pt 1 = Ok (opts @ (if payload = [] then [] else 0xFF # payload))"
    by (simp_all add: index_def slice_from_def plaintext_of_def)
  have zero: "0 < opt_piv_len ?opt \<longleftrightarrow> piv \<noteq> []" using parts(4) by (simp add: word_gt_0)
  have out: "bounded_outputs opts payload = Ok (opts, payload)"
    using body by (simp add: bounded_outputs_eq body_ok_def)
  note steps = begin_unprotect_response_mode_def parse_option_encoding [OF pok] parts zero ids rs
    kid_context_mismatch_def build_aad_cbor_eq [OF small] aad_slice [OF small] pt
    split_plaintext [OF body] out Let_def code
  show ?thesis
  proof (cases "piv = []")
    case True
    then have "open_ciphertext C (ctx_sender_key d) (compute_nonce (recipient_id d) rpiv (ctx_common_iv d))
        (enc_structure (recipient_id d) rpiv) ct = Ok ?pt"
      using opened(1) by (simp add: nonce_def)
    with True lct piv fresh show ?thesis
      unfolding True by (simp add: steps [unfolded True] del: One_nat_def)
  next
    case False
    then have "open_ciphertext C (ctx_sender_key d) (compute_nonce (sender_id d) piv (ctx_common_iv d))
        (enc_structure (recipient_id d) rpiv) ct = Ok ?pt"
      using opened(1) by (simp add: nonce_def)
    with False lct piv fresh show ?thesis by (simp add: steps del: One_nat_def)
  qed
qed

text \<open>A pending response is committable: its class was checked and its numbers are fresh.\<close>

definition pending_ok :: "oscore_context \<Rightarrow> pending_response \<Rightarrow> bool" where
  "pending_ok c p \<longleftrightarrow>
     response_class (pr_code p) \<and> seq_wf (pr_request_seq p) \<and>
     (pr_mark_request_used p \<longrightarrow> \<not> is_received_response_reuse c (pr_request_seq p)) \<and>
     (\<not> pr_mark_request_used p \<longrightarrow> pr_response_seq p \<noteq> None) \<and>
     (\<forall>s. pr_response_seq p = Some s \<longrightarrow> seq_wf s \<and> \<not> is_received_response_piv_reuse c s) \<and>
     length (pr_options p) \<le> 128 \<and> length (pr_payload p) \<le> 128"

lemma begin_unprotect_response_mode_ok:
  assumes "begin_unprotect_response_mode oc C c option ct rpiv observe = Ok p"
  shows "pending_ok c p" and "pr_mark_request_used p \<longleftrightarrow> \<not> observe"
    and "from_piv rpiv = Some (pr_request_seq p)"
  using assms
  by (auto simp: begin_unprotect_response_mode_def pending_ok_def res_simps Let_def word_gt_0
      bounded_outputs_eq dest: from_piv_Some(1) split: if_splits)

lemma begin_response_no_panic:
  assumes wf: "wf_context c"
  shows "begin_unprotect_response_mode False C c option ct rpiv observe \<noteq> Panic"
proof
  assume p: "begin_unprotect_response_mode False C c option ct rpiv observe = Panic"
  then obtain opt rs where opt: "parse_option option = Ok opt" and rs: "from_piv rpiv = Some rs"
    by (auto simp: begin_unprotect_response_mode_def res_simps parse_option_no_panic split: if_splits)
  have "length (sender_id c) + length rpiv \<le> 16"
    using accessor_lengths(2) [OF wf] from_piv_Some(4) [OF rs] by linarith
  note a = build_aad_cbor_eq [OF this] aad_slice [OF this]
  show False
    using p tail_no_panic split_rest_no_panic
    by (auto simp: begin_unprotect_response_mode_def opt rs a res_simps Let_def
        open_ciphertext_no_panic bounded_outputs_eq simp del: One_nat_def split: if_splits)
qed

lemma commit_ok:
  assumes "pending_ok c p"
  shows "\<exists>c'. commit oc c p = (c', Ok (pr_code p, pr_options p, pr_payload p)) \<and>
    (\<forall>t. is_received_response_piv_reuse c' t \<longleftrightarrow> is_received_response_piv_reuse c t \<or>
       (\<exists>s. pr_response_seq p = Some s \<and> (t = s \<or> seq_val t + 32 \<le> seq_val s))) \<and>
    (\<forall>t. is_received_response_reuse c' t \<longleftrightarrow> is_received_response_reuse c t \<or>
       (pr_mark_request_used p \<and>
        (t = pr_request_seq p \<or> seq_val t + 32 \<le> seq_val (pr_request_seq p)))) \<and>
    is_replay c' = is_replay c \<and> is_response_reuse c' = is_response_reuse c \<and>
    ctx_sender_seq c' = ctx_sender_seq c"
proof -
  obtain c1 where c1: "(case pr_response_seq p of
         Some seq \<Rightarrow> mark_received_response_piv oc c seq | None \<Rightarrow> Ok c) = Ok c1"
    and piv: "\<And>t. is_received_response_piv_reuse c1 t \<longleftrightarrow> is_received_response_piv_reuse c t \<or>
       (\<exists>s. pr_response_seq p = Some s \<and> (t = s \<or> seq_val t + 32 \<le> seq_val s))"
    and k1: "is_received_response_reuse c1 = is_received_response_reuse c"
      "is_replay c1 = is_replay c" "is_response_reuse c1 = is_response_reuse c"
      "ctx_sender_seq c1 = ctx_sender_seq c"
  proof (cases "pr_response_seq p")
    case (Some s)
    then have "\<not> is_received_response_piv_reuse c s" using assms by (simp add: pending_ok_def)
    then obtain c' where m: "mark_received_response_piv oc c s = Ok c'"
      "\<And>t. is_received_response_piv_reuse c' t \<longleftrightarrow>
        is_received_response_piv_reuse c t \<or> t = s \<or> seq_val t + 32 \<le> seq_val s"
      by (rule received_response_pivs.mark_Ok) blast
    from that [of c'] Some m mark_keeps(3) [OF m(1)] show ?thesis by simp
  qed (auto intro!: that)
  obtain c2 where c2: "(if pr_mark_request_used p then mark_received_response oc c1 (pr_request_seq p)
        else Ok c1) = Ok c2"
    and req: "\<And>t. is_received_response_reuse c2 t \<longleftrightarrow> is_received_response_reuse c1 t \<or>
       (pr_mark_request_used p \<and>
        (t = pr_request_seq p \<or> seq_val t + 32 \<le> seq_val (pr_request_seq p)))"
    and k2: "is_received_response_piv_reuse c2 = is_received_response_piv_reuse c1"
      "is_replay c2 = is_replay c1" "is_response_reuse c2 = is_response_reuse c1"
      "ctx_sender_seq c2 = ctx_sender_seq c1"
  proof (cases "pr_mark_request_used p")
    case True
    then have "\<not> is_received_response_reuse c1 (pr_request_seq p)"
      using assms by (simp add: pending_ok_def k1)
    then obtain c' where m: "mark_received_response oc c1 (pr_request_seq p) = Ok c'"
      "\<And>t. is_received_response_reuse c' t \<longleftrightarrow> is_received_response_reuse c1 t \<or>
        t = pr_request_seq p \<or> seq_val t + 32 \<le> seq_val (pr_request_seq p)"
      by (rule received_responses.mark_Ok) blast
    from that [of c'] True m mark_keeps(2) [OF m(1)] show ?thesis by simp
  qed (auto intro!: that)
  have "response_class (pr_code p)" using assms by (simp add: pending_ok_def)
  with c1 c2 have "commit oc c p = (c2, Ok (pr_code p, pr_options p, pr_payload p))"
    by (simp add: commit_def)
  with piv req k1 k2 show ?thesis by auto
qed

lemma commit_wf:
  assumes "wf_context c" and "pending_ok c p" and "commit oc c p = (c', r)"
  shows "wf_context c'"
  using assms
  by (auto simp: commit_def pending_ok_def res_simps split: if_splits res.splits option.splits
      dest: mark_wf)

lemma accept_response_cases:
  obtains (committed) p where "r = Ok p" "accept_response oc c r = commit oc c p"
  | (refused) e where "r = Err e" "accept_response oc c r = (c, Err e)"
  | (panicked) "r = Panic" "accept_response oc c r = (c, Panic)"
  by (cases r) (auto simp: accept_response_def)

text \<open>A plaintext of more than 256 bytes does not fit the receiver's buffer.\<close>

lemma unprotect_request_too_long:
  assumes wf: "wf_context c" "wf_context d" and m: "mirrored c d" and s: "seq_wf s"
    and C: "ccm_contract C" and new: "\<not> is_replay d s" and long: "256 < length pt" and len: "length pt \<le> 258"
  shows "unprotect_request oc C d (option_encoding (piv_bytes s) (kid_context c) (Some (sender_id c)))
      (the (ccm_seal C (ctx_sender_key c) (request_nonce c s)
        (enc_structure (sender_id c) (piv_bytes s)) pt)) =
    (d, Err (too_small (length pt) 256))"
proof -
  let ?opt = "option_value (piv_bytes s) (kid_context c) (Some (sender_id c))"
  note parts = request_parts_ok [OF wf(1) s]
  have key: "length (ctx_sender_key c) = 16" using wf(1) by (simp add: wf_context_def)
  have small: "length pt < 2 ^ 16" using len by simp
  obtain ct tag where sealed: "ccm_seal C (ctx_sender_key c) (request_nonce c s)
      (enc_structure (sender_id c) (piv_bytes s)) pt = Some (ct @ tag)"
    "length ct = length pt" "length tag = 8"
    using ccm_seal_Some [OF C key length_request_nonce [OF wf(1) s] small] by metis
  have sum: "length (sender_id c) + length (piv_bytes s) \<le> 16"
    using accessor_lengths(2) [OF wf(1)] length_piv_bytes [OF s] by linarith
  have keys: "ctx_recipient_key d = ctx_sender_key c" "recipient_id d = sender_id c"
    using m by (auto simp: mirrored_def)
  have mm: "\<not> kid_context_mismatch d ?opt"
    using m by (intro kid_context_matches [OF wf(1) parts]) (auto simp: mirrored_def)
  have o: "open_ciphertext C (ctx_sender_key c) nonce aad (ct @ tag) = Err (too_small (length pt) 256)"
    for nonce aad
    using open_too_long [OF C key, of "ct @ tag"] sealed long by simp
  have "pt \<noteq> []" using long by auto
  then show ?thesis
    using new mm long sealed
    by (simp add: unprotect_request_def unprotect_request_body_def parse_option_encoding [OF parts]
        option_value_parts [OF parts] keys s build_aad_cbor_eq [OF sum] aad_slice [OF sum] o Let_def
        del: One_nat_def)
qed

end
