(* ===== verification/SenderSafety.thy ===== *)
theory SenderSafety
  imports Protect
begin

text \<open>
  Why a sender sequence number is never reserved twice. Any number of contexts, possibly several for
  the same identifier, register, restore, reserve and crash over one durable store; the store
  promises the compare-and-swap that the trait \<open>ContextStateStore\<close> of \<^verbatim>\<open>src/lib.rs\<close>
  documents. The locale \<open>sender_store\<close> carries the argument; it is interpreted on the store that
  the repository's own tests use. Distinct reservations give distinct nonces.
\<close>

subsection \<open>The contract of the store\<close>

text \<open>
  \<open>view st k\<close> is the sender state that the store holds for the identifier \<open>k\<close>. A swap that
  reports success has replaced exactly the expected state; one that reports anything else (a lost
  race, a storage failure) may at most have made that same replacement.
\<close>

definition store_contract ::
    "('s, 'x) context_state_store \<Rightarrow> ('s \<Rightarrow> context_id \<Rightarrow> sender_sequence_state option) \<Rightarrow> bool" where
  "store_contract S view \<longleftrightarrow>
     (\<forall>st k st' r. load_sender S st k = (st', r) \<longrightarrow>
        view st' = view st \<and> (\<forall>v. r = Ok v \<longrightarrow> v = view st k)) \<and>
     (\<forall>st k e n st' r. compare_exchange_sender S st k e n = (st', r) \<longrightarrow>
        (view st' = view st \<and> r \<noteq> Ok True) \<or>
        (view st k = e \<and> view st' = (view st)(k \<mapsto> n) \<and> r \<noteq> Ok False)) \<and>
     (\<forall>st k st' r. load_recipient S st k = (st', r) \<longrightarrow> view st' = view st) \<and>
     (\<forall>st k rs st' r. save_recipient S st k rs = (st', r) \<longrightarrow> view st' = view st)"

subsection \<open>The system\<close>

text \<open>
  A state is the store, the live contexts (by an owner number) and the log of reserved sequences,
  newest first. A context appears inactive; it may at any time be replaced by another well-formed
  context with the same identifier, which covers every operation that does not involve the store;
  it may disappear in a crash.
\<close>

record 's system =
  sys_store :: 's
  sys_contexts :: "nat \<Rightarrow> oscore_context option"
  sys_log :: "(context_id \<times> oscore_seq_num) list"

inductive sender_step ::
    "('s, 'x) context_state_store \<Rightarrow> 's system \<Rightarrow> 's system \<Rightarrow> bool" for S where
  appear: "wf_context c \<Longrightarrow> \<not> ctx_active c \<Longrightarrow>
    sender_step S y (y\<lparr>sys_contexts := (sys_contexts y)(i \<mapsto> c)\<rparr>)"
| crash: "sender_step S y (y\<lparr>sys_contexts := (sys_contexts y)(i := None)\<rparr>)"
| operate: "sys_contexts y i = Some c \<Longrightarrow> wf_context c' \<Longrightarrow> ctx_context_id c' = ctx_context_id c \<Longrightarrow>
    sender_step S y (y\<lparr>sys_contexts := (sys_contexts y)(i \<mapsto> c')\<rparr>)"
| register: "sys_contexts y i = Some c \<Longrightarrow> register_fresh S c (sys_store y) = (st', r) \<Longrightarrow>
    sender_step S y (y\<lparr>sys_store := st',
      sys_contexts := (sys_contexts y)(i := (case r of Ok c' \<Rightarrow> Some c' | _ \<Rightarrow> None))\<rparr>)"
| restore: "sys_contexts y i = Some c \<Longrightarrow> restore_existing S c (sys_store y) = (st', r) \<Longrightarrow>
    sender_step S y (y\<lparr>sys_store := st',
      sys_contexts := (sys_contexts y)(i := (case r of Ok c' \<Rightarrow> Some c' | _ \<Rightarrow> None))\<rparr>)"
| reserve: "sys_contexts y i = Some c \<Longrightarrow> reserve_sender S c (sys_store y) = (st', c', r) \<Longrightarrow>
    sender_step S y (y\<lparr>sys_store := st', sys_contexts := (sys_contexts y)(i \<mapsto> c'),
      sys_log := (case r of Ok s \<Rightarrow> (ctx_context_id c, s) # sys_log y | _ \<Rightarrow> sys_log y)\<rparr>)"
| save: "sys_contexts y i = Some c \<Longrightarrow>
    save_recipient S (sys_store y) (ctx_context_id c) (recipient_replay_state c) = (st', r) \<Longrightarrow>
    sender_step S y (y\<lparr>sys_store := st'\<rparr>)"

inductive sender_reach ::
    "('s, 'x) context_state_store \<Rightarrow> 's \<Rightarrow> 's system \<Rightarrow> bool" for S st0 where
  start: "sender_reach S st0 \<lparr>sys_store = st0, sys_contexts = Map.empty, sys_log = []\<rparr>"
| step: "sender_reach S st0 y \<Longrightarrow> sender_step S y y' \<Longrightarrow> sender_reach S st0 y'"

text \<open>The inductive invariant: what was reserved for an identifier lies strictly below the position
  that the store holds for it.\<close>

definition log_below ::
    "(context_id \<Rightarrow> sender_sequence_state option) \<Rightarrow> (context_id \<times> oscore_seq_num) list \<Rightarrow> bool" where
  "log_below v log \<longleftrightarrow>
     (\<forall>(k, s) \<in> set log. \<exists>q. v k = Some q \<and> seq_val s < sender_position q)"

definition contexts_wf :: "(nat \<Rightarrow> oscore_context option) \<Rightarrow> bool" where
  "contexts_wf cs \<longleftrightarrow> (\<forall>i c. cs i = Some c \<longrightarrow> wf_context c)"

lemma contexts_wf_upd [intro]:
  "contexts_wf cs \<Longrightarrow> wf_context c \<Longrightarrow> contexts_wf (cs(i \<mapsto> c))"
  "contexts_wf cs \<Longrightarrow> contexts_wf (cs(i := None))"
  by (auto simp: contexts_wf_def)

lemma log_below_register:
  "log_below v log \<Longrightarrow> v k = None \<Longrightarrow> log_below (v(k \<mapsto> q)) log"
  by (fastforce simp: log_below_def)

lemma log_below_advance:
  assumes "log_below v log" and "v k = Some q" and "sender_position q \<le> sender_position q'"
  shows "log_below (v(k \<mapsto> q')) log"
  using assms by (fastforce simp: log_below_def)

lemma log_below_Cons:
  "log_below v ((k, s) # log) \<longleftrightarrow>
   log_below v log \<and> (\<exists>q. v k = Some q \<and> seq_val s < sender_position q)"
  by (auto simp: log_below_def)

locale sender_store =
  fixes S :: "('s, 'x) context_state_store"
    and view :: "'s \<Rightarrow> context_id \<Rightarrow> sender_sequence_state option"
  assumes contract: "store_contract S view"
begin

lemma load: "load_sender S st k = (st', r) \<Longrightarrow> view st' = view st"
  using contract unfolding store_contract_def by blast

lemma load_recipient: "load_recipient S st k = (st', r) \<Longrightarrow> view st' = view st"
  using contract unfolding store_contract_def by blast

lemma save_recipient: "save_recipient S st k rs = (st', r) \<Longrightarrow> view st' = view st"
  using contract unfolding store_contract_def by blast

lemma cas:
  assumes "compare_exchange_sender S st k e n = (st', r)"
  obtains (kept) "view st' = view st" "r \<noteq> Ok True"
  | (swapped) "view st k = e" "view st' = (view st)(k \<mapsto> n)" "r \<noteq> Ok False"
  using contract assms unfolding store_contract_def by blast

lemma restore_view: "restore_existing S c st = (st', r) \<Longrightarrow> view st' = view st"
  by (auto simp: restore_existing_def Let_def split: prod.splits res.splits)
    (auto dest!: load load_recipient)

lemma register_log:
  assumes "register_fresh S c st = (st', r)" and "log_below (view st) log"
  shows "log_below (view st') log"
proof (cases "ctx_restored c \<or> ctx_active c")
  case True
  with assms show ?thesis by (auto simp: register_fresh_def)
next
  case False
  obtain st1 q where "compare_exchange_sender S st (ctx_context_id c) None (sender_sequence_state c) = (st1, q)"
    by fastforce
  moreover from this assms False have "st' = st1" by (auto simp: register_fresh_def)
  ultimately show ?thesis
    using assms(2) by (auto elim!: cas simp: log_below_register)
qed

lemma reserve_log:
  assumes wf: "wf_context c" and r: "reserve_sender S c st = (st', c', r)"
    and below: "log_below (view st) log"
  shows "log_below (view st') log"
    and "r = Ok s \<Longrightarrow> log_below (view st') ((ctx_context_id c, s) # log) \<and> (ctx_context_id c, s) \<notin> set log"
proof -
  let ?k = "ctx_context_id c"
  have sw: "seq_wf (ctx_sender_seq c)" using wf by (simp add: wf_context_def)
  show 1: "log_below (view st') log"
  proof (cases "ctx_active c \<and> \<not> ctx_sender_seq_exhausted c")
    case False
    with r below show ?thesis by (auto simp: reserve_sender_eq [OF sw] split: if_splits)
  next
    case True
    obtain st1 q where q: "compare_exchange_sender S st ?k (Some (sender_sequence_state c))
        (next_sender_state c) = (st1, q)" by fastforce
    with r True have "st' = st1"
      by (auto simp: reserve_sender_eq [OF sw] split: res.splits bool.splits)
    with q below sender_position_next [OF wf] True show ?thesis
      by (auto elim!: cas intro!: log_below_advance [where k = ?k and q = "sender_sequence_state c"])
  qed
  assume "r = Ok s"
  with r have act: "\<not> ctx_sender_seq_exhausted c" and s: "s = ctx_sender_seq c"
    and q: "compare_exchange_sender S st ?k (Some (sender_sequence_state c)) (next_sender_state c)
      = (st', Ok True)"
    by (simp_all add: reserve_sender_Ok [OF sw])
  from q have v: "view st ?k = Some (sender_sequence_state c)" "view st' ?k = Some (next_sender_state c)"
    by (auto elim: cas)
  have "(?k, s) \<notin> set log"
    using below v(1) sender_position_next(1) [OF wf act] s by (fastforce simp: log_below_def)
  with 1 v(2) sender_position_next(2) [OF wf act] s
  show "log_below (view st') ((ctx_context_id c, s) # log) \<and> (ctx_context_id c, s) \<notin> set log"
    by (simp add: log_below_Cons)
qed

definition sender_inv :: "'s system \<Rightarrow> bool" where
  "sender_inv y \<longleftrightarrow> contexts_wf (sys_contexts y) \<and> log_below (view (sys_store y)) (sys_log y) \<and>
     distinct (sys_log y)"

lemma sender_step_inv:
  assumes "sender_step S y y'" and inv: "sender_inv y"
  shows "sender_inv y'"
  using assms(1)
proof cases
  case (register i c st' r)
  have "contexts_wf ((sys_contexts y)(i := (case r of Ok c' \<Rightarrow> Some c' | _ \<Rightarrow> None)))"
    using inv register
    by (cases r) (auto simp: sender_inv_def contexts_wf_def dest: register_fresh_wf)
  with register inv register_log show ?thesis by (simp add: sender_inv_def)
next
  case (restore i c st' r)
  have "contexts_wf ((sys_contexts y)(i := (case r of Ok c' \<Rightarrow> Some c' | _ \<Rightarrow> None)))"
    using inv restore
    by (cases r) (auto simp: sender_inv_def contexts_wf_def dest: restore_existing_wf)
  with restore inv restore_view show ?thesis by (simp add: sender_inv_def)
next
  case (reserve i c st' c' r)
  have wf: "wf_context c" using inv reserve by (simp add: sender_inv_def contexts_wf_def)
  from reserve_sender_wf [OF wf reserve(3)] have "contexts_wf ((sys_contexts y)(i \<mapsto> c'))"
    using inv by (auto simp: sender_inv_def)
  moreover have "log_below (view (sys_store y)) (sys_log y)" using inv by (simp add: sender_inv_def)
  note reserve_log [OF wf reserve(3) this]
  ultimately show ?thesis
    using reserve inv by (cases r) (auto simp: sender_inv_def)
next
  case (save i c st' r)
  with inv save_recipient show ?thesis by (simp add: sender_inv_def)
qed (use inv in \<open>auto simp: sender_inv_def\<close>)

lemma sender_reach_inv: "sender_reach S st0 y \<Longrightarrow> sender_inv y"
proof (induction rule: sender_reach.induct)
  case start
  show ?case by (simp add: sender_inv_def contexts_wf_def log_below_def)
qed (rule sender_step_inv)

lemma reserved_once: "sender_reach S st0 y \<Longrightarrow> distinct (sys_log y)"
  using sender_reach_inv by (simp add: sender_inv_def)

lemma reserved_below:
  "sender_reach S st0 y \<Longrightarrow> (k, s) \<in> set (sys_log y) \<Longrightarrow>
   \<exists>q. view (sys_store y) k = Some q \<and> seq_val s < sender_position q"
  using sender_reach_inv [of st0 y] by (auto simp: sender_inv_def log_below_def)

end

subsection \<open>The store of the repository's tests\<close>

text \<open>\<open>TestStore\<close> holds the state of one identifier.\<close>

record test_store =
  ts_context_id :: context_id
  ts_state :: sender_sequence_state
  ts_recipient :: "recipient_replay_state option"

definition test_store_ops :: "(test_store, unit) context_state_store" where
  "test_store_ops = \<lparr>
     load_sender = (\<lambda>st k. (st, Ok (if k = ts_context_id st then Some (ts_state st) else None))),
     compare_exchange_sender = (\<lambda>st k expected next.
       if k \<noteq> ts_context_id st \<or> expected \<noteq> Some (ts_state st) then (st, Ok False)
       else (st\<lparr>ts_state := next\<rparr>, Ok True)),
     load_recipient = (\<lambda>st k. (st, Ok (if k = ts_context_id st then ts_recipient st else None))),
     save_recipient = (\<lambda>st k state.
       (if k = ts_context_id st then st\<lparr>ts_recipient := Some state\<rparr> else st, Ok ()))\<rparr>"

definition test_view :: "test_store \<Rightarrow> context_id \<Rightarrow> sender_sequence_state option" where
  "test_view st k = (if k = ts_context_id st then Some (ts_state st) else None)"

lemma test_store_contract: "store_contract test_store_ops test_view"
  unfolding store_contract_def
  by (auto simp: test_store_ops_def test_view_def fun_eq_iff split: if_splits)

interpretation test_store: sender_store test_store_ops test_view
  by unfold_locales (rule test_store_contract)

subsection \<open>Nonces\<close>

lemma request_nonce_inject:
  assumes "wf_context c" "wf_context d" and "ctx_common_iv c = ctx_common_iv d"
    and "seq_wf s" "seq_wf t" and "request_nonce c s = request_nonce d t"
  shows "sender_id c = sender_id d \<and> s = t"
proof -
  have "length (ctx_common_iv d) = 13" using assms(2) by (simp add: wf_context_def)
  from compute_nonce_inject [OF accessor_lengths(2) [OF assms(1)] accessor_lengths(2) [OF assms(2)]
      this from_piv_piv_bytes [OF assms(4)] from_piv_piv_bytes [OF assms(5)]] assms
  show ?thesis by (simp add: request_nonce_def piv_bytes_inject)
qed

text \<open>What the protect operations hand to the AEAD: the Partial IV that \<open>encode_piv\<close> writes and the
  additional data that \<open>build_aad_cbor\<close> writes, each cut to the length returned with it.\<close>

definition piv_of_seq :: "oscore_seq_num \<Rightarrow> (oscore_error, bytes) res" where
  "piv_of_seq s = and_then (encode_piv s (replicate PIV_MAX_LEN 0)) (\<lambda>(buf, len). slice buf 0 len)"

definition aad_of :: "bytes \<Rightarrow> bytes \<Rightarrow> (oscore_error, bytes) res" where
  "aad_of kid piv = and_then (build_aad_cbor kid piv (replicate 64 0)) (\<lambda>(buf, len). slice buf 0 len)"

text \<open>Every message that carries the number \<open>s\<close> of context \<open>c\<close> as its own Partial IV is sealed under
  the given nonce, and if it is a request, with the given additional data.\<close>

definition sealed_with :: "crypto \<Rightarrow> oscore_context \<Rightarrow> oscore_seq_num \<Rightarrow> bytes \<Rightarrow> bytes \<Rightarrow> bool" where
  "sealed_with C c s nonce aad \<longleftrightarrow>
     (\<forall>code opts payload ct opt. protect_request_reserved C c s code opts payload = Ok (ct, opt) \<longrightarrow>
        ccm_seal C (ctx_sender_key c) nonce aad (plaintext_of code opts payload) = Some ct) \<and>
     (\<forall>code opts payload kid rpiv ct opt.
        protect_response_with_reserved_piv C c s code opts payload kid rpiv = Ok (ct, opt) \<longrightarrow>
        (\<exists>a. aad_of kid rpiv = Ok a \<and>
          ccm_seal C (ctx_sender_key c) nonce a (plaintext_of code opts payload) = Some ct)) \<and>
     (\<forall>oc code opts payload kid rpiv c' ct opt. ctx_sender_seq c = s \<longrightarrow>
        protect_response oc C c code opts payload kid rpiv True = (c', Ok (ct, opt)) \<longrightarrow>
        (\<exists>a. aad_of kid rpiv = Ok a \<and>
          ccm_seal C (ctx_sender_key c) nonce a (plaintext_of code opts payload) = Some ct))"

lemma piv_of_seq_eq: "seq_wf s \<Longrightarrow> piv_of_seq s = Ok (piv_bytes s)"
  by (simp add: piv_of_seq_def encode_slice)

lemma aad_of_eq: "length kid + length piv \<le> 16 \<Longrightarrow> aad_of kid piv = Ok (enc_structure kid piv)"
  by (simp add: aad_of_def build_aad_cbor_eq aad_slice)

lemma aad_of_response:
  assumes "wf_context c" and "response_ok c kid rpiv"
  shows "aad_of kid rpiv = Ok (enc_structure kid rpiv)"
proof (rule aad_of_eq)
  from assms(2) obtain s where "kid = recipient_id c" "from_piv rpiv = Some s" by (auto simp: response_ok_def)
  with accessor_lengths(4) [OF assms(1)] from_piv_Some(2) [of rpiv s] from_piv_Some(1) [of rpiv s]
    length_piv_bytes [of s] show "length kid + length rpiv \<le> 16" by simp
qed

lemma ccm_seal_the:
  assumes "ccm_contract C" "wf_context c" "seq_wf s" "length pt \<le> 272"
  shows "ccm_seal C (ctx_sender_key c) (request_nonce c s) aad pt =
    Some (the (ccm_seal C (ctx_sender_key c) (request_nonce c s) aad pt))"
proof -
  have "length (ctx_sender_key c) = 16" using assms(2) by (simp add: wf_context_def)
  from ccm_seal_Some [OF assms(1) this length_request_nonce [OF assms(2,3)], of pt aad] assms(4)
  show ?thesis by fastforce
qed

lemma sealed_with_request_nonce:
  assumes "wf_context c" "seq_wf s" "ccm_contract C"
  shows "sealed_with C c s (request_nonce c s) (enc_structure (sender_id c) (piv_bytes s))"
proof -
  note opened = ccm_seal_the [OF assms(3,1,2)]
  have response: "\<exists>a. aad_of kid rpiv = Ok a \<and>
      ccm_seal C (ctx_sender_key c) (request_nonce c s) a (plaintext_of code opts payload) = Some ct"
    if "response_ok c kid rpiv" "length (plaintext_of code opts payload) \<le> 272"
      "ct = the (ccm_seal C (ctx_sender_key c) (request_nonce c s) (enc_structure kid rpiv) (plaintext_of code opts payload))"
    for code opts payload kid rpiv ct
    using that aad_of_response [OF assms(1)] opened by blast
  show ?thesis
    unfolding sealed_with_def
  proof (intro conjI allI impI)
    fix code opts payload ct opt
    assume "protect_request_reserved C c s code opts payload = Ok (ct, opt)"
    then show "ccm_seal C (ctx_sender_key c) (request_nonce c s) (enc_structure (sender_id c) (piv_bytes s))
        (plaintext_of code opts payload) = Some ct"
      using opened by (auto simp: protect_request_eq [OF assms] split: if_splits)
  next
    fix code opts payload kid rpiv ct opt
    assume "protect_response_with_reserved_piv C c s code opts payload kid rpiv = Ok (ct, opt)"
    then show "\<exists>a. aad_of kid rpiv = Ok a \<and>
        ccm_seal C (ctx_sender_key c) (request_nonce c s) a (plaintext_of code opts payload) = Some ct"
      by (intro response) (auto simp: protect_response_reserved_eq [OF assms] split: if_splits)
  next
    fix oc code opts payload kid rpiv c' ct opt
    assume s: "ctx_sender_seq c = s"
      and p: "protect_response oc C c code opts payload kid rpiv True = (c', Ok (ct, opt))"
    then have ok: "response_ok c kid rpiv" "ctx_active c"
      using response_guard [OF assms(1), of kid rpiv] by (auto simp: protect_response_def split: if_splits)
    from p s show "\<exists>a. aad_of kid rpiv = Ok a \<and>
        ccm_seal C (ctx_sender_key c) (request_nonce c s) a (plaintext_of code opts payload) = Some ct"
      by (intro response [OF ok(1)])
        (auto simp: protect_response_piv [OF assms(1) ok(1) assms(3) ok(2)] split: if_splits option.splits)
  qed
qed

lemma request_aad_inject:
  assumes "wf_context c" "wf_context d" "seq_wf s" "seq_wf t"
    and "enc_structure (sender_id c) (piv_bytes s) = enc_structure (sender_id d) (piv_bytes t)"
  shows "sender_id c = sender_id d \<and> s = t"
proof -
  have "length (sender_id c) \<le> 23" "length (piv_bytes s) \<le> 23" "length (sender_id d) \<le> 23"
    "length (piv_bytes t) \<le> 23"
    using accessor_lengths(2) [OF assms(1)] accessor_lengths(2) [OF assms(2)]
      length_piv_bytes [OF assms(3)] length_piv_bytes [OF assms(4)] by linarith+
  from enc_structure_inject [OF this assms(5)] show ?thesis
    by (simp add: piv_bytes_inject [OF assms(3,4)])
qed

end
