(* ===== verification/Protocol.thy ===== *)
theory Protocol
  imports Unprotect SenderSafety
begin

text \<open>
  Whole exchanges over the operations of \<^verbatim>\<open>src/lib.rs\<close>: sequences of received requests,
  of received responses and notifications, and of protected responses. The runs are folds of the
  modelled operations; the lemmas say what a run accepts, by the contract of the replay windows.
\<close>

subsection \<open>Receiving requests\<close>

definition request_seq :: "bytes \<Rightarrow> oscore_seq_num option" where
  "request_seq option =
     (case parse_option option of Ok opt \<Rightarrow> from_piv (piv_of opt) | _ \<Rightarrow> None)"

text \<open>Messages \<open>(option, ciphertext)\<close> in order of arrival; the accepted sequence numbers.\<close>

primrec receive_requests ::
    "bool \<Rightarrow> crypto \<Rightarrow> oscore_context \<Rightarrow> (bytes \<times> bytes) list \<Rightarrow> oscore_context \<times> oscore_seq_num list" where
  "receive_requests oc C c [] = (c, [])"
| "receive_requests oc C c (m # ms) =
     (let (c, r) = unprotect_request oc C c (fst m) (snd m);
          (d, acc) = receive_requests oc C c ms
      in (d, (case r of Ok _ \<Rightarrow> the (request_seq (fst m)) # acc | _ \<Rightarrow> acc)))"

lemma request_seq_accepted:
  assumes "unprotect_request_body oc C c option ct = Ok (s, code, opts, payload)"
  shows "request_seq option = Some s" and "\<not> is_replay c s"
  by (rule unprotect_request_body_Ok [OF assms]; simp add: request_seq_def)+

lemma request_seq_protected:
  assumes "wf_context c" and "seq_wf s" and "ccm_contract C"
    and "protect_request_reserved C c s code opts payload = Ok (ct, option)"
  shows "request_seq option = Some s"
proof -
  note parts = request_parts_ok [OF assms(1,2)]
  from assms(4) have "option = option_encoding (piv_bytes s) (kid_context c) (Some (sender_id c))"
    by (auto simp: protect_request_eq [OF assms(1-3)] split: if_splits)
  then show ?thesis
    by (simp add: request_seq_def parse_option_encoding [OF parts] option_value_parts [OF parts] assms(2))
qed

lemma replayed_refused:
  assumes "request_seq option = Some s" and "is_replay d s"
  shows "\<exists>e. unprotect_request oc C d option ct = (d, Err e)"
proof -
  from assms(1) obtain opt where "parse_option option = Ok opt" "from_piv (piv_of opt) = Some s"
    by (auto simp: request_seq_def split: res.splits)
  from replayed_request [OF this assms(2)] show ?thesis by blast
qed

lemma receive_requests_run:
  "receive_requests oc C c ms = (d, acc) \<Longrightarrow> requests.run c acc = Ok (acc, d)"
proof (induction ms arbitrary: c d acc)
  case (Cons m ms)
  show ?case
  proof (cases rule: unprotect_request_cases [of oc C c "fst m" "snd m"])
    case (accepted s code opts payload)
    obtain d' acc' where r: "receive_requests oc C (update_replay_window c s) ms = (d', acc')"
      by fastforce
    with Cons.prems accepted request_seq_accepted [OF accepted(1)]
    have "d = d'" "acc = s # acc'" "\<not> is_replay c s" by auto
    with Cons.IH [OF r] show ?thesis by simp
  next
    case (refused e)
    with Cons show ?thesis by (auto split: prod.splits)
  next
    case panicked
    with Cons show ?thesis by (auto split: prod.splits)
  qed
qed simp

lemma receive_requests_exact:
  assumes "receive_requests oc C c ms = (d, acc)"
  shows "distinct acc" and "\<forall>s \<in> set acc. \<not> is_replay c s"
    and "is_replay d t \<longleftrightarrow> is_replay c t \<or> t \<in> set acc \<or> (\<exists>s \<in> set acc. seq_val t + 32 \<le> seq_val s)"
  using requests.run_exact [of c acc] receive_requests_run [OF assms] by auto

subsection \<open>Receiving responses and notifications\<close>

record response_message =
  rm_option :: bytes
  rm_ciphertext :: bytes
  rm_request_piv :: bytes
  rm_observe :: bool

text \<open>The sequence numbers of the requests that were answered, and the accepted response Partial
  IVs.\<close>

primrec receive_responses ::
    "bool \<Rightarrow> crypto \<Rightarrow> oscore_context \<Rightarrow> response_message list \<Rightarrow>
     oscore_context \<times> oscore_seq_num list \<times> oscore_seq_num list" where
  "receive_responses oc C c [] = (c, [], [])"
| "receive_responses oc C c (m # ms) =
     (case begin_unprotect_response_mode oc C c (rm_option m) (rm_ciphertext m) (rm_request_piv m)
             (rm_observe m) of
        Ok p \<Rightarrow>
          let (c, r) = commit oc c p; (d, reqs, pivs) = receive_responses oc C c ms in
          (d, (if pr_mark_request_used p then pr_request_seq p # reqs else reqs),
           (case pr_response_seq p of Some s \<Rightarrow> s # pivs | None \<Rightarrow> pivs))
      | _ \<Rightarrow> receive_responses oc C c ms)"

lemma receive_responses_once:
  "receive_responses oc C c ms = (d, reqs, pivs) \<Longrightarrow>
   distinct reqs \<and> distinct pivs \<and>
   (\<forall>s \<in> set reqs. \<not> is_received_response_reuse c s) \<and>
   (\<forall>s \<in> set pivs. \<not> is_received_response_piv_reuse c s) \<and>
   (\<forall>t. is_received_response_reuse c t \<or> t \<in> set reqs \<longrightarrow> is_received_response_reuse d t) \<and>
   (\<forall>t. is_received_response_piv_reuse c t \<or> t \<in> set pivs \<longrightarrow> is_received_response_piv_reuse d t)"
proof (induction ms arbitrary: c d reqs pivs)
  case (Cons m ms)
  let ?r = "begin_unprotect_response_mode oc C c (rm_option m) (rm_ciphertext m) (rm_request_piv m)
    (rm_observe m)"
  show ?case
  proof (cases ?r)
    case (Ok p)
    note pend = begin_unprotect_response_mode_ok [OF Ok]
    from commit_ok [OF pend(1), of oc] obtain c' where
      c': "commit oc c p = (c', Ok (pr_code p, pr_options p, pr_payload p))"
      and w: "\<And>t. is_received_response_piv_reuse c' t \<longleftrightarrow> is_received_response_piv_reuse c t \<or>
         (\<exists>s. pr_response_seq p = Some s \<and> (t = s \<or> seq_val t + 32 \<le> seq_val s))"
        "\<And>t. is_received_response_reuse c' t \<longleftrightarrow> is_received_response_reuse c t \<or>
         (pr_mark_request_used p \<and> (t = pr_request_seq p \<or> seq_val t + 32 \<le> seq_val (pr_request_seq p)))"
      by blast
    obtain d' reqs' pivs' where r: "receive_responses oc C c' ms = (d', reqs', pivs')"
      by (metis prod_cases3)
    from Cons.prems Ok c' r have e: "d = d'"
      "reqs = (if pr_mark_request_used p then pr_request_seq p # reqs' else reqs')"
      "pivs = (case pr_response_seq p of Some s \<Rightarrow> s # pivs' | None \<Rightarrow> pivs')"
      by simp_all
    from Cons.IH [OF r] have
      ih: "distinct reqs'" "distinct pivs'" "\<And>s. s \<in> set reqs' \<Longrightarrow> \<not> is_received_response_reuse c' s"
        "\<And>s. s \<in> set pivs' \<Longrightarrow> \<not> is_received_response_piv_reuse c' s"
        "\<And>t. is_received_response_reuse c' t \<or> t \<in> set reqs' \<Longrightarrow> is_received_response_reuse d' t"
        "\<And>t. is_received_response_piv_reuse c' t \<or> t \<in> set pivs' \<Longrightarrow> is_received_response_piv_reuse d' t"
      by blast+
    have "distinct reqs" "\<forall>s \<in> set reqs. \<not> is_received_response_reuse c s"
      "\<forall>t. is_received_response_reuse c t \<or> t \<in> set reqs \<longrightarrow> is_received_response_reuse d t"
      using ih(1,3,5) pend(1) unfolding e by (auto simp: w pending_ok_def)
    moreover have "distinct pivs" "\<forall>s \<in> set pivs. \<not> is_received_response_piv_reuse c s"
      "\<forall>t. is_received_response_piv_reuse c t \<or> t \<in> set pivs \<longrightarrow> is_received_response_piv_reuse d t"
      using ih(2,4,6) pend(1) unfolding e by (auto simp: w pending_ok_def split: option.splits)
    ultimately show ?thesis by blast
  qed (use Cons in simp_all)
qed simp

subsection \<open>Protecting responses\<close>

record response_call =
  rc_code :: u8
  rc_options :: bytes
  rc_payload :: bytes
  rc_kid :: bytes
  rc_piv :: bytes
  rc_include_piv :: bool

text \<open>The requests whose nonce a server has reused for a response.\<close>

primrec send_responses ::
    "bool \<Rightarrow> crypto \<Rightarrow> oscore_context \<Rightarrow> response_call list \<Rightarrow> oscore_context \<times> oscore_seq_num list" where
  "send_responses oc C c [] = (c, [])"
| "send_responses oc C c (m # ms) =
     (let (c, r) = protect_response oc C c (rc_code m) (rc_options m) (rc_payload m) (rc_kid m)
            (rc_piv m) (rc_include_piv m);
          (d, used) = send_responses oc C c ms
      in (d, (case r of
                Ok _ \<Rightarrow> (if rc_include_piv m then used else the (from_piv (rc_piv m)) # used)
              | _ \<Rightarrow> used)))"

lemma protect_response_reuse:
  assumes "protect_response oc C c code opts payload kid rpiv incl = (c', r)"
  shows "is_response_reuse c t \<Longrightarrow> is_response_reuse c' t"
    and "\<not> incl \<Longrightarrow> r = Ok out \<Longrightarrow>
      \<exists>s. from_piv rpiv = Some s \<and> \<not> is_response_reuse c s \<and> is_response_reuse c' s"
proof -
  have mark: "mark_response_used oc c s = Ok c' \<Longrightarrow> \<not> is_response_reuse c s \<Longrightarrow>
      is_response_reuse c' s \<and> (\<forall>t. is_response_reuse c t \<longrightarrow> is_response_reuse c' t)" for s
    using responses.mark_reuse responses.mark_keeps_reuse by blast
  from protect_response_context [OF assms]
  show "is_response_reuse c t \<Longrightarrow> is_response_reuse c' t"
    using mark by (auto simp: is_response_reuse_def)
  assume "\<not> incl" "r = Ok out"
  with assms obtain s where "from_piv rpiv = Some s" "\<not> is_response_reuse c s"
    "mark_response_used oc c s = Ok c'"
    by (auto simp: protect_response_def response_nonce_piv_def Let_def res_simps
        split: if_splits res.splits)
  with mark show "\<exists>s. from_piv rpiv = Some s \<and> \<not> is_response_reuse c s \<and> is_response_reuse c' s"
    by blast
qed

lemma send_responses_once:
  "send_responses oc C c ms = (d, used) \<Longrightarrow>
   distinct used \<and> (\<forall>s \<in> set used. \<not> is_response_reuse c s)"
proof (induction ms arbitrary: c d used)
  case (Cons m ms)
  obtain c' r where p: "protect_response oc C c (rc_code m) (rc_options m) (rc_payload m) (rc_kid m)
      (rc_piv m) (rc_include_piv m) = (c', r)" by fastforce
  obtain d' used' where s: "send_responses oc C c' ms = (d', used')" by fastforce
  note keep = protect_response_reuse [OF p]
  from Cons.IH [OF s] keep(1) have ih: "distinct used'" "\<forall>s \<in> set used'. \<not> is_response_reuse c' s"
    "\<forall>s \<in> set used'. \<not> is_response_reuse c s" by auto
  show ?case
  proof (cases "\<not> rc_include_piv m \<and> (\<exists>out. r = Ok out)")
    case True
    then obtain out where "\<not> rc_include_piv m" "r = Ok out" by blast
    with keep(2) obtain s where "from_piv (rc_piv m) = Some s" "\<not> is_response_reuse c s"
      "is_response_reuse c' s" by blast
    with True Cons.prems p s ih show ?thesis by auto
  next
    case False
    with Cons.prems p s ih show ?thesis by (cases r) (auto split: if_splits)
  qed
qed simp

subsection \<open>Request and response together\<close>

text \<open>A response that reuses the request's nonce, from the server's protection to the client's
  acceptance.\<close>

lemma no_piv_response_sealed:
  assumes wf: "wf_context c" "wf_context d" and m: "mirrored c d" and C: "ccm_contract C"
    and act: "ctx_active d" "ctx_allow_no_piv_response d"
    and rs: "from_piv rpiv = Some rs"
    and fresh: "\<not> is_response_reuse d rs" "\<not> is_received_response_reuse c rs"
    and code: "response_class code" and body: "body_ok opts payload"
    and len: "length (plaintext_of code opts payload) \<le> 256"
  obtains d' ct where
    "protect_response oc C d code opts payload (recipient_id d) rpiv False = (d', Ok (ct, []))"
    "is_response_reuse d' rs"
    "begin_unprotect_response_mode oc C c [] ct rpiv False = Ok \<lparr>pr_request_seq = rs, pr_response_seq = None,
      pr_mark_request_used = True, pr_code = code, pr_options = opts, pr_payload = payload\<rparr>"
proof -
  let ?ct = "the (ccm_seal C (ctx_sender_key d) (compute_nonce (recipient_id d) rpiv (ctx_common_iv d))
    (enc_structure (recipient_id d) rpiv) (plaintext_of code opts payload))"
  have ok: "response_ok d (recipient_id d) rpiv" using rs by (simp add: response_ok_def)
  obtain d' where d': "mark_response_used oc d rs = Ok d'" "is_response_reuse d' rs"
    using responses.mark_Ok [OF fresh(1), of oc] by metis
  have 1: "protect_response oc C d code opts payload (recipient_id d) rpiv False = (d', Ok (?ct, []))"
    using d' fresh(1) len by (simp add: protect_response_no_piv [OF wf(2) ok C act rs])
  have enc: "option_encoding [] None None = []" by (simp add: option_encoding_def)
  have "begin_unprotect_response_mode oc C c [] ?ct rpiv False = Ok \<lparr>pr_request_seq = rs, pr_response_seq = None,
      pr_mark_request_used = True, pr_code = code, pr_options = opts, pr_payload = payload\<rparr>"
    using begin_response_sealed [OF wf m C rs, where piv = "[]" and observe = False] fresh(2) code body len
    by (simp add: enc)
  with 1 d'(2) show ?thesis by (rule that)
qed

lemma no_piv_response_round_trip:
  assumes wf: "wf_context c" "wf_context d" and m: "mirrored c d" and C: "ccm_contract C"
    and act: "ctx_active d" "ctx_allow_no_piv_response d"
    and rs: "from_piv rpiv = Some rs"
    and fresh: "\<not> is_response_reuse d rs" "\<not> is_received_response_reuse c rs"
    and code: "response_class code" and body: "body_ok opts payload"
    and len: "length (plaintext_of code opts payload) \<le> 256"
  shows "\<exists>d' ct c'. protect_response oc C d code opts payload (recipient_id d) rpiv False = (d', Ok (ct, [])) \<and>
    is_response_reuse d' rs \<and>
    unprotect_response oc C c [] ct rpiv = (c', Ok (code, opts, payload)) \<and>
    is_received_response_reuse c' rs"
proof -
  obtain d' ct where 1: "protect_response oc C d code opts payload (recipient_id d) rpiv False = (d', Ok (ct, []))"
    "is_response_reuse d' rs"
    and 2: "begin_unprotect_response_mode oc C c [] ct rpiv False = Ok \<lparr>pr_request_seq = rs, pr_response_seq = None,
      pr_mark_request_used = True, pr_code = code, pr_options = opts, pr_payload = payload\<rparr>"
    by (rule no_piv_response_sealed [OF assms])
  from commit_ok [OF begin_unprotect_response_mode_ok(1) [OF 2], of oc] 1 2 show ?thesis
    by (auto simp: unprotect_response_def begin_unprotect_response_def accept_response_def)
qed

text \<open>A response or notification with a reserved Partial IV of its own.\<close>

lemma piv_response_sealed:
  assumes wf: "wf_context c" "wf_context d" and m: "mirrored c d" and C: "ccm_contract C"
    and s: "seq_wf s" and rs: "from_piv rpiv = Some rs"
    and fresh: "observe \<or> \<not> is_received_response_reuse c rs" "\<not> is_received_response_piv_reuse c s"
    and code: "response_class code" and body: "body_ok opts payload"
    and len: "length (plaintext_of code opts payload) \<le> 256"
  obtains ct where
    "protect_response_with_reserved_piv C d s code opts payload (recipient_id d) rpiv =
       Ok (ct, option_encoding (piv_bytes s) None None)"
    "begin_unprotect_response_mode oc C c (option_encoding (piv_bytes s) None None) ct rpiv observe =
       Ok \<lparr>pr_request_seq = rs, pr_response_seq = Some s, pr_mark_request_used = (\<not> observe), pr_code = code,
           pr_options = opts, pr_payload = payload\<rparr>"
proof -
  let ?ct = "the (ccm_seal C (ctx_sender_key d) (request_nonce d s)
    (enc_structure (recipient_id d) rpiv) (plaintext_of code opts payload))"
  have ok: "response_ok d (recipient_id d) rpiv" using rs by (simp add: response_ok_def)
  have 1: "protect_response_with_reserved_piv C d s code opts payload (recipient_id d) rpiv =
      Ok (?ct, option_encoding (piv_bytes s) None None)"
    using ok len by (simp add: protect_response_reserved_eq [OF wf(2) s C])
  have "begin_unprotect_response_mode oc C c (option_encoding (piv_bytes s) None None) ?ct rpiv observe =
       Ok \<lparr>pr_request_seq = rs, pr_response_seq = Some s, pr_mark_request_used = (\<not> observe), pr_code = code,
           pr_options = opts, pr_payload = payload\<rparr>"
    using begin_response_sealed [OF wf m C rs fresh(1) _ code body len, where piv = "piv_bytes s" and ps = s]
      fresh(2) s
    by (simp add: request_nonce_def)
  with 1 show ?thesis by (rule that)
qed

lemma piv_response_round_trip:
  assumes wf: "wf_context c" "wf_context d" and m: "mirrored c d" and C: "ccm_contract C"
    and s: "seq_wf s" and rs: "from_piv rpiv = Some rs"
    and fresh: "observe \<or> \<not> is_received_response_reuse c rs" "\<not> is_received_response_piv_reuse c s"
    and code: "response_class code" and body: "body_ok opts payload"
    and len: "length (plaintext_of code opts payload) \<le> 256"
  shows "\<exists>ct opt p c'. protect_response_with_reserved_piv C d s code opts payload (recipient_id d) rpiv = Ok (ct, opt) \<and>
    begin_unprotect_response_mode oc C c opt ct rpiv observe = Ok p \<and>
    commit oc c p = (c', Ok (code, opts, payload)) \<and>
    is_received_response_piv_reuse c' s \<and>
    (\<not> observe \<longrightarrow> is_received_response_reuse c' rs) \<and>
    (observe \<longrightarrow> is_received_response_reuse c' = is_received_response_reuse c)"
proof -
  define p where "p = \<lparr>pr_request_seq = rs, pr_response_seq = Some s,
    pr_mark_request_used = (\<not> observe), pr_code = code, pr_options = opts, pr_payload = payload\<rparr>"
  obtain ct where 1: "protect_response_with_reserved_piv C d s code opts payload (recipient_id d) rpiv =
      Ok (ct, option_encoding (piv_bytes s) None None)"
    and 2: "begin_unprotect_response_mode oc C c (option_encoding (piv_bytes s) None None) ct rpiv observe = Ok p"
    by (rule piv_response_sealed [OF assms, of oc, folded p_def])
  from commit_ok [OF begin_unprotect_response_mode_ok(1) [OF 2], of oc] obtain c' where
    "commit oc c p = (c', Ok (code, opts, payload))" "is_received_response_piv_reuse c' s"
    "\<not> observe \<longrightarrow> is_received_response_reuse c' rs"
    "observe \<longrightarrow> is_received_response_reuse c' = is_received_response_reuse c"
    by (auto simp: p_def)
  with 1 2 show ?thesis by blast
qed

end
