(* ===== verification/Instances.thy ===== *)
theory Instances
  imports Protocol
begin

text \<open>
  Concrete instances for the witnesses of the properties: primitives that satisfy the documented
  behaviour of HKDF and AES-CCM (an expansion that repeats a checksum, a cipher that appends a
  checksum of key, nonce, additional data and plaintext as its tag), and a client and a server
  context made from them. They only show that hypotheses can hold.
\<close>

definition checksum :: "bytes \<Rightarrow> u8" where
  "checksum bs = foldl (\<lambda>a b. a + b + 1) 0 bs"

definition toy_tag :: "bytes \<Rightarrow> bytes \<Rightarrow> bytes \<Rightarrow> bytes \<Rightarrow> bytes" where
  "toy_tag key nonce aad pt = checksum (key @ nonce @ aad @ pt) # replicate 7 0"

definition toy_crypto :: crypto where
  "toy_crypto = \<lparr>
     sha256 = (\<lambda>bs. take 32 (bs @ replicate 32 0)),
     hkdf_extract = (\<lambda>salt ikm. case salt of None \<Rightarrow> ikm | Some s \<Rightarrow> s @ ikm),
     hkdf_from_prk = (\<lambda>prk. if length prk < 32 then None else Some prk),
     hkdf_expand = (\<lambda>prk info n. if n \<le> 255 * 32 then Some (replicate n (checksum (prk @ info))) else None),
     ccm_new = (\<lambda>key. if length key = 16 then Some key else None),
     ccm_encrypt = (\<lambda>cipher nonce aad pt. Some (pt, toy_tag cipher nonce aad pt)),
     ccm_decrypt = (\<lambda>cipher nonce aad ct tag.
       if tag = toy_tag cipher nonce aad ct then Some ct else None)\<rparr>"

lemma toy_hkdf: "hkdf_contract toy_crypto"
  by (simp add: hkdf_contract_def toy_crypto_def)

lemma toy_ccm: "ccm_contract toy_crypto"
  by (auto simp: ccm_contract_def toy_crypto_def toy_tag_def)

definition toy_context :: "bytes \<Rightarrow> bytes \<Rightarrow> oscore_context" where
  "toy_context sid rid =
     (case context_new toy_crypto (replicate 16 7) None None sid rid of
        Ok c \<Rightarrow> c\<lparr>ctx_active := True, ctx_allow_no_piv_response := True\<rparr>
      | _ \<Rightarrow> undefined)"

definition toy_client :: oscore_context where "toy_client = toy_context [1] [2]"
definition toy_server :: oscore_context where "toy_server = toy_context [2] [1]"

lemma toy_context_new:
  assumes "new_params_ok None None sid rid"
  obtains c where "context_new toy_crypto (replicate 16 7) None None sid rid = Ok c"
    "toy_context sid rid = c\<lparr>ctx_active := True, ctx_allow_no_piv_response := True\<rparr>"
proof -
  obtain c where "context_new toy_crypto (replicate 16 7) None None sid rid = Ok c"
    by (rule context_new_total [OF toy_hkdf assms])
  then show ?thesis by (intro that) (simp_all add: toy_context_def)
qed

lemma toy_params: "new_params_ok None None [1] [2]" "new_params_ok None None [2] [1]"
  by (simp_all add: new_params_ok_def)

lemma toy_context_facts:
  assumes "new_params_ok None None sid rid"
  shows "wf_context (toy_context sid rid)" "ctx_active (toy_context sid rid)"
    "ctx_allow_no_piv_response (toy_context sid rid)"
    "sender_id (toy_context sid rid) = sid" "recipient_id (toy_context sid rid) = rid"
    "ctx_sender_seq (toy_context sid rid) = seq_default" "\<not> ctx_sender_seq_exhausted (toy_context sid rid)"
proof -
  obtain c where c: "context_new toy_crypto (replicate 16 7) None None sid rid = Ok c"
    "toy_context sid rid = c\<lparr>ctx_active := True, ctx_allow_no_piv_response := True\<rparr>"
    by (rule toy_context_new [OF assms])
  note ok = context_new_Ok [OF c(1)]
  have "wf_context c" by (rule context_new_wf [OF toy_hkdf _ c(1)]) simp
  then show "wf_context (toy_context sid rid)" by (simp add: c(2) wf_flags)
  show "ctx_active (toy_context sid rid)" "ctx_allow_no_piv_response (toy_context sid rid)"
    "sender_id (toy_context sid rid) = sid" "recipient_id (toy_context sid rid) = rid"
    "ctx_sender_seq (toy_context sid rid) = seq_default" "\<not> ctx_sender_seq_exhausted (toy_context sid rid)"
    using ok by (simp_all add: c(2) sender_id_def recipient_id_def)
qed

lemma toy_context_windows:
  assumes "new_params_ok None None sid rid"
  shows "\<not> is_replay (toy_context sid rid) s" "\<not> is_response_reuse (toy_context sid rid) s"
    "\<not> is_received_response_reuse (toy_context sid rid) s"
    "\<not> is_received_response_piv_reuse (toy_context sid rid) s"
proof -
  obtain c where c: "context_new toy_crypto (replicate 16 7) None None sid rid = Ok c"
    "toy_context sid rid = c\<lparr>ctx_active := True, ctx_allow_no_piv_response := True\<rparr>"
    by (rule toy_context_new [OF assms])
  then show "\<not> is_replay (toy_context sid rid) s" "\<not> is_response_reuse (toy_context sid rid) s"
    "\<not> is_received_response_reuse (toy_context sid rid) s"
    "\<not> is_received_response_piv_reuse (toy_context sid rid) s"
    using context_new_fresh_windows [OF c(1)]
    by (simp_all add: is_replay_def is_response_reuse_def is_received_response_reuse_def
        is_received_response_piv_reuse_def)
qed

lemmas toy_client_facts = toy_context_facts [OF toy_params(1), folded toy_client_def]
lemmas toy_server_facts = toy_context_facts [OF toy_params(2), folded toy_server_def]
lemmas toy_client_windows = toy_context_windows [OF toy_params(1), folded toy_client_def]
lemmas toy_server_windows = toy_context_windows [OF toy_params(2), folded toy_server_def]

lemma toy_mirrored: "mirrored toy_client toy_server"
proof -
  obtain c where c: "context_new toy_crypto (replicate 16 7) None None [1] [2] = Ok c"
    "toy_context [1] [2] = c\<lparr>ctx_active := True, ctx_allow_no_piv_response := True\<rparr>"
    by (rule toy_context_new [OF toy_params(1)])
  obtain d where d: "context_new toy_crypto (replicate 16 7) None None [2] [1] = Ok d"
    "toy_context [2] [1] = d\<lparr>ctx_active := True, ctx_allow_no_piv_response := True\<rparr>"
    by (rule toy_context_new [OF toy_params(2)])
  from context_new_mirrored [OF c(1) d(1)] show ?thesis
    by (simp add: toy_client_def toy_server_def c(2) d(2) mirrored_def sender_id_def
        recipient_id_def id_context_def)
qed

subsection \<open>Facts the witnesses share\<close>

lemma toy_body: "body_ok [0x11, 0x2A] [1, 2, 3]" "body_ok [0x11, 0x2A] []"
  by (simp_all add: body_ok_def parse_inner_body_def parse_loop_step parse_loop_end option_step_def
      nibble_value_def isize_max_def)

lemma toy_len: "length (plaintext_of code [0x11, 0x2A] [1, 2, 3]) \<le> 256"
  by (simp add: length_plaintext_of)

lemma toy_class: "response_class 0x45"
  by (simp add: response_class_def)

lemma seq_wf_small: "seq_wf (OscoreSeqNum 0)" "seq_wf (OscoreSeqNum 5)"
  by (simp_all add: seq_wf_def)

lemma from_piv_5: "from_piv [5] = Some (OscoreSeqNum 5)"
  by (simp add: from_piv_eq canonical_be_def be_val_def)

end
