(* ===== verification/OscoreProperties.thy ===== *)
theory OscoreProperties
  imports Protocol Instances
begin

text \<open>
  The properties of the OSCORE core (\<^verbatim>\<open>src/lib.rs\<close>, \<^verbatim>\<open>src/seqnum.rs\<close>), each
  with a witness on the concrete instances. \<open>oc\<close> is the build profile: overflow checks on or
  off.
\<close>

subsection \<open>Requests\<close>

text \<open>C1: Between two well-formed mirrored contexts, under the AEAD's contract, a request with any code,
  a well-formed option list of up to 128 bytes and a payload of up to 128 bytes is protected, if code,
  options, marker and payload together have up to 256 bytes. The other end, if it has not seen the
  sequence number, decrypts it to exactly the code, options and payload that went in, and its only
  change is the mark in the replay window. (Longer plaintexts are C38's subject: 257 and 258 bytes are
  protected and refused.)\<close>

theorem request_round_trip_total:
  assumes "wf_context c" "wf_context d" "mirrored c d" "seq_wf s" "ccm_contract C"
    and "\<not> is_replay d s" "body_ok opts payload" "length (plaintext_of code opts payload) \<le> 256"
  shows "\<exists>ct opt. protect_request_reserved C c s code opts payload = Ok (ct, opt) \<and>
    unprotect_request oc C d opt ct = (update_replay_window d s, Ok (code, opts, payload))"
proof -
  obtain ct opt where p: "protect_request_reserved C c s code opts payload = Ok (ct, opt)"
    using assms(8) by (auto simp: protect_request_eq [OF assms(1,4,5)])
  from request_round_trip [OF assms(1-8) p] p show ?thesis by blast
qed

theorem request_round_trip_total_witness:
  "\<exists>ct opt. protect_request_reserved toy_crypto toy_client (OscoreSeqNum 5) 1 [0x11, 0x2A] [1, 2, 3]
      = Ok (ct, opt) \<and>
    unprotect_request True toy_crypto toy_server opt ct =
      (update_replay_window toy_server (OscoreSeqNum 5), Ok (1, [0x11, 0x2A], [1, 2, 3]))"
  by (rule request_round_trip_total [OF toy_client_facts(1) toy_server_facts(1) toy_mirrored
        seq_wf_small(2) toy_ccm toy_server_windows(1) toy_body(1) toy_len])

text \<open>C2: Whatever sequence of messages reaches a server, it accepts no sequence number twice, it
  accepts none that its window already rejected, and afterwards it rejects exactly what it rejected
  before, what it accepted, and what lies 32 or more below an accepted number.\<close>

theorem requests_accepted_once:
  assumes "receive_requests oc C c ms = (d, acc)"
  shows "distinct acc \<and> (\<forall>s \<in> set acc. \<not> is_replay c s) \<and>
    (\<forall>t. is_replay d t \<longleftrightarrow> is_replay c t \<or> t \<in> set acc \<or> (\<exists>s \<in> set acc. seq_val t + 32 \<le> seq_val s))"
  using receive_requests_exact [OF assms] by blast

theorem requests_accepted_once_witness:
  "\<exists>m d acc. receive_requests True toy_crypto toy_server [m, m] = (d, acc) \<and> acc = [OscoreSeqNum 5] \<and>
    distinct acc \<and> is_replay d (OscoreSeqNum 5)"
proof -
  let ?s = "OscoreSeqNum 5" and ?d = "update_replay_window toy_server (OscoreSeqNum 5)"
  obtain ct opt where p: "protect_request_reserved toy_crypto toy_client ?s 1 [0x11, 0x2A] [1, 2, 3]
      = Ok (ct, opt)"
    using toy_len by (auto simp: protect_request_eq [OF toy_client_facts(1) seq_wf_small(2) toy_ccm]
      length_plaintext_of)
  note u = request_round_trip [OF toy_client_facts(1) toy_server_facts(1) toy_mirrored
      seq_wf_small(2) toy_ccm toy_server_windows(1) toy_body(1) toy_len p, of True]
  have rep: "is_replay ?d ?s" using update_replay_window_exact [OF toy_server_windows(1)] by simp
  note seq = request_seq_protected [OF toy_client_facts(1) seq_wf_small(2) toy_ccm p]
  obtain e where e: "unprotect_request True toy_crypto ?d opt ct = (?d, Err e)"
    using replayed_refused [OF seq rep] by metis
  have run: "receive_requests True toy_crypto toy_server [(opt, ct), (opt, ct)] = (?d, [?s])"
    using u e seq by simp
  from requests_accepted_once [OF run] run rep show ?thesis by blast
qed

subsection \<open>Sender sequence numbers\<close>

text \<open>C3: Over a store that keeps the compare-and-swap promise, no sequence number is reserved twice
  for the same context identifier, however many contexts register, restore, reserve, fail, operate
  and crash in whatever order.\<close>

theorem sender_sequences_reserved_once:
  assumes "store_contract S view" and "sender_reach S st0 y"
  shows "distinct (sys_log y)"
  by (rule sender_store.reserved_once [OF sender_store.intro [OF assms(1)] assms(2)])

definition toy_store :: test_store where
  "toy_store = \<lparr>ts_context_id = ctx_context_id toy_client,
     ts_state = sender_sequence_state toy_client, ts_recipient = None\<rparr>"

theorem sender_sequences_reserved_once_witness:
  "\<exists>y. sender_reach test_store_ops toy_store y \<and> length (sys_log y) = 1 \<and> distinct (sys_log y)"
proof -
  let ?c0 = "toy_client\<lparr>ctx_active := False, ctx_allow_no_piv_response := False\<rparr>"
  have wf: "wf_context ?c0" using toy_client_facts(1) by (simp add: wf_flags)
  obtain y1 where y1: "sender_reach test_store_ops toy_store y1" "sys_contexts y1 0 = Some ?c0"
    "sys_store y1 = toy_store" "sys_log y1 = []"
    using sender_reach.step [OF sender_reach.start sender_step.appear [OF wf, where i = 0]] by force
  let ?c1 = "?c0\<lparr>ctx_active := True\<rparr>"
  have wf1: "wf_context ?c1"
    using toy_client_facts(1) by (simp add: wf_context_def sender_id_def recipient_id_def)
  obtain y2 where y2: "sender_reach test_store_ops toy_store y2" "sys_contexts y2 0 = Some ?c1"
    "sys_store y2 = toy_store" "sys_log y2 = []"
    using sender_reach.step [OF y1(1) sender_step.operate [OF y1(2) wf1]] y1 by force
  have sw: "seq_wf (ctx_sender_seq ?c1)" using wf1 by (simp add: wf_context_def)
  have "sender_sequence_state ?c1 = sender_sequence_state toy_client"
    by (simp add: sender_sequence_state_def)
  then have "reserve_sender test_store_ops ?c1 toy_store =
      (toy_store\<lparr>ts_state := next_sender_state ?c1\<rparr>, after_reservation ?c1, Ok (ctx_sender_seq ?c1))"
    using toy_client_facts(7) unfolding reserve_sender_Ok [OF sw]
    by (simp add: toy_store_def test_store_ops_def)
  then obtain st' c' where r: "reserve_sender test_store_ops ?c1 (sys_store y2) = (st', c', Ok (ctx_sender_seq ?c1))"
    using y2(3) by metis
  have "sender_reach test_store_ops toy_store (y2\<lparr>sys_store := st', sys_contexts := (sys_contexts y2)(0 \<mapsto> c'),
      sys_log := (ctx_context_id ?c1, ctx_sender_seq ?c1) # sys_log y2\<rparr>)"
    using sender_reach.step [OF y2(1) sender_step.reserve [OF y2(2) r]] by simp
  from sender_sequences_reserved_once [OF test_store_contract this] this y2(4) show ?thesis
    by (intro exI conjI) (assumption | simp)+
qed

text \<open>C4: Take two well-formed contexts with one common IV and two 40-bit sequence numbers, under the
  AEAD's contract, such that the pairs of sender identifier and number differ. The Partial IVs that
  \<open>encode_piv\<close> writes for them give, through \<open>compute_nonce\<close>, two different nonces, and through
  \<open>build_aad_cbor\<close> two different request data; every message that carries such a number as its own
  Partial IV is sealed under that nonce: a request, with those additional data, and a response with a
  reserved or a counted Partial IV, with the data of the request it answers. So no two such messages
  share a nonce and no two requests share additional data. A response without a Partial IV takes the
  nonce of its request by design; C10 is about those.\<close>

theorem nonces_and_aad_distinct:
  assumes "wf_context c" "wf_context d" "ctx_common_iv c = ctx_common_iv d" "seq_wf s" "seq_wf t"
    and "ccm_contract C" "(sender_id c, s) \<noteq> (sender_id d, t)"
  shows "\<exists>p q a b. piv_of_seq s = Ok p \<and> piv_of_seq t = Ok q \<and>
    aad_of (sender_id c) p = Ok a \<and> aad_of (sender_id d) q = Ok b \<and> a \<noteq> b \<and>
    compute_nonce (sender_id c) p (ctx_common_iv c) \<noteq> compute_nonce (sender_id d) q (ctx_common_iv d) \<and>
    sealed_with C c s (compute_nonce (sender_id c) p (ctx_common_iv c)) a \<and>
    sealed_with C d t (compute_nonce (sender_id d) q (ctx_common_iv d)) b"
proof (intro exI conjI)
  have small: "length (sender_id e) + length (piv_bytes u) \<le> 16" if "wf_context e" "seq_wf u" for e u
    using accessor_lengths(2) [OF that(1)] length_piv_bytes [OF that(2)] by linarith
  show "piv_of_seq s = Ok (piv_bytes s)" "piv_of_seq t = Ok (piv_bytes t)"
    by (simp_all add: piv_of_seq_eq assms(4,5))
  show "aad_of (sender_id c) (piv_bytes s) = Ok (enc_structure (sender_id c) (piv_bytes s))"
    "aad_of (sender_id d) (piv_bytes t) = Ok (enc_structure (sender_id d) (piv_bytes t))"
    by (simp_all add: aad_of_eq small assms(1,2,4,5))
  show "enc_structure (sender_id c) (piv_bytes s) \<noteq> enc_structure (sender_id d) (piv_bytes t)"
    using request_aad_inject [OF assms(1,2,4,5)] assms(7) by blast
  show "compute_nonce (sender_id c) (piv_bytes s) (ctx_common_iv c) \<noteq>
      compute_nonce (sender_id d) (piv_bytes t) (ctx_common_iv d)"
    using request_nonce_inject [OF assms(1-5)] assms(7) unfolding request_nonce_def by blast
qed (rule sealed_with_request_nonce [unfolded request_nonce_def]; rule assms)+

theorem nonces_and_aad_distinct_witness:
  "\<exists>p a b. piv_of_seq (OscoreSeqNum 5) = Ok p \<and>
    aad_of (sender_id toy_client) p = Ok a \<and> aad_of (sender_id toy_server) p = Ok b \<and> a \<noteq> b \<and>
    compute_nonce (sender_id toy_client) p (ctx_common_iv toy_client) \<noteq>
      compute_nonce (sender_id toy_server) p (ctx_common_iv toy_server)"
proof -
  have "ctx_common_iv toy_client = ctx_common_iv toy_server" "sender_id toy_client \<noteq> sender_id toy_server"
    using toy_mirrored by (simp_all add: mirrored_def toy_client_facts toy_server_facts)
  with nonces_and_aad_distinct [OF toy_client_facts(1) toy_server_facts(1) _ seq_wf_small(2) seq_wf_small(2) toy_ccm]
  show ?thesis by fastforce
qed

text \<open>What a reservation does, on every branch: an inactive context is refused, an exhausted one
  is refused, otherwise the store is asked to replace the current state by its successor; success
  returns the current number and moves the context to the stored state, and everything else leaves
  the context as it was. At the 40-bit maximum the successor is the exhausted state.\<close>

lemma reserve_sender_behaviour:
  assumes "wf_context c"
  shows "reserve_sender S c st =
    (if \<not> ctx_active c then (st, c, Err ReservationConflict)
     else if ctx_sender_seq_exhausted c then (st, c, Err SequenceExhausted)
     else
       let (st', r) = compare_exchange_sender S st (ctx_context_id c)
              (Some (sender_sequence_state c)) (next_sender_state c)
       in (case r of
             Ok True \<Rightarrow> (st', after_reservation c, Ok (ctx_sender_seq c))
           | Ok False \<Rightarrow> (st', c, Err ReservationConflict)
           | Err x \<Rightarrow> (st', c, Err (ReservationStorage x))
           | Panic \<Rightarrow> (st', c, Panic))) \<and>
    (seq_val (ctx_sender_seq c) = 2 ^ 40 - 1 \<longrightarrow>
       exhausted (next_sender_state c) \<and> sender_seq (after_reservation c) = None) \<and>
    (seq_val (ctx_sender_seq c) < 2 ^ 40 - 1 \<longrightarrow>
       sender_seq (after_reservation c) = Some (OscoreSeqNum (get (ctx_sender_seq c) + 1)))"
proof -
  from assms have wf: "seq_wf (ctx_sender_seq c)" by (simp add: wf_context_def)
  show ?thesis
    by (intro conjI impI, rule reserve_sender_eq [OF wf])
      (simp_all add: next_sender_state_def after_reservation_def sender_seq_def)
qed

subsection \<open>Responses\<close>

text \<open>C21: Between well-formed mirrored contexts, under the AEAD's contract, a response to a request with
  a valid Partial IV arrives in both forms, if its code is of a response class (2 to 5), its options
  are a well-formed list of up to 128 bytes, its payload has up to 128 bytes, and code, options, marker
  and payload together up to 256: the client gets the code, options and payload that went in. The form
  that reuses the request's nonce needs a server that is active, may answer without a Partial IV and
  has not yet answered this request so, and a client with no response to it yet; the server marks the
  request, and so does the client. The form with a reserved Partial IV, be it an Observe notification,
  needs a number that the client has not accepted and, unless it is a notification, a request without
  a response yet; the commit marks the Partial IV, and marks the request only when it is not a
  notification.\<close>

theorem response_exchange:
  assumes "wf_context c" "wf_context d" "mirrored c d" "ccm_contract C" "from_piv rpiv = Some rs"
    and "response_class code" "body_ok opts payload" "length (plaintext_of code opts payload) \<le> 256"
  shows "(ctx_active d \<and> ctx_allow_no_piv_response d \<and> \<not> is_response_reuse d rs \<and>
      \<not> is_received_response_reuse c rs \<longrightarrow>
      (\<exists>d' ct c'. protect_response oc C d code opts payload (recipient_id d) rpiv False = (d', Ok (ct, [])) \<and>
        is_response_reuse d' rs \<and>
        unprotect_response oc C c [] ct rpiv = (c', Ok (code, opts, payload)) \<and>
        is_received_response_reuse c' rs)) \<and>
    (seq_wf s \<and> (observe \<or> \<not> is_received_response_reuse c rs) \<and> \<not> is_received_response_piv_reuse c s \<longrightarrow>
      (\<exists>ct opt p c'. protect_response_with_reserved_piv C d s code opts payload (recipient_id d) rpiv = Ok (ct, opt) \<and>
        begin_unprotect_response_mode oc C c opt ct rpiv observe = Ok p \<and>
        commit oc c p = (c', Ok (code, opts, payload)) \<and>
        is_received_response_piv_reuse c' s \<and>
        (\<not> observe \<longrightarrow> is_received_response_reuse c' rs) \<and>
        (observe \<longrightarrow> is_received_response_reuse c' = is_received_response_reuse c)))"
  by (intro conjI impI; elim conjE)
    (rule no_piv_response_round_trip [OF assms(1-4) _ _ assms(5) _ _ assms(6-8)]
      piv_response_round_trip [OF assms(1-4) _ assms(5) _ _ assms(6-8)]; assumption)+

theorem response_exchange_witness:
  "(\<exists>d' ct c'. protect_response True toy_crypto toy_server 0x45 [0x11, 0x2A] [1, 2, 3]
       (recipient_id toy_server) [5] False = (d', Ok (ct, [])) \<and>
    is_response_reuse d' (OscoreSeqNum 5) \<and>
    unprotect_response True toy_crypto toy_client [] ct [5] = (c', Ok (0x45, [0x11, 0x2A], [1, 2, 3])) \<and>
    is_received_response_reuse c' (OscoreSeqNum 5)) \<and>
   (\<exists>ct opt p c'. protect_response_with_reserved_piv toy_crypto toy_server (OscoreSeqNum 0) 0x45
       [0x11, 0x2A] [1, 2, 3] (recipient_id toy_server) [5] = Ok (ct, opt) \<and>
    begin_unprotect_response_mode True toy_crypto toy_client opt ct [5] True = Ok p \<and>
    commit True toy_client p = (c', Ok (0x45, [0x11, 0x2A], [1, 2, 3])) \<and>
    is_received_response_piv_reuse c' (OscoreSeqNum 0) \<and>
    is_received_response_reuse c' = is_received_response_reuse toy_client)"
  using response_exchange [OF toy_client_facts(1) toy_server_facts(1) toy_mirrored toy_ccm from_piv_5 toy_class
      toy_body(1) toy_len, of True "OscoreSeqNum 0" True] toy_server_facts(2,3) toy_server_windows(2)
    toy_client_windows(3,4) seq_wf_small(1)
  by simp

text \<open>C9: Whatever responses and notifications reach a client, no request is answered twice by an
  ordinary response and no response Partial IV is accepted twice, across both kinds.\<close>

theorem responses_accepted_once:
  assumes "receive_responses oc C c ms = (d, reqs, pivs)"
  shows "distinct reqs \<and> distinct pivs \<and>
    (\<forall>s \<in> set reqs. \<not> is_received_response_reuse c s \<and> is_received_response_reuse d s) \<and>
    (\<forall>s \<in> set pivs. \<not> is_received_response_piv_reuse c s \<and> is_received_response_piv_reuse d s)"
  using receive_responses_once [OF assms] by blast

theorem responses_accepted_once_witness:
  "\<exists>m d. receive_responses True toy_crypto toy_client [m] = (d, [], [OscoreSeqNum 0]) \<and>
    is_received_response_piv_reuse d (OscoreSeqNum 0)"
proof -
  obtain ct opt p c' where b: "begin_unprotect_response_mode True toy_crypto toy_client opt ct [5] True = Ok p"
    and c: "commit True toy_client p = (c', Ok (0x45, [0x11, 0x2A], [1, 2, 3]))"
    and o: "protect_response_with_reserved_piv toy_crypto toy_server (OscoreSeqNum 0) 0x45
       [0x11, 0x2A] [1, 2, 3] (recipient_id toy_server) [5] = Ok (ct, opt)"
    using piv_response_round_trip [OF toy_client_facts(1) toy_server_facts(1) toy_mirrored toy_ccm
        seq_wf_small(1) from_piv_5 disjI1 [OF TrueI] toy_client_windows(4) toy_class toy_body(1) toy_len]
    by metis
  let ?m = "\<lparr>rm_option = opt, rm_ciphertext = ct, rm_request_piv = [5], rm_observe = True\<rparr>"
  from o have opt: "opt = option_encoding (piv_bytes (OscoreSeqNum 0)) None None"
    by (auto simp: protect_response_reserved_eq [OF toy_server_facts(1) seq_wf_small(1) toy_ccm]
        split: if_splits)
  have ok: "option_parts_ok (piv_bytes (OscoreSeqNum 0)) None None"
    by (simp add: option_parts_ok_def piv_bytes_def be_bytes.simps canonical_be_def)
  have "pr_response_seq p = Some (OscoreSeqNum 0)" "\<not> pr_mark_request_used p"
    using b option_value_parts [OF ok] seq_wf_small(1)
    by (auto simp: begin_unprotect_response_mode_def opt parse_option_encoding [OF ok] res_simps
        Let_def word_gt_0 split: if_splits)
  with b c have run: "receive_responses True toy_crypto toy_client [?m] = (c', [], [OscoreSeqNum 0])"
    by simp
  from responses_accepted_once [OF run] have "is_received_response_piv_reuse c' (OscoreSeqNum 0)"
    by simp
  with run show ?thesis by blast
qed

text \<open>C10: Over any sequence of protected responses a server reuses the nonce of a request at most
  once, and never that of a request it has already answered this way.\<close>

theorem request_nonce_reused_once:
  assumes "send_responses oc C c ms = (d, used)"
  shows "distinct used \<and> (\<forall>s \<in> set used. \<not> is_response_reuse c s)"
  by (rule send_responses_once [OF assms])

theorem request_nonce_reused_once_witness:
  "\<exists>m d. send_responses True toy_crypto toy_server [m, m] = (d, [OscoreSeqNum 5]) \<and>
    distinct [OscoreSeqNum 5] \<and> (\<forall>s \<in> set [OscoreSeqNum 5]. \<not> is_response_reuse toy_server s)"
proof -
  let ?m = "\<lparr>rc_code = 0x45, rc_options = [0x11, 0x2A], rc_payload = [1, 2, 3],
    rc_kid = recipient_id toy_server, rc_piv = [5], rc_include_piv = False\<rparr>"
  obtain d ct where p: "protect_response True toy_crypto toy_server 0x45 [0x11, 0x2A] [1, 2, 3]
       (recipient_id toy_server) [5] False = (d, Ok (ct, []))" and r: "is_response_reuse d (OscoreSeqNum 5)"
    using no_piv_response_round_trip [OF toy_client_facts(1) toy_server_facts(1) toy_mirrored toy_ccm
        toy_server_facts(2,3) from_piv_5 toy_server_windows(2) toy_client_windows(3) toy_class
        toy_body(1) toy_len] by metis
  obtain d' r' where q: "protect_response True toy_crypto d 0x45 [0x11, 0x2A] [1, 2, 3]
       (recipient_id toy_server) [5] False = (d', r')" by fastforce
  have no: "r' \<noteq> Ok out" for out
    using protect_response_reuse(2) [OF q, of out] r from_piv_5 by auto
  have run: "send_responses True toy_crypto toy_server [?m, ?m] = (d', [OscoreSeqNum 5])"
    using p q from_piv_5 no by (cases r') (simp_all, blast)
  from request_nonce_reused_once [OF run] run show ?thesis by blast
qed

subsection \<open>What acceptance means\<close>

text \<open>C11: A request is accepted only if its Partial IV decodes to a number the window does not
  reject and the AEAD authenticates it under the recipient key with the nonce and additional data of
  that number; then exactly the replay window changes. A refused request leaves the context
  untouched.\<close>

theorem unprotect_request_sound:
  "case unprotect_request oc C c option ct of
     (c', Ok (code, opts, payload)) \<Rightarrow>
       \<exists>s cipher rest. request_seq option = Some s \<and> \<not> is_replay c s \<and>
         c' = update_replay_window c s \<and>
         ccm_new C (ctx_recipient_key c) = Some cipher \<and>
         ccm_decrypt C cipher (compute_nonce (recipient_id c) (piv_bytes s) (ctx_common_iv c))
           (enc_structure (recipient_id c) (piv_bytes s))
           (take (length ct - 8) ct) (drop (length ct - 8) ct) = Some (code # rest) \<and>
         split_rest oc rest = Ok (opts, payload) \<and> length opts \<le> 128 \<and> length payload \<le> 128
   | (c', _) \<Rightarrow> c' = c"
proof (cases rule: unprotect_request_cases [of oc C c option ct])
  case (accepted s code opts payload)
  from accepted(1) show ?thesis
  proof (rule unprotect_request_body_Ok)
    fix opt pt
    assume a: "parse_option option = Ok opt" "from_piv (piv_of opt) = Some s" "\<not> is_replay c s"
      "open_ciphertext C (ctx_recipient_key c)
         (compute_nonce (recipient_id c) (piv_of opt) (ctx_common_iv c))
         (enc_structure (recipient_id c) (piv_of opt)) ct = Ok (code # pt)"
      "split_rest oc pt = Ok (opts, payload)" "length opts \<le> 128" "length payload \<le> 128"
    have "piv_of opt = piv_bytes s" using from_piv_Some(2) [OF a(2)] by simp
    with a open_ciphertext_Ok [OF a(4)] accepted(2) show ?thesis
      by (auto simp: request_seq_def)
  qed
qed simp_all

text \<open>C22: Without overflow checks no received message makes the unprotect operations panic.\<close>

theorem unprotect_no_panic:
  assumes "wf_context c"
  shows "snd (unprotect_request False C c option ct) \<noteq> Panic \<and>
    snd (unprotect_response False C c option ct rpiv) \<noteq> Panic \<and>
    snd (unprotect_observe_response False C c option ct rpiv) \<noteq> Panic"
proof -
  have "snd (accept_response False c (begin_unprotect_response_mode False C c option ct rpiv observe)) \<noteq> Panic"
    for observe
  proof (cases rule: accept_response_cases [of "begin_unprotect_response_mode False C c option ct rpiv observe" False c])
    case (committed p)
    with commit_ok [OF begin_unprotect_response_mode_ok(1) [OF committed(1)], of False] show ?thesis
      by auto
  qed (use begin_response_no_panic [OF assms] in auto)
  then show ?thesis
    using unprotect_request_no_panic
    by (simp add: unprotect_response_def unprotect_observe_response_def begin_unprotect_response_def
        begin_unprotect_observe_response_def)
qed

theorem unprotect_no_panic_witness:
  "snd (unprotect_request False toy_crypto toy_client [9, 0, 1] [1, 2]) \<noteq> Panic \<and>
   snd (unprotect_response False toy_crypto toy_client [9, 0, 1] [1, 2] [5]) \<noteq> Panic \<and>
   snd (unprotect_observe_response False toy_crypto toy_client [9, 0, 1] [1, 2] [5]) \<noteq> Panic"
  by (rule unprotect_no_panic [OF toy_client_facts(1)])

subsection \<open>Preflights\<close>

lemma preflight_request_sufficient:
  assumes "wf_context c" "ccm_contract C" "seq_wf s"
    and "preflight_protect_request c opts payload = Ok ()"
  shows "\<exists>ct opt. protect_request_reserved C c s code opts payload = Ok (ct, opt) \<and>
    length ct \<le> 280 \<and> length opt \<le> OSCORE_OPTION_MAX_LEN \<and>
    (s = ctx_sender_seq c \<and> \<not> ctx_sender_seq_exhausted c \<longrightarrow> next_request_option_len c = Ok (length opt))"
proof -
  from assms(4) have act: "ctx_active c" and b: "length opts \<le> 128" "length payload \<le> 128"
    by (auto simp: preflight_request_eq [OF assms(1)] split: if_splits)
  then have len: "length (plaintext_of code opts payload) \<le> 258" by (simp add: length_plaintext_of)
  have key: "length (ctx_sender_key c) = 16" using assms(1) by (simp add: wf_context_def)
  have small: "length (plaintext_of code opts payload) < 2 ^ 16" using len by simp
  obtain ct tag where sealed: "ccm_seal C (ctx_sender_key c) (request_nonce c s)
      (enc_structure (sender_id c) (piv_bytes s)) (plaintext_of code opts payload) = Some (ct @ tag)"
    "length ct = length (plaintext_of code opts payload)" "length tag = 8"
    using ccm_seal_Some [OF assms(2) key length_request_nonce [OF assms(1,3)] small] by metis
  note lens = accessor_lengths [OF assms(1)] length_piv_bytes [OF assms(3)]
  show ?thesis
    using sealed len lens act
    by (auto simp: protect_request_eq [OF assms(1,3,2)] length_option_encoding_kid kid_context_def
        next_request_option_len_eq [OF assms(1)] request_option_len_eq [OF assms(1)])
qed

lemma preflight_response_sufficient:
  assumes "wf_context c" "ccm_contract C" "seq_wf s"
    and "preflight_protect_response c opts payload kid piv = Ok ()"
  shows "\<exists>ct opt. protect_response_with_reserved_piv C c s code opts payload kid piv = Ok (ct, opt) \<and>
    length ct \<le> 280 \<and> length opt \<le> OSCORE_OPTION_MAX_LEN \<and> body_ok opts payload"
proof -
  from assms(4) have ok: "response_ok c kid piv" and b: "body_ok opts payload"
    by (auto simp: preflight_response_Ok [OF assms(1)] response_ok_def body_ok_def)
  then have len: "length (plaintext_of code opts payload) \<le> 258"
    by (simp add: length_plaintext_of body_ok_def)
  have key: "length (ctx_sender_key c) = 16" using assms(1) by (simp add: wf_context_def)
  have small: "length (plaintext_of code opts payload) < 2 ^ 16" using len by simp
  obtain ct tag where sealed: "ccm_seal C (ctx_sender_key c) (request_nonce c s)
      (enc_structure kid piv) (plaintext_of code opts payload) = Some (ct @ tag)"
    "length ct = length (plaintext_of code opts payload)" "length tag = 8"
    using ccm_seal_Some [OF assms(2) key length_request_nonce [OF assms(1,3)] small] by metis
  show ?thesis
    using sealed len ok b length_piv_bytes [OF assms(3)]
    by (auto simp: protect_response_reserved_eq [OF assms(1,3,2)] option_encoding_def)
qed

lemma preflight_exceeds_receiver:
  assumes "wf_context c" "wf_context d" "mirrored c d" "seq_wf s" "ccm_contract C" "\<not> is_replay d s"
    and "preflight_protect_request c opts payload = Ok ()"
    and "256 < length (plaintext_of code opts payload)"
  shows "\<exists>ct opt. protect_request_reserved C c s code opts payload = Ok (ct, opt) \<and>
    unprotect_request oc C d opt ct =
      (d, Err (too_small (length (plaintext_of code opts payload)) 256))"
proof -
  let ?pt = "plaintext_of code opts payload"
  from assms(7) have b: "length opts \<le> 128" "length payload \<le> 128"
    by (auto simp: preflight_request_eq [OF assms(1)] split: if_splits)
  then have len: "length ?pt \<le> 258" by (simp add: length_plaintext_of)
  note rest = unprotect_request_too_long [OF assms(1-6,8) len]
  from len have "protect_request_reserved C c s code opts payload = Ok (the (ccm_seal C
      (ctx_sender_key c) (request_nonce c s) (enc_structure (sender_id c) (piv_bytes s)) ?pt),
      option_encoding (piv_bytes s) (kid_context c) (Some (sender_id c)))"
    by (simp add: protect_request_eq [OF assms(1,4,5)])
  with rest show ?thesis by blast
qed

text \<open>C38: A successful preflight suffices for the sender: protection of the request or of the response
  with any reserved number then succeeds within the bounds of its outputs. The option length announced
  for the next request is exact, and the options and payload of the response can be parsed back out
  of the plaintext. It promises more than a receiver keeps: a request body whose plaintext has 257 or
  258 bytes passes the preflight and is protected, and the mirrored receiver refuses it, because its
  plaintext buffer holds 256 bytes.\<close>

theorem preflights_sufficient:
  assumes "wf_context c" "ccm_contract C" "seq_wf s"
  shows "(preflight_protect_request c opts payload = Ok () \<longrightarrow>
      (\<exists>ct opt. protect_request_reserved C c s code opts payload = Ok (ct, opt) \<and>
        length ct \<le> 280 \<and> length opt \<le> OSCORE_OPTION_MAX_LEN \<and>
        (s = ctx_sender_seq c \<and> \<not> ctx_sender_seq_exhausted c \<longrightarrow>
          next_request_option_len c = Ok (length opt)) \<and>
        (256 < length (plaintext_of code opts payload) \<longrightarrow>
          (\<forall>d. wf_context d \<and> mirrored c d \<and> \<not> is_replay d s \<longrightarrow> unprotect_request oc C d opt ct =
            (d, Err (too_small (length (plaintext_of code opts payload)) 256)))))) \<and>
    (preflight_protect_response c opts payload kid piv = Ok () \<longrightarrow>
      (\<exists>ct opt. protect_response_with_reserved_piv C c s code opts payload kid piv = Ok (ct, opt) \<and>
        length ct \<le> 280 \<and> length opt \<le> OSCORE_OPTION_MAX_LEN \<and> body_ok opts payload))"
proof (intro conjI impI preflight_response_sufficient [OF assms])
  assume pre: "preflight_protect_request c opts payload = Ok ()"
  then obtain ct opt where p: "protect_request_reserved C c s code opts payload = Ok (ct, opt)"
    "length ct \<le> 280" "length opt \<le> OSCORE_OPTION_MAX_LEN"
    "s = ctx_sender_seq c \<and> \<not> ctx_sender_seq_exhausted c \<longrightarrow> next_request_option_len c = Ok (length opt)"
    using preflight_request_sufficient [OF assms] by metis
  have "unprotect_request oc C d opt ct = (d, Err (too_small (length (plaintext_of code opts payload)) 256))"
    if "256 < length (plaintext_of code opts payload)" "wf_context d" "mirrored c d" "\<not> is_replay d s" for d
    using preflight_exceeds_receiver [OF assms(1) that(2,3) assms(3,2) that(4) pre that(1), of oc] p(1) by simp
  with p show "\<exists>ct opt. protect_request_reserved C c s code opts payload = Ok (ct, opt) \<and>
      length ct \<le> 280 \<and> length opt \<le> OSCORE_OPTION_MAX_LEN \<and>
      (s = ctx_sender_seq c \<and> \<not> ctx_sender_seq_exhausted c \<longrightarrow> next_request_option_len c = Ok (length opt)) \<and>
      (256 < length (plaintext_of code opts payload) \<longrightarrow>
        (\<forall>d. wf_context d \<and> mirrored c d \<and> \<not> is_replay d s \<longrightarrow> unprotect_request oc C d opt ct =
          (d, Err (too_small (length (plaintext_of code opts payload)) 256))))" by blast
qed

theorem preflights_sufficient_witness:
  "(\<exists>ct opt. protect_request_reserved toy_crypto toy_client (OscoreSeqNum 5) 1 (replicate 128 0) (replicate 128 0)
      = Ok (ct, opt) \<and>
     unprotect_request True toy_crypto toy_server opt ct =
       (toy_server, Err (too_small (length (plaintext_of 1 (replicate 128 0) (replicate 128 0))) 256))) \<and>
   (\<exists>ct opt. protect_response_with_reserved_piv toy_crypto toy_server (OscoreSeqNum 0) 0x45
     [0x11, 0x2A] [1, 2, 3] [1] [5] = Ok (ct, opt) \<and> length ct \<le> 280)"
proof (rule conjI)
  have "preflight_protect_request toy_client (replicate 128 0) (replicate 128 0) = Ok ()"
    by (simp add: preflight_request_eq toy_client_facts)
  moreover have "256 < length (plaintext_of 1 (replicate 128 0) (replicate 128 0))"
    by (simp add: length_plaintext_of)
  ultimately show "\<exists>ct opt. protect_request_reserved toy_crypto toy_client (OscoreSeqNum 5) 1 (replicate 128 0)
      (replicate 128 0) = Ok (ct, opt) \<and> unprotect_request True toy_crypto toy_server opt ct =
       (toy_server, Err (too_small (length (plaintext_of 1 (replicate 128 0) (replicate 128 0))) 256))"
    using preflights_sufficient [OF toy_client_facts(1) toy_ccm seq_wf_small(2), where oc = True and code = 1]
      toy_server_facts(1) toy_mirrored toy_server_windows(1) by blast
  have "preflight_protect_response toy_server [0x11, 0x2A] [1, 2, 3] [1] [5] = Ok ()"
    using toy_body by (simp add: preflight_response_Ok toy_server_facts from_piv_5 body_ok_def)
  then show "\<exists>ct opt. protect_response_with_reserved_piv toy_crypto toy_server (OscoreSeqNum 0) 0x45
     [0x11, 0x2A] [1, 2, 3] [1] [5] = Ok (ct, opt) \<and> length ct \<le> 280"
    using preflights_sufficient [OF toy_server_facts(1) toy_ccm seq_wf_small(1)] by blast
qed

subsection \<open>Construction and state\<close>

text \<open>The three derivations of a context use pairwise different HKDF info structures.\<close>

lemma key_separation:
  assumes "context_new C secret salt ctx sid rid = Ok c"
  shows "\<exists>prk. hkdf_expand C prk (info_cbor sid ctx ''Key'' 16) 16 = Some (ctx_sender_key c) \<and>
    hkdf_expand C prk (info_cbor rid ctx ''Key'' 16) 16 = Some (ctx_recipient_key c) \<and>
    hkdf_expand C prk (info_cbor [] ctx ''IV'' 13) 13 = Some (ctx_common_iv c) \<and>
    distinct [info_cbor sid ctx ''Key'' 16, info_cbor rid ctx ''Key'' 16, info_cbor [] ctx ''IV'' 13]"
proof -
  note ok = context_new_Ok [OF assms]
  from ok(1) have b: "length sid \<le> 23" "length rid \<le> 23" "sid \<noteq> rid"
    "case ctx of None \<Rightarrow> True | Some x \<Rightarrow> length x \<le> 23"
    by (auto simp: new_params_ok_def split: option.splits)
  have ty: "info_cbor a ctx ''Key'' 16 \<noteq> info_cbor b ctx ''IV'' 13" for a b
  proof
    assume "info_cbor a ctx ''Key'' 16 = info_cbor b ctx ''IV'' 13"
    from arg_cong [OF this, of last] show False by (simp add: info_cbor_def split: option.splits)
  qed
  have "info_cbor sid ctx ''Key'' 16 \<noteq> info_cbor rid ctx ''Key'' 16"
    using info_cbor_inject [OF b(1,2,4,4), of "''Key''" 16 "''Key''" 16] b(3) by auto
  with ty ok(6-8) show ?thesis
    by (intro exI [of _ "hkdf_extract C (Some (opt_bytes salt)) secret"]) (simp add: hkdf_derive_def)
qed

text \<open>C36: Under HKDF's contract and with a master secret of 16 bytes, construction succeeds exactly on
  valid parameters, and reports \<open>InvalidParam\<close> otherwise. The new context is well formed, inactive,
  starts at sequence number zero, has the given identifiers and the derived context identifier, and all
  four windows are empty: no request, no response nonce, no received response and no received response
  number is refused as seen. The end built from the same material with swapped identifiers mirrors it.
  Sender key, recipient key and common IV come from separated inputs: pairwise different HKDF info
  structures.\<close>

theorem context_construction:
  assumes "hkdf_contract C" "length secret = 16"
  shows "(case context_new C secret salt ctx sid rid of
      Ok c \<Rightarrow> new_params_ok salt ctx sid rid \<and> wf_context c \<and> \<not> ctx_active c \<and>
        sender_seq c = Some (OscoreSeqNum 0) \<and> sender_id c = sid \<and> recipient_id c = rid \<and>
        ctx_context_id c = derive_context_id C secret (opt_bytes salt) ctx sid \<and>
        (\<forall>t. \<not> is_replay c t \<and> \<not> is_response_reuse c t \<and> \<not> is_received_response_reuse c t \<and>
           \<not> is_received_response_piv_reuse c t) \<and>
        (\<exists>d. context_new C secret salt ctx rid sid = Ok d \<and> mirrored c d) \<and>
        (\<exists>prk. hkdf_expand C prk (info_cbor sid ctx ''Key'' 16) 16 = Some (ctx_sender_key c) \<and>
          hkdf_expand C prk (info_cbor rid ctx ''Key'' 16) 16 = Some (ctx_recipient_key c) \<and>
          hkdf_expand C prk (info_cbor [] ctx ''IV'' 13) 13 = Some (ctx_common_iv c) \<and>
          distinct [info_cbor sid ctx ''Key'' 16, info_cbor rid ctx ''Key'' 16, info_cbor [] ctx ''IV'' 13])
    | Err e \<Rightarrow> \<not> new_params_ok salt ctx sid rid \<and> e = InvalidParam
    | Panic \<Rightarrow> False)"
proof (cases "new_params_ok salt ctx sid rid")
  case False
  then show ?thesis by (simp add: context_new_eq)
next
  case True
  then have "new_params_ok salt ctx rid sid" by (auto simp: new_params_ok_def)
  from context_new_total [OF assms(1) this] obtain d where d: "context_new C secret salt ctx rid sid = Ok d" .
  from context_new_total [OF assms(1) True] obtain c where c: "context_new C secret salt ctx sid rid = Ok c" .
  show ?thesis
    using context_new_Ok [OF c] context_new_wf [OF assms c] context_new_mirrored [OF c d] d key_separation [OF c]
      context_new_fresh_windows [OF c]
    by (simp add: c sender_seq_def seq_default_def)
qed

theorem context_construction_witness:
  "case context_new toy_crypto (replicate 16 7) None (Some [3, 4]) [1] [2] of
      Ok c \<Rightarrow> new_params_ok None (Some [3, 4]) [1] [2] \<and> wf_context c \<and> \<not> ctx_active c \<and>
        sender_seq c = Some (OscoreSeqNum 0) \<and> sender_id c = [1] \<and> recipient_id c = [2] \<and>
        ctx_context_id c = derive_context_id toy_crypto (replicate 16 7) (opt_bytes None) (Some [3, 4]) [1] \<and>
        (\<forall>t. \<not> is_replay c t \<and> \<not> is_response_reuse c t \<and> \<not> is_received_response_reuse c t \<and>
           \<not> is_received_response_piv_reuse c t) \<and>
        (\<exists>d. context_new toy_crypto (replicate 16 7) None (Some [3, 4]) [2] [1] = Ok d \<and> mirrored c d) \<and>
        (\<exists>prk. hkdf_expand toy_crypto prk (info_cbor [1] (Some [3, 4]) ''Key'' 16) 16 = Some (ctx_sender_key c) \<and>
          hkdf_expand toy_crypto prk (info_cbor [2] (Some [3, 4]) ''Key'' 16) 16 = Some (ctx_recipient_key c) \<and>
          hkdf_expand toy_crypto prk (info_cbor [] (Some [3, 4]) ''IV'' 13) 13 = Some (ctx_common_iv c) \<and>
          distinct [info_cbor [1] (Some [3, 4]) ''Key'' 16, info_cbor [2] (Some [3, 4]) ''Key'' 16,
            info_cbor [] (Some [3, 4]) ''IV'' 13])
    | Err e \<Rightarrow> \<not> new_params_ok None (Some [3, 4]) [1] [2] \<and> e = InvalidParam
    | Panic \<Rightarrow> False"
  by (rule context_construction [OF toy_hkdf]) simp

text \<open>C8: Registering and restoring, where they return a context, and reserving, protecting a response
  and unprotecting a request, a response or a notification, whether they succeed or fail, keep the
  invariant of the context: lengths within the arrays, 40-bit sequence numbers, exhaustion only at the maximum, different identifiers. (The
  public \<open>zeroize\<close> is not among them: it empties both identifiers.)\<close>

theorem operations_keep_invariant:
  assumes "wf_context c"
  shows "(\<forall>st' c1. register_fresh S c st = (st', Ok c1) \<longrightarrow> wf_context c1) \<and>
    (\<forall>st' c1. restore_existing S c st = (st', Ok c1) \<longrightarrow> wf_context c1) \<and>
    wf_context (fst (snd (reserve_sender S c st))) \<and>
    wf_context (fst (protect_response oc C c code opts payload kid piv incl)) \<and>
    wf_context (fst (unprotect_request oc C c option ct)) \<and>
    wf_context (fst (unprotect_response oc C c option ct piv)) \<and>
    wf_context (fst (unprotect_observe_response oc C c option ct piv))"
proof -
  have acc: "wf_context (fst (accept_response oc c (begin_unprotect_response_mode oc C c option ct piv observe)))"
    for observe
  proof (cases rule: accept_response_cases [of "begin_unprotect_response_mode oc C c option ct piv observe" oc c])
    case (committed p)
    with commit_wf [OF assms begin_unprotect_response_mode_ok(1) [OF committed(1)]] show ?thesis
      by (metis prod.collapse)
  qed (use assms in auto)
  have "wf_context (fst (snd (reserve_sender S c st)))"
    using reserve_sender_wf [OF assms] by (metis prod.collapse)
  moreover have "wf_context (fst (protect_response oc C c code opts payload kid piv incl))"
    using protect_response_wf [OF assms] by (metis prod.collapse)
  moreover have "wf_context (fst (unprotect_request oc C c option ct))"
    using unprotect_request_wf [OF assms] by (metis prod.collapse)
  ultimately show ?thesis
    using acc assms register_fresh_wf restore_existing_wf
    by (auto simp: unprotect_response_def unprotect_observe_response_def
        begin_unprotect_response_def begin_unprotect_observe_response_def)
qed

theorem operations_keep_invariant_witness:
  "wf_context (fst (snd (reserve_sender test_store_ops toy_client toy_store))) \<and>
   wf_context (fst (unprotect_request True toy_crypto toy_client [9, 0, 1] [1, 2]))"
  using operations_keep_invariant [OF toy_client_facts(1), where S = test_store_ops and st = toy_store
      and oc = True and C = toy_crypto and option = "[9, 0, 1]" and ct = "[1, 2]"]
  by blast

text \<open>C37: A context rebuilt after a restart from the state that was stored has the sender state and
  all four windows of the context that stored it, is active, and refuses to reuse request nonces for
  responses.\<close>

theorem restore_resumes:
  assumes "wf_context c" "ctx_context_id d = ctx_context_id c"
  shows "\<exists>r. restore_existing test_store_ops d
      \<lparr>ts_context_id = ctx_context_id c, ts_state = sender_sequence_state c,
       ts_recipient = Some (recipient_replay_state c)\<rparr> =
      (\<lparr>ts_context_id = ctx_context_id c, ts_state = sender_sequence_state c,
       ts_recipient = Some (recipient_replay_state c)\<rparr>, Ok r) \<and>
    sender_sequence_state r = sender_sequence_state c \<and>
    is_replay r = is_replay c \<and> is_response_reuse r = is_response_reuse c \<and>
    is_received_response_reuse r = is_received_response_reuse c \<and>
    is_received_response_piv_reuse r = is_received_response_piv_reuse c \<and>
    ctx_active r \<and> is_restored r \<and>
    (\<forall>oc C code opts payload kid piv.
       snd (protect_response oc C r code opts payload kid piv False) = Err InvalidParam)"
proof -
  let ?d = "set_recipient_replay_state (d\<lparr>ctx_sender_seq := ctx_sender_seq c,
    ctx_sender_seq_exhausted := ctx_sender_seq_exhausted c\<rparr>) (recipient_replay_state c)"
  let ?r = "?d\<lparr>ctx_restored := True, ctx_active := True, ctx_allow_no_piv_response := False\<rparr>"
  have w: "is_replay ?d s = is_replay c s" "is_response_reuse ?d s = is_response_reuse c s"
    "is_received_response_reuse ?d s = is_received_response_reuse c s"
    "is_received_response_piv_reuse ?d s = is_received_response_piv_reuse c s" for s
    by (rule windows_restore [OF assms(1)])+
  have "sender_sequence_state ?r = sender_sequence_state c"
    by (simp add: sender_sequence_state_def set_recipient_replay_state_def)
  moreover have "is_replay ?r = is_replay c" "is_response_reuse ?r = is_response_reuse c"
    "is_received_response_reuse ?r = is_received_response_reuse c"
    "is_received_response_piv_reuse ?r = is_received_response_piv_reuse c"
    using w by (simp_all add: fun_eq_iff is_replay_def is_response_reuse_def
        is_received_response_reuse_def is_received_response_piv_reuse_def)
  moreover have "snd (protect_response oc C ?r code opts payload kid piv False) = Err InvalidParam"
    for oc C code opts payload kid piv
    by (simp add: protect_response_def)
  ultimately show ?thesis
    by (intro exI [of _ ?r])
      (simp add: restore_existing_def test_store_ops_def set_sender_state_snapshot [OF assms(1)]
        assms(2) is_restored_def)
qed

theorem restore_resumes_witness:
  "\<exists>r st. restore_existing test_store_ops toy_client st = (st, Ok r) \<and>
    sender_sequence_state r = sender_sequence_state toy_client \<and> is_replay r = is_replay toy_client \<and>
    ctx_active r"
  using restore_resumes [OF toy_client_facts(1) refl] by blast

text \<open>C39: The sequence number that \<open>protect_response\<close> takes for a response of its own is not
  durable: after a restart from a store that every earlier reservation had kept up to date, the same
  number is reserved again, and the same nonce is used for a second message.\<close>

theorem response_piv_not_durable:
  assumes "wf_context c" "ctx_active c" "\<not> ctx_sender_seq_exhausted c" "ccm_contract C"
    and "response_ok c kid piv" "length (plaintext_of code opts payload) \<le> 272"
    and "seq_val (ctx_sender_seq c) < 2 ^ 40 - 1"
  shows "\<exists>c' ct. protect_response oc C c code opts payload kid piv True =
      (c', Ok (ct, option_encoding (piv_bytes (ctx_sender_seq c)) None None)) \<and>
    ct = the (ccm_seal C (ctx_sender_key c) (request_nonce c (ctx_sender_seq c))
      (enc_structure kid piv) (plaintext_of code opts payload)) \<and>
    (\<forall>st. ts_context_id st = ctx_context_id c \<and> ts_state st = sender_sequence_state c \<and> ts_recipient st = None \<longrightarrow>
      (\<exists>r st' r'. restore_existing test_store_ops c st = (st, Ok r) \<and>
        reserve_sender test_store_ops r st = (st', r', Ok (ctx_sender_seq c)) \<and>
        ctx_sender_key r = ctx_sender_key c \<and>
        request_nonce r (ctx_sender_seq c) = request_nonce c (ctx_sender_seq c)))"
proof -
  have sw: "seq_wf (ctx_sender_seq c)" using assms(1) by (simp add: wf_context_def)
  then obtain n where n: "seq_increment (ctx_sender_seq c) = Some n"
    using assms(7) by (simp add: seq_increment_eq)
  let ?r = "c\<lparr>ctx_restored := True, ctx_active := True, ctx_allow_no_piv_response := False\<rparr>"
  have restore: "restore_existing test_store_ops c st = (st, Ok ?r)"
    if "ts_context_id st = ctx_context_id c" "ts_state st = sender_sequence_state c" "ts_recipient st = None" for st
    using that by (simp add: restore_existing_def test_store_ops_def set_sender_state_snapshot [OF assms(1)])
  have reserve: "reserve_sender test_store_ops ?r st =
      (st\<lparr>ts_state := next_sender_state ?r\<rparr>, after_reservation ?r, Ok (ctx_sender_seq c))"
    if "ts_context_id st = ctx_context_id c" "ts_state st = sender_sequence_state c" for st
    using that assms(3) sw
    by (subst reserve_sender_Ok) (simp_all add: test_store_ops_def sender_sequence_state_def)
  have "request_nonce ?r s = request_nonce c s" for s
    by (simp add: request_nonce_def sender_id_def)
  with restore reserve n assms(6) show ?thesis
    by (auto simp: protect_response_piv [OF assms(1,5,4,2)] not_less)
qed

theorem response_piv_not_durable_witness:
  "\<exists>c' ct. protect_response True toy_crypto toy_client 0x45 [0x11, 0x2A] [1, 2, 3] [2] [5] True =
      (c', Ok (ct, option_encoding (piv_bytes (ctx_sender_seq toy_client)) None None)) \<and>
    (\<exists>r st' r'. restore_existing test_store_ops toy_client toy_store = (toy_store, Ok r) \<and>
      reserve_sender test_store_ops r toy_store = (st', r', Ok (ctx_sender_seq toy_client)) \<and>
      request_nonce r (ctx_sender_seq toy_client) = request_nonce toy_client (ctx_sender_seq toy_client))"
proof -
  have "response_ok toy_client [2] [5]"
    by (simp add: response_ok_def toy_client_facts from_piv_5)
  moreover have "length (plaintext_of 0x45 [0x11, 0x2A] [1, 2, 3]) \<le> 272"
    by (simp add: length_plaintext_of)
  moreover have "seq_val (ctx_sender_seq toy_client) < 2 ^ 40 - 1"
    by (simp add: toy_client_facts seq_default_def)
  moreover have "ts_context_id toy_store = ctx_context_id toy_client \<and>
      ts_state toy_store = sender_sequence_state toy_client \<and> ts_recipient toy_store = None"
    by (simp add: toy_store_def)
  ultimately show ?thesis
    using response_piv_not_durable [OF toy_client_facts(1,2,7) toy_ccm, where kid = "[2]" and
        piv = "[5]" and code = "0x45" and opts = "[0x11, 0x2A]" and payload = "[1, 2, 3]" and oc = True]
    by blast
qed

subsection \<open>Codecs\<close>

text \<open>C31: An OSCORE option value is accepted exactly if it is the encoding of a Partial IV (absent or
  canonical, at most five bytes), an optional KID context of at most eight bytes and an optional KID
  of at most seven, and the parsed fields are those parts; everything else is an invalid parameter,
  and parsing never panics.\<close>

theorem parse_option_exact:
  "case parse_option data of
     Ok opt \<Rightarrow> \<exists>piv ctx kid. option_parts_ok piv ctx kid \<and> data = option_encoding piv ctx kid \<and>
       opt = option_value piv ctx kid
   | Err e \<Rightarrow> e = InvalidParam \<and>
       \<not> (\<exists>piv ctx kid. option_parts_ok piv ctx kid \<and> data = option_encoding piv ctx kid)
   | Panic \<Rightarrow> False"
proof (cases "parse_option data")
  case (Ok opt)
  from parse_option_sound [OF Ok] show ?thesis by (simp add: Ok) blast
next
  case (Err e)
  then show ?thesis by (auto simp: parse_option_encoding dest: parse_option_Err)
qed (simp add: parse_option_no_panic)

text \<open>The identifiers that a receiver reads off a protected request are the sender's identifier
  and the Partial IV of the reserved number.\<close>

theorem request_identifiers_of_protected:
  assumes "wf_context c" "seq_wf s" "ccm_contract C"
    and "protect_request_reserved C c s code opts payload = Ok (ct, option)"
  shows "\<exists>ids. request_identifiers option = Ok ids \<and> ri_kid_bytes ids = sender_id c \<and>
    ri_piv_bytes ids = piv_bytes s \<and> validate_option option = Ok ()"
proof -
  note parts = request_parts_ok [OF assms(1,2)]
  from assms(4) have o: "option = option_encoding (piv_bytes s) (kid_context c) (Some (sender_id c))"
    by (auto simp: protect_request_eq [OF assms(1-3)] split: if_splits)
  note v = option_value_parts [OF parts]
  show ?thesis
    using v
    by (simp add: o request_identifiers_def validate_option_def parse_option_encoding [OF parts]
        ri_kid_bytes_def ri_piv_bytes_def piv_of_def kid_of_def)
qed

theorem request_identifiers_of_protected_witness:
  "\<exists>ct option ids. protect_request_reserved toy_crypto toy_client (OscoreSeqNum 5) 1 [0x11, 0x2A] [1, 2, 3]
      = Ok (ct, option) \<and> request_identifiers option = Ok ids \<and> ri_kid_bytes ids = [1] \<and>
    ri_piv_bytes ids = piv_bytes (OscoreSeqNum 5)"
proof -
  obtain ct option where p: "protect_request_reserved toy_crypto toy_client (OscoreSeqNum 5) 1
      [0x11, 0x2A] [1, 2, 3] = Ok (ct, option)"
    using toy_len by (auto simp: protect_request_eq [OF toy_client_facts(1) seq_wf_small(2) toy_ccm]
      length_plaintext_of)
  from request_identifiers_of_protected [OF toy_client_facts(1) seq_wf_small(2) toy_ccm p] p
  show ?thesis by (auto simp: toy_client_facts)
qed

text \<open>The extended option delta of the marker search is added in 16 bits: a body with delta
  0xFFFF panics under overflow checks, is accepted as options without a payload when they are off,
  and is rejected by the full option parser.\<close>

lemma marker_delta_overflow:
  "find_payload_marker True [0xE0, 0xFF, 0xFF] = Panic \<and>
   find_payload_marker False [0xE0, 0xFF, 0xFF] = Ok None \<and>
   parse_inner_body [0xE0, 0xFF, 0xFF] = Err InvalidParam"
proof (intro conjI)
  have n: "find_payload_marker_loop False [0xE0, 0xFF, 0xFF] 3 n = Ok None" for n
    by (simp add: find_loop_simps)
  show "find_payload_marker True [0xE0, 0xFF, 0xFF] = Panic"
    by (simp add: find_payload_marker_def find_loop_simps marker_option_def marker_delta_def
        index_def add_u16_def Let_def)
  show "find_payload_marker False [0xE0, 0xFF, 0xFF] = Ok None"
    by (simp add: find_payload_marker_def find_loop_simps marker_option_def marker_delta_def
        marker_length_def index_def add_u16_def checked_add_u16_def checked_add_usize_def
        usize_max_def Let_def n)
  show "parse_inner_body [0xE0, 0xFF, 0xFF] = Err InvalidParam"
    by (simp add: parse_inner_body_def parse_loop_step isize_max_def option_step_def nibble_value_def)
qed

text \<open>C32: With overflow checks, splitting a decrypted body at the payload marker is equivalent to the
  full option parser: both accept the same bodies with the same result, and an accepted body is the
  options alone or the options, the marker and a payload that is not empty. Without the checks they
  differ: the extended delta 0xFFFF, which makes the search panic under checks, is then accepted as
  options without a payload, and the full parser rejects it.\<close>

theorem body_split_equivalent:
  assumes "length body \<le> isize_max"
  shows "(split_rest True body = Ok (opts, payload) \<longleftrightarrow> parse_inner_body body = Ok (opts, payload)) \<and>
    (parse_inner_body body = Ok (opts, payload) \<longrightarrow>
       split_rest False body = Ok (opts, payload) \<and>
       body = opts @ (if payload = [] then [] else 0xFF # payload)) \<and>
    find_payload_marker True [0xE0, 0xFF, 0xFF] = Panic \<and>
    find_payload_marker False [0xE0, 0xFF, 0xFF] = Ok None \<and>
    parse_inner_body [0xE0, 0xFF, 0xFF] = Err InvalidParam"
proof (intro conjI impI iffI marker_delta_overflow [THEN conjunct1] marker_delta_overflow [THEN conjunct2, THEN conjunct1]
    marker_delta_overflow [THEN conjunct2, THEN conjunct2])
  show "split_rest True body = Ok (opts, payload) \<Longrightarrow> parse_inner_body body = Ok (opts, payload)"
    by (rule split_rest_sound [OF assms])
  assume p: "parse_inner_body body = Ok (opts, payload)"
  show "split_rest True body = Ok (opts, payload)" "split_rest False body = Ok (opts, payload)"
    by (rule split_rest_eq [OF assms p])+
  show "body = opts @ (if payload = [] then [] else 0xFF # payload)"
    using parse_inner_body_split [OF assms p] by (cases "payload = []") simp_all
qed

theorem body_split_equivalent_witness:
  "split_rest True [0x11, 0x2A] = Ok ([0x11, 0x2A], []) \<and> split_rest False [0x11, 0x2A] = Ok ([0x11, 0x2A], [])"
  using body_split_equivalent [of "[0x11, 0x2A]" "[0x11, 0x2A]" "[]"] toy_body(2)
  by (simp add: isize_max_def body_ok_def)

text \<open>A sequence number is encoded in the fewest bytes, one to five, and decodes to itself; no
  other byte string decodes to it.\<close>

theorem piv_round_trip:
  assumes "seq_wf s"
  shows "\<exists>buf n. encode_piv s (replicate PIV_MAX_LEN 0) = Ok (buf, n) \<and> 1 \<le> n \<and> n \<le> PIV_MAX_LEN \<and>
    (1 < n \<longrightarrow> buf ! 0 \<noteq> 0) \<and> (\<forall>p. from_piv p = Some s \<longleftrightarrow> p = take n buf)"
proof -
  let ?p = "piv_bytes s"
  have "canonical_be ?p" using from_piv_piv_bytes [OF assms] by (auto simp: from_piv_eq split: if_splits)
  then have "1 < length ?p \<longrightarrow> written 5 ?p ! 0 \<noteq> 0"
    by (auto simp: canonical_be_def written_def nth_append)
  moreover have "from_piv q = Some s \<longleftrightarrow> q = ?p" for q
    using from_piv_piv_bytes [OF assms] from_piv_Some(2) by blast
  ultimately show ?thesis
    using encode_slice(1) [OF assms] length_piv_bytes [OF assms]
    by (intro exI [of _ "written 5 ?p"] exI [of _ "length ?p"]) (simp add: Suc_le_eq)
qed

theorem piv_round_trip_witness:
  "\<exists>buf n. encode_piv (OscoreSeqNum 5) (replicate PIV_MAX_LEN 0) = Ok (buf, n) \<and> 1 \<le> n \<and>
    n \<le> PIV_MAX_LEN \<and> (1 < n \<longrightarrow> buf ! 0 \<noteq> 0) \<and>
    (\<forall>p. from_piv p = Some (OscoreSeqNum 5) \<longleftrightarrow> p = take n buf)"
  by (rule piv_round_trip [OF seq_wf_small(2)])

end
