(* ===== verification/ModCodec.thy ===== *)
theory ModCodec
  imports OptionCodec InnerBody OscoreCrypto
begin

text \<open>
  The crate a second time: \<^verbatim>\<open>src/crypto.rs\<close> and \<^verbatim>\<open>src/option.rs\<close> hold, beside
  \<^verbatim>\<open>src/lib.rs\<close>, the codecs and the key derivation of the module tree \<^verbatim>\<open>context.rs\<close>,
  \<^verbatim>\<open>protect.rs\<close>, \<^verbatim>\<open>unprotect.rs\<close>, \<^verbatim>\<open>group.rs\<close>. They are translated here from
  their own files, under the names of the code with the suffix \<open>_mod\<close>, over the types of
  \<^verbatim>\<open>lib.rs\<close>; the lemmas at the end show that the two copies compute the same functions, so that
  the closed forms of the other theories hold for both.
\<close>

subsection \<open>The CBOR structures and the nonce (crypto.rs)\<close>

definition put_string_head_mod :: "u8 \<Rightarrow> u8 \<Rightarrow> nat \<Rightarrow> bytes \<Rightarrow> nat \<Rightarrow> ('e, bytes \<times> nat) res" where
  "put_string_head_mod short long len buf off =
     (if len \<le> 23 then put buf off (short OR as_u8 len)
      else
        and_then (store_at buf off long) (\<lambda>buf.
        and_then (store_at buf (off + 1) (as_u8 len)) (\<lambda>buf. Ok (buf, off + 2))))"

definition build_info_cbor_mod ::
    "bytes \<Rightarrow> bytes option \<Rightarrow> string \<Rightarrow> nat \<Rightarrow> bytes \<Rightarrow> (oscore_error, bytes \<times> nat) res" where
  "build_info_cbor_mod ident id_context type_str out_len buf =
     and_then (put buf 0 0x85) (\<lambda>(buf, off).
     and_then (put_string_head_mod 0x40 0x58 (length ident) buf off) (\<lambda>(buf, off).
     and_then (put_slice buf off ident) (\<lambda>(buf, off).
     and_then
       (case id_context of
          Some ic \<Rightarrow>
            and_then (put_string_head_mod 0x40 0x58 (length ic) buf off) (\<lambda>(buf, off).
              put_slice buf off ic)
        | None \<Rightarrow> put buf off 0xF6) (\<lambda>(buf, off).
     and_then (put buf off ALG_AEAD) (\<lambda>(buf, off).
     let type_bytes = ascii type_str in
     and_then (put_string_head_mod 0x60 0x78 (length type_bytes) buf off) (\<lambda>(buf, off).
     and_then (put_slice buf off type_bytes) (\<lambda>(buf, off).
       if out_len \<le> 23 then put buf off (as_u8 out_len)
       else if out_len \<le> 255 then
         and_then (store_at buf off 0x18) (\<lambda>buf.
         and_then (store_at buf (off + 1) (as_u8 out_len)) (\<lambda>buf. Ok (buf, off + 2)))
       else Err InvalidParam)))))))"

definition build_aad_inner_mod ::
    "bytes \<Rightarrow> bytes \<Rightarrow> (oscore_error, bytes \<times> nat) res" where
  "build_aad_inner_mod request_kid request_piv =
     and_then (put (replicate 64 0) 0 0x85) (\<lambda>(inner, ioff).
     and_then (put inner ioff 0x01) (\<lambda>(inner, ioff).
     and_then (put inner ioff 0x81) (\<lambda>(inner, ioff).
     and_then (put inner ioff ALG_AEAD) (\<lambda>(inner, ioff).
     if 23 < length request_kid then Err InvalidParam
     else
       and_then (put inner ioff (0x40 OR as_u8 (length request_kid))) (\<lambda>(inner, ioff).
       and_then (if request_kid \<noteq> [] then put_slice inner ioff request_kid else Ok (inner, ioff))
         (\<lambda>(inner, ioff).
       if 23 < length request_piv then Err InvalidParam
       else
         and_then (put inner ioff (0x40 OR as_u8 (length request_piv))) (\<lambda>(inner, ioff).
         and_then (if request_piv \<noteq> [] then put_slice inner ioff request_piv else Ok (inner, ioff))
           (\<lambda>(inner, ioff).
             put inner ioff 0x40))))))))"

definition build_aad_cbor_mod ::
    "bytes \<Rightarrow> bytes \<Rightarrow> bytes \<Rightarrow> (oscore_error, bytes \<times> nat) res" where
  "build_aad_cbor_mod request_kid request_piv buf =
     and_then (build_aad_inner_mod request_kid request_piv) (\<lambda>(inner, ioff).
     let off = 0 in
     if length buf \<le> off then Err InvalidParam
     else
       and_then (put buf off 0x83) (\<lambda>(buf, off).
       if length buf < off + 9 then Err InvalidParam
       else
         and_then (put buf off 0x68) (\<lambda>(buf, off).
         and_then (put_slice buf off (ascii ''Encrypt0'')) (\<lambda>(buf, off).
         if length buf \<le> off then Err InvalidParam
         else
           and_then (put buf off 0x40) (\<lambda>(buf, off).
           and_then
             (if ioff \<le> 23 then
                if length buf \<le> off then Err InvalidParam
                else put buf off (0x40 OR as_u8 ioff)
              else
                if length buf \<le> off + 1 then Err InvalidParam
                else
                  and_then (store_at buf off 0x58) (\<lambda>buf.
                  and_then (store_at buf (off + 1) (as_u8 ioff)) (\<lambda>buf. Ok (buf, off + 2))))
             (\<lambda>(buf, off).
           if length buf < off + ioff then Err InvalidParam
           else
             and_then (slice inner 0 ioff) (\<lambda>src. put_slice buf off src)))))))"

definition compute_nonce_mod :: "bytes \<Rightarrow> bytes \<Rightarrow> bytes \<Rightarrow> bytes" where
  "compute_nonce_mod sender_id piv common_iv =
     (let nonce = replicate NONCE_LEN 0;
          nonce = nonce[0 := as_u8 (length sender_id)];
          nonce = (if length sender_id \<le> NONCE_ID_LEN
                   then overwrite nonce (NONCE_ID_END - length sender_id) sender_id else nonce);
          nonce = (if piv \<noteq> [] \<and> length piv \<le> PIV_MAX_LEN
                   then overwrite nonce (NONCE_LEN - length piv) piv else nonce)
      in map2 (\<lambda>n b. n XOR b) nonce common_iv)"

definition derive_context_id_mod ::
    "crypto \<Rightarrow> bytes \<Rightarrow> bytes \<Rightarrow> bytes option \<Rightarrow> bytes \<Rightarrow> context_id" where
  "derive_context_id_mod C master_secret master_salt id_context sender_id =
     ContextId (sha256 C
       (ascii ''LICHEN OSCORE sender context'' @ [0] @
        concat (map len_prefixed [master_secret, master_salt]) @
        [if id_context = None then 0 else 1] @
        (case id_context of None \<Rightarrow> [] | Some ic \<Rightarrow> len_prefixed ic) @
        len_prefixed sender_id))"

definition derive_key_mod ::
    "crypto \<Rightarrow> bytes \<Rightarrow> bytes \<Rightarrow> bytes \<Rightarrow> bytes option \<Rightarrow> (oscore_error, bytes) res" where
  "derive_key_mod C master_secret master_salt ident id_context =
     and_then (build_info_cbor_mod ident id_context ''Key'' KEY_LEN (replicate 64 0)) (\<lambda>(info, info_len).
     let hk = hkdf_extract C (Some master_salt) master_secret in
     and_then (slice info 0 info_len) (\<lambda>info.
       ok_or KeyDerivation (hkdf_expand C hk info KEY_LEN)))"

definition derive_iv_mod ::
    "crypto \<Rightarrow> bytes \<Rightarrow> bytes \<Rightarrow> bytes option \<Rightarrow> (oscore_error, bytes) res" where
  "derive_iv_mod C master_secret master_salt id_context =
     and_then (build_info_cbor_mod [] id_context ''IV'' NONCE_LEN (replicate 64 0)) (\<lambda>(info, info_len).
     let hk = hkdf_extract C (Some master_salt) master_secret in
     and_then (slice info 0 info_len) (\<lambda>info.
       ok_or KeyDerivation (hkdf_expand C hk info NONCE_LEN)))"

subsection \<open>The OSCORE option (option.rs)\<close>

definition parse_option_piv_mod ::
    "bytes \<Rightarrow> nat \<Rightarrow> nat \<Rightarrow> oscore_option \<Rightarrow> (oscore_error, oscore_option \<times> nat) res" where
  "parse_option_piv_mod data n pos opt =
     (if 0 < n then
        if PIV_MAX_LEN < n \<or> length data < pos + n then Err InvalidParam
        else
          and_then (slice data pos (pos + n)) (\<lambda>src.
          and_then (copy_at (opt_piv opt) 0 src) (\<lambda>piv.
          and_then (slice piv 0 n) (\<lambda>p.
            if from_piv p = None then Err InvalidParam
            else Ok (opt\<lparr>opt_piv := piv, opt_piv_len := as_u8 n\<rparr>, pos + n))))
      else Ok (opt, pos))"

definition parse_option_kid_context_mod ::
    "bytes \<Rightarrow> bool \<Rightarrow> nat \<Rightarrow> oscore_option \<Rightarrow> (oscore_error, oscore_option \<times> nat) res" where
  "parse_option_kid_context_mod data h_flag pos opt =
     (if h_flag then
        if length data \<le> pos then Err InvalidParam
        else
          and_then (index data pos) (\<lambda>b.
          let s = as_usize b; pos = pos + 1 in
          if length (opt_kid_context opt) < s \<or> length data < pos + s then Err InvalidParam
          else
            and_then (slice data pos (pos + s)) (\<lambda>src.
            and_then (copy_at (opt_kid_context opt) 0 src) (\<lambda>kc.
              Ok (opt\<lparr>opt_kid_context := kc, opt_kid_context_len := as_u8 s,
                      opt_kid_context_present := True\<rparr>, pos + s))))
      else Ok (opt, pos))"

definition parse_option_kid_mod ::
    "bytes \<Rightarrow> bool \<Rightarrow> nat \<Rightarrow> oscore_option \<Rightarrow> (oscore_error, oscore_option) res" where
  "parse_option_kid_mod data k_flag pos opt =
     (if k_flag then
        let opt = opt\<lparr>opt_kid_present := True\<rparr>; remaining = length data - pos in
        if NONCE_ID_LEN < remaining then Err InvalidParam
        else
          and_then (slice_from data pos) (\<lambda>src.
          and_then (copy_at (opt_kid opt) 0 src) (\<lambda>kid.
            Ok (opt\<lparr>opt_kid := kid, opt_kid_len := as_u8 remaining\<rparr>)))
      else if pos \<noteq> length data then Err InvalidParam
      else Ok opt)"

definition parse_option_mod :: "bytes \<Rightarrow> (oscore_error, oscore_option) res" where
  "parse_option_mod data =
     (let opt = empty_option in
      if data = [] then Ok opt
      else if data = [0] then Err InvalidParam
      else
        and_then (index data 0) (\<lambda>flags.
        let pos = 1 in
        if flags AND 0xE0 \<noteq> 0 then Err InvalidParam
        else
          let h_flag = flags AND 0x10 \<noteq> 0; k_flag = flags AND 0x08 \<noteq> 0;
              n = as_usize (flags AND 0x07) in
          and_then (parse_option_piv_mod data n pos opt) (\<lambda>(opt, pos).
          and_then (parse_option_kid_context_mod data h_flag pos opt) (\<lambda>(opt, pos).
            parse_option_kid_mod data k_flag pos opt))))"

definition validate_option_mod :: "bytes \<Rightarrow> (oscore_error, unit) res" where
  "validate_option_mod data = and_then (parse_option_mod data) (\<lambda>_. Ok ())"

definition request_identifiers_mod :: "bytes \<Rightarrow> (oscore_error, request_identifiers_t) res" where
  "request_identifiers_mod data =
     and_then (parse_option_mod data) (\<lambda>option.
       if \<not> opt_kid_present option \<or> opt_piv_len option = 0 then Err InvalidParam
       else Ok \<lparr>ri_kid = opt_kid option, ri_kid_len = opt_kid_len option,
                ri_piv = opt_piv option, ri_piv_len = opt_piv_len option\<rparr>)"

subsection \<open>The inner body (option.rs)\<close>

definition decode_nibble_mod :: "bytes \<Rightarrow> nat \<Rightarrow> u8 \<Rightarrow> (oscore_error, nat \<times> nat) res" where
  "decode_nibble_mod data pos nibble =
     (if nibble \<le> 12 then Ok (as_usize nibble, pos)
      else if nibble = 13 then
        and_then (ok_or InvalidParam (get_at data pos)) (\<lambda>b.
        let value = as_usize b in
        and_then (ok_or InvalidParam (checked_add_usize pos 1)) (\<lambda>pos.
        and_then (ok_or InvalidParam (checked_add_usize 13 value)) (\<lambda>r. Ok (r, pos))))
      else if nibble = 14 then
        and_then (ok_or InvalidParam (checked_add_usize pos 2)) (\<lambda>stop.
        and_then (ok_or InvalidParam (get_range data pos stop)) (\<lambda>bs.
        let pos = stop in
        and_then (index bs 0) (\<lambda>b0.
        and_then (index bs 1) (\<lambda>b1.
        let value = unat (u16_from_be b0 b1) in
        and_then (ok_or InvalidParam (checked_add_usize 269 value)) (\<lambda>r. Ok (r, pos))))))
      else if nibble = 15 then Err InvalidParam
      else Panic)"

definition inner_option_mod ::
    "bytes \<Rightarrow> nat \<Rightarrow> u16 \<Rightarrow> u8 \<Rightarrow> (oscore_error, nat \<times> u16) res" where
  "inner_option_mod data pos option_number header =
     and_then (decode_nibble_mod data pos (drop_bit 4 header)) (\<lambda>(delta, pos).
     and_then (decode_nibble_mod data pos (header AND 0x0F)) (\<lambda>(len, pos).
     and_then (ok_or InvalidParam (u16_try_from delta)) (\<lambda>delta.
     and_then (ok_or InvalidParam (checked_add_u16 option_number delta)) (\<lambda>option_number.
     and_then (ok_or InvalidParam (checked_add_usize pos len)) (\<lambda>stop.
       if length data < stop then Err InvalidParam else Ok (stop, option_number))))))"

lemma decode_nibble_mod_eq [simp]: "decode_nibble_mod = decode_nibble"
  by (intro ext) (simp only: decode_nibble_mod_def decode_nibble_def)

lemma inner_option_mod_eq [simp]: "inner_option_mod = inner_option"
  by (intro ext) (simp only: inner_option_mod_def inner_option_def decode_nibble_mod_eq)

function parse_inner_body_loop_mod :: "bytes \<Rightarrow> nat \<Rightarrow> u16 \<Rightarrow> (oscore_error, bytes \<times> bytes) res" where
  "parse_inner_body_loop_mod data pos option_number =
     (if pos < length data then
        let option_start = pos in
        and_then (index data pos) (\<lambda>header.
        and_then (ok_or InvalidParam (checked_add_usize pos 1)) (\<lambda>pos1.
        if header = 0xFF then
          if pos1 = length data then Err InvalidParam
          else and_then (slice data 0 option_start) (\<lambda>opts.
               and_then (slice_from data pos1) (\<lambda>payload. Ok (opts, payload)))
        else
          and_then (inner_option_mod data pos1 option_number header) (\<lambda>(pos2, option_number).
            parse_inner_body_loop_mod data pos2 option_number)))
      else Ok (data, []))"
  by pat_completeness auto
termination
  by (relation "measure (\<lambda>(data, pos, _). length data - pos)")
    (auto simp: res_simps slice_simps dest!: inner_option_pos)

declare parse_inner_body_loop_mod.simps [simp del]

definition parse_inner_body_mod :: "bytes \<Rightarrow> (oscore_error, bytes \<times> bytes) res" where
  "parse_inner_body_mod data = parse_inner_body_loop_mod data 0 0"

definition marker_delta_mod :: "bool \<Rightarrow> bytes \<Rightarrow> nat \<Rightarrow> u8 \<Rightarrow> (oscore_error, u16 \<times> nat) res" where
  "marker_delta_mod oc data pos delta_nibble =
     (if delta_nibble \<le> 12 then Ok (ucast delta_nibble, pos)
      else if delta_nibble = 13 then
        if length data \<le> pos then Err InvalidParam
        else
          and_then (index data pos) (\<lambda>b.
          and_then (add_u16 oc (ucast b) 13) (\<lambda>d. Ok (d, pos + 1)))
      else if delta_nibble = 14 then
        if length data \<le> pos + 1 then Err InvalidParam
        else
          and_then (index data pos) (\<lambda>b0.
          and_then (index data (pos + 1)) (\<lambda>b1.
          and_then (add_u16 oc (push_bit 8 (ucast b0) OR ucast b1) 269) (\<lambda>d. Ok (d, pos + 2))))
      else Panic)"

definition marker_length_mod :: "bytes \<Rightarrow> nat \<Rightarrow> u8 \<Rightarrow> (oscore_error, nat \<times> nat) res" where
  "marker_length_mod data pos len_nibble =
     (if len_nibble \<le> 12 then Ok (as_usize len_nibble, pos)
      else if len_nibble = 13 then
        if length data \<le> pos then Err InvalidParam
        else and_then (index data pos) (\<lambda>b. Ok (as_usize b + 13, pos + 1))
      else if len_nibble = 14 then
        if length data \<le> pos + 1 then Err InvalidParam
        else
          and_then (index data pos) (\<lambda>b0.
          and_then (index data (pos + 1)) (\<lambda>b1.
            Ok ((push_bit 8 (as_usize b0) OR as_usize b1) + 269, pos + 2)))
      else Panic)"

definition marker_option_mod ::
    "bool \<Rightarrow> bytes \<Rightarrow> nat \<Rightarrow> u16 \<Rightarrow> u8 \<Rightarrow> (oscore_error, nat \<times> u16) res" where
  "marker_option_mod oc data pos cumulative_number first =
     (let delta_nibble = drop_bit 4 first AND 0x0F; len_nibble = first AND 0x0F in
      if delta_nibble = 15 then Err InvalidParam
      else if len_nibble = 15 then Err InvalidParam
      else
        let pos = pos + 1 in
        and_then (marker_delta_mod oc data pos delta_nibble) (\<lambda>(delta, pos).
        and_then (ok_or InvalidParam (checked_add_u16 cumulative_number delta))
          (\<lambda>cumulative_number.
        and_then (marker_length_mod data pos len_nibble) (\<lambda>(opt_len, pos).
        and_then (ok_or InvalidParam (checked_add_usize pos opt_len)) (\<lambda>stop.
          if length data < stop then Err InvalidParam
          else Ok (pos + opt_len, cumulative_number))))))"

lemma marker_option_mod_eq [simp]: "marker_option_mod = marker_option"
  by (intro ext) (simp only: marker_option_mod_def marker_option_def marker_delta_mod_def marker_delta_def
      marker_length_mod_def marker_length_def)

function find_payload_marker_loop_mod ::
    "bool \<Rightarrow> bytes \<Rightarrow> nat \<Rightarrow> u16 \<Rightarrow> (oscore_error, nat option) res" where
  "find_payload_marker_loop_mod oc data pos cumulative_number =
     (if pos < length data then
        and_then (index data pos) (\<lambda>first.
        if first = 0xFF then Ok (Some pos)
        else
          and_then (marker_option_mod oc data pos cumulative_number first)
            (\<lambda>(pos2, cumulative_number). find_payload_marker_loop_mod oc data pos2 cumulative_number))
      else Ok None)"
  by pat_completeness auto
termination
  by (relation "measure (\<lambda>(oc, data, pos, _). length data - pos)")
    (auto simp: slice_simps dest!: marker_option_pos)

declare find_payload_marker_loop_mod.simps [simp del]

definition find_payload_marker_mod :: "bool \<Rightarrow> bytes \<Rightarrow> (oscore_error, nat option) res" where
  "find_payload_marker_mod oc data = find_payload_marker_loop_mod oc data 0 0"

subsection \<open>The two copies agree\<close>

lemma crypto_mod_eq [simp]:
  "build_info_cbor_mod = build_info_cbor" "build_aad_cbor_mod = build_aad_cbor" "compute_nonce_mod = compute_nonce"
  "derive_context_id_mod = derive_context_id" "derive_key_mod = derive_key" "derive_iv_mod = derive_iv"
proof -
  have head: "put_string_head_mod = put_string_head"
    by (intro ext) (simp only: put_string_head_mod_def put_string_head_def)
  show info: "build_info_cbor_mod = build_info_cbor"
    by (intro ext) (simp only: build_info_cbor_mod_def build_info_cbor_def head)
  show "build_aad_cbor_mod = build_aad_cbor"
    by (intro ext) (simp only: build_aad_cbor_mod_def build_aad_cbor_def build_aad_inner_mod_def build_aad_inner_def)
  show "compute_nonce_mod = compute_nonce" "derive_context_id_mod = derive_context_id"
    by (intro ext; simp only: compute_nonce_mod_def compute_nonce_def derive_context_id_mod_def
        derive_context_id_def)+
  show "derive_key_mod = derive_key" "derive_iv_mod = derive_iv"
    by (intro ext; simp only: derive_key_mod_def derive_key_def derive_iv_mod_def derive_iv_def info)+
qed

lemma parse_option_mod_eq [simp]:
  "parse_option_mod = parse_option" "validate_option_mod = validate_option"
  "request_identifiers_mod = request_identifiers"
proof -
  show parse: "parse_option_mod = parse_option"
    by (intro ext) (simp only: parse_option_mod_def parse_option_def parse_option_piv_mod_def parse_option_piv_def
        parse_option_kid_context_mod_def parse_option_kid_context_def parse_option_kid_mod_def parse_option_kid_def)
  show "validate_option_mod = validate_option" "request_identifiers_mod = request_identifiers"
    by (intro ext; simp only: validate_option_mod_def validate_option_def request_identifiers_mod_def
        request_identifiers_def parse)+
qed

lemma parse_inner_body_mod_eq [simp]: "parse_inner_body_mod = parse_inner_body"
proof -
  have "parse_inner_body_loop_mod data pos n = parse_inner_body_loop data pos n" for data pos n
  proof (induction data pos n rule: parse_inner_body_loop.induct)
    case (1 data pos n)
    then show ?case
      by (subst parse_inner_body_loop_mod.simps, subst parse_inner_body_loop.simps)
        (auto simp: Let_def split: prod.split intro!: and_then_cong)
  qed
  then show ?thesis by (intro ext) (simp add: parse_inner_body_mod_def parse_inner_body_def)
qed

lemma find_payload_marker_mod_eq [simp]: "find_payload_marker_mod = find_payload_marker"
proof -
  have "find_payload_marker_loop_mod oc data pos n = find_payload_marker_loop oc data pos n" for oc data pos n
  proof (induction oc data pos n rule: find_payload_marker_loop.induct)
    case (1 oc data pos n)
    then show ?case
      by (subst find_payload_marker_loop_mod.simps, subst find_payload_marker_loop.simps)
        (auto simp: Let_def split: prod.split intro!: and_then_cong)
  qed
  then show ?thesis by (intro ext) (simp add: find_payload_marker_mod_def find_payload_marker_def)
qed

end
