(* ===== verification/ModContext.thy ===== *)
theory ModContext
  imports ModCodec OscoreContext
begin

text \<open>
  The security context of the module tree: \<^verbatim>\<open>src/context.rs\<close> and the store trait of
  \<^verbatim>\<open>src/types.rs\<close>, with the suffix \<open>_mod\<close> on the names of the code. It has one window less than
  the context of \<^verbatim>\<open>src/lib.rs\<close> and its store keeps no recipient state. The map
  \<open>lib_context\<close> sends such a context to one of \<^verbatim>\<open>lib.rs\<close> whose fourth window has never been
  used; every operation is shown to commute with it, a restart being that of a store that has lost
  the recipient state.
\<close>

subsection \<open>The struct and its construction\<close>

record mod_context =
  mc_master_secret :: bytes
  mc_master_salt :: bytes
  mc_master_salt_len :: u8
  mc_common_iv :: bytes
  mc_id_context :: bytes
  mc_id_context_len :: u8
  mc_id_context_present :: bool
  mc_sender_id :: bytes
  mc_sender_id_len :: u8
  mc_sender_key :: bytes
  mc_sender_seq :: oscore_seq_num
  mc_sender_seq_exhausted :: bool
  mc_restored :: bool
  mc_active :: bool
  mc_recipient_id :: bytes
  mc_recipient_id_len :: u8
  mc_recipient_key :: bytes
  mc_recipient_seq :: oscore_seq_num
  mc_replay_window :: u32
  mc_response_seq :: oscore_seq_num
  mc_response_window :: u32
  mc_response_window_initialized :: bool
  mc_received_response_seq :: oscore_seq_num
  mc_received_response_window :: u32
  mc_received_response_window_initialized :: bool
  mc_allow_no_piv_response :: bool
  mc_context_id :: context_id

definition context_new_mod ::
    "crypto \<Rightarrow> bytes \<Rightarrow> bytes option \<Rightarrow> bytes option \<Rightarrow> bytes \<Rightarrow> bytes \<Rightarrow> (oscore_error, mod_context) res" where
  "context_new_mod C master_secret salt_opt id_ctx sid rid =
     (if NONCE_ID_LEN < length sid \<or> NONCE_ID_LEN < length rid then Err InvalidParam
      else if sid = [] \<and> rid = [] then Err InvalidParam
      else if sid = rid then Err InvalidParam
      else
        let salt = (case salt_opt of None \<Rightarrow> [] | Some s \<Rightarrow> s) in
        if SALT_MAX_LEN < length salt then Err InvalidParam
        else if (case id_ctx of Some ic \<Rightarrow> ID_CONTEXT_CAPACITY < length ic | None \<Rightarrow> False)
          then Err InvalidParam
        else
          let id_context_value = (case id_ctx of None \<Rightarrow> [] | Some ic \<Rightarrow> ic);
              context_id = derive_context_id_mod C master_secret salt id_ctx sid in
          and_then (copy_at (replicate SALT_MAX_LEN 0) 0 salt) (\<lambda>salt_buf.
          and_then (copy_at (replicate ID_CONTEXT_CAPACITY 0) 0 id_context_value) (\<lambda>id_context_buf.
          and_then (copy_at (replicate ID_MAX_LEN 0) 0 sid) (\<lambda>sid_buf.
          and_then (copy_at (replicate ID_MAX_LEN 0) 0 rid) (\<lambda>rid_buf.
          and_then (derive_key_mod C master_secret salt sid id_ctx) (\<lambda>sender_key.
          and_then (derive_key_mod C master_secret salt rid id_ctx) (\<lambda>recipient_key.
          and_then (derive_iv_mod C master_secret salt id_ctx) (\<lambda>common_iv.
            Ok \<lparr>mc_master_secret = master_secret,
                mc_master_salt = salt_buf,
                mc_master_salt_len = as_u8 (length salt),
                mc_common_iv = common_iv,
                mc_id_context = id_context_buf,
                mc_id_context_len = as_u8 (length id_context_value),
                mc_id_context_present = (id_ctx \<noteq> None),
                mc_sender_id = sid_buf,
                mc_sender_id_len = as_u8 (length sid),
                mc_sender_key = sender_key,
                mc_sender_seq = seq_default,
                mc_sender_seq_exhausted = False,
                mc_restored = False,
                mc_active = False,
                mc_recipient_id = rid_buf,
                mc_recipient_id_len = as_u8 (length rid),
                mc_recipient_key = recipient_key,
                mc_recipient_seq = seq_default,
                mc_replay_window = 0,
                mc_response_seq = seq_default,
                mc_response_window = 0,
                mc_response_window_initialized = False,
                mc_received_response_seq = seq_default,
                mc_received_response_window = 0,
                mc_received_response_window_initialized = False,
                mc_allow_no_piv_response = False,
                mc_context_id = context_id\<rparr>))))))))"

definition context_new_fresh_mod ::
    "crypto \<Rightarrow> bytes \<Rightarrow> bytes option \<Rightarrow> bytes option \<Rightarrow> bytes \<Rightarrow> bytes \<Rightarrow> (oscore_error, mod_context) res" where
  "context_new_fresh_mod C master_secret salt_opt id_ctx sid rid =
     and_then (context_new_mod C master_secret salt_opt id_ctx sid rid) (\<lambda>ctx.
       Ok (ctx\<lparr>mc_restored := False, mc_active := False, mc_allow_no_piv_response := True\<rparr>))"

definition set_sender_state_mod ::
    "mod_context \<Rightarrow> sender_sequence_state \<Rightarrow> (oscore_error, mod_context) res" where
  "set_sender_state_mod ctx state =
     and_then (ok_or InvalidParam (seq_new (next_sequence state))) (\<lambda>sequence.
       if exhausted state \<and> next_sequence state \<noteq> SEQ_MAX then Err InvalidParam
       else Ok (ctx\<lparr>mc_sender_seq := sequence, mc_sender_seq_exhausted := exhausted state\<rparr>))"

text \<open>The constructors for tests, which bypass the store.\<close>

definition new_ephemeral_mod ::
    "crypto \<Rightarrow> bytes \<Rightarrow> bytes option \<Rightarrow> bytes \<Rightarrow> bytes \<Rightarrow> (oscore_error, mod_context) res" where
  "new_ephemeral_mod C master_secret salt_opt sid rid =
     and_then (context_new_mod C master_secret salt_opt None sid rid) (\<lambda>ctx.
       Ok (ctx\<lparr>mc_restored := False, mc_active := True, mc_allow_no_piv_response := True\<rparr>))"

definition restore_mod ::
    "crypto \<Rightarrow> bytes \<Rightarrow> bytes option \<Rightarrow> bytes \<Rightarrow> bytes \<Rightarrow> u64 \<Rightarrow> bool \<Rightarrow> (oscore_error, mod_context) res" where
  "restore_mod C master_secret salt_opt sid rid next_seq is_exhausted =
     and_then (context_new_mod C master_secret salt_opt None sid rid) (\<lambda>ctx.
     let state = \<lparr>next_sequence = next_seq, exhausted = is_exhausted\<rparr> in
     and_then (set_sender_state_mod ctx state) (\<lambda>ctx.
       Ok (ctx\<lparr>mc_restored := True, mc_active := True, mc_allow_no_piv_response := False\<rparr>)))"

datatype construction_mod = FreshMod | EphemeralMod | StoredMod sender_sequence_state

definition from_sender_state_mod ::
    "crypto \<Rightarrow> bytes \<Rightarrow> bytes option \<Rightarrow> bytes option \<Rightarrow> bytes \<Rightarrow> bytes \<Rightarrow> construction_mod \<Rightarrow>
     (oscore_error, mod_context) res" where
  "from_sender_state_mod C master_secret salt_opt id_ctx sid rid construction =
     and_then (context_new_mod C master_secret salt_opt id_ctx sid rid) (\<lambda>ctx.
       case construction of
         FreshMod \<Rightarrow> Ok (ctx\<lparr>mc_restored := False, mc_active := False, mc_allow_no_piv_response := True\<rparr>)
       | EphemeralMod \<Rightarrow> Ok (ctx\<lparr>mc_restored := False, mc_active := True, mc_allow_no_piv_response := True\<rparr>)
       | StoredMod state \<Rightarrow>
           and_then (set_sender_state_mod ctx state) (\<lambda>ctx.
             Ok (ctx\<lparr>mc_restored := True, mc_active := True, mc_allow_no_piv_response := False\<rparr>)))"

subsection \<open>Accessors\<close>

definition sender_seq_mod :: "mod_context \<Rightarrow> oscore_seq_num option" where
  "sender_seq_mod ctx = (if \<not> mc_sender_seq_exhausted ctx then Some (mc_sender_seq ctx) else None)"

definition sender_sequence_state_mod :: "mod_context \<Rightarrow> sender_sequence_state" where
  "sender_sequence_state_mod ctx =
     \<lparr>next_sequence = get (mc_sender_seq ctx), exhausted = mc_sender_seq_exhausted ctx\<rparr>"

definition is_restored_mod :: "mod_context \<Rightarrow> bool" where
  "is_restored_mod ctx = mc_restored ctx"

definition sender_id_mod :: "mod_context \<Rightarrow> bytes" where
  "sender_id_mod ctx = take (as_usize (mc_sender_id_len ctx)) (mc_sender_id ctx)"

definition recipient_id_mod :: "mod_context \<Rightarrow> bytes" where
  "recipient_id_mod ctx = take (as_usize (mc_recipient_id_len ctx)) (mc_recipient_id ctx)"

definition id_context_mod :: "mod_context \<Rightarrow> bytes" where
  "id_context_mod ctx = take (as_usize (mc_id_context_len ctx)) (mc_id_context ctx)"

subsection \<open>The durable store\<close>

text \<open>The trait \<open>SenderStateStore\<close> of \<^verbatim>\<open>src/types.rs\<close>: it keeps the sender state only.\<close>

record ('s, 'x) sender_state_store =
  load :: "'s \<Rightarrow> context_id \<Rightarrow> 's \<times> ('x, sender_sequence_state option) res"
  compare_exchange ::
    "'s \<Rightarrow> context_id \<Rightarrow> sender_sequence_state option \<Rightarrow> sender_sequence_state \<Rightarrow> 's \<times> ('x, bool) res"

definition register_fresh_mod ::
    "('s, 'x) sender_state_store \<Rightarrow> mod_context \<Rightarrow> 's \<Rightarrow> 's \<times> ('x context_store_error, mod_context) res" where
  "register_fresh_mod S ctx st =
     (if mc_restored ctx \<or> mc_active ctx then (st, Err (Oscore InvalidParam))
      else
        let (st, r) = compare_exchange S st (mc_context_id ctx) None (sender_sequence_state_mod ctx)
        in (st, and_then (map_err Storage r) (\<lambda>swapped.
             if \<not> swapped then Err Conflict
             else Ok (ctx\<lparr>mc_active := True, mc_allow_no_piv_response := True\<rparr>))))"

definition restore_existing_mod ::
    "('s, 'x) sender_state_store \<Rightarrow> mod_context \<Rightarrow> 's \<Rightarrow> 's \<times> ('x context_store_error, mod_context) res" where
  "restore_existing_mod S ctx st =
     (let (st, r) = load S st (mc_context_id ctx) in
      (st, and_then (map_err Storage r) (\<lambda>loaded.
           and_then (ok_or Missing loaded) (\<lambda>state.
           and_then (map_err Oscore (set_sender_state_mod ctx state)) (\<lambda>ctx.
             Ok (ctx\<lparr>mc_restored := True, mc_active := True, mc_allow_no_piv_response := False\<rparr>))))))"

subsection \<open>The windows\<close>

definition is_response_reuse_mod :: "mod_context \<Rightarrow> oscore_seq_num \<Rightarrow> bool" where
  "is_response_reuse_mod ctx seq =
     (if \<not> mc_response_window_initialized ctx \<or> get (mc_response_seq ctx) < get seq then False
      else
        let diff = get (mc_response_seq ctx) - get seq in
        ucast WINDOW_SIZE \<le> diff \<or> mc_response_window ctx AND push_bit (unat diff) 1 \<noteq> 0)"

definition mark_response_used_mod ::
    "bool \<Rightarrow> mod_context \<Rightarrow> oscore_seq_num \<Rightarrow> (oscore_error, mod_context) res" where
  "mark_response_used_mod oc ctx seq =
     (if \<not> mc_response_window_initialized ctx then
        Ok (ctx\<lparr>mc_response_seq := seq, mc_response_window := 1, mc_response_window_initialized := True\<rparr>)
      else if get (mc_response_seq ctx) < get seq then
        let shift = get seq - get (mc_response_seq ctx) in
        Ok (ctx\<lparr>mc_response_window := (if ucast WINDOW_SIZE \<le> shift then 1
                  else push_bit (unat shift) (mc_response_window ctx) OR 1),
                mc_response_seq := seq\<rparr>)
      else
        let diff = get (mc_response_seq ctx) - get seq in
        and_then (shl_one oc (unat diff)) (\<lambda>bit.
          Ok (ctx\<lparr>mc_response_window := mc_response_window ctx OR bit\<rparr>)))"

definition is_received_response_reuse_mod :: "mod_context \<Rightarrow> oscore_seq_num \<Rightarrow> bool" where
  "is_received_response_reuse_mod ctx seq =
     (if \<not> mc_received_response_window_initialized ctx \<or> get (mc_received_response_seq ctx) < get seq then False
      else
        let diff = get (mc_received_response_seq ctx) - get seq in
        ucast WINDOW_SIZE \<le> diff \<or> mc_received_response_window ctx AND push_bit (unat diff) 1 \<noteq> 0)"

definition mark_received_response_mod ::
    "bool \<Rightarrow> mod_context \<Rightarrow> oscore_seq_num \<Rightarrow> (oscore_error, mod_context) res" where
  "mark_received_response_mod oc ctx seq =
     (if \<not> mc_received_response_window_initialized ctx then
        Ok (ctx\<lparr>mc_received_response_seq := seq, mc_received_response_window := 1, mc_received_response_window_initialized := True\<rparr>)
      else if get (mc_received_response_seq ctx) < get seq then
        let shift = get seq - get (mc_received_response_seq ctx) in
        Ok (ctx\<lparr>mc_received_response_window := (if ucast WINDOW_SIZE \<le> shift then 1
                  else push_bit (unat shift) (mc_received_response_window ctx) OR 1),
                mc_received_response_seq := seq\<rparr>)
      else
        let diff = get (mc_received_response_seq ctx) - get seq in
        and_then (shl_one oc (unat diff)) (\<lambda>bit.
          Ok (ctx\<lparr>mc_received_response_window := mc_received_response_window ctx OR bit\<rparr>)))"

definition is_replay_mod :: "mod_context \<Rightarrow> oscore_seq_num \<Rightarrow> bool" where
  "is_replay_mod ctx seq =
     (if get (mc_recipient_seq ctx) < get seq then False
      else
        let diff = get (mc_recipient_seq ctx) - get seq in
        if ucast WINDOW_SIZE \<le> diff then True
        else let mask = push_bit (unat diff) 1 in mc_replay_window ctx AND mask \<noteq> 0)"

definition update_replay_window_mod :: "mod_context \<Rightarrow> oscore_seq_num \<Rightarrow> mod_context" where
  "update_replay_window_mod ctx seq =
     (if get (mc_recipient_seq ctx) < get seq then
        let shift = get seq - get (mc_recipient_seq ctx);
            window = (if ucast WINDOW_SIZE \<le> shift then 0
                      else push_bit (unat shift) (mc_replay_window ctx))
        in ctx\<lparr>mc_replay_window := window OR 1, mc_recipient_seq := seq\<rparr>
      else
        let diff = get (mc_recipient_seq ctx) - get seq in
        if diff < ucast WINDOW_SIZE
        then ctx\<lparr>mc_replay_window := mc_replay_window ctx OR push_bit (unat diff) 1\<rparr>
        else ctx)"

subsection \<open>The context of lib.rs that a module-tree context stands for\<close>

definition lib_context :: "mod_context \<Rightarrow> oscore_context" where
  "lib_context m = \<lparr>
     ctx_master_secret = mc_master_secret m, ctx_master_salt = mc_master_salt m,
     ctx_master_salt_len = mc_master_salt_len m, ctx_common_iv = mc_common_iv m,
     ctx_id_context = mc_id_context m, ctx_id_context_len = mc_id_context_len m,
     ctx_id_context_present = mc_id_context_present m,
     ctx_sender_id = mc_sender_id m, ctx_sender_id_len = mc_sender_id_len m,
     ctx_sender_key = mc_sender_key m, ctx_sender_seq = mc_sender_seq m,
     ctx_sender_seq_exhausted = mc_sender_seq_exhausted m,
     ctx_restored = mc_restored m, ctx_active = mc_active m,
     ctx_recipient_id = mc_recipient_id m, ctx_recipient_id_len = mc_recipient_id_len m,
     ctx_recipient_key = mc_recipient_key m, ctx_recipient_seq = mc_recipient_seq m,
     ctx_replay_window = mc_replay_window m,
     ctx_response_seq = mc_response_seq m, ctx_response_window = mc_response_window m,
     ctx_response_window_initialized = mc_response_window_initialized m,
     ctx_received_response_seq = mc_received_response_seq m,
     ctx_received_response_window = mc_received_response_window m,
     ctx_received_response_window_initialized = mc_received_response_window_initialized m,
     ctx_received_response_piv_seq = seq_default, ctx_received_response_piv_window = 0,
     ctx_received_response_piv_window_initialized = False,
     ctx_allow_no_piv_response = mc_allow_no_piv_response m,
     ctx_context_id = mc_context_id m\<rparr>"

lemma lib_context_fields [simp]:
  "ctx_master_secret (lib_context m) = mc_master_secret m"
  "ctx_common_iv (lib_context m) = mc_common_iv m"
  "ctx_id_context_len (lib_context m) = mc_id_context_len m"
  "ctx_id_context_present (lib_context m) = mc_id_context_present m"
  "ctx_sender_id_len (lib_context m) = mc_sender_id_len m"
  "ctx_sender_key (lib_context m) = mc_sender_key m"
  "ctx_sender_seq (lib_context m) = mc_sender_seq m"
  "ctx_sender_seq_exhausted (lib_context m) = mc_sender_seq_exhausted m"
  "ctx_restored (lib_context m) = mc_restored m"
  "ctx_active (lib_context m) = mc_active m"
  "ctx_recipient_key (lib_context m) = mc_recipient_key m"
  "ctx_recipient_seq (lib_context m) = mc_recipient_seq m"
  "ctx_replay_window (lib_context m) = mc_replay_window m"
  "ctx_response_seq (lib_context m) = mc_response_seq m"
  "ctx_response_window (lib_context m) = mc_response_window m"
  "ctx_response_window_initialized (lib_context m) = mc_response_window_initialized m"
  "ctx_received_response_seq (lib_context m) = mc_received_response_seq m"
  "ctx_received_response_window (lib_context m) = mc_received_response_window m"
  "ctx_received_response_window_initialized (lib_context m) = mc_received_response_window_initialized m"
  "ctx_allow_no_piv_response (lib_context m) = mc_allow_no_piv_response m"
  "ctx_context_id (lib_context m) = mc_context_id m"
  by (simp_all add: lib_context_def)

lemma lib_accessors [simp]:
  "sender_id (lib_context m) = sender_id_mod m"
  "recipient_id (lib_context m) = recipient_id_mod m"
  "id_context (lib_context m) = id_context_mod m"
  "sender_sequence_state (lib_context m) = sender_sequence_state_mod m"
  "sender_seq (lib_context m) = sender_seq_mod m"
  "is_restored (lib_context m) = is_restored_mod m"
  by (simp_all add: lib_context_def sender_id_def sender_id_mod_def recipient_id_def recipient_id_mod_def
      id_context_def id_context_mod_def sender_sequence_state_def sender_sequence_state_mod_def
      sender_seq_def sender_seq_mod_def is_restored_def is_restored_mod_def)

lemma lib_updates:
  "lib_context (m\<lparr>mc_restored := b\<rparr>) = (lib_context m)\<lparr>ctx_restored := b\<rparr>"
  "lib_context (m\<lparr>mc_active := b\<rparr>) = (lib_context m)\<lparr>ctx_active := b\<rparr>"
  "lib_context (m\<lparr>mc_allow_no_piv_response := b\<rparr>) = (lib_context m)\<lparr>ctx_allow_no_piv_response := b\<rparr>"
  "lib_context (m\<lparr>mc_sender_seq := q\<rparr>) = (lib_context m)\<lparr>ctx_sender_seq := q\<rparr>"
  "lib_context (m\<lparr>mc_sender_seq_exhausted := b\<rparr>) = (lib_context m)\<lparr>ctx_sender_seq_exhausted := b\<rparr>"
  by (simp_all add: lib_context_def)

lemma map_res_and_then: "map_res (\<lambda>e. e) g (and_then m f) = and_then m (\<lambda>x. map_res (\<lambda>e. e) g (f x))"
  by (cases m) simp_all

abbreviation lib_res :: "('e, mod_context) res \<Rightarrow> ('e, oscore_context) res" where
  "lib_res \<equiv> map_res (\<lambda>e. e) lib_context"

subsection \<open>The operations commute with the map\<close>

lemma context_new_refines: "lib_res (context_new_mod C secret salt ic sid rid) = context_new C secret salt ic sid rid"
  by (simp add: context_new_mod_def context_new_def map_res_and_then Let_def lib_context_def)

lemma context_new_fresh_refines:
  "lib_res (context_new_fresh_mod C secret salt ic sid rid) = context_new_fresh C secret salt ic sid rid"
  unfolding context_new_fresh_mod_def context_new_fresh_def context_new_refines [symmetric]
  by (cases "context_new_mod C secret salt ic sid rid") (simp_all add: lib_updates)

lemma set_sender_state_refines: "lib_res (set_sender_state_mod m s) = set_sender_state (lib_context m) s"
  by (auto simp: set_sender_state_mod_def set_sender_state_def map_res_and_then lib_updates intro!: and_then_cong)

text \<open>The constructors for tests, and the way their kinds correspond.\<close>

primrec lib_construction :: "construction_mod \<Rightarrow> construction" where
  "lib_construction FreshMod = Fresh"
| "lib_construction EphemeralMod = Ephemeral"
| "lib_construction (StoredMod s) = Stored s"

lemma test_constructors_refine:
  "lib_res (new_ephemeral_mod C secret salt sid rid) = new_ephemeral C secret salt sid rid"
  "lib_res (restore_mod C secret salt sid rid q e) = restore C secret salt sid rid q e"
  "lib_res (from_sender_state_mod C secret salt ic sid rid how) =
     from_sender_state C secret salt ic sid rid (lib_construction how)"
proof -
  have stored: "lib_res (and_then (set_sender_state_mod m s) (\<lambda>m.
      Ok (m\<lparr>mc_restored := True, mc_active := True, mc_allow_no_piv_response := False\<rparr>))) =
    and_then (set_sender_state (lib_context m) s) (\<lambda>c.
      Ok (c\<lparr>ctx_restored := True, ctx_active := True, ctx_allow_no_piv_response := False\<rparr>))" for m s
    unfolding set_sender_state_refines [symmetric]
    by (cases "set_sender_state_mod m s") (simp_all add: lib_updates)
  show "lib_res (new_ephemeral_mod C secret salt sid rid) = new_ephemeral C secret salt sid rid"
    unfolding new_ephemeral_mod_def new_ephemeral_def context_new_refines [symmetric]
    by (cases "context_new_mod C secret salt None sid rid") (simp_all add: lib_updates)
  show "lib_res (restore_mod C secret salt sid rid q e) = restore C secret salt sid rid q e"
    unfolding restore_mod_def restore_def context_new_refines [symmetric]
    by (cases "context_new_mod C secret salt None sid rid") (simp_all add: stored Let_def)
  show "lib_res (from_sender_state_mod C secret salt ic sid rid how) =
     from_sender_state C secret salt ic sid rid (lib_construction how)"
    unfolding from_sender_state_mod_def from_sender_state_def context_new_refines [symmetric]
    by (cases "context_new_mod C secret salt ic sid rid"; cases how) (simp_all add: lib_updates stored)
qed

text \<open>A store of sender states, seen as one that has no recipient state and keeps none.\<close>

definition lib_store :: "('s, 'x) sender_state_store \<Rightarrow> ('s, 'x) context_state_store" where
  "lib_store S = \<lparr>load_sender = load S, compare_exchange_sender = compare_exchange S,
     load_recipient = (\<lambda>st k. (st, Ok None)), save_recipient = (\<lambda>st k s. (st, Ok ()))\<rparr>"

lemma lib_store_simps [simp]:
  "load_sender (lib_store S) = load S" "compare_exchange_sender (lib_store S) = compare_exchange S"
  "load_recipient (lib_store S) st k = (st, Ok None)" "save_recipient (lib_store S) st k s = (st, Ok ())"
  by (simp_all add: lib_store_def)

lemma register_fresh_refines:
  "apsnd lib_res (register_fresh_mod S m st) = register_fresh (lib_store S) (lib_context m) st"
  by (auto simp: register_fresh_mod_def register_fresh_def map_res_and_then lib_updates Let_def split: prod.split
      intro!: and_then_cong)

lemma restore_existing_refines:
  "apsnd lib_res (restore_existing_mod S m st) = restore_existing (lib_store S) (lib_context m) st"
proof -
  obtain st' r where l: "load S st (mc_context_id m) = (st', r)" by fastforce
  note steps = restore_existing_mod_def restore_existing_def l set_sender_state_refines [symmetric]
  show ?thesis
  proof (cases r)
    case (Ok loaded)
    show ?thesis
    proof (cases loaded)
      case (Some s)
      show ?thesis by (cases "set_sender_state_mod m s") (simp_all add: steps Ok Some lib_updates)
    qed (simp add: steps Ok)
  qed (simp_all add: steps)
qed

lemma window_refines:
  "is_response_reuse (lib_context m) = is_response_reuse_mod m"
  "is_received_response_reuse (lib_context m) = is_received_response_reuse_mod m"
  "is_replay (lib_context m) = is_replay_mod m"
  by (simp_all add: fun_eq_iff is_response_reuse_def is_response_reuse_mod_def is_received_response_reuse_def
      is_received_response_reuse_mod_def is_replay_def is_replay_mod_def window_reuse_def replay_check_def Let_def)

lemma window_mark_refines:
  "lib_res (mark_response_used_mod oc m s) = mark_response_used oc (lib_context m) s"
  "lib_res (mark_received_response_mod oc m s) = mark_received_response oc (lib_context m) s"
  "lib_context (update_replay_window_mod m s) = update_replay_window (lib_context m) s"
  by (auto simp: mark_response_used_def mark_response_used_mod_def mark_received_response_def
      mark_received_response_mod_def update_replay_window_def update_replay_window_mod_def
      window_mark_def replay_update_def Let_def map_res_and_then lib_context_def and_then_assoc intro!: and_then_cong)

end
