(* ===== verification/ModProtect.thy ===== *)
theory ModProtect
  imports ModContext Protect
begin

text \<open>
  \<^verbatim>\<open>src/protect.rs\<close>: the reservation of a sender sequence, the preflight checks and the
  protection of requests and responses over the context of the module tree. The steps that do not
  touch the context (filling the plaintext, sealing, the response option) are those of \<open>Protect\<close>.
  Every operation commutes with \<open>lib_context\<close>.
\<close>

subsection \<open>Reservation and preflights\<close>

definition reserve_sender_mod ::
    "('s, 'x) sender_state_store \<Rightarrow> mod_context \<Rightarrow> 's \<Rightarrow>
     's \<times> mod_context \<times> ('x reservation_error, oscore_seq_num) res" where
  "reserve_sender_mod S ctx st =
     (if \<not> mc_active ctx then (st, ctx, Err ReservationConflict)
      else if mc_sender_seq_exhausted ctx then (st, ctx, Err SequenceExhausted)
      else
        let sequence = mc_sender_seq ctx;
            expected = sender_sequence_state_mod ctx;
            next = (case seq_increment sequence of
                      Some n \<Rightarrow> \<lparr>next_sequence = get n, exhausted = False\<rparr>
                    | None \<Rightarrow> \<lparr>next_sequence = SEQ_MAX, exhausted = True\<rparr>);
            (st, r) = compare_exchange S st (mc_context_id ctx) (Some expected) next
        in case map_err ReservationStorage r of
             Err e \<Rightarrow> (st, ctx, Err e)
           | Panic \<Rightarrow> (st, ctx, Panic)
           | Ok swapped \<Rightarrow>
               if \<not> swapped then (st, ctx, Err ReservationConflict)
               else
                 (case seq_new (next_sequence next) of
                    None \<Rightarrow> (st, ctx, Panic)
                  | Some s \<Rightarrow>
                      (st, ctx\<lparr>mc_sender_seq := s, mc_sender_seq_exhausted := exhausted next\<rparr>,
                       Ok sequence)))"

definition request_option_len_mod :: "mod_context \<Rightarrow> nat \<Rightarrow> nat" where
  "request_option_len_mod ctx piv_len =
     1 + piv_len
       + of_bool (mc_id_context_present ctx) * (1 + as_usize (mc_id_context_len ctx))
       + as_usize (mc_sender_id_len ctx)"

definition preflight_protect_request_mod ::
    "mod_context \<Rightarrow> bytes \<Rightarrow> bytes \<Rightarrow> (oscore_error, unit) res" where
  "preflight_protect_request_mod ctx class_e_options payload =
     (if \<not> mc_active ctx then Err InvalidParam
      else if 128 < length class_e_options then Err (too_small (length class_e_options) 128)
      else if 128 < length payload then Err (too_small (length payload) 128)
      else
        and_then (ok_or InvalidParam (required_len class_e_options payload)) (\<lambda>required.
          if 280 < required then Err (too_small required 280)
          else
            let option_required = request_option_len_mod ctx PIV_MAX_LEN in
            if OSCORE_OPTION_MAX_LEN < option_required
            then Err (too_small option_required OSCORE_OPTION_MAX_LEN)
            else Ok ()))"

definition next_request_option_len_mod :: "mod_context \<Rightarrow> (oscore_error, nat) res" where
  "next_request_option_len_mod ctx =
     (if \<not> mc_active ctx \<or> mc_sender_seq_exhausted ctx then Err SeqExhausted
      else
        and_then (encode_piv (mc_sender_seq ctx) (replicate PIV_MAX_LEN 0)) (\<lambda>(piv, piv_len).
          Ok (request_option_len_mod ctx piv_len)))"

definition preflight_protect_response_mod ::
    "mod_context \<Rightarrow> bytes \<Rightarrow> bytes \<Rightarrow> bytes \<Rightarrow> bytes \<Rightarrow> (oscore_error, unit) res" where
  "preflight_protect_response_mod ctx class_e_options payload request_kid request_piv =
     (if \<not> mc_active ctx \<or> NONCE_ID_LEN < length request_kid \<or> request_kid \<noteq> recipient_id_mod ctx \<or>
         from_piv request_piv = None
      then Err InvalidParam
      else if 128 < length class_e_options then Err (too_small (length class_e_options) 128)
      else if 128 < length payload then Err (too_small (length payload) 128)
      else
        and_then (parse_inner_body_mod class_e_options) (\<lambda>(parsed_options, parsed_payload).
        if parsed_options \<noteq> class_e_options \<or> parsed_payload \<noteq> [] then Err InvalidParam
        else
          and_then (ok_or InvalidParam (required_len class_e_options payload)) (\<lambda>required.
            if 280 < required then Err (too_small required 280) else Ok ())))"

subsection \<open>Requests\<close>

definition request_option_mod ::
    "mod_context \<Rightarrow> bytes \<Rightarrow> nat \<Rightarrow> (oscore_error, bytes) res" where
  "request_option_mod ctx piv piv_len =
     (let has_context = mc_id_context_present ctx;
          flags = 0x08 OR push_bit 4 (of_bool has_context) OR (as_u8 piv_len AND 0x07);
          opt_required = request_option_len_mod ctx piv_len;
          cap = OSCORE_OPTION_MAX_LEN;
          opt_err = too_small opt_required cap in
      and_then (vec_push cap opt_err [] flags) (\<lambda>opt.
      and_then (vec_extend cap opt_err opt piv) (\<lambda>opt.
      and_then
        (if has_context then
           and_then (vec_push cap opt_err opt (mc_id_context_len ctx)) (\<lambda>opt.
             vec_extend cap opt_err opt (id_context_mod ctx))
         else Ok opt) (\<lambda>opt.
        vec_extend cap opt_err opt (sender_id_mod ctx)))))"

definition protect_request_reserved_mod ::
    "crypto \<Rightarrow> mod_context \<Rightarrow> oscore_seq_num \<Rightarrow> u8 \<Rightarrow> bytes \<Rightarrow> bytes \<Rightarrow>
     (oscore_error, bytes \<times> bytes) res" where
  "protect_request_reserved_mod C ctx seq code class_e_options payload =
     and_then (encode_piv seq (replicate PIV_MAX_LEN 0)) (\<lambda>(piv_buf, piv_len).
     and_then (slice piv_buf 0 piv_len) (\<lambda>piv.
     let nonce = compute_nonce_mod (sender_id_mod ctx) piv (mc_common_iv ctx) in
     and_then (ok_or KeyDerivation (ccm_new C (mc_sender_key ctx))) (\<lambda>cipher.
     let required = ct_required class_e_options payload in
     and_then (fill_plaintext required code class_e_options payload) (\<lambda>ct_out.
     and_then (build_aad_cbor_mod (sender_id_mod ctx) piv (replicate 64 0)) (\<lambda>(aad_buf, aad_len).
     and_then (slice aad_buf 0 aad_len) (\<lambda>aad.
     and_then (seal C required cipher nonce aad ct_out) (\<lambda>ct_out.
     and_then (request_option_mod ctx piv piv_len) (\<lambda>opt.
       Ok (ct_out, opt)))))))))"

subsection \<open>Responses\<close>

definition response_nonce_piv_mod ::
    "mod_context \<Rightarrow> bytes \<Rightarrow> bool \<Rightarrow>
     mod_context \<times> (oscore_error, bytes \<times> nat \<times> nat option \<times> oscore_seq_num option) res" where
  "response_nonce_piv_mod ctx request_piv include_piv =
     (if include_piv then
        let (s, old) = fetch_increment (mc_sender_seq ctx) in
        (ctx\<lparr>mc_sender_seq := s\<rparr>,
         and_then (ok_or SeqExhausted old) (\<lambda>seq.
         and_then (encode_piv seq (replicate PIV_MAX_LEN 0)) (\<lambda>(piv, len).
           Ok (piv, len, Some len, None))))
      else
        (ctx,
         and_then (ok_or InvalidParam (from_piv request_piv)) (\<lambda>seq.
         if is_response_reuse_mod ctx seq then Err Replay
         else
           and_then (copy_at (replicate PIV_MAX_LEN 0) 0 request_piv) (\<lambda>piv.
             Ok (piv, length request_piv, None, Some seq)))))"

definition response_body_mod ::
    "crypto \<Rightarrow> mod_context \<Rightarrow> u8 \<Rightarrow> bytes \<Rightarrow> bytes \<Rightarrow> bytes \<Rightarrow> bytes \<Rightarrow> bytes \<Rightarrow> bytes \<Rightarrow>
     (oscore_error, bytes) res" where
  "response_body_mod C ctx code class_e_options payload request_kid request_piv nonce_id piv =
     (let nonce = compute_nonce_mod nonce_id piv (mc_common_iv ctx);
          required = ct_required class_e_options payload in
      and_then (fill_plaintext required code class_e_options payload) (\<lambda>ct_out.
      and_then (build_aad_cbor_mod request_kid request_piv (replicate 64 0)) (\<lambda>(aad_buf, aad_len).
      and_then (ok_or KeyDerivation (ccm_new C (mc_sender_key ctx))) (\<lambda>cipher.
      and_then (slice aad_buf 0 aad_len) (\<lambda>aad.
        seal C required cipher nonce aad ct_out)))))"

definition protect_response_mod ::
    "bool \<Rightarrow> crypto \<Rightarrow> mod_context \<Rightarrow> u8 \<Rightarrow> bytes \<Rightarrow> bytes \<Rightarrow> bytes \<Rightarrow> bytes \<Rightarrow> bool \<Rightarrow>
     mod_context \<times> (oscore_error, bytes \<times> bytes) res" where
  "protect_response_mod oc C ctx code class_e_options payload request_kid request_piv include_piv =
     (if NONCE_ID_LEN < length request_kid \<or> from_piv request_piv = None \<or>
         request_kid \<noteq> recipient_id_mod ctx
      then (ctx, Err InvalidParam)
      else if \<not> mc_active ctx then (ctx, Err InvalidParam)
      else if \<not> include_piv \<and> \<not> mc_allow_no_piv_response ctx then (ctx, Err InvalidParam)
      else
        let (ctx, r) = response_nonce_piv_mod ctx request_piv include_piv in
        case and_then r (\<lambda>(nonce_piv, piv_len, piv_for_option, resp_seq).
             let nonce_id = (if include_piv then sender_id_mod ctx else request_kid) in
             and_then (slice nonce_piv 0 piv_len) (\<lambda>piv.
             and_then (response_body_mod C ctx code class_e_options payload request_kid request_piv
                         nonce_id piv) (\<lambda>ct_out.
             and_then
               (case piv_for_option of
                  Some len \<Rightarrow> and_then (slice nonce_piv 0 len) response_option
                | None \<Rightarrow> Ok []) (\<lambda>opt.
             and_then
               (case resp_seq of
                  Some seq \<Rightarrow> mark_response_used_mod oc ctx seq
                | None \<Rightarrow> Ok ctx) (\<lambda>ctx.
               Ok (ctx, ct_out, opt)))))) of
          Ok (ctx, ct_out, opt) \<Rightarrow> (ctx, Ok (ct_out, opt))
        | Err e \<Rightarrow> (ctx, Err e)
        | Panic \<Rightarrow> (ctx, Panic))"

definition protect_response_with_piv_inner_mod ::
    "crypto \<Rightarrow> mod_context \<Rightarrow> u8 \<Rightarrow> bytes \<Rightarrow> bytes \<Rightarrow> bytes \<Rightarrow> bytes \<Rightarrow> bytes \<Rightarrow>
     (oscore_error, bytes \<times> bytes) res" where
  "protect_response_with_piv_inner_mod C ctx code class_e_options payload request_kid request_piv
     response_piv =
     and_then (response_body_mod C ctx code class_e_options payload request_kid request_piv
                 (sender_id_mod ctx) response_piv) (\<lambda>ct_out.
     and_then (response_option response_piv) (\<lambda>opt.
       Ok (ct_out, opt)))"

definition protect_response_with_reserved_piv_mod ::
    "crypto \<Rightarrow> mod_context \<Rightarrow> oscore_seq_num \<Rightarrow> u8 \<Rightarrow> bytes \<Rightarrow> bytes \<Rightarrow> bytes \<Rightarrow> bytes \<Rightarrow>
     (oscore_error, bytes \<times> bytes) res" where
  "protect_response_with_reserved_piv_mod C ctx seq code class_e_options payload request_kid
     request_piv =
     (if NONCE_ID_LEN < length request_kid \<or> from_piv request_piv = None \<or>
         request_kid \<noteq> recipient_id_mod ctx
      then Err InvalidParam
      else
        and_then (encode_piv seq (replicate PIV_MAX_LEN 0)) (\<lambda>(piv, piv_len).
        and_then (slice piv 0 piv_len) (\<lambda>piv.
          protect_response_with_piv_inner_mod C ctx code class_e_options payload request_kid
            request_piv piv)))"

subsection \<open>The reserved sender\<close>

record reserved_sender_mod =
  rsv_context_mod :: mod_context
  rsv_sequence_mod :: oscore_seq_num

definition reserved_protect_request_mod ::
    "crypto \<Rightarrow> reserved_sender_mod \<Rightarrow> u8 \<Rightarrow> bytes \<Rightarrow> bytes \<Rightarrow> (oscore_error, bytes \<times> bytes) res" where
  "reserved_protect_request_mod C rsv code class_e_options payload =
     protect_request_reserved_mod C (rsv_context_mod rsv) (rsv_sequence_mod rsv) code class_e_options payload"

definition reserved_protect_response_with_piv_mod ::
    "crypto \<Rightarrow> reserved_sender_mod \<Rightarrow> u8 \<Rightarrow> bytes \<Rightarrow> bytes \<Rightarrow> bytes \<Rightarrow> bytes \<Rightarrow>
     (oscore_error, bytes \<times> bytes) res" where
  "reserved_protect_response_with_piv_mod C rsv code class_e_options payload request_kid request_piv =
     protect_response_with_reserved_piv_mod C (rsv_context_mod rsv) (rsv_sequence_mod rsv) code class_e_options
       payload request_kid request_piv"

subsection \<open>The operations commute with the map\<close>

lemma reserve_sender_refines:
  "(let (st', m', r) = reserve_sender_mod S m st in (st', lib_context m', r)) =
     reserve_sender (lib_store S) (lib_context m) st"
  by (auto simp: reserve_sender_mod_def reserve_sender_def Let_def lib_updates
      split: prod.splits res.splits option.splits)

lemma request_option_len_refines [simp]: "request_option_len (lib_context m) = request_option_len_mod m"
  by (simp add: fun_eq_iff request_option_len_def request_option_len_mod_def)

lemma preflight_refines [simp]:
  "preflight_protect_request (lib_context m) = preflight_protect_request_mod m"
  "next_request_option_len (lib_context m) = next_request_option_len_mod m"
  "preflight_protect_response (lib_context m) = preflight_protect_response_mod m"
  by (simp_all add: fun_eq_iff preflight_protect_request_def preflight_protect_request_mod_def
      next_request_option_len_def next_request_option_len_mod_def preflight_protect_response_def
      preflight_protect_response_mod_def cong: if_cong)

lemma request_option_refines [simp]: "request_option (lib_context m) = request_option_mod m"
  by (simp add: fun_eq_iff request_option_def request_option_mod_def cong: if_cong)

lemma protect_request_refines [simp]:
  "protect_request_reserved C (lib_context m) = protect_request_reserved_mod C m"
  by (simp add: fun_eq_iff protect_request_reserved_def protect_request_reserved_mod_def)

lemma response_body_refines [simp]: "response_body C (lib_context m) = response_body_mod C m"
  by (simp add: fun_eq_iff response_body_def response_body_mod_def)

lemma response_nonce_piv_refines:
  "apfst lib_context (response_nonce_piv_mod m piv incl) = response_nonce_piv (lib_context m) piv incl"
  by (auto simp: response_nonce_piv_mod_def response_nonce_piv_def window_refines lib_updates Let_def
      split: prod.splits)

lemma protect_response_refines:
  "apfst lib_context (protect_response_mod oc C m code opts payload kid piv incl) =
     protect_response oc C (lib_context m) code opts payload kid piv incl"
proof -
  obtain m1 r where n: "response_nonce_piv_mod m piv incl = (m1, r)" by fastforce
  have n': "response_nonce_piv (lib_context m) piv incl = (lib_context m1, r)"
    using response_nonce_piv_refines [of m piv incl] by (simp add: n)
  have branches: "b = c \<Longrightarrow> x = u \<Longrightarrow> y = v \<Longrightarrow> (if b then x else y) = (if c then u else v)"
    for b c and x y u v :: "oscore_context \<times> (oscore_error, bytes \<times> bytes) res"
    by simp
  obtain nid where nid: "(if incl then sender_id_mod m1 else kid) = nid" by blast
  then have nid': "(if incl then sender_id (lib_context m1) else kid) = nid" by (simp only: lib_accessors)
  note steps = n n' nid nid' window_mark_refines(1) [symmetric]
  have "apfst lib_context (let (ctx, r) = response_nonce_piv_mod m piv incl in
        case and_then r (\<lambda>(nonce_piv, piv_len, piv_for_option, resp_seq).
             let nonce_id = (if incl then sender_id_mod ctx else kid) in
             and_then (slice nonce_piv 0 piv_len) (\<lambda>np.
             and_then (response_body_mod C ctx code opts payload kid piv nonce_id np) (\<lambda>ct_out.
             and_then
               (case piv_for_option of
                  Some len \<Rightarrow> and_then (slice nonce_piv 0 len) response_option
                | None \<Rightarrow> Ok []) (\<lambda>opt.
             and_then
               (case resp_seq of
                  Some seq \<Rightarrow> mark_response_used_mod oc ctx seq
                | None \<Rightarrow> Ok ctx) (\<lambda>ctx.
               Ok (ctx, ct_out, opt)))))) of
          Ok (ctx, ct_out, opt) \<Rightarrow> (ctx, Ok (ct_out, opt))
        | Err e \<Rightarrow> (ctx, Err e)
        | Panic \<Rightarrow> (ctx, Panic)) =
    (let (ctx, r) = response_nonce_piv (lib_context m) piv incl in
        case and_then r (\<lambda>(nonce_piv, piv_len, piv_for_option, resp_seq).
             let nonce_id = (if incl then sender_id ctx else kid) in
             and_then (slice nonce_piv 0 piv_len) (\<lambda>np.
             and_then (response_body C ctx code opts payload kid piv nonce_id np) (\<lambda>ct_out.
             and_then
               (case piv_for_option of
                  Some len \<Rightarrow> and_then (slice nonce_piv 0 len) response_option
                | None \<Rightarrow> Ok []) (\<lambda>opt.
             and_then
               (case resp_seq of
                  Some seq \<Rightarrow> mark_response_used oc ctx seq
                | None \<Rightarrow> Ok ctx) (\<lambda>ctx.
               Ok (ctx, ct_out, opt)))))) of
          Ok (ctx, ct_out, opt) \<Rightarrow> (ctx, Ok (ct_out, opt))
        | Err e \<Rightarrow> (ctx, Err e)
        | Panic \<Rightarrow> (ctx, Panic))"
  proof (cases r)
    case (Ok p)
    obtain nonce_piv len for_option resp_seq where p: "p = (nonce_piv, len, for_option, resp_seq)"
      by (cases p)
    let ?opt = "case for_option of Some len \<Rightarrow> and_then (slice nonce_piv 0 len) response_option | None \<Rightarrow> Ok []"
    show ?thesis
    proof (cases "slice nonce_piv 0 len :: (oscore_error, bytes) res")
      case s: (Ok np)
      show ?thesis
      proof (cases "response_body_mod C m1 code opts payload kid piv nid np")
        case b: (Ok ct)
        show ?thesis
        proof (cases ?opt)
          case o: (Ok opt)
          show ?thesis
          proof (cases resp_seq)
            case (Some q)
            then show ?thesis
              by (cases "mark_response_used_mod oc m1 q") (simp_all add: steps Ok p s b o Let_def)
          qed (simp add: steps Ok p s b o Let_def)
        qed (simp_all add: steps Ok p s b Let_def)
      qed (simp_all add: steps Ok p s Let_def)
    qed (simp_all add: steps Ok p Let_def)
  qed (simp_all add: steps)
  then show ?thesis
    unfolding protect_response_mod_def protect_response_def if_distrib [of "apfst lib_context"]
    by (intro branches) simp_all
qed

lemma protect_reserved_piv_refines [simp]:
  "protect_response_with_reserved_piv C (lib_context m) = protect_response_with_reserved_piv_mod C m"
  by (simp add: fun_eq_iff protect_response_with_reserved_piv_def protect_response_with_reserved_piv_mod_def
      protect_response_with_piv_inner_def protect_response_with_piv_inner_mod_def cong: if_cong)

end
