(* ===== verification/ModUnprotect.thy ===== *)
theory ModUnprotect
  imports ModProtect Unprotect
begin

text \<open>
  \<^verbatim>\<open>src/unprotect.rs\<close>: verification of requests and responses over the context of the module
  tree. It differs from \<^verbatim>\<open>src/lib.rs\<close> in two places. A payload marker with nothing after it is
  accepted, as an empty payload. And the Partial IV of a response is checked in, and marked in, the
  request window, where \<^verbatim>\<open>lib.rs\<close> has a window of its own. The lemmas relate the two on every
  input.
\<close>

subsection \<open>Shared steps\<close>

definition split_rest_mod :: "bool \<Rightarrow> bytes \<Rightarrow> (oscore_error, bytes \<times> bytes) res" where
  "split_rest_mod oc rest =
     and_then (find_payload_marker_mod oc rest) (\<lambda>m.
       case m of
         Some pos \<Rightarrow>
           and_then (slice rest 0 pos) (\<lambda>opts.
           and_then (slice_from rest (pos + 1)) (\<lambda>payload. Ok (opts, payload)))
       | None \<Rightarrow> Ok (rest, []))"

definition kid_context_mismatch_mod :: "mod_context \<Rightarrow> oscore_option \<Rightarrow> bool" where
  "kid_context_mismatch_mod ctx opt \<longleftrightarrow>
     opt_kid_context_present opt \<and>
     (\<not> mc_id_context_present ctx \<or> kid_context_of opt \<noteq> id_context_mod ctx)"

subsection \<open>Requests\<close>

definition unprotect_request_body_mod ::
    "bool \<Rightarrow> crypto \<Rightarrow> mod_context \<Rightarrow> bytes \<Rightarrow> bytes \<Rightarrow>
     (oscore_error, oscore_seq_num \<times> u8 \<times> bytes \<times> bytes) res" where
  "unprotect_request_body_mod oc C ctx oscore_option ciphertext =
     (if length ciphertext < TAG_LEN + 1 then Err InvalidParam
      else
        and_then (parse_option_mod oscore_option) (\<lambda>opt.
        if opt_piv_len opt = 0 \<or> \<not> opt_kid_present opt then Err InvalidParam
        else if kid_of opt \<noteq> recipient_id_mod ctx then Err NoContext
        else if kid_context_mismatch_mod ctx opt then Err NoContext
        else
          and_then (ok_or InvalidParam (from_piv (piv_of opt))) (\<lambda>seq.
          if is_replay_mod ctx seq then Err Replay
          else
            let nonce = compute_nonce_mod (recipient_id_mod ctx) (piv_of opt) (mc_common_iv ctx) in
            and_then (build_aad_cbor_mod (kid_of opt) (piv_of opt) (replicate 64 0))
              (\<lambda>(aad_buf, aad_len).
            and_then (slice aad_buf 0 aad_len) (\<lambda>aad.
            and_then (open_ciphertext C (mc_recipient_key ctx) nonce aad ciphertext) (\<lambda>plaintext.
            if plaintext = [] then Err InvalidParam
            else
              and_then (index plaintext 0) (\<lambda>code.
              and_then (slice_from plaintext 1) (\<lambda>rest.
              and_then (split_rest_mod oc rest) (\<lambda>(options_slice, payload_slice).
              and_then (bounded_outputs options_slice payload_slice) (\<lambda>(opts, payload).
                Ok (seq, code, opts, payload)))))))))))"

definition unprotect_request_mod ::
    "bool \<Rightarrow> crypto \<Rightarrow> mod_context \<Rightarrow> bytes \<Rightarrow> bytes \<Rightarrow>
     mod_context \<times> (oscore_error, u8 \<times> bytes \<times> bytes) res" where
  "unprotect_request_mod oc C ctx oscore_option ciphertext =
     (case unprotect_request_body_mod oc C ctx oscore_option ciphertext of
        Ok (seq, out) \<Rightarrow> (update_replay_window_mod ctx seq, Ok out)
      | Err e \<Rightarrow> (ctx, Err e)
      | Panic \<Rightarrow> (ctx, Panic))"

subsection \<open>Responses\<close>

record pending_response_mod =
  prm_request_seq :: oscore_seq_num
  prm_response_seq :: "oscore_seq_num option"
  prm_code :: u8
  prm_options :: bytes
  prm_payload :: bytes

definition begin_unprotect_response_mod ::
    "bool \<Rightarrow> crypto \<Rightarrow> mod_context \<Rightarrow> bytes \<Rightarrow> bytes \<Rightarrow> bytes \<Rightarrow> (oscore_error, pending_response_mod) res" where
  "begin_unprotect_response_mod oc C ctx oscore_option ciphertext request_piv =
     (if length ciphertext < TAG_LEN + 1 then Err InvalidParam
      else
        and_then (parse_option_mod oscore_option) (\<lambda>opt.
        if kid_context_mismatch_mod ctx opt then Err NoContext
        else if opt_kid_present opt \<and> kid_of opt \<noteq> recipient_id_mod ctx then Err NoContext
        else
          and_then (ok_or InvalidParam (from_piv request_piv)) (\<lambda>request_seq.
          if is_received_response_reuse_mod ctx request_seq then Err Replay
          else
            let piv = (if 0 < opt_piv_len opt then piv_of opt else request_piv) in
            and_then
              (if 0 < opt_piv_len opt then
                 and_then (ok_or InvalidParam (from_piv piv)) (\<lambda>seq.
                   if is_replay_mod ctx seq then Err Replay else Ok (Some seq))
               else Ok None) (\<lambda>response_seq.
            let nonce_id = (if 0 < opt_piv_len opt then recipient_id_mod ctx else sender_id_mod ctx);
                nonce = compute_nonce_mod nonce_id piv (mc_common_iv ctx) in
            and_then (build_aad_cbor_mod (sender_id_mod ctx) request_piv (replicate 64 0))
              (\<lambda>(aad_buf, aad_len).
            and_then (slice aad_buf 0 aad_len) (\<lambda>aad.
            and_then (open_ciphertext C (mc_recipient_key ctx) nonce aad ciphertext) (\<lambda>plaintext.
            if plaintext = [] then Err InvalidParam
            else
              and_then (index plaintext 0) (\<lambda>code.
              if \<not> response_class code then Err InvalidParam
              else
                and_then (slice_from plaintext 1) (\<lambda>rest.
                and_then (split_rest_mod oc rest) (\<lambda>(options_slice, payload_slice).
                and_then (bounded_outputs options_slice payload_slice) (\<lambda>(opts, payload).
                  Ok \<lparr>prm_request_seq = request_seq, prm_response_seq = response_seq,
                      prm_code = code, prm_options = opts, prm_payload = payload\<rparr>)))))))))))"

text \<open>Accepting a pending response: the request window first, then the mark of the request.\<close>

definition commit_mod ::
    "bool \<Rightarrow> mod_context \<Rightarrow> pending_response_mod \<Rightarrow>
     mod_context \<times> (oscore_error, u8 \<times> bytes \<times> bytes) res" where
  "commit_mod oc ctx p =
     (if \<not> response_class (prm_code p) then (ctx, Err InvalidParam)
      else
        let ctx = (case prm_response_seq p of
                     Some seq \<Rightarrow> update_replay_window_mod ctx seq
                   | None \<Rightarrow> ctx) in
        case mark_received_response_mod oc ctx (prm_request_seq p) of
          Ok ctx \<Rightarrow> (ctx, Ok (prm_code p, prm_options p, prm_payload p))
        | Err e \<Rightarrow> (ctx, Err e)
        | Panic \<Rightarrow> (ctx, Panic))"

definition unprotect_response_mod ::
    "bool \<Rightarrow> crypto \<Rightarrow> mod_context \<Rightarrow> bytes \<Rightarrow> bytes \<Rightarrow> bytes \<Rightarrow>
     mod_context \<times> (oscore_error, u8 \<times> bytes \<times> bytes) res" where
  "unprotect_response_mod oc C ctx oscore_option ciphertext request_piv =
     (case begin_unprotect_response_mod oc C ctx oscore_option ciphertext request_piv of
        Ok p \<Rightarrow> commit_mod oc ctx p | Err e \<Rightarrow> (ctx, Err e) | Panic \<Rightarrow> (ctx, Panic))"

subsection \<open>Requests against lib.rs\<close>

text \<open>The one difference of the splits: a marker at the very end.\<close>

lemma split_rest_mod_eq:
  "split_rest oc rest = and_then (split_rest_mod oc rest) (\<lambda>(opts, payload).
     if payload = [] \<and> opts \<noteq> rest then Err InvalidParam else Ok (opts, payload))"
proof (cases "find_payload_marker oc rest")
  case (Ok m)
  show ?thesis
  proof (cases m)
    case (Some pos)
    with Ok have "pos < length rest" using find_payload_marker_Some by blast
    with Ok Some show ?thesis
      by (auto simp: split_rest_def split_rest_mod_def slice_from_def slice_def dest: arg_cong [of _ _ length])
  qed (simp add: split_rest_def split_rest_mod_def Ok)
qed (simp_all add: split_rest_def split_rest_mod_def)

lemma kid_context_mismatch_refines [simp]:
  "kid_context_mismatch (lib_context m) = kid_context_mismatch_mod m"
  by (simp add: fun_eq_iff kid_context_mismatch_def kid_context_mismatch_mod_def)

lemma split_rest_mod_marker_last:
  assumes "split_rest_mod oc rest = Ok (opts, [])" and "opts \<noteq> rest"
  shows "rest = opts @ [0xFF]"
proof -
  from assms obtain pos where m: "find_payload_marker oc rest = Ok (Some pos)"
    and s: "slice rest 0 pos = (Ok opts :: (oscore_error, bytes) res)" "slice_from rest (pos + 1) = (Ok [] :: (oscore_error, bytes) res)"
    by (auto simp: split_rest_mod_def res_simps split: option.splits)
  from find_payload_marker_Some [OF m] have "pos < length rest" "rest ! pos = 0xFF" by simp_all
  moreover from this s have "opts = take pos rest" "length rest = Suc pos"
    by (simp_all add: slice_def slice_from_def split: if_splits)
  ultimately show ?thesis using take_Suc_conv_app_nth [of pos rest] by simp
qed

text \<open>One result is that of the other, or an invalid parameter where the other has the stated one.\<close>

definition stricter ::
    "((oscore_error, 'a) res \<Rightarrow> bool) \<Rightarrow> (oscore_error, 'a) res \<Rightarrow> (oscore_error, 'a) res \<Rightarrow> bool" where
  "stricter Q r s \<longleftrightarrow> r = s \<or> r = Err InvalidParam \<and> Q s"

lemma stricter_refl [simp]: "stricter Q r r"
  by (simp add: stricter_def)

lemma stricter_intros:
  "(\<And>x. h = Ok x \<Longrightarrow> stricter Q (f x) (g x)) \<Longrightarrow> stricter Q (and_then h f) (and_then h g)"
  "(b \<Longrightarrow> stricter Q r s) \<Longrightarrow> (\<not> b \<Longrightarrow> stricter Q r' s') \<Longrightarrow>
     stricter Q (if b then r else r') (if b then s else s')"
  by (cases h) (auto simp: stricter_def)

lemma split_rest_stricter:
  assumes "\<And>opts. rest = opts @ [0xFF] \<Longrightarrow> Q (f (opts, []))"
  shows "stricter Q (and_then (split_rest oc rest) f) (and_then (split_rest_mod oc rest) f)"
proof (cases "split_rest_mod oc rest")
  case (Ok x)
  then obtain opts payload where x: "split_rest_mod oc rest = Ok (opts, payload)" by (cases x) simp
  show ?thesis
  proof (cases "payload = [] \<and> opts \<noteq> rest")
    case True
    with x have "rest = opts @ [0xFF]" using split_rest_mod_marker_last by blast
    with assms x True show ?thesis by (auto simp: stricter_def split_rest_mod_eq)
  qed (auto simp: split_rest_mod_eq x)
qed (simp_all add: split_rest_mod_eq)

text \<open>The plaintext of a request to the context ends in a payload marker: the option carries a Partial
  IV whose number is new, and the AEAD opens the ciphertext under it to the code, some bytes and the
  marker.\<close>

definition ends_in_marker ::
    "crypto \<Rightarrow> mod_context \<Rightarrow> bytes \<Rightarrow> bytes \<Rightarrow> oscore_seq_num \<Rightarrow> u8 \<Rightarrow> bytes \<Rightarrow> bool" where
  "ends_in_marker C m option ct s code opts \<longleftrightarrow>
     (\<exists>opt. parse_option option = Ok opt \<and> from_piv (piv_of opt) = Some s \<and> \<not> is_replay_mod m s \<and>
        open_ciphertext C (mc_recipient_key m)
          (compute_nonce (recipient_id_mod m) (piv_bytes s) (mc_common_iv m))
          (enc_structure (recipient_id_mod m) (piv_bytes s)) ct = Ok (code # opts @ [0xFF]))"

lemma ends_in_markerI:
  assumes "parse_option option = Ok opt" "ok_or InvalidParam (from_piv (piv_of opt)) = Ok s" "\<not> is_replay_mod m s"
    and "\<not> kid_of opt \<noteq> recipient_id_mod m"
    and "build_aad_cbor (kid_of opt) (piv_of opt) (replicate 64 0) = Ok ba" "slice (fst ba) 0 (snd ba) = (Ok aad :: (oscore_error, bytes) res)"
    and "open_ciphertext C (mc_recipient_key m)
       (compute_nonce (recipient_id_mod m) (piv_of opt) (mc_common_iv m)) aad ct = Ok pt"
    and "index pt 0 = Ok code" "slice_from pt 1 = Ok (opts @ [0xFF])"
  shows "ends_in_marker C m option ct s code opts"
proof -
  from parse_option_sound [OF assms(1)] obtain piv ctx kid where parts: "option_parts_ok piv ctx kid"
    "opt = option_value piv ctx kid" by metis
  have kid: "kid_of opt = recipient_id_mod m" using assms(4) by simp
  note len = aad_no_panic(1) [OF parts, unfolded kid]
  have aad: "aad = enc_structure (recipient_id_mod m) (piv_of opt)"
    using assms(5,6) by (auto simp: kid build_aad_cbor_eq [OF len] aad_slice [OF len])
  have s: "from_piv (piv_of opt) = Some s" using assms(2) by (cases "from_piv (piv_of opt)") simp_all
  then have piv: "piv_of opt = piv_bytes s" using from_piv_Some(2) by simp
  have "pt = code # opts @ [0xFF]"
    using assms(8,9) by (cases pt) (auto simp: index_def slice_from_def split: if_splits)
  with assms(1,3,7) s show ?thesis unfolding ends_in_marker_def aad by (auto simp: piv)
qed

lemma unprotect_request_body_stricter:
  "stricter (\<lambda>r. \<exists>s code opts. ends_in_marker C m option ct s code opts \<and>
       r = (if length opts \<le> 128 then Ok (s, code, opts, []) else Err (too_small (length opts) 128)))
     (unprotect_request_body oc C (lib_context m) option ct)
     (unprotect_request_body_mod oc C m option ct)"
  unfolding unprotect_request_body_def unprotect_request_body_mod_def parse_option_mod_eq crypto_mod_eq
    lib_accessors lib_context_fields kid_context_mismatch_refines window_refines Let_def case_prod_beta
  by (intro stricter_intros stricter_refl split_rest_stricter exI conjI, rule ends_in_markerI)
    (auto simp: bounded_outputs_eq)

lemma unprotect_request_mod_cases:
  obtains (same) "apfst lib_context (unprotect_request_mod oc C m option ct) =
      unprotect_request oc C (lib_context m) option ct"
  | (stricter) s code opts where "ends_in_marker C m option ct s code opts"
      "unprotect_request oc C (lib_context m) option ct = (lib_context m, Err InvalidParam)"
      "unprotect_request_mod oc C m option ct =
         (if length opts \<le> 128 then (update_replay_window_mod m s, Ok (code, opts, []))
          else (m, Err (too_small (length opts) 128)))"
proof (cases "unprotect_request_body oc C (lib_context m) option ct = unprotect_request_body_mod oc C m option ct")
  case True
  then have "apfst lib_context (unprotect_request_mod oc C m option ct) =
      unprotect_request oc C (lib_context m) option ct"
    by (cases "unprotect_request_body_mod oc C m option ct")
      (auto simp: unprotect_request_mod_def unprotect_request_def window_mark_refines)
  then show ?thesis by (rule same)
next
  case False
  with unprotect_request_body_stricter [of C m option ct oc] obtain s code opts where
    e: "ends_in_marker C m option ct s code opts"
    and lib: "unprotect_request_body oc C (lib_context m) option ct = Err InvalidParam"
    and tree: "unprotect_request_body_mod oc C m option ct =
      (if length opts \<le> 128 then Ok (s, code, opts, []) else Err (too_small (length opts) 128))"
    unfolding stricter_def by blast
  show ?thesis
    by (rule stricter [OF e]) (simp_all add: unprotect_request_def unprotect_request_mod_def lib tree)
qed

text \<open>A marker with nothing after it is found where the options end, and splits off an empty payload.\<close>

lemma find_marker_append:
  assumes len: "length (xs @ 0xFF # ys) \<le> isize_max"
  shows "parse_inner_body_loop xs pos num = Ok (xs, []) \<Longrightarrow> pos \<le> length xs \<Longrightarrow>
    find_payload_marker_loop oc (xs @ 0xFF # ys) pos num = Ok (Some (length xs))"
proof (induction pos num rule: walk_induct [where data = xs])
  case (step pos num p2 n2)
  moreover have "length xs \<le> isize_max" using len by simp
  ultimately show ?case
    using len by (auto simp: parse_loop_step find_loop_simps nth_append marker_option_of_step
        option_step_append dest: option_step_pos)
next
  case (marker pos num)
  moreover have "length xs \<le> isize_max" using len by simp
  ultimately show ?case by (auto simp: parse_loop_marker split: if_splits)
next
  case (stuck pos num)
  moreover have "length xs \<le> isize_max" using len by simp
  ultimately show ?case by (auto simp: parse_loop_step)
next
  case (finish pos num)
  then show ?case by (simp add: find_loop_simps nth_append)
qed

lemma split_rest_marker_last:
  assumes "parse_inner_body opts = Ok (opts, [])" and "length opts < isize_max"
  shows "split_rest_mod oc (opts @ [0xFF]) = Ok (opts, [])" "split_rest oc (opts @ [0xFF]) = Err InvalidParam"
proof -
  have "find_payload_marker oc (opts @ [0xFF]) = Ok (Some (length opts))"
    using assms find_marker_append [of opts "[]" 0 0 oc]
    by (simp add: parse_inner_body_def find_payload_marker_def)
  then show "split_rest_mod oc (opts @ [0xFF]) = Ok (opts, [])"
    by (simp add: split_rest_mod_def slice_from_def slice_def)
  then show "split_rest oc (opts @ [0xFF]) = Err InvalidParam"
    by (simp add: split_rest_mod_eq)
qed

text \<open>Decrypting what a mirrored context of \<^verbatim>\<open>lib.rs\<close> sealed.\<close>

lemma unprotect_request_mod_sealed:
  assumes wf: "wf_context c" "wf_context (lib_context m)" and mir: "mirrored c (lib_context m)"
    and s: "seq_wf s" and C: "ccm_contract C" and new: "\<not> is_replay_mod m s"
    and len: "length pt \<le> 256" and ne: "pt \<noteq> []"
  defines "ct \<equiv> the (ccm_seal C (ctx_sender_key c) (request_nonce c s)
    (enc_structure (sender_id c) (piv_bytes s)) pt)"
  shows "unprotect_request_body_mod oc C m (option_encoding (piv_bytes s) (kid_context c) (Some (sender_id c))) ct =
    and_then (split_rest_mod oc (tl pt)) (\<lambda>(opts, payload).
    and_then (bounded_outputs opts payload) (\<lambda>(opts, payload). Ok (s, hd pt, opts, payload)))"
proof -
  note f = sealed_request_facts [OF wf mir s C len ne, folded ct_def,
      unfolded lib_accessors lib_context_fields kid_context_mismatch_refines]
  show ?thesis
    using f(1,3) ne new
    by (simp add: unprotect_request_body_mod_def parse_option_mod_eq f(2,4-8)
        option_value_parts [OF request_parts_ok [OF wf(1) s]] s
        build_aad_cbor_eq [OF f(6)] aad_slice [OF f(6)] Let_def del: One_nat_def)
qed

subsection \<open>The response windows\<close>

text \<open>The windows of the module tree keep the contract of those of \<^verbatim>\<open>lib.rs\<close>.\<close>

interpretation requests_mod: replay_window is_replay_mod
  "\<lambda>m s. Ok (update_replay_window_mod m s) :: (oscore_error, mod_context) res"
  by unfold_locales
    (simp add: update_replay_window_exact window_refines window_mark_refines flip: window_refines(3))

lemma lib_res_Ok: "lib_res r = Ok c \<Longrightarrow> \<exists>m. r = Ok m \<and> c = lib_context m"
  by (cases r) auto

interpretation responses_mod: replay_window is_response_reuse_mod "mark_response_used_mod oc" for oc
proof
  fix m s
  assume "\<not> is_response_reuse_mod m s"
  then show "\<exists>m'. mark_response_used_mod oc m s = Ok m' \<and> (\<forall>t. is_response_reuse_mod m' t \<longleftrightarrow>
      is_response_reuse_mod m t \<or> t = s \<or> seq_val t + 32 \<le> seq_val s)"
    using responses.mark_exact [of "lib_context m" s oc] lib_res_Ok [of "mark_response_used_mod oc m s"]
    by (auto simp: window_refines window_mark_refines)
qed

interpretation received_responses_mod:
  replay_window is_received_response_reuse_mod "mark_received_response_mod oc" for oc
proof
  fix m s
  assume "\<not> is_received_response_reuse_mod m s"
  then show "\<exists>m'. mark_received_response_mod oc m s = Ok m' \<and> (\<forall>t. is_received_response_reuse_mod m' t \<longleftrightarrow>
      is_received_response_reuse_mod m t \<or> t = s \<or> seq_val t + 32 \<le> seq_val s)"
    using received_responses.mark_exact [of "lib_context m" s oc] lib_res_Ok [of "mark_received_response_mod oc m s"]
    by (auto simp: window_refines window_mark_refines)
qed

text \<open>A mark leaves the other windows alone.\<close>

lemma mark_mod_keeps:
  "mark_received_response_mod oc m s = Ok m' \<Longrightarrow> is_replay_mod m' = is_replay_mod m \<and>
     is_response_reuse_mod m' = is_response_reuse_mod m"
  "is_received_response_reuse_mod (update_replay_window_mod m s) = is_received_response_reuse_mod m \<and>
     is_response_reuse_mod (update_replay_window_mod m s) = is_response_reuse_mod m"
proof -
  have "update_replay_window c s = d \<Longrightarrow> is_received_response_reuse d = is_received_response_reuse c \<and>
      is_response_reuse d = is_response_reuse c" for c d
    by (auto simp: update_replay_window_def is_received_response_reuse_def is_response_reuse_def split_beta)
  then show "is_received_response_reuse_mod (update_replay_window_mod m s) = is_received_response_reuse_mod m \<and>
      is_response_reuse_mod (update_replay_window_mod m s) = is_response_reuse_mod m"
    by (simp flip: window_refines add: window_mark_refines)
next
  assume "mark_received_response_mod oc m s = Ok m'"
  then have "mark_received_response oc (lib_context m) s = Ok (lib_context m')"
    by (simp flip: window_mark_refines)
  from mark_keeps(2) [OF this] show "is_replay_mod m' = is_replay_mod m \<and>
      is_response_reuse_mod m' = is_response_reuse_mod m"
    by (simp flip: window_refines)
qed

text \<open>A pending response is committable: its class was checked and its numbers are fresh.\<close>

definition pending_mod_ok :: "mod_context \<Rightarrow> pending_response_mod \<Rightarrow> bool" where
  "pending_mod_ok m p \<longleftrightarrow>
     response_class (prm_code p) \<and> \<not> is_received_response_reuse_mod m (prm_request_seq p) \<and>
     (\<forall>s. prm_response_seq p = Some s \<longrightarrow> \<not> is_replay_mod m s)"

lemma begin_response_mod_ok:
  assumes "begin_unprotect_response_mod oc C m option ct rpiv = Ok p"
  shows "pending_mod_ok m p" and "from_piv rpiv = Some (prm_request_seq p)"
  using assms
  by (auto simp: begin_unprotect_response_mod_def pending_mod_ok_def res_simps Let_def word_gt_0
      simp del: parse_option_mod_eq split: if_splits)

lemma commit_mod_ok:
  assumes "pending_mod_ok m p"
  obtains m' where "commit_mod oc m p = (m', Ok (prm_code p, prm_options p, prm_payload p))"
    "\<And>t. is_replay_mod m' t \<longleftrightarrow> is_replay_mod m t \<or>
       (\<exists>s. prm_response_seq p = Some s \<and> (t = s \<or> seq_val t + 32 \<le> seq_val s))"
    "\<And>t. is_received_response_reuse_mod m' t \<longleftrightarrow> is_received_response_reuse_mod m t \<or>
       t = prm_request_seq p \<or> seq_val t + 32 \<le> seq_val (prm_request_seq p)"
    "is_response_reuse_mod m' = is_response_reuse_mod m"
proof -
  define m1 where "m1 = (case prm_response_seq p of Some s \<Rightarrow> update_replay_window_mod m s | None \<Rightarrow> m)"
  have replay: "is_replay_mod m1 t \<longleftrightarrow> is_replay_mod m t \<or>
      (\<exists>s. prm_response_seq p = Some s \<and> (t = s \<or> seq_val t + 32 \<le> seq_val s))" for t
  proof (cases "prm_response_seq p")
    case (Some s)
    then have "\<not> is_replay_mod m s" using assms by (simp add: pending_mod_ok_def)
    from requests_mod.mark_exact [OF this] show ?thesis by (simp add: m1_def Some)
  qed (simp add: m1_def)
  have keep: "is_received_response_reuse_mod m1 = is_received_response_reuse_mod m"
    "is_response_reuse_mod m1 = is_response_reuse_mod m"
    by (simp_all add: m1_def mark_mod_keeps split: option.splits)
  then have "\<not> is_received_response_reuse_mod m1 (prm_request_seq p)"
    using assms by (simp add: pending_mod_ok_def)
  then obtain m' where m': "mark_received_response_mod oc m1 (prm_request_seq p) = Ok m'"
    "\<And>t. is_received_response_reuse_mod m' t \<longleftrightarrow> is_received_response_reuse_mod m1 t \<or>
       t = prm_request_seq p \<or> seq_val t + 32 \<le> seq_val (prm_request_seq p)"
    by (rule received_responses_mod.mark_Ok) blast
  have "commit_mod oc m p = (m', Ok (prm_code p, prm_options p, prm_payload p))"
    using assms m'(1) by (simp add: commit_mod_def pending_mod_ok_def m1_def)
  then show ?thesis
    using replay keep m'(2) mark_mod_keeps(1) [OF m'(1)] by (intro that [of m']) simp_all
qed

lemma unprotect_response_mod_cases:
  obtains (accepted) p m' where "pending_mod_ok m p" "from_piv rpiv = Some (prm_request_seq p)"
      "begin_unprotect_response_mod oc C m option ct rpiv = Ok p"
      "unprotect_response_mod oc C m option ct rpiv = (m', Ok (prm_code p, prm_options p, prm_payload p))"
      "commit_mod oc m p = (m', Ok (prm_code p, prm_options p, prm_payload p))"
  | (refused) e where "unprotect_response_mod oc C m option ct rpiv = (m, Err e)"
  | (panicked) "unprotect_response_mod oc C m option ct rpiv = (m, Panic)"
proof (cases "begin_unprotect_response_mod oc C m option ct rpiv")
  case (Ok p)
  note ok = begin_response_mod_ok [OF Ok]
  obtain m' where "commit_mod oc m p = (m', Ok (prm_code p, prm_options p, prm_payload p))"
    using commit_mod_ok [OF ok(1)] by metis
  with Ok ok show ?thesis by (intro accepted) (simp_all add: unprotect_response_mod_def)
qed (simp_all add: unprotect_response_mod_def refused panicked)

subsection \<open>Responses against lib.rs\<close>

lemma split_rest_mod_accepts: "split_rest oc rest = Ok x \<Longrightarrow> split_rest_mod oc rest = Ok x"
  by (auto simp: split_rest_mod_eq res_simps split: if_splits)

text \<open>A value of the one, if its Partial IV is new to the request window, is the value of the other.\<close>

definition accepts_fresh :: "mod_context \<Rightarrow> (oscore_error, pending_response) res \<Rightarrow>
    (oscore_error, pending_response_mod) res \<Rightarrow> bool" where
  "accepts_fresh m r r' \<longleftrightarrow>
     (\<forall>p. r = Ok p \<and> (\<forall>s. pr_response_seq p = Some s \<longrightarrow> \<not> is_replay_mod m s) \<longrightarrow>
        r' = Ok \<lparr>prm_request_seq = pr_request_seq p, prm_response_seq = pr_response_seq p,
                 prm_code = pr_code p, prm_options = pr_options p, prm_payload = pr_payload p\<rparr>)"

lemma accepts_fresh_intros:
  "(\<And>x. accepts_fresh m (f x) (g x)) \<Longrightarrow> accepts_fresh m (and_then h f) (and_then h g)"
  "(\<And>y. accepts_fresh m (k y) (l y)) \<Longrightarrow> accepts_fresh m (and_then (split_rest oc rest) k) (and_then (split_rest_mod oc rest) l)"
  "accepts_fresh m r s \<Longrightarrow> accepts_fresh m q t \<Longrightarrow> accepts_fresh m (if b then r else q) (if b then s else t)"
  "accepts_fresh m (Err e) u"
  by (cases h) (auto simp: accepts_fresh_def res_simps dest!: split_rest_mod_accepts)

lemma accepts_fresh_piv:
  assumes "\<And>r. accepts_fresh m (f r) (g r)" and "\<And>r p. f r = Ok p \<Longrightarrow> pr_response_seq p = r"
  shows "accepts_fresh m
    (and_then (if b then and_then h (\<lambda>seq. if used seq then Err Replay else Ok (Some seq)) else Ok None) f)
    (and_then (if b then and_then h (\<lambda>seq. if is_replay_mod m seq then Err Replay else Ok (Some seq)) else Ok None) g)"
  using assms by (cases h) (auto simp: accepts_fresh_def)

lemma accepts_fresh_result:
  "accepts_fresh m (Ok \<lparr>pr_request_seq = a, pr_response_seq = b, pr_mark_request_used = c, pr_code = d,
      pr_options = e, pr_payload = f\<rparr>)
    (Ok \<lparr>prm_request_seq = a, prm_response_seq = b, prm_code = d, prm_options = e, prm_payload = f\<rparr>)"
  by (simp add: accepts_fresh_def)

lemma begin_response_mod_accepts:
  "accepts_fresh m (begin_unprotect_response_mode oc C (lib_context m) option ct rpiv False)
     (begin_unprotect_response_mod oc C m option ct rpiv)"
  unfolding begin_unprotect_response_mode_def begin_unprotect_response_mod_def parse_option_mod_eq crypto_mod_eq
    lib_accessors lib_context_fields kid_context_mismatch_refines window_refines Let_def case_prod_beta
    simp_thms if_False
  by (intro accepts_fresh_intros accepts_fresh_piv accepts_fresh_result)
    (auto simp: res_simps split: if_splits)

text \<open>Exchanges with a mirrored context of the module tree, in both forms of a response.\<close>

lemma commit_mod_accepts:
  assumes "begin_unprotect_response_mod oc C m option ct rpiv = Ok p"
  obtains m' where "unprotect_response_mod oc C m option ct rpiv = (m', Ok (prm_code p, prm_options p, prm_payload p))"
    "is_received_response_reuse_mod m' (prm_request_seq p)"
    "\<And>s. prm_response_seq p = Some s \<Longrightarrow> is_replay_mod m' s"
proof -
  obtain m' where "commit_mod oc m p = (m', Ok (prm_code p, prm_options p, prm_payload p))"
    "is_received_response_reuse_mod m' (prm_request_seq p)"
    "\<And>s. prm_response_seq p = Some s \<Longrightarrow> is_replay_mod m' s"
    by (rule commit_mod_ok [OF begin_response_mod_ok(1) [OF assms], of oc]) blast
  with assms that show ?thesis by (simp add: unprotect_response_mod_def)
qed

end
