(* ===== verification/Group.thy ===== *)
theory Group
  imports ModUnprotect
begin

text \<open>
  Group contexts: \<^verbatim>\<open>src/group.rs\<close> over the context of the module tree. A group is a name and
  a master secret; every member derives the same sender identifier and ID context from the name and
  has its index as recipient identifier. \<^verbatim>\<open>Context::from_peer_key\<close>, which the dead-drop
  constructor calls, is in no file of the repository and is an argument here.
\<close>

subsection \<open>Trust\<close>

definition GROUP_NAME_MAX_LEN :: nat where "GROUP_NAME_MAX_LEN = 16"
definition GROUP_MAX_MEMBERS :: nat where "GROUP_MAX_MEMBERS = 32"

datatype group_trust = Unknown | Provisioned | Established | Verified

primrec trust_level :: "group_trust \<Rightarrow> nat" where
  "trust_level Unknown = 0"
| "trust_level Provisioned = 1"
| "trust_level Established = 2"
| "trust_level Verified = 3"

text \<open>The derived order of the enum, by discriminant.\<close>

lemma trust_level_inject: "trust_level a = trust_level b \<Longrightarrow> a = b"
  by (cases a; cases b) simp_all

instantiation group_trust :: linorder
begin

definition less_eq_group_trust :: "group_trust \<Rightarrow> group_trust \<Rightarrow> bool" where
  "a \<le> b \<longleftrightarrow> trust_level a \<le> trust_level b"

definition less_group_trust :: "group_trust \<Rightarrow> group_trust \<Rightarrow> bool" where
  "a < b \<longleftrightarrow> trust_level a < trust_level b"

instance
  by intro_classes (auto simp: less_eq_group_trust_def less_group_trust_def intro: trust_level_inject)

end

definition escalate :: "group_trust \<Rightarrow> group_trust \<Rightarrow> group_trust \<times> (oscore_error, unit) res" where
  "escalate self target = (if self < target then (target, Ok ()) else (self, Err InvalidParam))"

subsection \<open>Identifiers of a group\<close>

definition common_sender_id :: "crypto \<Rightarrow> bytes \<Rightarrow> (oscore_error, bytes) res" where
  "common_sender_id C name =
     (let digest = sha256 C (ascii ''LICHEN-group-sender'' @ [0] @ name) in
      and_then (slice digest 0 4) (copy_at (replicate 4 0) 0))"

definition derive_common_sender_id :: "crypto \<Rightarrow> bytes \<Rightarrow> (oscore_error, bytes) res" where
  "derive_common_sender_id C name =
     (let digest = sha256 C (ascii ''LICHEN-group-sender'' @ [0] @ name) in
      and_then (slice digest 0 4) (\<lambda>d.
        case vec_extend ID_MAX_LEN () [] d of Ok v \<Rightarrow> Ok v | _ \<Rightarrow> Panic))"

definition derive_group_id_context :: "crypto \<Rightarrow> bytes \<Rightarrow> (oscore_error, bytes) res" where
  "derive_group_id_context C name =
     (let digest = sha256 C (ascii ''LICHEN-group-idctx'' @ [0] @ name) in
      and_then (slice digest 0 ID_CONTEXT_CAPACITY) (copy_at (replicate ID_CONTEXT_CAPACITY 0) 0))"

definition member_recipient_id :: "u8 \<Rightarrow> (oscore_error, bytes) res" where
  "member_recipient_id member_index =
     (case vec_push ID_MAX_LEN () [] member_index of Ok v \<Rightarrow> Ok v | _ \<Rightarrow> Panic)"

subsection \<open>The group context\<close>

record group_context =
  gc_group_name :: bytes
  gc_group_name_len :: u8
  gc_master_secret :: bytes
  gc_member_index :: u8
  gc_trust :: group_trust
  gc_member_ctx :: "mod_context option"

definition group_context_new :: "crypto \<Rightarrow> bytes \<Rightarrow> bytes \<Rightarrow> u8 \<Rightarrow> (oscore_error, group_context) res" where
  "group_context_new C name secret member =
     (if GROUP_NAME_MAX_LEN < length name then Err InvalidParam
      else if GROUP_MAX_MEMBERS \<le> as_usize member then Err InvalidParam
      else
        and_then (derive_common_sender_id C name) (\<lambda>common_sender.
        and_then (member_recipient_id member) (\<lambda>member_recipient.
        and_then (derive_group_id_context C name) (\<lambda>group_id_context.
        and_then (context_new_mod C secret None (Some group_id_context) common_sender member_recipient)
          (\<lambda>member_ctx.
        and_then (copy_at (replicate GROUP_NAME_MAX_LEN 0) 0 name) (\<lambda>gn.
          Ok \<lparr>gc_group_name = gn, gc_group_name_len = as_u8 (length name), gc_master_secret = secret,
              gc_member_index = member, gc_trust = Unknown, gc_member_ctx = Some member_ctx\<rparr>))))))"

definition member_context :: "group_context \<Rightarrow> mod_context option" where
  "member_context gc = gc_member_ctx gc"

definition take_member_context :: "group_context \<Rightarrow> group_context \<times> mod_context option" where
  "take_member_context gc = (gc\<lparr>gc_member_ctx := None\<rparr>, gc_member_ctx gc)"

definition group_trust_of :: "group_context \<Rightarrow> group_trust" where
  "group_trust_of gc = gc_trust gc"

definition escalate_trust :: "group_context \<Rightarrow> group_trust \<Rightarrow> group_context \<times> (oscore_error, unit) res" where
  "escalate_trust gc target = (let (t, r) = escalate (gc_trust gc) target in (gc\<lparr>gc_trust := t\<rparr>, r))"

text \<open>Registration and restoration take the member context out before they call the store.\<close>

definition group_register_fresh ::
    "('s, 'x) sender_state_store \<Rightarrow> group_context \<Rightarrow> 's \<Rightarrow>
     's \<times> group_context \<times> ('x context_store_error, mod_context) res" where
  "group_register_fresh S gc st =
     (let (gc, taken) = take_member_context gc in
      case taken of
        None \<Rightarrow> (st, gc, Err Conflict)
      | Some ctx \<Rightarrow>
          let (st, r) = register_fresh_mod S ctx st in
          (case r of
             Ok active_ctx \<Rightarrow> (st, gc\<lparr>gc_member_ctx := Some active_ctx\<rparr>, Ok active_ctx)
           | Err e \<Rightarrow> (st, gc, Err e)
           | Panic \<Rightarrow> (st, gc, Panic)))"

definition group_restore_existing ::
    "('s, 'x) sender_state_store \<Rightarrow> group_context \<Rightarrow> 's \<Rightarrow>
     's \<times> group_context \<times> ('x context_store_error, mod_context) res" where
  "group_restore_existing S gc st =
     (let (gc, taken) = take_member_context gc in
      case taken of
        None \<Rightarrow> (st, gc, Err Conflict)
      | Some ctx \<Rightarrow>
          let (st, r) = restore_existing_mod S ctx st in
          (case r of
             Ok active_ctx \<Rightarrow> (st, gc\<lparr>gc_member_ctx := Some active_ctx\<rparr>, Ok active_ctx)
           | Err e \<Rightarrow> (st, gc, Err e)
           | Panic \<Rightarrow> (st, gc, Panic)))"

definition group_name :: "group_context \<Rightarrow> bytes" where
  "group_name gc = take (as_usize (gc_group_name_len gc)) (gc_group_name gc)"

definition member_index :: "group_context \<Rightarrow> u8" where
  "member_index gc = gc_member_index gc"

definition group_receive_context :: "crypto \<Rightarrow> group_context \<Rightarrow> u8 \<Rightarrow> (oscore_error, mod_context) res" where
  "group_receive_context C gc member =
     (if GROUP_MAX_MEMBERS \<le> as_usize member then Err InvalidParam
      else
        and_then (derive_common_sender_id C (group_name gc)) (\<lambda>common_sender.
        and_then (member_recipient_id member) (\<lambda>member_recipient.
        and_then (derive_group_id_context C (group_name gc)) (\<lambda>group_id_context.
          context_new_mod C (gc_master_secret gc) None (Some group_id_context) member_recipient
            common_sender))))"

definition dead_drop_context ::
    "(bytes \<Rightarrow> bytes \<Rightarrow> bytes \<Rightarrow> bytes \<Rightarrow> (oscore_error, mod_context) res) \<Rightarrow>
     bytes \<Rightarrow> bytes \<Rightarrow> bytes \<Rightarrow> bytes \<Rightarrow> (oscore_error, mod_context) res" where
  "dead_drop_context from_peer_key peer_pubkey peer_iid sid rid = from_peer_key peer_pubkey peer_iid sid rid"

subsection \<open>Trust only rises\<close>

lemma escalate_rises: "escalate self target = (t, r) \<Longrightarrow> self \<le> t \<and> (r = Ok () \<longleftrightarrow> self < t) \<and> r \<noteq> Panic"
  by (auto simp: escalate_def split: if_splits)

lemma escalate_trust_keeps:
  assumes "escalate_trust gc target = (gc', r)"
  shows "gc_trust gc \<le> gc_trust gc'" "gc_member_ctx gc' = gc_member_ctx gc" "group_name gc' = group_name gc"
  using assms escalate_rises
  by (auto simp: escalate_trust_def group_name_def split: prod.splits)

subsection \<open>Identifiers and creation in closed form\<close>

text \<open>SHA-256 returns 32 bytes.\<close>

definition sha_contract :: "crypto \<Rightarrow> bool" where
  "sha_contract C \<longleftrightarrow> (\<forall>x. length (sha256 C x) = 32)"

definition group_sid :: "crypto \<Rightarrow> bytes \<Rightarrow> bytes" where
  "group_sid C name = take 4 (sha256 C (ascii ''LICHEN-group-sender'' @ [0] @ name))"

definition group_idctx :: "crypto \<Rightarrow> bytes \<Rightarrow> bytes" where
  "group_idctx C name = take 8 (sha256 C (ascii ''LICHEN-group-idctx'' @ [0] @ name))"

lemma member_recipient_id_eq [simp]: "member_recipient_id m = Ok [m]"
  by (simp add: member_recipient_id_def vec_push_def)

lemma group_ids:
  assumes "sha_contract C"
  shows "derive_common_sender_id C name = Ok (group_sid C name)" "common_sender_id C name = Ok (group_sid C name)"
    "derive_group_id_context C name = Ok (group_idctx C name)"
    "length (group_sid C name) = 4" "length (group_idctx C name) = 8"
  using assms
  by (simp_all add: sha_contract_def derive_common_sender_id_def common_sender_id_def
      derive_group_id_context_def group_sid_def group_idctx_def slice_def vec_extend_def)

lemma group_params:
  assumes "sha_contract C"
  shows "new_params_ok None (Some (group_idctx C name)) (group_sid C name) [m]"
    "new_params_ok None (Some (group_idctx C name)) [m] (group_sid C name)"
  using group_ids(4,5) [OF assms, of name] by (auto simp: new_params_ok_def dest: arg_cong [of _ _ length])

lemma lib_res_new: "context_new C secret salt ic sid rid = Ok c \<Longrightarrow>
    \<exists>m. context_new_mod C secret salt ic sid rid = Ok m \<and> c = lib_context m"
  using lib_res_Ok [of "context_new_mod C secret salt ic sid rid" c] by (simp add: context_new_refines)

lemma lib_res_new_Ok: "context_new_mod C secret salt ic sid rid = Ok m \<Longrightarrow>
    context_new C secret salt ic sid rid = Ok (lib_context m)"
  using context_new_refines [of C secret salt ic sid rid] by simp

text \<open>Creation succeeds exactly for a name of at most 16 bytes and an index below 32.\<close>

lemma group_context_new_total:
  assumes "hkdf_contract C" "sha_contract C" and "length name \<le> 16" "unat i < 32"
  obtains gc send where "group_context_new C name secret i = Ok gc"
    "context_new_mod C secret None (Some (group_idctx C name)) (group_sid C name) [i] = Ok send"
    "member_context gc = Some send" "group_name gc = name" "gc_master_secret gc = secret"
    "member_index gc = i" "group_trust_of gc = Unknown"
proof -
  obtain c where "context_new C secret None (Some (group_idctx C name)) (group_sid C name) [i] = Ok c"
    by (rule context_new_total [OF assms(1) group_params(1) [OF assms(2)]])
  then obtain send where "context_new_mod C secret None (Some (group_idctx C name)) (group_sid C name) [i] = Ok send"
    using lib_res_new by blast
  with assms(3,4) show ?thesis
    by (intro that)
      (auto simp: group_context_new_def group_ids [OF assms(2)] GROUP_NAME_MAX_LEN_def GROUP_MAX_MEMBERS_def
        member_context_def group_name_def member_index_def group_trust_of_def)
qed

lemma group_context_new_refused:
  "16 < length name \<or> 32 \<le> unat i \<Longrightarrow> group_context_new C name secret i = Err InvalidParam"
  by (auto simp: group_context_new_def GROUP_NAME_MAX_LEN_def GROUP_MAX_MEMBERS_def)

lemma group_context_new_Ok:
  assumes "hkdf_contract C" "sha_contract C" and "group_context_new C name secret i = Ok gc"
  obtains send where
    "context_new_mod C secret None (Some (group_idctx C name)) (group_sid C name) [i] = Ok send"
    "member_context gc = Some send" "group_name gc = name" "gc_master_secret gc = secret"
proof -
  have "length name \<le> 16" "unat i < 32"
    using assms(3) group_context_new_refused [of name i C secret] by force+
  from group_context_new_total [OF assms(1,2) this, of secret] assms(3) show ?thesis
    by (metis res.inject(1) that)
qed

text \<open>The context to receive with mirrors the sender side of every member.\<close>

lemma group_receive_context_total:
  assumes "hkdf_contract C" "sha_contract C" and "unat k < 32"
  obtains recv where "group_receive_context C gc k = Ok recv"
    "context_new_mod C (gc_master_secret gc) None (Some (group_idctx C (group_name gc))) [k]
       (group_sid C (group_name gc)) = Ok recv"
proof -
  obtain c where "context_new C (gc_master_secret gc) None (Some (group_idctx C (group_name gc))) [k]
      (group_sid C (group_name gc)) = Ok c"
    by (rule context_new_total [OF assms(1) group_params(2) [OF assms(2)]])
  then obtain recv where "context_new_mod C (gc_master_secret gc) None (Some (group_idctx C (group_name gc))) [k]
      (group_sid C (group_name gc)) = Ok recv"
    using lib_res_new by blast
  with assms(3) show ?thesis
    by (intro that) (auto simp: group_receive_context_def group_ids [OF assms(2)] GROUP_MAX_MEMBERS_def)
qed

subsection \<open>Members of one group\<close>

text \<open>Contexts of one sender with different recipients protect alike.\<close>

lemma context_new_recipient:
  assumes "context_new C secret salt ic sid r1 = Ok a" "context_new C secret salt ic sid r2 = Ok b"
  shows "b = a\<lparr>ctx_recipient_id := ctx_recipient_id b, ctx_recipient_id_len := ctx_recipient_id_len b,
    ctx_recipient_key := ctx_recipient_key b\<rparr>"
  using assms by (auto simp: context_new_eq split: option.splits if_splits simp del: case_prod_conv)

lemma protect_request_recipient:
  "protect_request_reserved C (a\<lparr>ctx_recipient_id := x, ctx_recipient_id_len := y, ctx_recipient_key := z\<rparr>) =
     protect_request_reserved C a"
  by (simp add: fun_eq_iff protect_request_reserved_def request_option_def request_option_len_def
      sender_id_def id_context_def cong: if_cong)

text \<open>Nor does a request depend on where the sender state stands.\<close>

lemma protect_request_flags:
  "protect_request_reserved C (after_reservation a) = protect_request_reserved C a"
  "protect_request_reserved C (a\<lparr>ctx_active := f, ctx_allow_no_piv_response := g\<rparr>) = protect_request_reserved C a"
  "protect_request_reserved C (a\<lparr>ctx_sender_seq := q, ctx_sender_seq_exhausted := e, ctx_restored := r\<rparr>) =
     protect_request_reserved C a"
  by (simp_all add: fun_eq_iff protect_request_reserved_def request_option_def request_option_len_def
      sender_id_def id_context_def after_reservation_def cong: if_cong)

lemma protect_request_progress:
  "protect_request_reserved C (after_reservation (a\<lparr>ctx_active := f, ctx_allow_no_piv_response := g\<rparr>)) =
     protect_request_reserved C a"
  by (simp only: protect_request_flags)

definition registered :: "mod_context \<Rightarrow> mod_context" where
  "registered m = m\<lparr>mc_active := True, mc_allow_no_piv_response := True\<rparr>"

lemma group_register_Ok:
  assumes "member_context gc = Some m"
  shows "group_register_fresh S gc st = (st', gc', Ok a) \<longleftrightarrow>
    \<not> mc_restored m \<and> \<not> mc_active m \<and>
    compare_exchange S st (mc_context_id m) None (sender_sequence_state_mod m) = (st', Ok True) \<and>
    a = registered m \<and> gc' = gc\<lparr>gc_member_ctx := Some a\<rparr>"
  using assms
  by (auto simp: group_register_fresh_def take_member_context_def member_context_def register_fresh_mod_def
      registered_def res_simps Let_def split: prod.splits res.splits if_splits)

text \<open>A failed call has lost the member context, and nothing brings it back.\<close>

lemma group_failure_loses_context:
  assumes "group_register_fresh S gc st = (st', gc', r) \<or> group_restore_existing S gc st = (st', gc', r)"
    and "\<forall>ctx. r \<noteq> Ok ctx"
  shows "gc' = gc\<lparr>gc_member_ctx := None\<rparr>"
    and "group_register_fresh S gc' su = (su, gc', Err Conflict)"
    and "group_restore_existing S gc' su = (su, gc', Err Conflict)"
proof -
  show gc': "gc' = gc\<lparr>gc_member_ctx := None\<rparr>"
    using assms by (auto simp: group_register_fresh_def group_restore_existing_def take_member_context_def
        split: option.splits prod.splits res.splits)
  show "group_register_fresh S gc' su = (su, gc', Err Conflict)"
    "group_restore_existing S gc' su = (su, gc', Err Conflict)"
    by (simp_all add: gc' group_register_fresh_def group_restore_existing_def take_member_context_def)
qed

text \<open>A member that has registered and reserved.\<close>

lemma reserve_sender_mod_Ok:
  assumes "seq_wf (mc_sender_seq m)" and "reserve_sender_mod S m st = (st', m', Ok s)"
  shows "s = mc_sender_seq m" "lib_context m' = after_reservation (lib_context m)"
proof -
  have "reserve_sender (lib_store S) (lib_context m) st = (st', lib_context m', Ok s)"
    using reserve_sender_refines [of S m st] assms(2) by simp
  with assms(1) show "s = mc_sender_seq m" "lib_context m' = after_reservation (lib_context m)"
    by (simp_all add: reserve_sender_Ok)
qed

lemma lib_registered: "lib_context (registered m) =
    (lib_context m)\<lparr>ctx_active := True, ctx_allow_no_piv_response := True\<rparr>"
  by (simp add: registered_def lib_updates)

lemma group_member_sends:
  assumes C: "hkdf_contract C" "sha_contract C" and new: "group_context_new C name secret i = Ok gc"
    and reg: "group_register_fresh S gc st = (st', gc', Ok a)" and res: "reserve_sender_mod S a st1 = (st2, a', Ok s)"
  obtains send where
    "context_new C secret None (Some (group_idctx C name)) (group_sid C name) [i] = Ok (lib_context send)"
    "lib_context a' = after_reservation ((lib_context send)\<lparr>ctx_active := True, ctx_allow_no_piv_response := True\<rparr>)"
    "s = seq_default" "member_context gc = Some send" "a = registered send"
    "protect_request_reserved_mod C a' = protect_request_reserved C (lib_context send)"
    "compare_exchange S st (mc_context_id send) None (sender_sequence_state_mod send) = (st', Ok True)"
proof -
  from group_context_new_Ok [OF C new] obtain send where
    send: "context_new_mod C secret None (Some (group_idctx C name)) (group_sid C name) [i] = Ok send"
    "member_context gc = Some send" by metis
  note lib = lib_res_new_Ok [OF send(1)]
  from reg have a: "a = registered send"
    "compare_exchange S st (mc_context_id send) None (sender_sequence_state_mod send) = (st', Ok True)"
    by (simp_all add: group_register_Ok [OF send(2)])
  have seq: "mc_sender_seq a = seq_default"
    using context_new_Ok(10) [OF lib] by (simp add: a registered_def)
  then have "seq_wf (mc_sender_seq a)" by simp
  note r = reserve_sender_mod_Ok [OF this res]
  have "protect_request_reserved_mod C a' = protect_request_reserved C (lib_context send)"
    unfolding protect_request_refines [symmetric] r(2) a(1) lib_registered by (rule protect_request_progress)
  with lib r seq a send(2) show ?thesis
    by (intro that) (simp_all add: lib_registered)
qed

text \<open>A member that is in use: it has registered or has been restored, and has since attempted any
  number of reservations, over whatever the store then held. A request depends on none of this.\<close>

inductive reserving :: "('s, 'x) sender_state_store \<Rightarrow> mod_context \<Rightarrow> mod_context \<Rightarrow> bool"
  for S a where
  start: "reserving S a a"
| attempt: "reserving S a b \<Longrightarrow> reserve_sender_mod S b st = (st', b', r) \<Longrightarrow> reserving S a b'"

lemma reserve_sender_mod_step:
  assumes "wf_context (lib_context b)" and "reserve_sender_mod S b st = (st', b', r)"
  shows "wf_context (lib_context b') \<and>
    protect_request_reserved C (lib_context b') = protect_request_reserved C (lib_context b)"
proof -
  have r: "reserve_sender (lib_store S) (lib_context b) st = (st', lib_context b', r)"
    using reserve_sender_refines [of S b st] assms(2) by simp
  from reserve_sender_wf [OF assms(1) r] have wf: "wf_context (lib_context b')" .
  have "seq_wf (ctx_sender_seq (lib_context b))" using assms(1) by (simp add: wf_context_def)
  from r have "lib_context b' = lib_context b \<or> lib_context b' = after_reservation (lib_context b)"
    by (auto simp: reserve_sender_eq [OF \<open>seq_wf _\<close>] Let_def split: prod.splits res.splits bool.splits if_splits)
  with wf show ?thesis by (auto simp: protect_request_flags simp del: protect_request_refines)
qed

lemma reserving_keeps:
  assumes "reserving S a b" and "wf_context (lib_context a)"
  shows "wf_context (lib_context b) \<and>
    protect_request_reserved C (lib_context b) = protect_request_reserved C (lib_context a)"
  using assms by (induction) (metis reserve_sender_mod_step)+

lemma group_restore_Ok:
  assumes "member_context gc = Some m" and "group_restore_existing S gc st = (st', gc', Ok a)"
  shows "restore_existing_mod S m st = (st', Ok a)"
  using assms
  by (auto simp: group_restore_existing_def take_member_context_def member_context_def
      split: prod.splits res.splits)

lemma restored_member:
  assumes "wf_context (lib_context m)" and "restore_existing_mod S m st = (st', Ok a)"
  shows "wf_context (lib_context a) \<and>
    protect_request_reserved C (lib_context a) = protect_request_reserved C (lib_context m)"
proof -
  from assms(2) obtain s n where n: "set_sender_state_mod m s = Ok n"
    and a: "a = n\<lparr>mc_restored := True, mc_active := True, mc_allow_no_piv_response := False\<rparr>"
    by (auto simp: restore_existing_mod_def res_simps Let_def split: prod.splits)
  have lib: "set_sender_state (lib_context m) s = Ok (lib_context n)"
    using set_sender_state_refines [of m s] n by simp
  then obtain q e where q: "lib_context n = (lib_context m)\<lparr>ctx_sender_seq := q, ctx_sender_seq_exhausted := e\<rparr>"
    unfolding set_sender_state_eq by (metis res.inject(1) res.distinct(1))
  from wf_set_sender_state [OF assms(1) lib] show ?thesis
    by (simp add: a lib_updates wf_flags q protect_request_flags del: protect_request_refines)
qed

text \<open>So every member of a group protects what its number and the group determine.\<close>

lemma group_member_protects:
  assumes "hkdf_contract C" "sha_contract C" "length secret = 16" and "group_context_new C name secret i = Ok gc"
    and "group_register_fresh S gc st = (st1, gc', Ok a) \<or> group_restore_existing S gc st = (st1, gc', Ok a)"
    and "reserving S a b" "reserve_sender_mod S b st2 = (st3, b', Ok s)"
  obtains send where "context_new C secret None (Some (group_idctx C name)) (group_sid C name) [i] = Ok send"
    "protect_request_reserved_mod C b' = protect_request_reserved C send" "seq_wf s"
proof -
  from group_context_new_Ok [OF assms(1,2,4)] obtain m where
    m: "context_new_mod C secret None (Some (group_idctx C name)) (group_sid C name) [i] = Ok m"
    "member_context gc = Some m" by metis
  note lib = lib_res_new_Ok [OF m(1)]
  note wf = context_new_wf [OF assms(1,3) lib]
  have a: "wf_context (lib_context a) \<and>
      protect_request_reserved C (lib_context a) = protect_request_reserved C (lib_context m)"
    using assms(5)
  proof
    assume "group_register_fresh S gc st = (st1, gc', Ok a)"
    then have "a = registered m" by (simp add: group_register_Ok [OF m(2)])
    with wf show ?thesis by (simp add: lib_registered wf_flags protect_request_flags del: protect_request_refines)
  next
    assume "group_restore_existing S gc st = (st1, gc', Ok a)"
    from restored_member [OF wf group_restore_Ok [OF m(2) this]] show ?thesis .
  qed
  note b = reserving_keeps [OF assms(6) conjunct1 [OF a], of C]
  note b' = reserve_sender_mod_step [OF conjunct1 [OF b] assms(7), of C]
  have "seq_wf (mc_sender_seq b)" using conjunct1 [OF b] by (simp add: wf_context_def)
  moreover from this have "s = mc_sender_seq b" by (rule reserve_sender_mod_Ok [OF _ assms(7)])
  ultimately show ?thesis
    using that [OF lib] a b b' by simp
qed

end
