(* ===== verification/ModProtocol.thy ===== *)
theory ModProtocol
  imports Group Protocol
begin

text \<open>
  Whole exchanges over the module tree: the requests and responses of a peer in any order. The
  module tree keeps one window for the numbers of a peer's requests and of its responses, so the
  trace of accepted numbers is one list. Then two facts about restarts and about stores.
\<close>

subsection \<open>Traces of a window\<close>

text \<open>The numbers \<open>acc\<close> were accepted, one after the other, on the way from \<open>c\<close> to \<open>d\<close>.\<close>

definition window_trace :: "('w \<Rightarrow> oscore_seq_num \<Rightarrow> bool) \<Rightarrow> 'w \<Rightarrow> oscore_seq_num list \<Rightarrow> 'w \<Rightarrow> bool" where
  "window_trace reuse c acc d \<longleftrightarrow>
     distinct acc \<and> (\<forall>s \<in> set acc. \<not> reuse c s) \<and>
     (\<forall>t. reuse d t \<longleftrightarrow> reuse c t \<or> t \<in> set acc \<or> (\<exists>s \<in> set acc. seq_val t + 32 \<le> seq_val s))"

lemma window_trace_Nil: "window_trace reuse c [] c"
  by (simp add: window_trace_def)

lemma window_trace_keep:
  "reuse c' = reuse c \<Longrightarrow> window_trace reuse c' acc d \<Longrightarrow> window_trace reuse c acc d"
  by (simp add: window_trace_def)

lemma window_trace_Cons:
  assumes "\<not> reuse c s" and "\<And>t. reuse c' t \<longleftrightarrow> reuse c t \<or> t = s \<or> seq_val t + 32 \<le> seq_val s"
    and "window_trace reuse c' acc d"
  shows "window_trace reuse c (s # acc) d"
  using assms unfolding window_trace_def by auto

subsection \<open>Everything a peer sends\<close>

datatype peer_message =
  PeerRequest bytes bytes
| PeerResponse bytes bytes bytes

text \<open>The requests that were answered, and the peer's numbers that were accepted, in requests and
  in responses.\<close>

primrec receive_peer_mod ::
    "bool \<Rightarrow> crypto \<Rightarrow> mod_context \<Rightarrow> peer_message list \<Rightarrow>
     mod_context \<times> oscore_seq_num list \<times> oscore_seq_num list" where
  "receive_peer_mod oc C m [] = (m, [], [])"
| "receive_peer_mod oc C m (x # xs) =
     (case x of
        PeerRequest option ct \<Rightarrow>
          let (m, r) = unprotect_request_mod oc C m option ct;
              (d, answered, numbers) = receive_peer_mod oc C m xs
          in (d, answered, (case r of Ok _ \<Rightarrow> the (request_seq option) # numbers | _ \<Rightarrow> numbers))
      | PeerResponse option ct rpiv \<Rightarrow>
          (case begin_unprotect_response_mod oc C m option ct rpiv of
             Ok p \<Rightarrow>
               let (m, r) = commit_mod oc m p;
                   (d, answered, numbers) = receive_peer_mod oc C m xs
               in (d, prm_request_seq p # answered,
                   (case prm_response_seq p of Some s \<Rightarrow> s # numbers | None \<Rightarrow> numbers))
           | _ \<Rightarrow> receive_peer_mod oc C m xs))"

lemma request_seq_accepted_mod:
  assumes "unprotect_request_body_mod oc C m option ct = Ok (s, out)"
  shows "request_seq option = Some s" and "\<not> is_replay_mod m s"
  using assms
  by (auto simp: unprotect_request_body_mod_def request_seq_def parse_option_mod_eq res_simps Let_def
      split: if_splits prod.splits)

lemma receive_peer_exact:
  "receive_peer_mod oc C m xs = (d, answered, numbers) \<Longrightarrow>
   window_trace is_replay_mod m numbers d \<and> window_trace is_received_response_reuse_mod m answered d"
proof (induction xs arbitrary: m d answered numbers)
  case Nil
  then show ?case by (simp add: window_trace_Nil)
next
  case (Cons x xs)
  show ?case
  proof (cases x)
    case (PeerRequest option ct)
    obtain m' r where u: "unprotect_request_mod oc C m option ct = (m', r)" by fastforce
    obtain numbers' where rest: "receive_peer_mod oc C m' xs = (d, answered, numbers')"
      and n: "numbers = (case r of Ok _ \<Rightarrow> the (request_seq option) # numbers' | _ \<Rightarrow> numbers')"
      using Cons.prems by (auto simp: PeerRequest u split: prod.splits)
    note IH = Cons.IH [OF rest]
    show ?thesis
    proof (cases "unprotect_request_body_mod oc C m option ct")
      case (Ok y)
      obtain s out where y: "y = (s, out)" by (cases y)
      note acc = request_seq_accepted_mod [OF Ok [unfolded y]]
      have m': "m' = update_replay_window_mod m s" "r = Ok out"
        using u by (auto simp: unprotect_request_mod_def Ok y)
      have "is_replay_mod m' t \<longleftrightarrow> is_replay_mod m t \<or> t = s \<or> seq_val t + 32 \<le> seq_val s" for t
        using requests_mod.mark_exact [OF acc(2)] by (simp add: m')
      from window_trace_Cons [of is_replay_mod, OF acc(2) this] IH
      show ?thesis
        using mark_mod_keeps(2) [of m s] window_trace_keep [of is_received_response_reuse_mod m' m]
        by (simp add: n m' acc(1))
    next
      case (Err e)
      with u IH n show ?thesis by (auto simp: unprotect_request_mod_def)
    next
      case Panic
      with u IH n show ?thesis by (auto simp: unprotect_request_mod_def)
    qed
  next
    case (PeerResponse option ct rpiv)
    show ?thesis
    proof (cases "begin_unprotect_response_mod oc C m option ct rpiv")
      case (Ok p)
      note ok = begin_response_mod_ok(1) [OF Ok]
      then have fresh: "\<not> is_received_response_reuse_mod m (prm_request_seq p)"
        and new: "prm_response_seq p = Some s \<Longrightarrow> \<not> is_replay_mod m s" for s
        by (simp_all add: pending_mod_ok_def)
      obtain m' where c: "commit_mod oc m p = (m', Ok (prm_code p, prm_options p, prm_payload p))"
        and w: "\<And>t. is_replay_mod m' t \<longleftrightarrow> is_replay_mod m t \<or>
          (\<exists>s. prm_response_seq p = Some s \<and> (t = s \<or> seq_val t + 32 \<le> seq_val s))"
        and w': "\<And>t. is_received_response_reuse_mod m' t \<longleftrightarrow> is_received_response_reuse_mod m t \<or>
          t = prm_request_seq p \<or> seq_val t + 32 \<le> seq_val (prm_request_seq p)"
        by (rule commit_mod_ok [OF ok, of oc]) blast
      obtain answered' numbers' where rest: "receive_peer_mod oc C m' xs = (d, answered', numbers')"
        and n: "answered = prm_request_seq p # answered'"
          "numbers = (case prm_response_seq p of Some s \<Rightarrow> s # numbers' | None \<Rightarrow> numbers')"
        using Cons.prems by (auto simp: PeerResponse Ok c split: prod.splits)
      note IH = Cons.IH [OF rest]
      have "window_trace is_received_response_reuse_mod m answered d"
        using window_trace_Cons [of is_received_response_reuse_mod, OF fresh w'] IH by (simp add: n)
      moreover have "window_trace is_replay_mod m numbers d"
      proof (cases "prm_response_seq p")
        case None
        then have "is_replay_mod m' = is_replay_mod m" using w by (simp add: fun_eq_iff)
        with IH None show ?thesis by (simp add: n window_trace_keep [of is_replay_mod m' m])
      next
        case (Some s)
        then have "is_replay_mod m' t \<longleftrightarrow> is_replay_mod m t \<or> t = s \<or> seq_val t + 32 \<le> seq_val s" for t
          using w by simp
        from window_trace_Cons [of is_replay_mod, OF new [OF Some] this] IH Some show ?thesis by (simp add: n)
      qed
      ultimately show ?thesis by simp
    next
      case (Err e)
      with Cons.prems show ?thesis by (intro Cons.IH) (simp add: PeerResponse)
    next
      case Panic
      with Cons.prems show ?thesis by (intro Cons.IH) (simp add: PeerResponse)
    qed
  qed
qed

subsection \<open>Exchanges of a response\<close>

lemma no_piv_exchange_mod:
  assumes "wf_context (lib_context c)" "wf_context (lib_context d)" "mirrored (lib_context c) (lib_context d)"
    and "ccm_contract C" "from_piv rpiv = Some rs" "\<not> is_received_response_reuse_mod c rs"
    and "response_class code" "body_ok opts payload" "length (plaintext_of code opts payload) \<le> 256"
    and "mc_active d" "mc_allow_no_piv_response d" "\<not> is_response_reuse_mod d rs"
  shows "\<exists>d' ct c'. protect_response_mod oc C d code opts payload (recipient_id_mod d) rpiv False = (d', Ok (ct, [])) \<and>
    unprotect_response_mod oc C c [] ct rpiv = (c', Ok (code, opts, payload)) \<and>
    is_response_reuse_mod d' rs \<and> is_received_response_reuse_mod c' rs"
proof -
  have fresh: "\<not> is_response_reuse (lib_context d) rs" "\<not> is_received_response_reuse (lib_context c) rs"
    "ctx_active (lib_context d)" "ctx_allow_no_piv_response (lib_context d)"
    using assms(6,10-12) by (simp_all add: window_refines)
  obtain d' ct where p: "protect_response oc C (lib_context d) code opts payload (recipient_id (lib_context d)) rpiv False =
      (d', Ok (ct, []))" "is_response_reuse d' rs"
    and b: "begin_unprotect_response_mode oc C (lib_context c) [] ct rpiv False = Ok \<lparr>pr_request_seq = rs,
      pr_response_seq = None, pr_mark_request_used = True, pr_code = code, pr_options = opts, pr_payload = payload\<rparr>"
    by (rule no_piv_response_sealed [OF assms(1-4) fresh(3,4) assms(5) fresh(1,2) assms(7-9)])
  obtain d1 where d1: "protect_response_mod oc C d code opts payload (recipient_id_mod d) rpiv False = (d1, Ok (ct, []))"
    "lib_context d1 = d'"
    using p(1) protect_response_refines [of oc C d code opts payload "recipient_id_mod d" rpiv False]
    by (cases "protect_response_mod oc C d code opts payload (recipient_id_mod d) rpiv False") simp
  have "begin_unprotect_response_mod oc C c [] ct rpiv = Ok \<lparr>prm_request_seq = rs, prm_response_seq = None,
      prm_code = code, prm_options = opts, prm_payload = payload\<rparr>"
    using begin_response_mod_accepts [of c oc C "[]" ct rpiv] b by (simp add: accepts_fresh_def)
  from commit_mod_accepts [OF this] obtain c' where
    "unprotect_response_mod oc C c [] ct rpiv = (c', Ok (code, opts, payload))" "is_received_response_reuse_mod c' rs"
    by auto
  moreover have "is_response_reuse_mod d1 rs" using p(2) d1(2) by (metis window_refines(1))
  ultimately show ?thesis using d1(1) by blast
qed

lemma piv_exchange_mod:
  assumes "wf_context (lib_context c)" "wf_context (lib_context d)" "mirrored (lib_context c) (lib_context d)"
    and "ccm_contract C" "from_piv rpiv = Some rs" "\<not> is_received_response_reuse_mod c rs"
    and "response_class code" "body_ok opts payload" "length (plaintext_of code opts payload) \<le> 256"
    and "seq_wf s" "\<not> is_replay_mod c s"
  shows "\<exists>ct opt c'. protect_response_with_reserved_piv_mod C d s code opts payload (recipient_id_mod d) rpiv = Ok (ct, opt) \<and>
    unprotect_response_mod oc C c opt ct rpiv = (c', Ok (code, opts, payload)) \<and>
    is_received_response_reuse_mod c' rs \<and> is_replay_mod c' s"
proof -
  have fresh: "\<not> is_received_response_reuse (lib_context c) rs" "\<not> is_received_response_piv_reuse (lib_context c) s"
    using assms(6) by (simp add: window_refines)
      (simp add: is_received_response_piv_reuse_def window_reuse_def lib_context_def)
  obtain ct where q: "protect_response_with_reserved_piv C (lib_context d) s code opts payload
      (recipient_id (lib_context d)) rpiv = Ok (ct, option_encoding (piv_bytes s) None None)"
    and b: "begin_unprotect_response_mode oc C (lib_context c) (option_encoding (piv_bytes s) None None) ct rpiv False =
      Ok \<lparr>pr_request_seq = rs, pr_response_seq = Some s, pr_mark_request_used = (\<not> False), pr_code = code,
          pr_options = opts, pr_payload = payload\<rparr>"
    by (rule piv_response_sealed [OF assms(1-4) assms(10,5) _ fresh(2) assms(7-9), of False]) (use fresh(1) in auto)
  have "begin_unprotect_response_mod oc C c (option_encoding (piv_bytes s) None None) ct rpiv =
      Ok \<lparr>prm_request_seq = rs, prm_response_seq = Some s, prm_code = code, prm_options = opts, prm_payload = payload\<rparr>"
    using begin_response_mod_accepts [of c oc C "option_encoding (piv_bytes s) None None" ct rpiv] b assms(11)
    by (simp add: accepts_fresh_def)
  from commit_mod_accepts [OF this] q show ?thesis by auto
qed

subsection \<open>Restarts\<close>

text \<open>What a request is decrypted to does not depend on the sender state or on the flags.\<close>

lemma unprotect_request_mod_sender:
  "unprotect_request_body_mod oc C (m\<lparr>mc_sender_seq := q, mc_sender_seq_exhausted := e, mc_restored := f,
     mc_active := g, mc_allow_no_piv_response := h\<rparr>) option ct =
   unprotect_request_body_mod oc C m option ct"
  by (simp add: unprotect_request_body_mod_def recipient_id_mod_def is_replay_mod_def
      kid_context_mismatch_mod_def id_context_mod_def cong: if_cong)

lemma restore_existing_mod_Ok:
  assumes "restore_existing_mod S m st = (st', Ok m')"
  obtains q e where "m' = m\<lparr>mc_sender_seq := q, mc_sender_seq_exhausted := e, mc_restored := True,
     mc_active := True, mc_allow_no_piv_response := False\<rparr>"
  using assms
  by (auto simp: restore_existing_mod_def set_sender_state_mod_def res_simps Let_def split: prod.splits if_splits)

text \<open>The live context refuses what it has accepted.\<close>

lemma update_replay_window_mod_fields:
  "\<exists>h w. update_replay_window_mod m s = m\<lparr>mc_recipient_seq := h, mc_replay_window := w\<rparr>"
proof -
  have "m\<lparr>mc_replay_window := w\<rparr> = m\<lparr>mc_recipient_seq := mc_recipient_seq m, mc_replay_window := w\<rparr>" for w
    by simp
  moreover have "m = m\<lparr>mc_recipient_seq := mc_recipient_seq m, mc_replay_window := mc_replay_window m\<rparr>"
    by simp
  moreover have "m\<lparr>mc_replay_window := w, mc_recipient_seq := s\<rparr> = m\<lparr>mc_recipient_seq := s, mc_replay_window := w\<rparr>" for w
    by simp
  ultimately show ?thesis unfolding update_replay_window_mod_def Let_def by metis
qed

lemma accepted_request_refused:
  assumes "unprotect_request_body_mod oc C m option ct = Ok (s, out)"
  shows "unprotect_request_body_mod oc C (update_replay_window_mod m s) option ct = Err Replay"
proof -
  obtain h w where f: "update_replay_window_mod m s = m\<lparr>mc_recipient_seq := h, mc_replay_window := w\<rparr>"
    using update_replay_window_mod_fields by blast
  have r: "is_replay_mod (update_replay_window_mod m s) s"
    using requests_mod.mark_exact [OF request_seq_accepted_mod(2) [OF assms]] by simp
  have same: "recipient_id_mod (update_replay_window_mod m s) = recipient_id_mod m"
    "kid_context_mismatch_mod (update_replay_window_mod m s) = kid_context_mismatch_mod m"
    by (simp_all add: f fun_eq_iff recipient_id_mod_def kid_context_mismatch_mod_def id_context_mod_def)
  show ?thesis
    using assms r
    by (auto simp: unprotect_request_body_mod_def same parse_option_mod_eq res_simps Let_def
        split: if_splits prod.splits)
qed

subsection \<open>One store\<close>

text \<open>Over a store that keeps the compare-and-swap promise, an identifier that was registered stays
  registered, and a second registration fails.\<close>

lemma second_registration_fails:
  assumes store: "store_contract (lib_store S) view"
    and first: "compare_exchange S st k None q = (st1, Ok True)"
    and second: "register_fresh_mod S b st1 = (st2, r)" and k: "mc_context_id b = k"
  shows "r \<noteq> Ok c"
proof
  assume "r = Ok c"
  with second have "compare_exchange S st1 k None (sender_sequence_state_mod b) = (st2, Ok True)"
    by (auto simp: register_fresh_mod_def k res_simps Let_def split: if_splits prod.splits)
  then have swap: "compare_exchange_sender (lib_store S) st1 k None (sender_sequence_state_mod b) = (st2, Ok True)"
    "compare_exchange_sender (lib_store S) st k None q = (st1, Ok True)"
    using first by simp_all
  note cas = sender_store.cas [OF sender_store.intro [OF store]]
  have "view st1 k = None" using swap(1) by (rule cas) simp_all
  moreover have "view st1 k = Some q" using swap(2) by (rule cas) simp_all
  ultimately show False by simp
qed

text \<open>A request that \<^verbatim>\<open>lib.rs\<close> accepts is accepted by the module tree.\<close>

lemma unprotect_request_mod_accepts:
  assumes "unprotect_request oc C (lib_context m) option ct = (d, Ok out)"
  obtains m' where "unprotect_request_mod oc C m option ct = (m', Ok out)" "lib_context m' = d"
proof (cases rule: unprotect_request_mod_cases [of oc C m option ct])
  case same
  with assms that show ?thesis by (cases "unprotect_request_mod oc C m option ct") simp
next
  case stricter
  with assms show ?thesis by simp
qed

end
