(* ===== verification/DeviceHistories.thy ===== *)
theory DeviceHistories
  imports ModProtocol SenderSafety
begin

text \<open>
  Histories of the module tree: any number of devices, each with a context of its own or a member of
  a group (\<^verbatim>\<open>src/context.rs\<close>, \<^verbatim>\<open>src/group.rs\<close>), establish, join, register, restore,
  reserve, take the member context out, exchange messages, fail and crash over one
  \<open>SenderStateStore\<close>. Every step is matched by none or one step of the abstract system of
  \<open>SenderSafety\<close>, so that what is proved there about reservations holds here, although all the
  members of a group share one identifier.
\<close>

subsection \<open>Devices\<close>

text \<open>A device holds the group that it has joined and the context that it owns: the one it has
  established, or the one that it has taken out of the group.\<close>

record device =
  dev_group :: "group_context option"
  dev_context :: "mod_context option"

record 's network =
  net_store :: 's
  net_devices :: "nat \<Rightarrow> device option"
  net_log :: "(mod_context \<times> oscore_seq_num) list"

abbreviation set_device :: "'s network \<Rightarrow> nat \<Rightarrow> device \<Rightarrow> 's network" where
  "set_device y i v \<equiv> y\<lparr>net_devices := (net_devices y)(i \<mapsto> v)\<rparr>"

text \<open>Every operation that takes the context by value loses it when it fails.\<close>

definition ok_value :: "('e, 'a) res \<Rightarrow> 'a option" where
  "ok_value r = (case r of Ok x \<Rightarrow> Some x | _ \<Rightarrow> None)"

inductive device_step ::
    "crypto \<Rightarrow> bool \<Rightarrow> ('s, 'x) sender_state_store \<Rightarrow> 's network \<Rightarrow> 's network \<Rightarrow> bool"
  for C oc S where
  establish: "context_new_fresh_mod C secret salt ic sid rid = Ok m \<Longrightarrow> length secret = 16 \<Longrightarrow>
    device_step C oc S y (set_device y i \<lparr>dev_group = None, dev_context = Some m\<rparr>)"
| join: "group_context_new C name secret k = Ok gc \<Longrightarrow> length secret = 16 \<Longrightarrow>
    device_step C oc S y (set_device y i \<lparr>dev_group = Some gc, dev_context = None\<rparr>)"
| crash: "device_step C oc S y (y\<lparr>net_devices := (net_devices y)(i := None)\<rparr>)"
| member_register: "net_devices y i = Some v \<Longrightarrow> dev_group v = Some gc \<Longrightarrow>
    group_register_fresh S gc (net_store y) = (st', gc', r) \<Longrightarrow>
    device_step C oc S y ((set_device y i (v\<lparr>dev_group := Some gc'\<rparr>))\<lparr>net_store := st'\<rparr>)"
| member_restore: "net_devices y i = Some v \<Longrightarrow> dev_group v = Some gc \<Longrightarrow>
    group_restore_existing S gc (net_store y) = (st', gc', r) \<Longrightarrow>
    device_step C oc S y ((set_device y i (v\<lparr>dev_group := Some gc'\<rparr>))\<lparr>net_store := st'\<rparr>)"
| member_trust: "net_devices y i = Some v \<Longrightarrow> dev_group v = Some gc \<Longrightarrow>
    escalate_trust gc t = (gc', q) \<Longrightarrow>
    device_step C oc S y (set_device y i (v\<lparr>dev_group := Some gc'\<rparr>))"
| member_take: "net_devices y i = Some v \<Longrightarrow> dev_group v = Some gc \<Longrightarrow>
    take_member_context gc = (gc', Some m) \<Longrightarrow>
    device_step C oc S y (set_device y i \<lparr>dev_group = Some gc', dev_context = Some m\<rparr>)"
| register: "net_devices y i = Some v \<Longrightarrow> dev_context v = Some m \<Longrightarrow>
    register_fresh_mod S m (net_store y) = (st', r) \<Longrightarrow>
    device_step C oc S y ((set_device y i (v\<lparr>dev_context := ok_value r\<rparr>))\<lparr>net_store := st'\<rparr>)"
| restore: "net_devices y i = Some v \<Longrightarrow> dev_context v = Some m \<Longrightarrow>
    restore_existing_mod S m (net_store y) = (st', r) \<Longrightarrow>
    device_step C oc S y ((set_device y i (v\<lparr>dev_context := ok_value r\<rparr>))\<lparr>net_store := st'\<rparr>)"
| reserve: "net_devices y i = Some v \<Longrightarrow> dev_context v = Some m \<Longrightarrow>
    reserve_sender_mod S m (net_store y) = (st', m', z) \<Longrightarrow>
    device_step C oc S y ((set_device y i (v\<lparr>dev_context := Some m'\<rparr>))\<lparr>net_store := st',
      net_log := (case z of Ok s \<Rightarrow> (m, s) # net_log y | _ \<Rightarrow> net_log y)\<rparr>)"
| respond: "net_devices y i = Some v \<Longrightarrow> dev_context v = Some m \<Longrightarrow>
    protect_response_mod oc C m code opts payload kid piv incl = (m', p) \<Longrightarrow>
    device_step C oc S y (set_device y i (v\<lparr>dev_context := Some m'\<rparr>))"
| receive_request: "net_devices y i = Some v \<Longrightarrow> dev_context v = Some m \<Longrightarrow>
    unprotect_request_mod oc C m option ct = (m', u) \<Longrightarrow>
    device_step C oc S y (set_device y i (v\<lparr>dev_context := Some m'\<rparr>))"
| receive_response: "net_devices y i = Some v \<Longrightarrow> dev_context v = Some m \<Longrightarrow>
    unprotect_response_mod oc C m option ct rpiv = (m', u) \<Longrightarrow>
    device_step C oc S y (set_device y i (v\<lparr>dev_context := Some m'\<rparr>))"

inductive device_reach ::
    "crypto \<Rightarrow> bool \<Rightarrow> ('s, 'x) sender_state_store \<Rightarrow> 's \<Rightarrow> 's network \<Rightarrow> bool" for C oc S st0 where
  start: "device_reach C oc S st0 \<lparr>net_store = st0, net_devices = Map.empty, net_log = []\<rparr>"
| step: "device_reach C oc S st0 y \<Longrightarrow> device_step C oc S y y' \<Longrightarrow> device_reach C oc S st0 y'"

subsection \<open>The abstract system behind a network\<close>

definition held :: "device \<Rightarrow> mod_context option" where
  "held v = (case dev_context v of Some m \<Rightarrow> Some m | None \<Rightarrow> Option.bind (dev_group v) gc_member_ctx)"

definition abs_system :: "'s network \<Rightarrow> 's system" where
  "abs_system y = \<lparr>sys_store = net_store y,
     sys_contexts = (\<lambda>i. map_option lib_context (Option.bind (net_devices y i) held)),
     sys_log = map (\<lambda>(m, s). (mc_context_id m, s)) (net_log y)\<rparr>"

text \<open>A device that owns a context has none left in its group.\<close>

definition device_ok :: "device \<Rightarrow> bool" where
  "device_ok v \<longleftrightarrow> dev_context v = None \<or> (\<forall>gc. dev_group v = Some gc \<longrightarrow> gc_member_ctx gc = None)"

lemma abs_system_simps [simp]:
  "sys_store (abs_system y) = net_store y"
  "sys_contexts (abs_system y) i = map_option lib_context (Option.bind (net_devices y i) held)"
  by (simp_all add: abs_system_def)

lemma abs_set_device:
  "abs_system (set_device y i v) =
     (abs_system y)\<lparr>sys_contexts := (sys_contexts (abs_system y))(i := map_option lib_context (held v))\<rparr>"
  "abs_system (y\<lparr>net_devices := (net_devices y)(i := None)\<rparr>) =
     (abs_system y)\<lparr>sys_contexts := (sys_contexts (abs_system y))(i := None)\<rparr>"
  "abs_system ((set_device y i v)\<lparr>net_store := st\<rparr>) =
     (abs_system y)\<lparr>sys_store := st,
       sys_contexts := (sys_contexts (abs_system y))(i := map_option lib_context (held v))\<rparr>"
  "abs_system ((set_device y i v)\<lparr>net_store := st, net_log := l\<rparr>) =
     (abs_system y)\<lparr>sys_store := st,
       sys_contexts := (sys_contexts (abs_system y))(i := map_option lib_context (held v)),
       sys_log := map (\<lambda>(m, s). (mc_context_id m, s)) l\<rparr>"
  by (auto simp: abs_system_def fun_eq_iff)

subsection \<open>Operations that do not touch the store\<close>

lemma begin_response_mod_piv:
  assumes "begin_unprotect_response_mod oc C m option ct rpiv = Ok p"
    and "P None" and "\<And>piv s. from_piv piv = Some s \<Longrightarrow> P (Some s)"
  shows "P (prm_response_seq p)"
  using assms
  by (auto simp: begin_unprotect_response_mod_def res_simps Let_def word_gt_0
      simp del: parse_option_mod_eq split: if_splits)

lemma begin_response_mod_seqs:
  assumes "begin_unprotect_response_mod oc C m option ct rpiv = Ok p"
  shows "seq_wf (prm_request_seq p)" and "pred_option seq_wf (prm_response_seq p)"
proof -
  show "seq_wf (prm_request_seq p)"
    using begin_response_mod_ok(2) [OF assms] by (rule from_piv_Some(1))
  show "pred_option seq_wf (prm_response_seq p)"
    by (rule begin_response_mod_piv [OF assms]) (auto dest: from_piv_Some(1))
qed

lemma mark_mod_id:
  "mark_received_response_mod oc m s = Ok m' \<Longrightarrow> mc_context_id m' = mc_context_id m"
  "mc_context_id (update_replay_window_mod m s) = mc_context_id m"
  by (auto simp: mark_received_response_mod_def update_replay_window_mod_def Let_def res_simps split: if_splits)

lemma mark_mod_wf:
  assumes "wf_context (lib_context m)" and "seq_wf s"
  shows "mark_received_response_mod oc m s = Ok m' \<Longrightarrow> wf_context (lib_context m')"
    and "wf_context (lib_context (update_replay_window_mod m s))"
proof -
  assume "mark_received_response_mod oc m s = Ok m'"
  then have "mark_received_response oc (lib_context m) s = Ok (lib_context m')"
    by (simp flip: window_mark_refines)
  with assms show "wf_context (lib_context m')" by (auto dest: mark_wf)
next
  show "wf_context (lib_context (update_replay_window_mod m s))"
    unfolding window_mark_refines using assms by (rule update_replay_window_wf)
qed

lemma unprotect_request_mod_keeps:
  assumes "unprotect_request_mod oc C m option ct = (m', r)" and wf: "wf_context (lib_context m)"
  shows "wf_context (lib_context m') \<and> mc_context_id m' = mc_context_id m"
proof (cases "unprotect_request_body_mod oc C m option ct")
  case (Ok x)
  obtain s out where x: "x = (s, out)" by (cases x)
  from request_seq_accepted_mod(1) [OF Ok [unfolded x]] have "seq_wf s"
    by (auto simp: request_seq_def dest: from_piv_Some(1) split: res.splits)
  with assms Ok x show ?thesis
    by (auto simp: unprotect_request_mod_def mark_mod_id intro: mark_mod_wf)
qed (use assms in \<open>auto simp: unprotect_request_mod_def\<close>)

lemma unprotect_response_mod_keeps:
  assumes "unprotect_response_mod oc C m option ct rpiv = (m', r)" and wf: "wf_context (lib_context m)"
  shows "wf_context (lib_context m') \<and> mc_context_id m' = mc_context_id m"
proof (cases rule: unprotect_response_mod_cases [of m rpiv oc C option ct])
  case (accepted p m1)
  define m2 where "m2 = (case prm_response_seq p of Some s \<Rightarrow> update_replay_window_mod m s | None \<Rightarrow> m)"
  have m2: "wf_context (lib_context m2) \<and> mc_context_id m2 = mc_context_id m"
    using wf begin_response_mod_seqs(2) [OF accepted(3)]
    by (auto simp: m2_def mark_mod_id intro: mark_mod_wf split: option.splits)
  have "mark_received_response_mod oc m2 (prm_request_seq p) = Ok m1"
    using accepted(5) by (auto simp: commit_mod_def m2_def Let_def split: if_splits res.splits)
  with m2 mark_mod_wf(1) [OF _ begin_response_mod_seqs(1) [OF accepted(3)]] mark_mod_id(1) accepted(4) assms(1)
  show ?thesis by fastforce
qed (use assms in auto)

lemma protect_response_id:
  assumes "protect_response oc C c code opts payload kid piv incl = (c', r)"
  shows "ctx_context_id c' = ctx_context_id c"
  using protect_response_context [OF assms]
  by (auto simp: mark_response_used_def Let_def res_simps split: prod.splits)

lemma protect_response_mod_keeps:
  assumes "protect_response_mod oc C m code opts payload kid piv incl = (m', r)"
    and wf: "wf_context (lib_context m)"
  shows "wf_context (lib_context m') \<and> mc_context_id m' = mc_context_id m"
proof -
  have p: "protect_response oc C (lib_context m) code opts payload kid piv incl = (lib_context m', r)"
    using protect_response_refines [of oc C m code opts payload kid piv incl] assms(1) by simp
  from protect_response_wf [OF wf p] protect_response_id [OF p] show ?thesis by simp
qed

subsection \<open>Every step is none or one of the abstract system\<close>

definition network_ok :: "'s network \<Rightarrow> bool" where
  "network_ok y \<longleftrightarrow>
     (\<forall>i v. net_devices y i = Some v \<longrightarrow>
        device_ok v \<and> (\<forall>m. held v = Some m \<longrightarrow> wf_context (lib_context m))) \<and>
     (\<forall>(m, s) \<in> set (net_log y). wf_context (lib_context m) \<and> seq_wf s)"

definition simulated ::
    "('s, 'x) sender_state_store \<Rightarrow> 's network \<Rightarrow> 's network \<Rightarrow> bool" where
  "simulated S y y' \<longleftrightarrow>
     (abs_system y' = abs_system y \<or> sender_step (lib_store S) (abs_system y) (abs_system y')) \<and>
     network_ok y'"

lemma network_ok_held:
  "network_ok y \<Longrightarrow> net_devices y i = Some v \<Longrightarrow> held v = Some m \<Longrightarrow> wf_context (lib_context m)"
  by (simp add: network_ok_def)

lemma network_ok_set:
  assumes "network_ok y" and "device_ok v" and "\<And>m. held v = Some m \<Longrightarrow> wf_context (lib_context m)"
  shows "network_ok (set_device y i v)"
  using assms by (auto simp: network_ok_def)

lemma network_ok_more:
  "network_ok (y\<lparr>net_store := st\<rparr>) = network_ok y"
  "network_ok y \<Longrightarrow> wf_context (lib_context m) \<Longrightarrow> seq_wf s \<Longrightarrow> network_ok (y\<lparr>net_log := (m, s) # net_log y\<rparr>)"
  by (auto simp: network_ok_def)

lemma held_owned [simp]: "dev_context v = Some m \<Longrightarrow> held v = Some m"
  by (simp add: held_def)

lemma device_ok_owned:
  "dev_context v = Some m \<Longrightarrow> device_ok v \<Longrightarrow> device_ok (v\<lparr>dev_context := c\<rparr>) \<and>
     (c = None \<longrightarrow> held (v\<lparr>dev_context := c\<rparr>) = None)"
  by (cases "dev_group v") (auto simp: device_ok_def held_def)

text \<open>A step that replaces the context of one device.\<close>

lemma simulated_operate:
  assumes y: "network_ok y" and v: "net_devices y i = Some v" "dev_context v = Some m"
    and m': "wf_context (lib_context m') \<and> mc_context_id m' = mc_context_id m"
  shows "simulated S y (set_device y i (v\<lparr>dev_context := Some m'\<rparr>))"
proof -
  have "sender_step (lib_store S) (abs_system y)
      ((abs_system y)\<lparr>sys_contexts := (sys_contexts (abs_system y))(i \<mapsto> lib_context m')\<rparr>)"
    using v m' by (intro sender_step.operate [where c = "lib_context m"]) simp_all
  moreover have "device_ok v" using y v by (simp add: network_ok_def)
  ultimately show ?thesis
    using y v m' device_ok_owned [OF v(2)] unfolding simulated_def abs_set_device
    by (auto intro!: network_ok_set)
qed

text \<open>A step that hands the context to the store, by registration or by restoration.\<close>

lemma lib_res_value:
  "(case lib_res r of Ok c \<Rightarrow> Some c | _ \<Rightarrow> None) = map_option lib_context (ok_value r)"
  by (cases r) (simp_all add: ok_value_def)

lemma simulated_consume:
  assumes y: "network_ok y" and v: "net_devices y i = Some v" "held v = Some m"
    and op: "register_fresh_mod S m (net_store y) = (st', r) \<or> restore_existing_mod S m (net_store y) = (st', r)"
    and v': "device_ok v'" "held v' = ok_value r"
  shows "simulated S y ((set_device y i v')\<lparr>net_store := st'\<rparr>)"
proof -
  have wf: "wf_context (lib_context m)" using network_ok_held [OF y v] .
  have lib: "register_fresh (lib_store S) (lib_context m) (net_store y) = (st', lib_res r) \<or>
      restore_existing (lib_store S) (lib_context m) (net_store y) = (st', lib_res r)"
    using op by (auto simp flip: register_fresh_refines restore_existing_refines)
  then have "sender_step (lib_store S) (abs_system y) ((abs_system y)\<lparr>sys_store := st',
      sys_contexts := (sys_contexts (abs_system y))(i := map_option lib_context (ok_value r))\<rparr>)"
    unfolding lib_res_value [symmetric]
  proof
    assume "register_fresh (lib_store S) (lib_context m) (net_store y) = (st', lib_res r)"
    with v show "sender_step (lib_store S) (abs_system y) ((abs_system y)\<lparr>sys_store := st',
        sys_contexts := (sys_contexts (abs_system y))(i := (case lib_res r of Ok c \<Rightarrow> Some c | _ \<Rightarrow> None))\<rparr>)"
      by (intro sender_step.register [where c = "lib_context m"]) simp_all
  next
    assume "restore_existing (lib_store S) (lib_context m) (net_store y) = (st', lib_res r)"
    with v show "sender_step (lib_store S) (abs_system y) ((abs_system y)\<lparr>sys_store := st',
        sys_contexts := (sys_contexts (abs_system y))(i := (case lib_res r of Ok c \<Rightarrow> Some c | _ \<Rightarrow> None))\<rparr>)"
      by (intro sender_step.restore [where c = "lib_context m"]) simp_all
  qed
  moreover have "wf_context (lib_context m')" if "r = Ok m'" for m'
    using lib that wf by (auto dest: register_fresh_wf restore_existing_wf)
  then have "network_ok (set_device y i v')"
    using y v' by (intro network_ok_set) (auto simp: ok_value_def split: res.splits)
  ultimately show ?thesis
    unfolding simulated_def abs_set_device network_ok_more v'(2) by simp
qed

lemma group_store_ops:
  "group_register_fresh S gc st = (st', gc', r) \<Longrightarrow> gc_member_ctx gc = Some m \<Longrightarrow>
     register_fresh_mod S m st = (st', r) \<and> gc_member_ctx gc' = ok_value r"
  "group_restore_existing S gc st = (st', gc', r) \<Longrightarrow> gc_member_ctx gc = Some m \<Longrightarrow>
     restore_existing_mod S m st = (st', r) \<and> gc_member_ctx gc' = ok_value r"
  "group_register_fresh S gc st = (st', gc', r) \<Longrightarrow> gc_member_ctx gc = None \<Longrightarrow> st' = st \<and> gc_member_ctx gc' = None"
  "group_restore_existing S gc st = (st', gc', r) \<Longrightarrow> gc_member_ctx gc = None \<Longrightarrow> st' = st \<and> gc_member_ctx gc' = None"
  by (auto simp: group_register_fresh_def group_restore_existing_def take_member_context_def ok_value_def
      split: prod.splits res.splits)

lemma simulated_member:
  assumes y: "network_ok y" and v: "net_devices y i = Some v" "dev_group v = Some gc"
    and op: "group_register_fresh S gc (net_store y) = (st', gc', r) \<or>
      group_restore_existing S gc (net_store y) = (st', gc', r)"
  shows "simulated S y ((set_device y i (v\<lparr>dev_group := Some gc'\<rparr>))\<lparr>net_store := st'\<rparr>)"
proof (cases "gc_member_ctx gc")
  case None
  with op have st': "st' = net_store y" "gc_member_ctx gc' = None" by (auto dest: group_store_ops)
  have "device_ok (v\<lparr>dev_group := Some gc'\<rparr>)" "held (v\<lparr>dev_group := Some gc'\<rparr>) = held v"
    using None st' v(2) by (auto simp: device_ok_def held_def split: option.split)
  moreover from this have "network_ok (set_device y i (v\<lparr>dev_group := Some gc'\<rparr>))"
    using y v(1) by (intro network_ok_set) (simp_all add: network_ok_held [of y i v])
  ultimately show ?thesis
    using v(1) unfolding simulated_def abs_set_device network_ok_more
    by (simp add: st' abs_system_def fun_upd_idem)
next
  case (Some m)
  have "device_ok v" using y v(1) by (simp add: network_ok_def)
  with Some v(2) have own: "dev_context v = None" by (auto simp: device_ok_def)
  from op Some have "register_fresh_mod S m (net_store y) = (st', r) \<or>
      restore_existing_mod S m (net_store y) = (st', r)" "gc_member_ctx gc' = ok_value r"
    by (auto dest: group_store_ops)
  with own v(2) Some show ?thesis
    by (intro simulated_consume [OF y v(1)]) (simp_all add: held_def device_ok_def)
qed

subsection \<open>The simulation\<close>

lemma new_context_appears:
  assumes y: "network_ok y" and v: "device_ok v" "held v = Some m"
    and m: "wf_context (lib_context m)" "\<not> mc_active m"
  shows "simulated S y (set_device y i v)"
  using y v m unfolding simulated_def abs_set_device
  by (auto intro!: network_ok_set sender_step.appear)

lemma established_context:
  assumes C: "hkdf_contract C" and "length secret = 16"
    and new: "context_new_mod C secret salt ic sid rid = Ok m"
  shows "wf_context (lib_context m)" and "\<not> mc_active m"
  using context_new_wf [OF C assms(2) lib_res_new_Ok [OF new]] context_new_Ok [OF lib_res_new_Ok [OF new]]
  by simp_all

lemma simulated_same:
  assumes "network_ok y" and "net_devices y i = Some v" and "device_ok v'" "held v' = held v"
  shows "simulated S y (set_device y i v')"
proof -
  have "network_ok (set_device y i v')"
    using assms by (intro network_ok_set) (simp_all add: network_ok_held [of y i v])
  with assms show ?thesis
    unfolding simulated_def abs_set_device by (simp add: abs_system_def fun_upd_idem)
qed

lemma simulated_reserve:
  assumes y: "network_ok y" and v: "net_devices y i = Some v" "dev_context v = Some m"
    and r: "reserve_sender_mod S m (net_store y) = (st', m', z)"
  shows "simulated S y ((set_device y i (v\<lparr>dev_context := Some m'\<rparr>))\<lparr>net_store := st',
      net_log := (case z of Ok s \<Rightarrow> (m, s) # net_log y | _ \<Rightarrow> net_log y)\<rparr>)" (is "simulated S y ?y'")
proof -
  have wf: "wf_context (lib_context m)" using network_ok_held [OF y v(1)] v(2) by simp
  have lib: "reserve_sender (lib_store S) (lib_context m) (net_store y) = (st', lib_context m', z)"
    using reserve_sender_refines [of S m "net_store y"] r by simp
  have "sender_step (lib_store S) (abs_system y) ((abs_system y)\<lparr>sys_store := st',
      sys_contexts := (sys_contexts (abs_system y))(i \<mapsto> lib_context m'),
      sys_log := (case z of Ok s \<Rightarrow> (mc_context_id m, s) # sys_log (abs_system y) | _ \<Rightarrow> sys_log (abs_system y))\<rparr>)"
    using sender_step.reserve [where S = "lib_store S" and y = "abs_system y" and i = i and c = "lib_context m"]
      lib v by (cases z) simp_all
  moreover have "map (\<lambda>(m, s). (mc_context_id m, s)) (net_log ?y') =
      (case z of Ok s \<Rightarrow> (mc_context_id m, s) # sys_log (abs_system y) | _ \<Rightarrow> sys_log (abs_system y))"
    by (simp add: abs_system_def split: res.split)
  moreover have "network_ok ?y'"
  proof -
    have "seq_wf (mc_sender_seq m)" using wf by (simp add: wf_context_def)
    then have "z = Ok s \<Longrightarrow> seq_wf s" for s
      using reserve_sender_mod_Ok(1) [of m S "net_store y" st' m' s] r by simp
    moreover have "network_ok (set_device y i (v\<lparr>dev_context := Some m'\<rparr>))"
      using y v reserve_sender_wf [OF wf lib] device_ok_owned [OF v(2)]
      by (intro network_ok_set) (auto simp: network_ok_def)
    ultimately show ?thesis
      using wf by (auto simp: network_ok_def split: res.split)
  qed
  ultimately show ?thesis
    unfolding simulated_def abs_set_device by simp
qed

lemma device_step_simulated:
  assumes C: "hkdf_contract C" "sha_contract C" and step: "device_step C oc S y y'" and y: "network_ok y"
  shows "simulated S y y'"
  using step
proof cases
  case (establish secret salt ic sid rid m i)
  then obtain n where n: "context_new_mod C secret salt ic sid rid = Ok n"
    and m: "m = n\<lparr>mc_restored := False, mc_active := False, mc_allow_no_piv_response := True\<rparr>"
    by (auto simp: context_new_fresh_mod_def res_simps)
  from m have "lib_context m = (lib_context n)\<lparr>ctx_restored := False, ctx_active := False,
      ctx_allow_no_piv_response := True\<rparr>" by (simp add: lib_updates)
  then have "wf_context (lib_context m)"
    using established_context(1) [OF C(1) establish(3) n] by (simp add: wf_flags)
  with establish m show ?thesis
    by (auto intro!: new_context_appears [OF y] simp: device_ok_def held_def)
next
  case (join name secret k gc i)
  obtain m where "member_context gc = Some m"
    "context_new_mod C secret None (Some (group_idctx C name)) (group_sid C name) [k] = Ok m"
    by (rule group_context_new_Ok [OF C join(2)]) blast
  with join established_context [OF C(1) join(3)] show ?thesis
    by (auto intro!: new_context_appears [OF y] simp: device_ok_def held_def member_context_def)
next
  case (crash i)
  then show ?thesis
    using y unfolding crash simulated_def abs_set_device
    by (auto simp: network_ok_def intro: sender_step.crash)
next
  case (member_register i v gc st' gc' r)
  then show ?thesis using simulated_member [OF y] by blast
next
  case (member_restore i v gc st' gc' r)
  then show ?thesis using simulated_member [OF y] by blast
next
  case (member_trust i v gc t gc' q)
  have "device_ok v" using y member_trust by (simp add: network_ok_def)
  with member_trust escalate_trust_keeps(2) [OF member_trust(4)] show ?thesis
    by (auto intro!: simulated_same [OF y] simp: device_ok_def held_def split: option.split)
next
  case (member_take i v gc gc' m)
  have "device_ok v" using y member_take by (simp add: network_ok_def)
  with member_take show ?thesis
    by (auto intro!: simulated_same [OF y] simp: take_member_context_def device_ok_def held_def)
next
  case (register i v m st' r)
  then show ?thesis
    using y device_ok_owned [of v m "ok_value r"]
    by (auto intro!: simulated_consume [OF y] simp: network_ok_def held_def split: option.split)
next
  case (restore i v m st' r)
  then show ?thesis
    using y device_ok_owned [of v m "ok_value r"]
    by (auto intro!: simulated_consume [OF y] simp: network_ok_def held_def split: option.split)
next
  case (reserve i v m st' m' z)
  then show ?thesis using simulated_reserve [OF y] by simp
next
  case (respond i v m code opts payload kid piv incl m' p)
  then show ?thesis
    using network_ok_held [OF y respond(2)] protect_response_mod_keeps [OF respond(4)]
    by (simp add: simulated_operate [OF y])
next
  case (receive_request i v m option ct m' u)
  then show ?thesis
    using network_ok_held [OF y receive_request(2)] unprotect_request_mod_keeps [OF receive_request(4)]
    by (simp add: simulated_operate [OF y])
next
  case (receive_response i v m option ct rpiv m' u)
  then show ?thesis
    using network_ok_held [OF y receive_response(2)] unprotect_response_mod_keeps [OF receive_response(4)]
    by (simp add: simulated_operate [OF y])
qed

lemma device_reach_simulated:
  assumes C: "hkdf_contract C" "sha_contract C" and "device_reach C oc S st0 y"
  shows "sender_reach (lib_store S) st0 (abs_system y) \<and> network_ok y"
  using assms(3)
proof (induction rule: device_reach.induct)
  case start
  have "abs_system \<lparr>net_store = st0, net_devices = Map.empty, net_log = []\<rparr> =
      \<lparr>sys_store = st0, sys_contexts = Map.empty, sys_log = []\<rparr>"
    by (simp add: abs_system_def)
  then show ?case by (simp add: network_ok_def sender_reach.start)
next
  case (step y y')
  with device_step_simulated [OF C step.hyps(2)] show ?case
    by (auto simp: simulated_def intro: sender_reach.step)
qed

subsection \<open>Nonces\<close>

text \<open>What must not repeat: a nonce with the identifier and the common IV of the context that uses it.\<close>

definition reserved_nonce :: "mod_context \<times> oscore_seq_num \<Rightarrow> context_id \<times> bytes \<times> bytes" where
  "reserved_nonce = (\<lambda>(m, s). (mc_context_id m, mc_common_iv m, request_nonce (lib_context m) s))"

lemma distinct_map_finer:
  "distinct (map f xs) \<Longrightarrow> (\<And>x y. x \<in> set xs \<Longrightarrow> y \<in> set xs \<Longrightarrow> g x = g y \<Longrightarrow> f x = f y) \<Longrightarrow> distinct (map g xs)"
  unfolding distinct_map inj_on_def by blast

lemma reserved_nonces_distinct:
  assumes "network_ok y" and "distinct (sys_log (abs_system y))"
  shows "distinct (map reserved_nonce (net_log y))"
proof (rule distinct_map_finer)
  show "distinct (map (\<lambda>(m, s). (mc_context_id m, s)) (net_log y))"
    using assms(2) by (simp add: abs_system_def)
  fix x z assume xz: "x \<in> set (net_log y)" "z \<in> set (net_log y)" "reserved_nonce x = reserved_nonce z"
  obtain m s n t where mn: "x = (m, s)" "z = (n, t)" by (cases x; cases z)
  have "wf_context (lib_context m)" "wf_context (lib_context n)" "seq_wf s" "seq_wf t"
    using assms(1) xz(1,2) mn by (auto simp: network_ok_def)
  from request_nonce_inject [OF this(1,2) _ this(3,4)] xz(3)
  show "(case x of (m, s) \<Rightarrow> (mc_context_id m, s)) = (case z of (m, s) \<Rightarrow> (mc_context_id m, s))"
    by (simp add: mn reserved_nonce_def)
qed

end
