(* ===== verification/ModProperties.thy ===== *)
theory ModProperties
  imports DeviceHistories Instances
begin

text \<open>
  The properties of the module tree (\<^verbatim>\<open>src/context.rs\<close>, \<^verbatim>\<open>src/crypto.rs\<close>,
  \<^verbatim>\<open>src/option.rs\<close>, \<^verbatim>\<open>src/protect.rs\<close>, \<^verbatim>\<open>src/unprotect.rs\<close>,
  \<^verbatim>\<open>src/types.rs\<close>) and of the groups on top of it (\<^verbatim>\<open>src/group.rs\<close>), each with
  a witness where it has hypotheses.
\<close>

subsection \<open>Facts the witnesses share\<close>

lemma toy_sha: "sha_contract toy_crypto"
  by (simp add: sha_contract_def toy_crypto_def min_def)

text \<open>A store that is a map and never fails.\<close>

definition map_store :: "(context_id \<Rightarrow> sender_sequence_state option, unit) sender_state_store" where
  "map_store = \<lparr>load = (\<lambda>st k. (st, Ok (st k))),
     compare_exchange = (\<lambda>st k e n. if st k = e then (st(k \<mapsto> n), Ok True) else (st, Ok False))\<rparr>"

lemma map_store_contract: "store_contract (lib_store map_store) (\<lambda>st. st)"
  by (auto simp: store_contract_def map_store_def split: if_splits)

interpretation map_store: sender_store "lib_store map_store" "\<lambda>st. st"
  by unfold_locales (rule map_store_contract)

text \<open>Reservation over the map, for a context whose number is not the last one.\<close>

lemma map_reserve:
  assumes "mc_active m" "\<not> mc_sender_seq_exhausted m" "mc_sender_seq m = OscoreSeqNum n"
    and "seq_increment (OscoreSeqNum n) = Some (OscoreSeqNum n')" "seq_new n' = Some (OscoreSeqNum n')"
    and "st (mc_context_id m) = Some \<lparr>next_sequence = n, exhausted = False\<rparr>"
  shows "reserve_sender_mod map_store m st =
    (st(mc_context_id m \<mapsto> \<lparr>next_sequence = n', exhausted = False\<rparr>),
     m\<lparr>mc_sender_seq := OscoreSeqNum n', mc_sender_seq_exhausted := False\<rparr>, Ok (OscoreSeqNum n))"
  using assms by (simp add: reserve_sender_mod_def map_store_def sender_sequence_state_mod_def)

lemma small_increments:
  "seq_increment (OscoreSeqNum 0) = Some (OscoreSeqNum 1)" "seq_increment (OscoreSeqNum 1) = Some (OscoreSeqNum 2)"
  "seq_new 1 = Some (OscoreSeqNum 1)" "seq_new 2 = Some (OscoreSeqNum 2)"
  by (simp_all add: seq_increment_def checked_add_u64_def seq_new_def SEQ_MAX_def push_bit_eq_mult)

text \<open>Contexts of the module tree for the client and the server of the other witnesses.\<close>

definition toy_mod :: "bytes \<Rightarrow> bytes \<Rightarrow> mod_context" where
  "toy_mod sid rid = (case context_new_mod toy_crypto (replicate 16 7) None None sid rid of
     Ok m \<Rightarrow> registered m | _ \<Rightarrow> undefined)"

definition toy_mod_client :: mod_context where "toy_mod_client = toy_mod [1] [2]"
definition toy_mod_server :: mod_context where "toy_mod_server = toy_mod [2] [1]"

lemma lib_toy_mod:
  assumes "new_params_ok None None sid rid"
  shows "lib_context (toy_mod sid rid) = toy_context sid rid"
proof -
  obtain c where c: "context_new toy_crypto (replicate 16 7) None None sid rid = Ok c"
    "toy_context sid rid = c\<lparr>ctx_active := True, ctx_allow_no_piv_response := True\<rparr>"
    by (rule toy_context_new [OF assms])
  from lib_res_new [OF c(1)] c show ?thesis by (auto simp: toy_mod_def lib_registered)
qed

lemmas lib_toy_mod_client = lib_toy_mod [OF toy_params(1), folded toy_mod_client_def toy_client_def]
lemmas lib_toy_mod_server = lib_toy_mod [OF toy_params(2), folded toy_mod_server_def toy_server_def]

lemma toy_mod_server_facts:
  "wf_context (lib_context toy_mod_server)" "mirrored toy_client (lib_context toy_mod_server)"
  "\<not> is_replay_mod toy_mod_server s"
  using toy_server_windows(1) toy_server_facts(1) toy_mirrored
  by (simp_all add: lib_toy_mod_server flip: window_refines)

text \<open>A request of the client that a context with the server's material accepts.\<close>

lemma toy_request:
  assumes "wf_context (lib_context m)" "mirrored toy_client (lib_context m)" "\<not> is_replay_mod m (OscoreSeqNum 5)"
  obtains ct opt m' where "unprotect_request_mod True toy_crypto m opt ct = (m', Ok (1, [0x11, 0x2A], [1, 2, 3]))"
    "request_seq opt = Some (OscoreSeqNum 5)"
proof -
  obtain ct opt where p: "protect_request_reserved toy_crypto toy_client (OscoreSeqNum 5) 1 [0x11, 0x2A] [1, 2, 3]
      = Ok (ct, opt)"
    using toy_len by (auto simp: protect_request_eq [OF toy_client_facts(1) seq_wf_small(2) toy_ccm]
      length_plaintext_of)
  have "\<not> is_replay (lib_context m) (OscoreSeqNum 5)" using assms(3) by (simp add: window_refines)
  from request_round_trip [OF toy_client_facts(1) assms(1,2) seq_wf_small(2) toy_ccm this toy_body(1) toy_len p, of True]
  obtain m' where "unprotect_request_mod True toy_crypto m opt ct = (m', Ok (1, [0x11, 0x2A], [1, 2, 3]))"
    by (rule unprotect_request_mod_accepts)
  with request_seq_protected [OF toy_client_facts(1) seq_wf_small(2) toy_ccm p] that show ?thesis by blast
qed

lemma toy_restored:
  obtains m1 where "restore_existing_mod map_store toy_mod_server [mc_context_id toy_mod_server \<mapsto>
      \<lparr>next_sequence = 0, exhausted = False\<rparr>] = ([mc_context_id toy_mod_server \<mapsto>
      \<lparr>next_sequence = 0, exhausted = False\<rparr>], Ok m1)"
    "wf_context (lib_context m1)" "mirrored toy_client (lib_context m1)" "\<not> is_replay_mod m1 s"
proof -
  let ?st = "[mc_context_id toy_mod_server \<mapsto> \<lparr>next_sequence = 0, exhausted = False\<rparr>]"
  have "seq_new 0 = Some (OscoreSeqNum 0)" by (simp add: seq_new_eq_Some)
  then obtain m1 where r: "restore_existing_mod map_store toy_mod_server ?st = (?st, Ok m1)"
    by (simp add: restore_existing_mod_def map_store_def set_sender_state_mod_def)
  from restore_existing_mod_Ok [OF r] obtain q e where m1: "m1 = toy_mod_server
     \<lparr>mc_sender_seq := q, mc_sender_seq_exhausted := e, mc_restored := True, mc_active := True,
      mc_allow_no_piv_response := False\<rparr>" by metis
  have "apsnd lib_res (?st, Ok m1 :: (unit context_store_error, mod_context) res) =
      restore_existing (lib_store map_store) toy_server ?st"
    using restore_existing_refines [of map_store toy_mod_server ?st] r by (simp add: lib_toy_mod_server)
  then have "wf_context (lib_context m1)"
    by (intro restore_existing_wf [OF toy_server_facts(1)]) (auto intro: sym)
  moreover have "mirrored toy_client (lib_context m1)"
    using toy_mod_server_facts(2)
    by (simp add: mirrored_def m1 sender_id_mod_def recipient_id_mod_def id_context_mod_def)
  moreover have "is_replay_mod m1 = is_replay_mod toy_mod_server"
    by (simp add: m1 fun_eq_iff is_replay_mod_def)
  ultimately show ?thesis using r that toy_mod_server_facts(3) by metis
qed

text \<open>A member of a group that has registered with an empty store and reserved a number.\<close>

lemma toy_member:
  assumes "unat i < 32"
  obtains gc st1 gc' a st2 a' s where
    "group_context_new toy_crypto [1] (replicate 16 7) i = Ok gc"
    "group_register_fresh map_store gc Map.empty = (st1, gc', Ok a)"
    "reserve_sender_mod map_store a st1 = (st2, a', Ok s)"
proof -
  obtain gc m where gc: "group_context_new toy_crypto [1] (replicate 16 7) i = Ok gc" "member_context gc = Some m"
    "context_new_mod toy_crypto (replicate 16 7) None (Some (group_idctx toy_crypto [1])) (group_sid toy_crypto [1]) [i] = Ok m"
    by (rule group_context_new_total [OF toy_hkdf toy_sha _ assms, of "[1]" "replicate 16 7"]) auto
  note ok = context_new_Ok [OF lib_res_new_Ok [OF gc(3)]]
  let ?k = "mc_context_id m" and ?a = "registered m"
  let ?st = "[?k \<mapsto> sender_sequence_state_mod m]"
  have reg: "group_register_fresh map_store gc Map.empty = (?st, gc\<lparr>gc_member_ctx := Some ?a\<rparr>, Ok ?a)"
    using ok(12,13) by (simp add: group_register_Ok [OF gc(2)] map_store_def)
  have a: "mc_context_id ?a = ?k" "sender_sequence_state_mod ?a = sender_sequence_state_mod m"
    "seq_wf (mc_sender_seq ?a)" "\<not> mc_sender_seq_exhausted ?a" "mc_active ?a"
    using ok(10,11) by (simp_all add: registered_def sender_sequence_state_mod_def)
  have "seq_wf (ctx_sender_seq (lib_context ?a))" using a(3) by simp
  then have "reserve_sender (lib_store map_store) (lib_context ?a) ?st =
      (?st(?k \<mapsto> next_sender_state (lib_context ?a)), after_reservation (lib_context ?a), Ok (mc_sender_seq ?a))"
    using a by (subst reserve_sender_Ok) (simp_all add: map_store_def)
  then have "\<exists>st2 a'. reserve_sender_mod map_store ?a ?st = (st2, a', Ok (mc_sender_seq ?a))"
    using reserve_sender_refines [of map_store ?a ?st] by (auto split: prod.splits)
  with gc(1) reg that show ?thesis by blast
qed

text \<open>Two members of one group over the map: the one registers, takes its context and reserves; the
  other restores from the same store and reserves the next number.\<close>

lemma two_members_reserve:
  obtains y where "device_reach toy_crypto True map_store Map.empty y" "length (net_log y) = 2"
    "mc_context_id (fst (net_log y ! 0)) = mc_context_id (fst (net_log y ! 1))"
proof -
  let ?new = "\<lambda>i. context_new_mod toy_crypto (replicate 16 7) None (Some (group_idctx toy_crypto [1])) (group_sid toy_crypto [1]) [i]"
  obtain g m where g: "group_context_new toy_crypto [1] (replicate 16 7) 3 = Ok g" "gc_member_ctx g = Some m" "?new 3 = Ok m"
    by (rule group_context_new_total [OF toy_hkdf toy_sha, of "[1]" 3 "replicate 16 7"]) (auto simp: member_context_def)
  obtain h n where h: "group_context_new toy_crypto [1] (replicate 16 7) 4 = Ok h" "gc_member_ctx h = Some n" "?new 4 = Ok n"
    by (rule group_context_new_total [OF toy_hkdf toy_sha, of "[1]" 4 "replicate 16 7"]) (auto simp: member_context_def)
  note m = context_new_Ok [OF lib_res_new_Ok [OF g(3)]] and n = context_new_Ok [OF lib_res_new_Ok [OF h(3)]]
  define k where "k = mc_context_id m"
  have k: "mc_context_id n = k" using m(9) n(9) by (simp add: k_def)
  define q where "q = (\<lambda>v. \<lparr>next_sequence = v :: u64, exhausted = False\<rparr>)"
  define a where "a = registered m"
  define b where "b = n\<lparr>mc_sender_seq := OscoreSeqNum 1, mc_sender_seq_exhausted := False, mc_restored := True,
    mc_active := True, mc_allow_no_piv_response := False\<rparr>"
  define a' where "a' = a\<lparr>mc_sender_seq := OscoreSeqNum 1, mc_sender_seq_exhausted := False\<rparr>"
  define b' where "b' = b\<lparr>mc_sender_seq := OscoreSeqNum 2, mc_sender_seq_exhausted := False\<rparr>"
  have fresh: "\<not> mc_restored m" "\<not> mc_active m" "sender_sequence_state_mod m = q 0"
    "mc_sender_seq m = OscoreSeqNum 0" "\<not> mc_sender_seq_exhausted m"
    using m(10-13) by (simp_all add: sender_sequence_state_mod_def q_def seq_default_def)
  have reg: "group_register_fresh map_store g Map.empty = ([k \<mapsto> q 0], g\<lparr>gc_member_ctx := Some a\<rparr>, Ok a)"
    using fresh g(2) by (simp add: group_register_Ok member_context_def map_store_def k_def a_def)
  have res: "reserve_sender_mod map_store a [k \<mapsto> q 0] = ([k \<mapsto> q 1], a', Ok (OscoreSeqNum 0))"
    using map_reserve [OF _ _ _ small_increments(1,3), of a "[k \<mapsto> q 0]"] fresh
    by (simp add: a_def a'_def registered_def k_def q_def)
  have rest: "group_restore_existing map_store h [k \<mapsto> q 1] = ([k \<mapsto> q 1], h\<lparr>gc_member_ctx := Some b\<rparr>, Ok b)"
    using h(2) k small_increments(3)
    by (simp add: group_restore_existing_def take_member_context_def restore_existing_mod_def map_store_def
        set_sender_state_mod_def q_def b_def)
  have res': "reserve_sender_mod map_store b [k \<mapsto> q 1] = ([k \<mapsto> q 2], b', Ok (OscoreSeqNum 1))"
    using map_reserve [OF _ _ _ small_increments(2,4), of b "[k \<mapsto> q 1]"] k
    by (simp add: b_def b'_def q_def)
  let ?reach = "device_reach toy_crypto True map_store Map.empty"
  let ?y = "\<lambda>st ds l. \<lparr>net_store = st, net_devices = ds, net_log = l\<rparr>"
  let ?d = "\<lambda>g c. \<lparr>dev_group = Some g, dev_context = c\<rparr>"
  have 1: "?reach (?y Map.empty [0 \<mapsto> ?d g None] [])"
    using device_reach.step [OF device_reach.start device_step.join [OF g(1), of True map_store _ 0]] by simp
  have 2: "?reach (?y [k \<mapsto> q 0] [0 \<mapsto> ?d (g\<lparr>gc_member_ctx := Some a\<rparr>) None] [])"
    using device_reach.step [OF 1 device_step.member_register [of _ 0 "?d g None" g map_store]] reg by simp
  have 3: "?reach (?y [k \<mapsto> q 0] [0 \<mapsto> ?d (g\<lparr>gc_member_ctx := None\<rparr>) (Some a)] [])"
    using device_reach.step [OF 2 device_step.member_take [of _ 0 "?d (g\<lparr>gc_member_ctx := Some a\<rparr>) None" _
        "g\<lparr>gc_member_ctx := None\<rparr>" a]]
    by (simp add: take_member_context_def)
  obtain v where 4: "?reach (?y [k \<mapsto> q 1] [0 \<mapsto> v] [(a, OscoreSeqNum 0)])"
    using device_reach.step [OF 3 device_step.reserve [of _ 0 "?d (g\<lparr>gc_member_ctx := None\<rparr>) (Some a)" a map_store]] res
    by simp
  have 5: "?reach (?y [k \<mapsto> q 1] [0 \<mapsto> v, 1 \<mapsto> ?d h None] [(a, OscoreSeqNum 0)])"
    using device_reach.step [OF 4 device_step.join [OF h(1), of True map_store _ 1]] by simp
  have 6: "?reach (?y [k \<mapsto> q 1] [0 \<mapsto> v, 1 \<mapsto> ?d (h\<lparr>gc_member_ctx := Some b\<rparr>) None] [(a, OscoreSeqNum 0)])"
    using device_reach.step [OF 5 device_step.member_restore [of _ 1 "?d h None" h map_store]] rest by simp
  have 7: "?reach (?y [k \<mapsto> q 1] [0 \<mapsto> v, 1 \<mapsto> ?d (h\<lparr>gc_member_ctx := None\<rparr>) (Some b)] [(a, OscoreSeqNum 0)])"
    using device_reach.step [OF 6 device_step.member_take [of _ 1 "?d (h\<lparr>gc_member_ctx := Some b\<rparr>) None" _
        "h\<lparr>gc_member_ctx := None\<rparr>" b]]
    by (simp add: take_member_context_def)
  obtain w where 8: "?reach (?y [k \<mapsto> q 2] w [(b, OscoreSeqNum 1), (a, OscoreSeqNum 0)])"
    using device_reach.step [OF 7 device_step.reserve [of _ 1 "?d (h\<lparr>gc_member_ctx := None\<rparr>) (Some b)" b map_store]] res'
    by simp
  show ?thesis
    by (rule that [OF 8]) (simp_all add: a_def b_def registered_def k k_def)
qed

subsection \<open>The module tree against lib.rs\<close>

text \<open>C15: Construction, registration, restoration, reservation, the preflights and the protection of
  requests and responses do in the module tree exactly what they do in \<^verbatim>\<open>src/lib.rs\<close>, on
  every branch, for the context of \<^verbatim>\<open>lib.rs\<close> whose response Partial IV window is unused, over
  the store that never has recipient state.\<close>

theorem module_refines_lib:
  fixes S :: "('s, 'x) sender_state_store"
  shows "lib_res (context_new_fresh_mod C secret salt ic sid rid) = context_new_fresh C secret salt ic sid rid \<and>
    apsnd lib_res (register_fresh_mod S m st) = register_fresh (lib_store S) (lib_context m) st \<and>
    apsnd lib_res (restore_existing_mod S m st) = restore_existing (lib_store S) (lib_context m) st \<and>
    (let (st', m', r) = reserve_sender_mod S m st in (st', lib_context m', r)) =
      reserve_sender (lib_store S) (lib_context m) st \<and>
    preflight_protect_request_mod m opts payload = preflight_protect_request (lib_context m) opts payload \<and>
    preflight_protect_response_mod m opts payload kid piv =
      preflight_protect_response (lib_context m) opts payload kid piv \<and>
    next_request_option_len_mod m = next_request_option_len (lib_context m) \<and>
    protect_request_reserved_mod C m seq code opts payload =
      protect_request_reserved C (lib_context m) seq code opts payload \<and>
    protect_response_with_reserved_piv_mod C m seq code opts payload kid piv =
      protect_response_with_reserved_piv C (lib_context m) seq code opts payload kid piv \<and>
    apfst lib_context (protect_response_mod oc C m code opts payload kid piv include_piv) =
      protect_response oc C (lib_context m) code opts payload kid piv include_piv"
  by (intro conjI context_new_fresh_refines register_fresh_refines restore_existing_refines
      reserve_sender_refines protect_response_refines) simp_all

text \<open>C17: On every option and ciphertext, for any context, the module tree and \<^verbatim>\<open>lib.rs\<close> treat a
  request alike, result and context, or else the request is new, its decrypted plaintext ends in a
  payload marker, and both outcomes are known. \<^verbatim>\<open>lib.rs\<close> refuses it with \<open>InvalidParam\<close>, as RFC
  7252, Section 3, asks, and leaves its context alone. The module tree takes what stands between the
  code and the marker as the options: up to 128 bytes it accepts the request with an empty payload and
  marks its number, and beyond that it reports \<open>BufferTooSmall\<close> and leaves its context alone. The
  accepting case occurs: between well-formed mirrored contexts, under the AEAD's contract, sealing any
  code, any well-formed options of up to 128 bytes and a marker under any number that the receiver has
  not seen gives it.\<close>

theorem module_requests_against_lib:
  "(\<forall>option ct.
      apfst lib_context (unprotect_request_mod oc C m option ct) = unprotect_request oc C (lib_context m) option ct \<or>
      (\<exists>s' code' opts'. ends_in_marker C m option ct s' code' opts' \<and>
         unprotect_request oc C (lib_context m) option ct = (lib_context m, Err InvalidParam) \<and>
         unprotect_request_mod oc C m option ct =
           (if length opts' \<le> 128 then (update_replay_window_mod m s', Ok (code', opts', []))
            else (m, Err (too_small (length opts') 128))))) \<and>
    (wf_context c \<and> wf_context (lib_context m) \<and> mirrored c (lib_context m) \<and> seq_wf s \<and> ccm_contract C \<and>
     \<not> is_replay_mod m s \<and> body_ok opts [] \<longrightarrow>
     (let ct = the (ccm_seal C (ctx_sender_key c) (request_nonce c s)
                (enc_structure (sender_id c) (piv_bytes s)) (code # opts @ [0xFF]));
         option = option_encoding (piv_bytes s) (kid_context c) (Some (sender_id c))
     in unprotect_request oc C (lib_context m) option ct = (lib_context m, Err InvalidParam) \<and>
        unprotect_request_mod oc C m option ct = (update_replay_window_mod m s, Ok (code, opts, []))))"
proof (intro conjI impI; (elim conjE)?)
  show "\<forall>option ct.
      apfst lib_context (unprotect_request_mod oc C m option ct) = unprotect_request oc C (lib_context m) option ct \<or>
      (\<exists>s' code' opts'. ends_in_marker C m option ct s' code' opts' \<and>
         unprotect_request oc C (lib_context m) option ct = (lib_context m, Err InvalidParam) \<and>
         unprotect_request_mod oc C m option ct =
           (if length opts' \<le> 128 then (update_replay_window_mod m s', Ok (code', opts', []))
            else (m, Err (too_small (length opts') 128))))"
    by (intro allI) (rule unprotect_request_mod_cases; blast)
next
  assume assms: "wf_context c" "wf_context (lib_context m)" "mirrored c (lib_context m)" "seq_wf s"
    "ccm_contract C" "\<not> is_replay_mod m s" and ok: "body_ok opts []"
  let ?pt = "code # opts @ [0xFF]"
  have body: "parse_inner_body opts = Ok (opts, [])" "length opts \<le> 128"
    using ok by (simp_all add: body_ok_def)
  then have len: "length ?pt \<le> 256" "length opts < isize_max" by (simp_all add: isize_max_def)
  note split = split_rest_marker_last [OF body(1) len(2), of oc]
  from unprotect_request_mod_sealed [OF assms len(1), of oc]
    unprotect_request_sealed [OF assms(1-5) _ len(1), of oc] assms(6) split body(2)
  show "let ct = the (ccm_seal C (ctx_sender_key c) (request_nonce c s)
                (enc_structure (sender_id c) (piv_bytes s)) ?pt);
         option = option_encoding (piv_bytes s) (kid_context c) (Some (sender_id c))
     in unprotect_request oc C (lib_context m) option ct = (lib_context m, Err InvalidParam) \<and>
        unprotect_request_mod oc C m option ct = (update_replay_window_mod m s, Ok (code, opts, []))"
    by (simp add: unprotect_request_def unprotect_request_mod_def window_refines bounded_outputs_eq Let_def)
qed

theorem module_requests_against_lib_witness:
  "\<exists>opt ct. unprotect_request True toy_crypto toy_server opt ct = (toy_server, Err InvalidParam) \<and>
    unprotect_request_mod True toy_crypto toy_mod_server opt ct =
      (update_replay_window_mod toy_mod_server (OscoreSeqNum 5), Ok (1, [0x11, 0x2A], []))"
  using module_requests_against_lib [THEN conjunct2, rule_format, OF conjI [OF toy_client_facts(1)
        conjI [OF toy_mod_server_facts(1) conjI [OF toy_mod_server_facts(2) conjI [OF seq_wf_small(2)
        conjI [OF toy_ccm conjI [OF toy_mod_server_facts(3) toy_body(2)]]]]]], where oc = True and code = 1]
  unfolding Let_def lib_toy_mod_server by blast

text \<open>C27: A restart in the module tree forgets what was accepted: whatever the store has kept, the
  context that is restored again from the same material decrypts a request that was accepted before
  the restart to the same result, which the live context refuses as a replay.\<close>

theorem module_restart_forgets_requests:
  assumes "restore_existing_mod S m0 st = (st', Ok m1)" "unprotect_request_mod oc C m1 option ct = (m2, Ok out)"
    and "restore_existing_mod S m0 su = (su', Ok m3)"
  shows "snd (unprotect_request_mod oc C m3 option ct) = Ok out \<and>
    unprotect_request_mod oc C m2 option ct = (m2, Err Replay) \<and> is_replay_mod m3 = is_replay_mod m0"
proof -
  have body: "unprotect_request_body_mod oc C m3 option ct = unprotect_request_body_mod oc C m0 option ct"
    "unprotect_request_body_mod oc C m1 option ct = unprotect_request_body_mod oc C m0 option ct"
    by (rule restore_existing_mod_Ok [OF assms(3)], simp only: unprotect_request_mod_sender,
        rule restore_existing_mod_Ok [OF assms(1)], simp only: unprotect_request_mod_sender)
  have win: "is_replay_mod m3 = is_replay_mod m0"
    by (rule restore_existing_mod_Ok [OF assms(3)]) (simp add: fun_eq_iff is_replay_mod_def)
  obtain s where s: "unprotect_request_body_mod oc C m1 option ct = Ok (s, out)" "m2 = update_replay_window_mod m1 s"
    using assms(2) by (auto simp: unprotect_request_mod_def split: res.splits)
  have "unprotect_request_body_mod oc C m3 option ct = Ok (s, out)" using body s(1) by simp
  with accepted_request_refused [OF s(1)] s(2) win show ?thesis
    by (simp add: unprotect_request_mod_def)
qed

theorem module_restart_forgets_requests_witness:
  "\<exists>st m1 m2 m3 opt ct out. restore_existing_mod map_store toy_mod_server st = (st, Ok m1) \<and>
    unprotect_request_mod True toy_crypto m1 opt ct = (m2, Ok out) \<and>
    restore_existing_mod map_store toy_mod_server st = (st, Ok m3) \<and>
    snd (unprotect_request_mod True toy_crypto m3 opt ct) = Ok out \<and>
    unprotect_request_mod True toy_crypto m2 opt ct = (m2, Err Replay)"
proof -
  obtain m1 st where r: "restore_existing_mod map_store toy_mod_server st = (st, Ok m1)"
    and m1: "wf_context (lib_context m1)" "mirrored toy_client (lib_context m1)" "\<not> is_replay_mod m1 (OscoreSeqNum 5)"
    by (rule toy_restored [of "OscoreSeqNum 5"]) blast
  obtain ct opt m2 where u: "unprotect_request_mod True toy_crypto m1 opt ct = (m2, Ok (1, [0x11, 0x2A], [1, 2, 3]))"
    by (rule toy_request [OF m1])
  from module_restart_forgets_requests [OF r u r] r u show ?thesis by blast
qed

text \<open>C19: Whatever a peer sends to a context of the module tree, requests and responses in any order,
  no sequence number of the peer is accepted twice, be it in a request or as the Partial IV of a
  response, and no request is answered twice; the window afterwards rejects exactly what it rejected
  before, what was accepted, and what lies 32 or more below an accepted number.\<close>

theorem module_peer_numbers_accepted_once:
  assumes "receive_peer_mod oc C m xs = (d, answered, numbers)"
  shows "distinct numbers \<and> distinct answered \<and> (\<forall>s \<in> set numbers. \<not> is_replay_mod m s) \<and>
    (\<forall>s \<in> set answered. \<not> is_received_response_reuse_mod m s \<and> is_received_response_reuse_mod d s) \<and>
    (\<forall>t. is_replay_mod d t \<longleftrightarrow>
      is_replay_mod m t \<or> t \<in> set numbers \<or> (\<exists>s \<in> set numbers. seq_val t + 32 \<le> seq_val s))"
  using receive_peer_exact [OF assms] unfolding window_trace_def by blast

theorem module_peer_numbers_accepted_once_witness:
  "\<exists>x d answered numbers. receive_peer_mod True toy_crypto toy_mod_server [x, x] = (d, answered, numbers) \<and>
    numbers = [OscoreSeqNum 5] \<and> distinct numbers \<and> is_replay_mod d (OscoreSeqNum 5)"
proof -
  obtain ct opt m where u: "unprotect_request_mod True toy_crypto toy_mod_server opt ct =
      (m, Ok (1, [0x11, 0x2A], [1, 2, 3]))" and q: "request_seq opt = Some (OscoreSeqNum 5)"
    by (rule toy_request [OF toy_mod_server_facts])
  from u obtain s out where b: "unprotect_request_body_mod True toy_crypto toy_mod_server opt ct = Ok (s, out)"
    "m = update_replay_window_mod toy_mod_server s"
    by (auto simp: unprotect_request_mod_def split: res.splits)
  have again: "unprotect_request_mod True toy_crypto m opt ct = (m, Err Replay)"
    using accepted_request_refused [OF b(1)] by (simp add: unprotect_request_mod_def b(2))
  have run: "receive_peer_mod True toy_crypto toy_mod_server [PeerRequest opt ct, PeerRequest opt ct] =
      (m, [], [OscoreSeqNum 5])"
    using u again q by simp
  from module_peer_numbers_accepted_once [OF run] run show ?thesis by fastforce
qed

text \<open>C20: Between well-formed mirrored contexts of the module tree, under the AEAD's contract, a
  response arrives in both forms, if its code is of a response class (2 to 5), its options are a
  well-formed list of up to 128 bytes, its payload has up to 128 bytes, code, options, marker and
  payload together up to 256, the request's Partial IV is valid and the receiver has no response to
  that request yet. The form with the request's nonce needs a responder that is active, may answer
  without a Partial IV (as a restored one may not) and has not answered that request with its nonce
  before; the exchange then marks the request on both
  sides. The form with a reserved Partial IV needs neither, so it works for restored responders too;
  it needs a number that the receiver's request window does not hold, and marks the request and that
  number at the receiver.\<close>

theorem module_response_exchange:
  assumes "wf_context (lib_context c)" "wf_context (lib_context d)" "mirrored (lib_context c) (lib_context d)"
    and "ccm_contract C" "from_piv rpiv = Some rs" "\<not> is_received_response_reuse_mod c rs"
    and "response_class code" "body_ok opts payload" "length (plaintext_of code opts payload) \<le> 256"
  shows "(mc_active d \<and> mc_allow_no_piv_response d \<and> \<not> is_response_reuse_mod d rs \<longrightarrow>
      (\<exists>d' ct c'. protect_response_mod oc C d code opts payload (recipient_id_mod d) rpiv False = (d', Ok (ct, [])) \<and>
        unprotect_response_mod oc C c [] ct rpiv = (c', Ok (code, opts, payload)) \<and>
        is_response_reuse_mod d' rs \<and> is_received_response_reuse_mod c' rs)) \<and>
    (seq_wf s \<and> \<not> is_replay_mod c s \<longrightarrow>
      (\<exists>ct opt c'. protect_response_with_reserved_piv_mod C d s code opts payload (recipient_id_mod d) rpiv = Ok (ct, opt) \<and>
        unprotect_response_mod oc C c opt ct rpiv = (c', Ok (code, opts, payload)) \<and>
        is_received_response_reuse_mod c' rs \<and> is_replay_mod c' s))"
  by (intro conjI impI; elim conjE)
    (rule no_piv_exchange_mod [OF assms] piv_exchange_mod [OF assms]; assumption)+

theorem module_response_exchange_witness:
  "(\<exists>d' ct c'. protect_response_mod True toy_crypto toy_mod_server 0x45 [0x11, 0x2A] [1, 2, 3]
        (recipient_id_mod toy_mod_server) [5] False = (d', Ok (ct, [])) \<and>
      unprotect_response_mod True toy_crypto toy_mod_client [] ct [5] = (c', Ok (0x45, [0x11, 0x2A], [1, 2, 3]))) \<and>
   (\<exists>ct opt c'. protect_response_with_reserved_piv_mod toy_crypto toy_mod_server (OscoreSeqNum 0) 0x45 [0x11, 0x2A]
        [1, 2, 3] (recipient_id_mod toy_mod_server) [5] = Ok (ct, opt) \<and>
      unprotect_response_mod True toy_crypto toy_mod_client opt ct [5] = (c', Ok (0x45, [0x11, 0x2A], [1, 2, 3])) \<and>
      is_replay_mod c' (OscoreSeqNum 0))"
proof -
  note lib = lib_toy_mod_client lib_toy_mod_server
  have "wf_context (lib_context toy_mod_client)" "wf_context (lib_context toy_mod_server)"
    "mirrored (lib_context toy_mod_client) (lib_context toy_mod_server)"
    by (simp_all add: lib toy_client_facts toy_server_facts toy_mirrored)
  moreover have "mc_active toy_mod_server" "mc_allow_no_piv_response toy_mod_server"
    using toy_server_facts(2,3) by (simp_all flip: lib_toy_mod_server)
  moreover have "\<not> is_response_reuse_mod toy_mod_server t" "\<not> is_received_response_reuse_mod toy_mod_client t"
    "\<not> is_replay_mod toy_mod_client t" for t
    using toy_server_windows(2) toy_client_windows(1,3) by (simp_all add: lib flip: window_refines)
  ultimately show ?thesis
    using module_response_exchange [OF _ _ _ toy_ccm from_piv_5 _ toy_class toy_body(1) toy_len,
      of toy_mod_client toy_mod_server True "OscoreSeqNum 0"] seq_wf_small(1) by blast
qed

subsection \<open>Groups\<close>

text \<open>C28: A member of a group that has registered or has been restored, has since attempted any number
  of reservations over whatever the store then held, and now reserves a sequence number, protects with
  it a request that every member decrypts to what went in, with the context that
  \<open>group_receive_context\<close> gives for any index below 32: the index does not tell the members apart. This holds
  for well-formed options of up to 128 bytes and payloads of up to 128 bytes whose plaintext (code,
  options, marker and payload) has up to 256, a master secret of 16 bytes and primitives that keep
  their contracts.\<close>

theorem group_request_round_trip:
  assumes "hkdf_contract C" "sha_contract C" "ccm_contract C" "length secret = 16"
    and "group_context_new C name secret i = Ok gi"
    and "group_register_fresh S gi st = (st1, gi', Ok a) \<or> group_restore_existing S gi st = (st1, gi', Ok a)"
    and "reserving S a b" "reserve_sender_mod S b st2 = (st3, a', Ok s)"
    and "group_context_new C name secret j = Ok gj" "unat k < 32"
    and "body_ok opts payload" "length (plaintext_of code opts payload) \<le> 256"
  shows "\<exists>recv ct opt recv'. group_receive_context C gj k = Ok recv \<and>
    protect_request_reserved_mod C a' s code opts payload = Ok (ct, opt) \<and>
    unprotect_request_mod oc C recv opt ct = (recv', Ok (code, opts, payload)) \<and> is_replay_mod recv' s"
proof -
  obtain send where send: "context_new C secret None (Some (group_idctx C name)) (group_sid C name) [i] = Ok send"
    "protect_request_reserved_mod C a' = protect_request_reserved C send" "seq_wf s"
    by (rule group_member_protects [OF assms(1,2,4-8)])
  have gj: "group_name gj = name" "gc_master_secret gj = secret"
    using group_context_new_Ok [OF assms(1,2,9)] by metis+
  obtain recv where recv: "group_receive_context C gj k = Ok recv"
    "context_new_mod C secret None (Some (group_idctx C name)) [k] (group_sid C name) = Ok recv"
    using group_receive_context_total [OF assms(1,2,10), of gj] unfolding gj by metis
  obtain c where c: "context_new C secret None (Some (group_idctx C name)) (group_sid C name) [k] = Ok c"
    by (rule context_new_total [OF assms(1) group_params(1) [OF assms(2)]])
  have p: "protect_request_reserved_mod C a' = protect_request_reserved C c"
    using protect_request_recipient [where C = C and a = send] context_new_recipient [OF send(1) c] send(2)
    by metis
  note lib = lib_res_new_Ok [OF recv(2)]
  note wf = context_new_wf [OF assms(1,4) c] context_new_wf [OF assms(1,4) lib]
  have new: "\<not> is_replay (lib_context recv) s" using context_new_fresh_windows(1) [OF lib] by simp
  obtain ct opt where ct: "protect_request_reserved C c s code opts payload = Ok (ct, opt)"
    using assms(12) by (auto simp: protect_request_eq [OF wf(1) send(3) assms(3)])
  note u = request_round_trip [OF wf context_new_mirrored [OF c lib] send(3) assms(3) new assms(11,12) ct, of oc]
  obtain recv' where "unprotect_request_mod oc C recv opt ct = (recv', Ok (code, opts, payload))"
    "lib_context recv' = update_replay_window (lib_context recv) s"
    by (rule unprotect_request_mod_accepts [OF u])
  moreover have "is_replay (update_replay_window (lib_context recv) s) s"
    using update_replay_window_exact [OF new] by simp
  ultimately show ?thesis
    using recv(1) ct p by (metis window_refines(3))
qed

theorem group_request_round_trip_witness:
  "\<exists>gi gj a' s recv ct opt recv'. group_context_new toy_crypto [1] (replicate 16 7) 3 = Ok gi \<and>
    group_context_new toy_crypto [1] (replicate 16 7) 4 = Ok gj \<and> group_receive_context toy_crypto gj 9 = Ok recv \<and>
    protect_request_reserved_mod toy_crypto a' s 1 [0x11, 0x2A] [1, 2, 3] = Ok (ct, opt) \<and>
    unprotect_request_mod True toy_crypto recv opt ct = (recv', Ok (1, [0x11, 0x2A], [1, 2, 3])) \<and>
    is_replay_mod recv' s"
proof -
  obtain gi st1 gi' a st2 a' s where i: "group_context_new toy_crypto [1] (replicate 16 7) 3 = Ok gi"
    "group_register_fresh map_store gi Map.empty = (st1, gi', Ok a)" "reserve_sender_mod map_store a st1 = (st2, a', Ok s)"
    by (rule toy_member [of 3]) simp
  obtain gj where j: "group_context_new toy_crypto [1] (replicate 16 7) 4 = Ok gj"
    by (rule toy_member [of 4]) simp
  have "length (replicate 16 7 :: bytes) = 16" "unat (9 :: u8) < 32" by simp_all
  from group_request_round_trip [OF toy_hkdf toy_sha toy_ccm this(1) i(1) disjI1 [OF i(2)] reserving.start i(3) j this(2)
      toy_body(1) toy_len, where oc = True and code = 1] i(1) j
  show ?thesis by blast
qed

text \<open>C29: Two members of a group that register, each with a store of its own, reserve the same first
  sequence number and use it with the same key and nonce: on the same input they emit the same bytes,
  and on different inputs they reuse a nonce.\<close>

theorem group_members_share_nonces:
  assumes "hkdf_contract C" "sha_contract C"
    and "group_context_new C name secret i = Ok gi" "group_register_fresh S gi st = (st1, gi', Ok a)"
      "reserve_sender_mod S a st1 = (st2, a', Ok s)"
    and "group_context_new C name secret j = Ok gj" "group_register_fresh T gj su = (su1, gj', Ok b)"
      "reserve_sender_mod T b su1 = (su2, b', Ok t)"
  shows "s = t \<and> mc_sender_key a = mc_sender_key b \<and>
    compute_nonce_mod (sender_id_mod a) piv (mc_common_iv a) =
      compute_nonce_mod (sender_id_mod b) piv (mc_common_iv b) \<and>
    protect_request_reserved_mod C a' s code opts payload = protect_request_reserved_mod C b' t code opts payload"
proof -
  obtain x where x: "s = seq_default" "a = registered x"
    "context_new C secret None (Some (group_idctx C name)) (group_sid C name) [i] = Ok (lib_context x)"
    "protect_request_reserved_mod C a' = protect_request_reserved C (lib_context x)"
    using group_member_sends [OF assms(1-5)] by metis
  obtain y where y: "t = seq_default" "b = registered y"
    "context_new C secret None (Some (group_idctx C name)) (group_sid C name) [j] = Ok (lib_context y)"
    "protect_request_reserved_mod C b' = protect_request_reserved C (lib_context y)"
    using group_member_sends [OF assms(1,2,6-8)] by metis
  have "protect_request_reserved C (lib_context y) = protect_request_reserved C (lib_context x)"
    using protect_request_recipient [where C = C and a = "lib_context x"] context_new_recipient [OF x(3) y(3)] by metis
  moreover have "mc_sender_key x = mc_sender_key y" "sender_id_mod x = sender_id_mod y"
    "mc_common_iv x = mc_common_iv y"
    using context_new_Ok(2,6,8) [OF x(3)] context_new_Ok(2,6,8) [OF y(3)] by simp_all
  ultimately show ?thesis
    by (simp add: x(1,2,4) y(1,2,4) registered_def sender_id_mod_def)
qed

theorem group_members_share_nonces_witness:
  "\<exists>gi gj a b s. group_context_new toy_crypto [1] (replicate 16 7) 3 = Ok gi \<and>
    group_context_new toy_crypto [1] (replicate 16 7) 4 = Ok gj \<and> mc_sender_key a = mc_sender_key b \<and>
    compute_nonce_mod (sender_id_mod a) (piv_bytes s) (mc_common_iv a) =
      compute_nonce_mod (sender_id_mod b) (piv_bytes s) (mc_common_iv b)"
proof -
  obtain gi st1 gi' a st2 a' s where i: "group_context_new toy_crypto [1] (replicate 16 7) 3 = Ok gi"
    "group_register_fresh map_store gi Map.empty = (st1, gi', Ok a)" "reserve_sender_mod map_store a st1 = (st2, a', Ok s)"
    by (rule toy_member [of 3]) simp
  obtain gj su1 gj' b su2 b' t where j: "group_context_new toy_crypto [1] (replicate 16 7) 4 = Ok gj"
    "group_register_fresh map_store gj Map.empty = (su1, gj', Ok b)" "reserve_sender_mod map_store b su1 = (su2, b', Ok t)"
    by (rule toy_member [of 4]) simp
  from group_members_share_nonces [OF toy_hkdf toy_sha i j, of "piv_bytes s"] i(1) j(1) show ?thesis by blast
qed

text \<open>C30: Over one store that keeps the compare-and-swap promise, only one member of a group can
  register. The other gets an error and has lost its member context: every later registration or
  restoration of it reports a conflict without asking the store.\<close>

theorem group_members_race:
  assumes "hkdf_contract C" "sha_contract C" "store_contract (lib_store S) view"
    and "group_context_new C name secret i = Ok gi" "group_register_fresh S gi st = (st1, gi', Ok a)"
    and "group_context_new C name secret j = Ok gj" "group_register_fresh S gj st1 = (st2, gj', r)"
  shows "(\<forall>ctx. r \<noteq> Ok ctx) \<and> member_context gj' = None \<and>
    group_register_fresh S gj' su = (su, gj', Err Conflict) \<and>
    group_restore_existing S gj' su = (su, gj', Err Conflict)"
proof -
  obtain x where x: "context_new_mod C secret None (Some (group_idctx C name)) (group_sid C name) [i] = Ok x"
    "member_context gi = Some x"
    using group_context_new_Ok [OF assms(1,2,4)] by metis
  obtain y where y: "context_new_mod C secret None (Some (group_idctx C name)) (group_sid C name) [j] = Ok y"
    "member_context gj = Some y"
    using group_context_new_Ok [OF assms(1,2,6)] by metis
  have k: "mc_context_id y = mc_context_id x"
    using context_new_Ok(9) [OF lib_res_new_Ok [OF x(1)]] context_new_Ok(9) [OF lib_res_new_Ok [OF y(1)]] by simp
  have first: "compare_exchange S st (mc_context_id x) None (sender_sequence_state_mod x) = (st1, Ok True)"
    using assms(5) by (simp add: group_register_Ok [OF x(2)])
  obtain st3 r3 where second: "register_fresh_mod S y st1 = (st3, r3)" by fastforce
  have "r3 \<noteq> Ok ctx" for ctx by (rule second_registration_fails [OF assms(3) first second k])
  then have lost: "\<forall>ctx. r \<noteq> Ok ctx"
    using assms(7) y(2) second
    by (auto simp: group_register_fresh_def take_member_context_def member_context_def split: res.splits)
  from group_failure_loses_context [OF disjI1 [OF assms(7)] lost] lost show ?thesis
    by (simp add: member_context_def)
qed

theorem group_members_race_witness:
  "\<exists>gi gj st1 gi' a st2 gj' r. group_context_new toy_crypto [1] (replicate 16 7) 3 = Ok gi \<and>
    group_context_new toy_crypto [1] (replicate 16 7) 4 = Ok gj \<and>
    group_register_fresh map_store gi Map.empty = (st1, gi', Ok a) \<and>
    group_register_fresh map_store gj st1 = (st2, gj', r) \<and> member_context gj' = None \<and>
    group_restore_existing map_store gj' st2 = (st2, gj', Err Conflict)"
proof -
  obtain gi st1 gi' a where i: "group_context_new toy_crypto [1] (replicate 16 7) 3 = Ok gi"
    "group_register_fresh map_store gi Map.empty = (st1, gi', Ok a)"
    by (rule toy_member [of 3]) simp
  obtain gj where j: "group_context_new toy_crypto [1] (replicate 16 7) 4 = Ok gj"
    by (rule toy_member [of 4]) simp
  obtain st2 gj' r where reg: "group_register_fresh map_store gj st1 = (st2, gj', r)" by (cases "group_register_fresh map_store gj st1")
  from group_members_race [OF toy_hkdf toy_sha map_store_contract i j reg, of st2] i j reg show ?thesis by blast
qed

subsection \<open>Histories over one store\<close>

text \<open>C18: Whatever the devices of a network do over one store that keeps the compare-and-swap promise,
  with contexts of their own or as members of groups that share one identifier, every step is none or
  one step of the abstract system of reservations; so no sequence number is reserved twice for one
  identifier, and no nonce is reserved twice under one identifier and common IV.\<close>

theorem device_histories_refine:
  assumes "hkdf_contract C" "sha_contract C" "store_contract (lib_store S) view"
    and "device_reach C oc S st0 y"
  shows "sender_reach (lib_store S) st0 (abs_system y) \<and>
    distinct (map (\<lambda>(m, s). (mc_context_id m, s)) (net_log y)) \<and>
    distinct (map reserved_nonce (net_log y))"
proof -
  note sim = device_reach_simulated [OF assms(1,2,4)]
  then have once: "distinct (sys_log (abs_system y))"
    using sender_store.reserved_once [OF sender_store.intro [OF assms(3)]] by blast
  with sim reserved_nonces_distinct [of y] show ?thesis by (simp add: abs_system_def)
qed

theorem device_histories_refine_witness:
  "\<exists>y. device_reach toy_crypto True map_store Map.empty y \<and> length (net_log y) = 2 \<and>
    mc_context_id (fst (net_log y ! 0)) = mc_context_id (fst (net_log y ! 1)) \<and>
    distinct (map reserved_nonce (net_log y))"
proof -
  obtain y where y: "device_reach toy_crypto True map_store Map.empty y" "length (net_log y) = 2"
    "mc_context_id (fst (net_log y ! 0)) = mc_context_id (fst (net_log y ! 1))"
    by (rule two_members_reserve)
  from device_histories_refine [OF toy_hkdf toy_sha map_store_contract y(1)] y show ?thesis by blast
qed

end
