(* ===== verification/EdhocCbor.thy ===== *)
theory EdhocCbor
  imports OscoreCrypto
begin

text \<open>
  The CBOR helpers of \<^verbatim>\<open>src/edhoc/cbor.rs\<close> and the bounded types of
  \<^verbatim>\<open>src/edhoc/types.rs\<close>: byte strings, connection identifiers in their transport
  encoding, and the two cipher-suite lists. The lemmas give the encodings in closed form, the round
  trips between encoders and parsers, the bounds on what a parser consumes, and that no parser
  panics.
\<close>

subsection \<open>Errors and bounded vectors\<close>

datatype edhoc_error =
    EInvalidState
  | EInvalidMessage
  | EUnsupportedSuite
  | ESignatureVerification
  | EDecryptFailed
  | EBufferTooSmall
  | EKeyDerivation

definition KEY_LEN_32 :: nat where "KEY_LEN_32 = 32"
definition SUITE_0 :: u8 where "SUITE_0 = 0"
definition CONNECTION_ID_CAPACITY :: nat where "CONNECTION_ID_CAPACITY = 7"
definition ID_CRED_MAX_LEN :: nat where "ID_CRED_MAX_LEN = 64"

lemmas edhoc_consts [simp] =
  KEY_LEN_32_def SUITE_0_def CONNECTION_ID_CAPACITY_def ID_CRED_MAX_LEN_def

definition push_err :: "nat \<Rightarrow> 'a list \<Rightarrow> 'a \<Rightarrow> (edhoc_error, 'a list) res" where
  "push_err N v item = vec_push N EBufferTooSmall v item"

definition extend_err :: "nat \<Rightarrow> 'a list \<Rightarrow> 'a list \<Rightarrow> (edhoc_error, 'a list) res" where
  "extend_err N v xs = vec_extend N EBufferTooSmall v xs"

text \<open>A \<open>ConnectionId\<close> is the list of its bytes, at most seven.\<close>

definition connection_id_new :: "bytes \<Rightarrow> (edhoc_error, bytes) res" where
  "connection_id_new value = vec_extend CONNECTION_ID_CAPACITY EBufferTooSmall [] value"

definition connection_id_from_u8 :: "u8 \<Rightarrow> (edhoc_error, bytes) res" where
  "connection_id_from_u8 value =
     (case vec_push CONNECTION_ID_CAPACITY EBufferTooSmall [] value of Ok v \<Rightarrow> Ok v | _ \<Rightarrow> Panic)"

subsection \<open>Byte strings\<close>

definition encode_bstr :: "nat \<Rightarrow> bytes \<Rightarrow> bytes \<Rightarrow> (edhoc_error, bytes) res" where
  "encode_bstr N buf data =
     (let len = length data in
      and_then
        (if len \<le> 23 then push_err N buf (0x40 OR as_u8 len)
         else if len \<le> 0xff then
           and_then (push_err N buf 0x58) (\<lambda>buf. push_err N buf (as_u8 len))
         else if len \<le> 0xffff then
           and_then (push_err N buf 0x59) (\<lambda>buf.
           and_then (push_err N buf (as_u8 (drop_bit 8 len))) (\<lambda>buf.
             push_err N buf (as_u8 (len AND 0xff))))
         else Err EBufferTooSmall)
        (\<lambda>buf. extend_err N buf data))"

definition append_cbor_bstr :: "nat \<Rightarrow> bytes \<Rightarrow> bytes \<Rightarrow> (edhoc_error, bytes) res" where
  "append_cbor_bstr N buf data =
     (let len = length data in
      and_then
        (if len \<le> 23 then push_err N buf (0x40 OR as_u8 len)
         else if len \<le> 0xff then
           and_then (push_err N buf 0x58) (\<lambda>buf. push_err N buf (as_u8 len))
         else if len \<le> 0xffff then
           and_then (push_err N buf 0x59) (\<lambda>buf.
           and_then (push_err N buf (as_u8 (drop_bit 8 len))) (\<lambda>buf.
             push_err N buf (as_u8 (len AND 0xff))))
         else Err EBufferTooSmall)
        (\<lambda>buf. extend_err N buf data))"

text \<open>\<open>(&data[a..a + len], a + len)\<close>, after the check that the data is long enough.\<close>

definition take_value :: "bytes \<Rightarrow> nat \<Rightarrow> nat \<Rightarrow> (edhoc_error, bytes \<times> nat) res" where
  "take_value data a len =
     (if length data < a + len then Err EInvalidMessage
      else and_then (slice data a (a + len)) (\<lambda>v. Ok (v, a + len)))"

definition parse_bstr :: "bytes \<Rightarrow> (edhoc_error, bytes \<times> nat) res" where
  "parse_bstr data =
     (if data = [] then Err EInvalidMessage
      else
        and_then (index data 0) (\<lambda>first.
        if 0x40 \<le> first \<and> first \<le> 0x57 then take_value data 1 (as_usize (first - 0x40))
        else if first = 0x58 then
          if length data < 2 then Err EInvalidMessage
          else and_then (index data 1) (\<lambda>b. take_value data 2 (as_usize b))
        else if first = 0x59 then
          if length data < 3 then Err EInvalidMessage
          else
            and_then (index data 1) (\<lambda>hi.
            and_then (index data 2) (\<lambda>lo. take_value data 3 (unat (u16_from_be hi lo))))
        else Err EInvalidMessage))"

subsection \<open>Connection identifiers\<close>

definition parse_identifier :: "bytes \<Rightarrow> (edhoc_error, bytes \<times> nat) res" where
  "parse_identifier data =
     (if data = [] then Err EInvalidMessage
      else
        and_then (index data 0) (\<lambda>first.
        if first \<le> 0x17 then and_then (connection_id_new [first]) (\<lambda>c. Ok (c, 1))
        else if 0x20 \<le> first \<and> first \<le> 0x37 then
          let n = first - 0x20 + 1;
              val = (256 :: u16) - ucast n
          in and_then (connection_id_new [ucast val]) (\<lambda>c. Ok (c, 1))
        else if first = 0x18 then Err EInvalidMessage
        else if 0x40 \<le> first \<and> first \<le> 0x57 then
          let len = as_usize (first - 0x40) in
          and_then (if len = 1 \<and> 2 \<le> length data then
                      and_then (index data 1) (\<lambda>b. guard (\<not> b \<le> 23) EInvalidMessage)
                    else Ok ()) (\<lambda>_.
          if length data < 1 + len then Err EInvalidMessage
          else
            and_then (slice data 1 (1 + len)) (\<lambda>v.
            and_then (connection_id_new v) (\<lambda>c. Ok (c, 1 + len))))
        else if first = 0x58 then
          if length data < 2 then Err EInvalidMessage
          else
            and_then (index data 1) (\<lambda>b.
            let len = as_usize b in
            if length data < 2 + len \<or> CONNECTION_ID_CAPACITY < len then Err EInvalidMessage
            else
              and_then (slice data 2 (2 + len)) (\<lambda>v.
              and_then (connection_id_new v) (\<lambda>c. Ok (c, 2 + len))))
        else Err EInvalidMessage))"

definition encode_identifier :: "nat \<Rightarrow> bytes \<Rightarrow> bytes \<Rightarrow> (edhoc_error, bytes) res" where
  "encode_identifier N buf cid =
     (if length cid = 1 \<and> (cid ! 0 \<le> 0x17 \<or> (0x20 \<le> cid ! 0 \<and> cid ! 0 \<le> 0x37))
      then push_err N buf (cid ! 0)
      else encode_bstr N buf cid)"

subsection \<open>Cipher-suite lists\<close>

text \<open>One element of the array: its value where it fits a byte, and its size.\<close>

definition suite_element :: "bytes \<Rightarrow> nat \<Rightarrow> (edhoc_error, u8 option \<times> nat) res" where
  "suite_element data offset =
     (if length data \<le> offset then Err EInvalidMessage
      else
        and_then (index data offset) (\<lambda>elem.
        let sized = (\<lambda>n. if length data < offset + n then Err EInvalidMessage else Ok (None, n)) in
        if elem \<le> 0x17 then Ok (Some elem, 1)
        else if elem = 0x18 then
          if length data < offset + 2 then Err EInvalidMessage
          else and_then (index data (offset + 1)) (\<lambda>b. Ok (Some b, 2))
        else if elem = 0x19 then sized 3
        else if elem = 0x1a then sized 5
        else if elem = 0x1b then sized 9
        else if 0x20 \<le> elem \<and> elem \<le> 0x37 then Ok (None, 1)
        else if elem = 0x38 then sized 2
        else if elem = 0x39 then sized 3
        else if elem = 0x3a then sized 5
        else if elem = 0x3b then sized 9
        else Err EInvalidMessage))"

primrec suites_loop :: "bytes \<Rightarrow> nat \<Rightarrow> nat \<Rightarrow> u8 option \<Rightarrow> (edhoc_error, u8 option \<times> nat) res" where
  "suites_loop data 0 offset selected = Ok (selected, offset)"
| "suites_loop data (Suc k) offset selected =
     and_then (suite_element data offset) (\<lambda>(value, size).
     let selected = (if selected = None then value else selected) in
     and_then (ok_or EInvalidMessage (checked_add_usize offset size)) (\<lambda>offset.
       suites_loop data k offset selected))"

definition suites_header :: "bytes \<Rightarrow> u8 \<Rightarrow> (edhoc_error, nat \<times> nat) res" where
  "suites_header data first =
     (if 0x80 \<le> first \<and> first \<le> 0x97 then Ok (as_usize (first - 0x80), 1)
      else if first = 0x98 then
        if length data < 2 then Err EInvalidMessage
        else and_then (index data 1) (\<lambda>b. Ok (as_usize b, 2))
      else Err EInvalidMessage)"

definition parse_suites_i :: "bytes \<Rightarrow> (edhoc_error, u8 \<times> nat) res" where
  "parse_suites_i data =
     (if data = [] then Err EInvalidMessage
      else
        and_then (index data 0) (\<lambda>first.
        if first \<le> 0x17 then Ok (first, 1)
        else if first = 0x18 then
          if length data < 2 then Err EInvalidMessage
          else and_then (index data 1) (\<lambda>b. Ok (b, 2))
        else
          and_then (suites_header data first) (\<lambda>(arr_len, header_size).
          if arr_len = 0 then Err EInvalidMessage
          else
            and_then (suites_loop data arr_len header_size None) (\<lambda>(selected, offset).
              case selected of
                Some suite \<Rightarrow> Ok (suite, offset)
              | None \<Rightarrow> Err EInvalidMessage))))"

definition parse_suites_r :: "bytes \<Rightarrow> (edhoc_error, nat) res" where
  "parse_suites_r data =
     (if data = [] then Err EInvalidMessage
      else
        and_then (index data 0) (\<lambda>first.
        if first \<le> 0x17 then Ok 1
        else if first = 0x18 then if length data < 2 then Err EInvalidMessage else Ok 2
        else if 0x80 \<le> first \<and> first \<le> 0x97 then
          let arr_len = as_usize (first - 0x80) in
          if length data < 1 + arr_len then Err EInvalidMessage else Ok (1 + arr_len)
        else if first = 0x98 then
          if length data < 2 then Err EInvalidMessage
          else
            and_then (index data 1) (\<lambda>b.
            let arr_len = as_usize b in
            if length data < 2 + arr_len then Err EInvalidMessage else Ok (2 + arr_len))
        else Err EInvalidMessage))"

subsection \<open>Byte strings in closed form\<close>

lemma push_err_eq [vec_simps]:
  "push_err N v x = Ok w \<longleftrightarrow> length v < N \<and> w = v @ [x]"
  "push_err N v x = Err e \<longleftrightarrow> N \<le> length v \<and> e = EBufferTooSmall"
  "push_err N v x \<noteq> Panic"
  by (auto simp: push_err_def vec_simps)

lemma extend_err_eq [vec_simps]:
  "extend_err N v xs = Ok w \<longleftrightarrow> length v + length xs \<le> N \<and> w = v @ xs"
  "extend_err N v xs = Err e \<longleftrightarrow> N < length v + length xs \<and> e = EBufferTooSmall"
  "extend_err N v xs \<noteq> Panic"
  by (auto simp: extend_err_def vec_simps)

lemma push_err_Ok: "length v < N \<Longrightarrow> push_err N v x = Ok (v @ [x])"
  by (simp add: vec_simps)

lemma extend_err_Ok: "length v + length xs \<le> N \<Longrightarrow> extend_err N v xs = Ok (v @ xs)"
  by (simp add: vec_simps)

definition bstr_head :: "nat \<Rightarrow> bytes" where
  "bstr_head len =
     (if len \<le> 23 then [as_u8 (64 + len)]
      else if len \<le> 255 then [0x58, as_u8 len]
      else [0x59, as_u8 (len div 256), as_u8 (len mod 256)])"

definition bstr_bytes :: "bytes \<Rightarrow> bytes" where
  "bstr_bytes data = bstr_head (length data) @ data"

lemma length_bstr_head: "length (bstr_head len) = (if len \<le> 23 then 1 else if len \<le> 255 then 2 else 3)"
  by (simp add: bstr_head_def)

lemma length_bstr_bytes:
  "length (bstr_bytes data) =
   (if length data \<le> 23 then 1 else if length data \<le> 255 then 2 else 3) + length data"
  by (simp add: bstr_bytes_def length_bstr_head)

lemma bstr_bytes_not_Nil [simp]: "bstr_bytes data \<noteq> []"
  by (simp add: bstr_bytes_def bstr_head_def)

lemma length_high_low: "as_u8 (drop_bit 8 len) = as_u8 (len div 256)" "as_u8 (len AND 0xff) = as_u8 (len mod 256)"
  for len :: nat
proof -
  have "(len AND 0xff) = len mod 256"
    using take_bit_eq_mask [of 8 len] by (simp add: take_bit_eq_mod mask_eq_exp_minus_1)
  then show "as_u8 (len AND 0xff) = as_u8 (len mod 256)" by simp
qed (simp add: drop_bit_eq_div)

lemma encode_bstr_eq:
  "encode_bstr N buf data =
   (if length data \<le> 0xffff \<and> length buf + length (bstr_bytes data) \<le> N
    then Ok (buf @ bstr_bytes data) else Err EBufferTooSmall)"
  by (auto simp: encode_bstr_def Let_def push_err_def extend_err_def vec_push_def vec_extend_def
      bstr_bytes_def bstr_head_def or_small length_high_low simp del: of_nat_add of_nat_div)

lemma append_cbor_bstr_eq: "append_cbor_bstr N buf data = encode_bstr N buf data"
  by (simp only: append_cbor_bstr_def encode_bstr_def)

lemma byte_range: "(lo :: u8) \<le> b \<and> b \<le> hi \<longleftrightarrow> unat lo \<le> unat b \<and> unat b \<le> unat hi"
  by (simp add: word_le_nat_alt)

lemma unat_byte_diff: "(k :: u8) \<le> b \<Longrightarrow> unat (b - k) = unat b - unat k"
  by (simp add: unat_sub word_le_nat_alt)

lemma take_value_append:
  "length h = a \<Longrightarrow> take_value (h @ v @ rest) a (length v) = Ok (v, a + length v)"
  by (simp add: take_value_def slice_def)

lemma parse_bstr_bytes:
  assumes "length data \<le> 0xffff"
  shows "parse_bstr (bstr_bytes data @ rest) = Ok (data, length (bstr_bytes data))"
proof -
  consider "length data \<le> 23" | "23 < length data" "length data \<le> 255" | "255 < length data" by linarith
  then show ?thesis
  proof cases
    case 1
    then have u: "unat (as_u8 (64 + length data)) = 64 + length data" by (simp add: unat_as_u8 del: of_nat_add)
    then have "0x40 \<le> as_u8 (64 + length data)" "as_u8 (64 + length data) \<le> 0x57"
      "unat (as_u8 (64 + length data) - 0x40) = length data"
      using 1 by (simp_all add: word_le_nat_alt unat_byte_diff del: of_nat_add)
    with 1 take_value_append [of "bstr_head (length data)" 1 data rest] show ?thesis
      by (simp add: parse_bstr_def bstr_bytes_def bstr_head_def index_def del: of_nat_add)
  next
    case 2
    then show ?thesis
      using take_value_append [of "bstr_head (length data)" 2 data rest]
      by (simp add: parse_bstr_def bstr_bytes_def bstr_head_def index_def unat_as_u8 word_le_nat_alt)
  next
    case 3
    then have "unat (u16_from_be (as_u8 (length data div 256)) (as_u8 (length data mod 256))) = length data"
      using assms by (simp add: unat_u16_from_be unat_as_u8 del: of_nat_div)
    with 3 show ?thesis
      using take_value_append [of "bstr_head (length data)" 3 data rest]
      by (simp add: parse_bstr_def bstr_bytes_def bstr_head_def index_def word_le_nat_alt
          del: of_nat_div)
  qed
qed

lemma take_value_Ok:
  "take_value data a len = Ok (v, n) \<longleftrightarrow>
   a + len \<le> length data \<and> v = take len (drop a data) \<and> n = a + len"
  by (auto simp: take_value_def slice_simps res_simps)

lemma take_value_total: "take_value data a len \<noteq> Panic" "take_value data a len = Err e \<Longrightarrow> e = EInvalidMessage"
  by (auto simp: take_value_def slice_simps res_simps split: if_splits)

lemma parse_bstr_Ok:
  assumes "parse_bstr data = Ok (v, n)"
  shows "1 \<le> n" "n \<le> length data" "length v < n" "v = drop (n - length v) (take n data)"
  using assms
  by (auto simp: parse_bstr_def take_value_Ok res_simps drop_take split: if_splits)

lemma parse_bstr_total: "parse_bstr data \<noteq> Panic" "parse_bstr data = Err e \<Longrightarrow> e = EInvalidMessage"
  by (auto simp: parse_bstr_def res_simps slice_simps take_value_total
      dest: take_value_total(2) split: if_splits)

subsection \<open>Identifiers\<close>

definition compact_id :: "bytes \<Rightarrow> bool" where
  "compact_id cid \<longleftrightarrow> length cid = 1 \<and> (cid ! 0 \<le> 0x17 \<or> (0x20 \<le> cid ! 0 \<and> cid ! 0 \<le> 0x37))"

definition negative_id :: "bytes \<Rightarrow> bool" where
  "negative_id cid \<longleftrightarrow> length cid = 1 \<and> 0x20 \<le> cid ! 0 \<and> cid ! 0 \<le> 0x37"

definition identifier_bytes :: "bytes \<Rightarrow> bytes" where
  "identifier_bytes cid = (if compact_id cid then cid else bstr_bytes cid)"

lemma length_identifier_bytes: "length cid \<le> 7 \<Longrightarrow> length (identifier_bytes cid) \<le> 8 \<and> identifier_bytes cid \<noteq> []"
  by (auto simp: identifier_bytes_def compact_id_def length_bstr_bytes)

lemma encode_identifier_eq:
  assumes "length cid \<le> 7"
  shows "encode_identifier N buf cid =
    (if length buf + length (identifier_bytes cid) \<le> N then Ok (buf @ identifier_bytes cid)
     else Err EBufferTooSmall)"
  using assms
  by (cases cid)
    (auto simp: encode_identifier_def identifier_bytes_def compact_id_def push_err_def vec_push_def
      encode_bstr_eq)

lemma connection_id_new_eq:
  "connection_id_new v = (if length v \<le> 7 then Ok v else Err EBufferTooSmall)"
  by (simp add: connection_id_new_def vec_extend_def)

lemma parse_identifier_bytes:
  assumes len: "length cid \<le> 7" and nn: "\<not> negative_id cid"
  shows "parse_identifier (identifier_bytes cid @ rest) = Ok (cid, length (identifier_bytes cid))"
proof (cases "compact_id cid")
  case True
  with nn obtain b where "cid = [b]" "b \<le> 0x17"
    by (cases cid) (auto simp: compact_id_def negative_id_def)
  then show ?thesis
    using True by (simp add: identifier_bytes_def parse_identifier_def index_def connection_id_new_eq)
next
  case False
  let ?f = "as_u8 (64 + length cid)"
  have u: "unat ?f = 64 + length cid" using len by (simp add: unat_as_u8 del: of_nat_add)
  then have f: "0x40 \<le> ?f" "?f \<le> 0x57" "unat (?f - 0x40) = length cid" "\<not> ?f \<le> 0x17"
    "\<not> ?f \<le> 0x37" "?f \<noteq> 0x18"
    using len by (simp_all add: word_le_nat_alt unat_byte_diff byte_eq_iff del: of_nat_add)
  have nc: "\<not> cid ! 0 \<le> 23" if "length cid = 1" using False that by (simp add: compact_id_def)
  show ?thesis
    using False len f nc
    by (auto simp: identifier_bytes_def bstr_bytes_def bstr_head_def parse_identifier_def index_def
        slice_def connection_id_new_eq Let_def nth_append guard_def simp del: of_nat_add)
qed

text \<open>The range that does not come back: a negative one-byte integer is read as another byte.\<close>

lemma parse_identifier_negative:
  assumes "negative_id cid"
  shows "\<exists>b. cid = [b] \<and> identifier_bytes cid = [b] \<and> parse_identifier ([b] @ rest) = Ok ([0x1F - b], 1) \<and> 0x1F - b \<noteq> b"
proof -
  obtain b where b: "cid = [b]" using assms by (cases cid) (auto simp: negative_id_def)
  with assms have r: "0x20 \<le> b" "b \<le> 0x37" by (simp_all add: negative_id_def)
  then have "b \<in> set (map of_nat [0x20..<0x38])"
  proof -
    have "0x20 \<le> unat b" "unat b \<le> 0x37" using r by (simp_all add: word_le_nat_alt)
    then have "0x20 \<le> unat b" "unat b < 0x38" by simp_all
    then have "unat b \<in> set [0x20..<0x38]" by (simp only: set_upt atLeastLessThan_iff)
    then have "of_nat (unat b) \<in> set (map (of_nat :: nat \<Rightarrow> u8) [0x20..<0x38])"
      unfolding set_map by (rule imageI)
    then show ?thesis by simp
  qed
  moreover have "\<forall>b \<in> set (map of_nat [0x20..<0x38]). \<not> b \<le> (0x17 :: u8) \<and>
      (ucast ((256 :: u16) - ucast (b - 0x20 + 1)) :: u8) = 0x1F - b \<and> 0x1F - b \<noteq> b"
    by (simp add: upt_conv_Cons)
  ultimately have e: "\<not> b \<le> 0x17" "(ucast ((256 :: u16) - ucast (b - 0x20 + 1)) :: u8) = 0x1F - b"
    "0x1F - b \<noteq> b" by blast+
  have "identifier_bytes cid = [b]" using b r by (simp add: identifier_bytes_def compact_id_def)
  moreover have "parse_identifier ([b] @ rest) =
      and_then (connection_id_new [ucast ((256 :: u16) - ucast (b - 0x20 + 1))]) (\<lambda>c. Ok (c, 1))"
    using e(1) r by (simp add: parse_identifier_def index_def Let_def)
  then have "parse_identifier ([b] @ rest) = Ok ([0x1F - b], 1)"
    unfolding e(2) by (simp add: connection_id_new_eq)
  ultimately show ?thesis using b e by blast
qed

lemma parse_identifier_Ok:
  assumes "parse_identifier data = Ok (cid, n)"
  shows "1 \<le> n" "n \<le> length data" "length cid \<le> 7"
  using assms
  by (auto simp: parse_identifier_def Suc_le_eq res_simps slice_simps connection_id_new_eq Let_def
      split: if_splits)

lemma parse_identifier_no_panic: "parse_identifier data \<noteq> Panic"
  by (auto simp: parse_identifier_def res_simps slice_simps connection_id_new_eq Let_def
      split: if_splits)

subsection \<open>Suites\<close>

lemma suite_element_Ok:
  "suite_element data off = Ok (v, n) \<Longrightarrow> 1 \<le> n \<and> off + n \<le> length data"
  by (auto simp: suite_element_def res_simps slice_simps Let_def split: if_splits)

lemma suite_element_total:
  "suite_element data off \<noteq> Panic" "suite_element data off = Err e \<Longrightarrow> e = EInvalidMessage"
  by (auto simp: suite_element_def res_simps slice_simps Let_def split: if_splits)

lemma suites_loop_Ok:
  "suites_loop data k off sel = Ok (sel', off') \<Longrightarrow> off + k \<le> off' \<and> (k = 0 \<or> off' \<le> length data)"
proof (induction k arbitrary: off sel)
  case (Suc k)
  from Suc.prems(1) obtain v n sel1 where e: "suite_element data off = Ok (v, n)"
    and l: "suites_loop data k (off + n) sel1 = Ok (sel', off')"
    by (auto simp: res_simps Let_def)
  from suite_element_Ok [OF e] Suc.IH [OF l] l show ?case by (cases k) auto
qed simp

lemma suites_loop_total:
  "suites_loop data k off sel \<noteq> Panic" "suites_loop data k off sel = Err e \<Longrightarrow> e = EInvalidMessage"
  by (induction k arbitrary: off sel)
    (auto simp: res_simps Let_def suite_element_total dest: suite_element_total(2))

lemma parse_suites_i_Ok:
  assumes "parse_suites_i data = Ok (s, n)"
  shows "1 \<le> n \<and> n \<le> length data"
proof -
  obtain first rest where data: "data = first # rest"
    using assms by (cases data) (auto simp: parse_suites_i_def)
  consider "first \<le> 0x17" | "first = 0x18" | "\<not> first \<le> 0x17" "first \<noteq> 0x18" by blast
  then show ?thesis
  proof cases
    case 3
    with assms obtain k h sel where "suites_header data first = Ok (k, h)" "k \<noteq> 0"
      and l: "suites_loop data k h None = Ok (sel, n)"
      by (auto simp: parse_suites_i_def data index_def res_simps split: if_splits option.splits)
    moreover from this have "1 \<le> h"
      by (auto simp: suites_header_def res_simps split: if_splits)
    ultimately show ?thesis using suites_loop_Ok [OF l] by simp
  qed (use assms in \<open>auto simp: parse_suites_i_def data index_def res_simps Suc_le_eq split: if_splits\<close>)
qed

lemma parse_suites_i_total:
  "parse_suites_i data \<noteq> Panic" "parse_suites_i data = Err e \<Longrightarrow> e = EInvalidMessage"
  by (auto simp: parse_suites_i_def suites_header_def res_simps slice_simps Let_def suites_loop_total
      dest: suites_loop_total(2) split: if_splits option.splits)

lemma parse_suites_r_Ok: "parse_suites_r data = Ok n \<Longrightarrow> 1 \<le> n \<and> n \<le> length data"
  by (auto simp: parse_suites_r_def res_simps slice_simps Let_def Suc_le_eq split: if_splits)

lemma parse_suites_r_total:
  "parse_suites_r data \<noteq> Panic" "parse_suites_r data = Err e \<Longrightarrow> e = EInvalidMessage"
  by (auto simp: parse_suites_r_def res_simps slice_simps Let_def split: if_splits)

end
