(* ===== verification/EdhocCredential.thy ===== *)
theory EdhocCredential
  imports EdhocCbor
begin

text \<open>
  The credential handling of \<^verbatim>\<open>src/edhoc/credential.rs\<close>: the raw-key credential and its
  identifier, the parser of ID_CRED with its bounded walk over CBOR maps, and the check of a peer
  credential against its public key. The curve check of \<open>validate_pubkey\<close> (decompression,
  identity, torsion) is the crate \<^verbatim>\<open>curve25519_dalek\<close> and an argument. The lemmas show
  that skipping a CBOR value terminates, consumes at least one byte and never more than there are,
  that nothing here panics, and that what the encoder writes is what the parser reads.
\<close>

subsection \<open>Types\<close>

datatype id_cred_reference = Kid bytes | X5t int bytes

record id_cred =
  idc_encoded :: bytes
  idc_reference :: id_cred_reference

record peer_credential =
  pc_public_key :: bytes
  pc_id_cred :: bytes
  pc_credential :: bytes

definition peer_credential_new :: "bytes \<Rightarrow> bytes \<Rightarrow> bytes \<Rightarrow> peer_credential" where
  "peer_credential_new public_key idc credential =
     \<lparr>pc_public_key = public_key, pc_id_cred = idc, pc_credential = credential\<rparr>"

subsection \<open>Encoding\<close>

text \<open>\<open>digest\<close> is SHA-256.\<close>

definition encode_id_cred :: "(bytes \<Rightarrow> bytes) \<Rightarrow> nat \<Rightarrow> bytes \<Rightarrow> bytes \<Rightarrow> (edhoc_error, bytes) res" where
  "encode_id_cred digest N buf pubkey =
     (let kid = digest pubkey in
      and_then (push_err N buf 0xa1) (\<lambda>buf.
      and_then (push_err N buf 0x04) (\<lambda>buf.
      and_then (push_err N buf (0x40 OR 8)) (\<lambda>buf.
      and_then (slice kid 0 8) (\<lambda>k.
        extend_err N buf k)))))"

definition encode_credential :: "nat \<Rightarrow> bytes \<Rightarrow> bytes \<Rightarrow> (edhoc_error, bytes) res" where
  "encode_credential N buf pubkey =
     and_then (push_err N buf 0xa3) (\<lambda>buf.
     and_then (push_err N buf 0x01) (\<lambda>buf.
     and_then (push_err N buf 0x01) (\<lambda>buf.
     and_then (push_err N buf 0x20) (\<lambda>buf.
     and_then (push_err N buf 0x06) (\<lambda>buf.
     and_then (push_err N buf 0x21) (\<lambda>buf.
       encode_bstr N buf pubkey))))))"

definition raw_key_credential ::
    "(bytes \<Rightarrow> bytes) \<Rightarrow> bytes \<Rightarrow> (edhoc_error, bytes \<times> bytes) res" where
  "raw_key_credential digest pubkey =
     (let kid = digest pubkey in
      and_then (push_err 40 [] 0xa1) (\<lambda>idc.
      and_then (push_err 40 idc 0x04) (\<lambda>idc.
      and_then (slice kid 0 23) (\<lambda>k23.
      and_then
        (if length k23 \<le> 23 then push_err 40 idc (0x40 OR 8)
         else and_then (push_err 40 idc 0x58) (\<lambda>idc. push_err 40 idc 8)) (\<lambda>idc.
      and_then (slice kid 0 8) (\<lambda>k8.
      and_then (extend_err 40 idc k8) (\<lambda>idc.
      and_then (push_err 80 [] 0xa3) (\<lambda>ccs.
      and_then (push_err 80 ccs 0x01) (\<lambda>ccs.
      and_then (push_err 80 ccs 0x01) (\<lambda>ccs.
      and_then (push_err 80 ccs 0x20) (\<lambda>ccs.
      and_then (push_err 80 ccs 0x06) (\<lambda>ccs.
      and_then (push_err 80 ccs 0x21) (\<lambda>ccs.
      and_then (encode_bstr 80 ccs pubkey) (\<lambda>ccs.
        Ok (idc, ccs)))))))))))))))"

subsection \<open>CBOR integers and byte strings\<close>

definition try_parse_cbor_int :: "bytes \<Rightarrow> (edhoc_error, (int \<times> nat) option) res" where
  "try_parse_cbor_int data =
     (if data = [] then Ok None
      else
        and_then (index data 0) (\<lambda>first.
        if first \<le> 0x17 then Ok (Some (uint first, 1))
        else if first = 0x18 then
          if length data < 2 then Ok None
          else
            and_then (index data 1) (\<lambda>b.
              if b < 24 then Ok None else Ok (Some (uint b, 2)))
        else if first = 0x19 then
          if length data < 3 then Ok None
          else
            and_then (index data 1) (\<lambda>hi.
            and_then (index data 2) (\<lambda>lo.
            let val = u16_from_be hi lo in
            if val \<le> 0xff then Ok None else Ok (Some (uint val, 3))))
        else if 0x20 \<le> first \<and> first \<le> 0x37 then Ok (Some (- (uint (first - 0x20) + 1), 1))
        else if first = 0x38 then
          if length data < 2 then Ok None
          else
            and_then (index data 1) (\<lambda>b.
              if b < 24 then Ok None else Ok (Some (- (uint b + 1), 2)))
        else if first = 0x39 then
          if length data < 3 then Ok None
          else
            and_then (index data 1) (\<lambda>hi.
            and_then (index data 2) (\<lambda>lo.
            let val = u16_from_be hi lo in
            if val \<le> 0xff then Ok None else Ok (Some (- (uint val + 1), 3))))
        else Ok None))"

definition parse_canonical_bstr :: "bytes \<Rightarrow> (edhoc_error, bytes \<times> nat) res" where
  "parse_canonical_bstr data =
     (if data = [] then Err EInvalidMessage
      else
        and_then (index data 0) (\<lambda>first.
        if 0x40 \<le> first \<and> first \<le> 0x57 then take_value data 1 (as_usize (first - 0x40))
        else if first = 0x58 then
          if length data < 2 then Err EInvalidMessage
          else
            and_then (index data 1) (\<lambda>b.
            let len = as_usize b in
            if len < 24 then Err EInvalidMessage else take_value data 2 len)
        else if first = 0x59 then
          if length data < 3 then Err EInvalidMessage
          else
            and_then (index data 1) (\<lambda>hi.
            and_then (index data 2) (\<lambda>lo.
            let len = unat (u16_from_be hi lo) in
            if len \<le> 0xff then Err EInvalidMessage else take_value data 3 len))
        else Err EInvalidMessage))"

text \<open>\<open>if data.len() < n { return Err(InvalidMessage) } return Ok(n)\<close>.\<close>

definition sized :: "bytes \<Rightarrow> nat \<Rightarrow> (edhoc_error, nat) res" where
  "sized data n = (if length data < n then Err EInvalidMessage else Ok n)"

definition skip_int_value :: "bytes \<Rightarrow> (edhoc_error, nat) res" where
  "skip_int_value data =
     (if data = [] then Err EInvalidMessage
      else
        and_then (index data 0) (\<lambda>first.
        if first \<le> 0x17 then Ok 1
        else if first = 0x18 then sized data 2
        else if first = 0x19 then sized data 3
        else if 0x20 \<le> first \<and> first \<le> 0x37 then Ok 1
        else if first = 0x38 then sized data 2
        else if first = 0x39 then sized data 3
        else Err EInvalidMessage))"

subsection \<open>Skipping a value\<close>

text \<open>The two \<open>for\<close> loops over array elements are \<open>skip_items\<close>: \<open>k\<close> items are left, the
  next one starts at \<open>offset\<close>.\<close>

function (sequential) skip_cbor_value :: "bytes \<Rightarrow> (edhoc_error, nat) res"
  and skip_items :: "bytes \<Rightarrow> nat \<Rightarrow> nat \<Rightarrow> (edhoc_error, nat) res" where
  "skip_cbor_value data =
     (if data = [] then Err EInvalidMessage
      else
        and_then (index data 0) (\<lambda>first.
        if first \<le> 0x17 then Ok 1
        else if first = 0x18 then sized data 2
        else if first = 0x19 then sized data 3
        else if 0x20 \<le> first \<and> first \<le> 0x37 then Ok 1
        else if first = 0x38 then sized data 2
        else if first = 0x39 then sized data 3
        else if 0x40 \<le> first \<and> first \<le> 0x57 then sized data (1 + as_usize (first - 0x40))
        else if first = 0x58 then
          if length data < 2 then Err EInvalidMessage
          else and_then (index data 1) (\<lambda>b. sized data (2 + as_usize b))
        else if 0x60 \<le> first \<and> first \<le> 0x77 then sized data (1 + as_usize (first - 0x60))
        else if first = 0x78 then
          if length data < 2 then Err EInvalidMessage
          else and_then (index data 1) (\<lambda>b. sized data (2 + as_usize b))
        else if 0x80 \<le> first \<and> first \<le> 0x97 then skip_items data 1 (as_usize (first - 0x80))
        else if first = 0x98 then
          if length data < 2 then Err EInvalidMessage
          else and_then (index data 1) (\<lambda>b. skip_items data 2 (as_usize b))
        else Err EInvalidMessage))"
| "skip_items data offset 0 = Ok offset"
| "skip_items data offset (Suc k) =
     and_then (slice_from data offset) (\<lambda>tail.
     and_then (skip_cbor_value tail) (\<lambda>n.
       skip_items data (offset + n) k))"
  by pat_completeness auto
termination
  by (relation "measures
      [\<lambda>x. case x of Inl d \<Rightarrow> length d | Inr (d, off, k) \<Rightarrow> length d - off,
       \<lambda>x. case x of Inl d \<Rightarrow> 0 | Inr (d, off, k) \<Rightarrow> Suc k]")
    (auto simp: slice_simps)

declare skip_cbor_value.simps [simp del]

subsection \<open>The alg and x5t values\<close>

text \<open>\<open>seen\<close> is the bounded vector of the values met so far.\<close>

primrec alg_items :: "bytes \<Rightarrow> nat \<Rightarrow> nat \<Rightarrow> int list \<Rightarrow> (edhoc_error, nat) res" where
  "alg_items data 0 offset seen = Ok offset"
| "alg_items data (Suc k) offset seen =
     (if length data \<le> offset then Err EInvalidMessage
      else
        and_then (slice_from data offset) (\<lambda>tail.
        and_then (try_parse_cbor_int tail) (\<lambda>r.
          case r of
            Some (val, len) \<Rightarrow>
              if val = 1 \<or> val = 34 then Err EInvalidMessage
              else if val \<in> set seen then Err EInvalidMessage
              else
                and_then (vec_push 8 EBufferTooSmall seen val) (\<lambda>seen.
                  alg_items data k (offset + len) seen)
          | None \<Rightarrow>
              and_then (skip_cbor_value tail) (\<lambda>n. alg_items data k (offset + n) seen))))"

definition validate_alg_value :: "bytes \<Rightarrow> (edhoc_error, nat) res" where
  "validate_alg_value data =
     (if data = [] then Err EInvalidMessage
      else
        and_then (index data 0) (\<lambda>first.
          case skip_int_value data of
            Ok len \<Rightarrow> Ok len
          | Panic \<Rightarrow> Panic
          | Err _ \<Rightarrow>
              if 0x80 \<le> first \<and> first \<le> 0x97 then alg_items data (as_usize (first - 0x80)) 1 []
              else Err EInvalidMessage))"

definition parse_cbor_int :: "bytes \<Rightarrow> (edhoc_error, int \<times> nat) res" where
  "parse_cbor_int data = and_then (try_parse_cbor_int data) (ok_or EInvalidMessage)"

text \<open>The value for \<open>*out\<close> comes back with the number of bytes.\<close>

definition parse_x5t_value :: "bytes \<Rightarrow> (edhoc_error, (int \<times> bytes) \<times> nat) res" where
  "parse_x5t_value data =
     and_then (if data = [] then Ok False else and_then (index data 0) (\<lambda>b. Ok (b = 0x82)))
       (\<lambda>array2.
     if \<not> array2 then Err EInvalidMessage
     else
       let offset = 1 in
       and_then (slice_from data offset) (\<lambda>t.
       and_then (parse_cbor_int t) (\<lambda>(alg, alg_len).
       let offset = offset + alg_len in
       and_then (slice_from data offset) (\<lambda>t.
       and_then (parse_bstr t) (\<lambda>(hash_val, hash_len).
       let offset = offset + hash_len in
       and_then (vec_extend ID_CRED_MAX_LEN EBufferTooSmall [] hash_val) (\<lambda>hash.
         Ok ((alg, hash), offset)))))))"

subsection \<open>ID_CRED\<close>

text \<open>The compact encodings: the map that stands for them, and the key identifier.\<close>

definition compact_kid :: "u8 \<Rightarrow> bytes \<Rightarrow> (edhoc_error, id_cred) res" where
  "compact_kid head raw =
     and_then (push_err ID_CRED_MAX_LEN [] 0xa1) (\<lambda>enc.
     and_then (push_err ID_CRED_MAX_LEN enc 0x04) (\<lambda>enc.
     and_then (push_err ID_CRED_MAX_LEN enc head) (\<lambda>enc.
     and_then (extend_err ID_CRED_MAX_LEN enc raw) (\<lambda>enc.
     and_then (extend_err ID_CRED_MAX_LEN [] raw) (\<lambda>kid_val.
       Ok \<lparr>idc_encoded = enc, idc_reference = Kid kid_val\<rparr>)))))"

record id_cred_walk =
  w_offset :: nat
  w_seen :: "int list"
  w_kid :: "bytes option"
  w_x5t :: "(int \<times> bytes) option"

text \<open>One key-value pair of the map: the body of the \<open>for\<close> loop.\<close>

definition id_cred_pair :: "bytes \<Rightarrow> id_cred_walk \<Rightarrow> (edhoc_error, id_cred_walk) res" where
  "id_cred_pair data w =
     (if length data \<le> w_offset w then Err EInvalidMessage
      else
        and_then (slice_from data (w_offset w)) (\<lambda>tail.
        and_then (try_parse_cbor_int tail) (\<lambda>label_result.
          case label_result of
            Some (label, label_len) \<Rightarrow>
              let w = w\<lparr>w_offset := w_offset w + label_len\<rparr> in
              if label \<in> set (w_seen w) then Err EInvalidMessage
              else
                and_then (vec_push 8 EBufferTooSmall (w_seen w) label) (\<lambda>seen.
                let w = w\<lparr>w_seen := seen\<rparr> in
                and_then (slice_from data (w_offset w)) (\<lambda>tail.
                if label = 1 then
                  and_then (skip_int_value tail) (\<lambda>n. Ok (w\<lparr>w_offset := w_offset w + n\<rparr>))
                else if label = 2 then
                  and_then (validate_alg_value tail) (\<lambda>n. Ok (w\<lparr>w_offset := w_offset w + n\<rparr>))
                else if label = 4 then
                  if w_kid w \<noteq> None then Err EInvalidMessage
                  else
                    and_then (parse_canonical_bstr tail) (\<lambda>(bstr_val, n).
                    and_then (vec_extend ID_CRED_MAX_LEN EBufferTooSmall [] bstr_val) (\<lambda>kid.
                      Ok (w\<lparr>w_kid := Some kid, w_offset := w_offset w + n\<rparr>)))
                else if label = 34 then
                  if w_x5t w \<noteq> None then Err EInvalidMessage
                  else
                    and_then (parse_x5t_value tail) (\<lambda>(x, n).
                      Ok (w\<lparr>w_x5t := Some x, w_offset := w_offset w + n\<rparr>))
                else
                  and_then (skip_cbor_value tail) (\<lambda>n. Ok (w\<lparr>w_offset := w_offset w + n\<rparr>))))
          | None \<Rightarrow>
              and_then (skip_cbor_value tail) (\<lambda>key_len.
              let offset = w_offset w + key_len in
              and_then (slice_from data offset) (\<lambda>tail.
              and_then (skip_cbor_value tail) (\<lambda>n. Ok (w\<lparr>w_offset := offset + n\<rparr>)))))))"

primrec id_cred_pairs :: "bytes \<Rightarrow> nat \<Rightarrow> id_cred_walk \<Rightarrow> (edhoc_error, id_cred_walk) res" where
  "id_cred_pairs data 0 w = Ok w"
| "id_cred_pairs data (Suc k) w = and_then (id_cred_pair data w) (id_cred_pairs data k)"

definition parse_id_cred :: "bytes \<Rightarrow> (edhoc_error, id_cred \<times> nat) res" where
  "parse_id_cred data =
     (if data = [] then Err EInvalidMessage
      else
        and_then (index data 0) (\<lambda>first.
        if first \<le> 0x17 then and_then (compact_kid 0x41 [first]) (\<lambda>c. Ok (c, 1))
        else if 0x20 \<le> first \<and> first \<le> 0x37 then and_then (compact_kid 0x41 [first]) (\<lambda>c. Ok (c, 1))
        else if first = 0x18 then
          if length data < 2 then Err EInvalidMessage
          else and_then (slice data 0 2) (\<lambda>raw. and_then (compact_kid 0x42 raw) (\<lambda>c. Ok (c, 2)))
        else if first = 0x38 then
          if length data < 2 then Err EInvalidMessage
          else and_then (slice data 0 2) (\<lambda>raw. and_then (compact_kid 0x42 raw) (\<lambda>c. Ok (c, 2)))
        else if (0x40 \<le> first \<and> first \<le> 0x57) \<or> first = 0x58 then
          and_then (parse_bstr data) (\<lambda>(bstr_val, consumed).
          and_then (push_err ID_CRED_MAX_LEN [] 0xa1) (\<lambda>enc.
          and_then (push_err ID_CRED_MAX_LEN enc 0x04) (\<lambda>enc.
          and_then (encode_bstr ID_CRED_MAX_LEN enc bstr_val) (\<lambda>enc.
          and_then (vec_extend ID_CRED_MAX_LEN EBufferTooSmall [] bstr_val) (\<lambda>kid_val.
            Ok (\<lparr>idc_encoded = enc, idc_reference = Kid kid_val\<rparr>, consumed))))))
        else if \<not> (0xa1 \<le> first \<and> first \<le> 0xa8) then Err EInvalidMessage
        else
          let num_pairs = as_usize (first - 0xa0) in
          and_then (id_cred_pairs data num_pairs
                      \<lparr>w_offset = 1, w_seen = [], w_kid = None, w_x5t = None\<rparr>) (\<lambda>w.
          and_then
            (case (w_kid w, w_x5t w) of
               (Some kid, None) \<Rightarrow> Ok (Kid kid)
             | (None, Some (alg, hash)) \<Rightarrow> Ok (X5t alg hash)
             | _ \<Rightarrow> Err EInvalidMessage) (\<lambda>reference.
          and_then (slice data 0 (w_offset w)) (\<lambda>raw.
          and_then (extend_err ID_CRED_MAX_LEN [] raw) (\<lambda>enc.
            Ok (\<lparr>idc_encoded = enc, idc_reference = reference\<rparr>, w_offset w)))))))"

subsection \<open>Validation of a peer credential\<close>

text \<open>\<open>point_ok\<close> is the check that the bytes decompress to a torsion-free point other than the
  identity.\<close>

definition validate_pubkey :: "(bytes \<Rightarrow> bool) \<Rightarrow> bytes \<Rightarrow> (edhoc_error, unit) res" where
  "validate_pubkey point_ok bs = (if point_ok bs then Ok () else Err ESignatureVerification)"

definition validate_peer_credential ::
    "(bytes \<Rightarrow> bool) \<Rightarrow> peer_credential \<Rightarrow> (edhoc_error, unit) res" where
  "validate_peer_credential point_ok peer =
     (if length (pc_public_key peer) \<noteq> 32 then Err EInvalidMessage
      else
        and_then (copy_at (replicate 32 0) 0 (pc_public_key peer)) (\<lambda>pubkey.
        and_then (validate_pubkey point_ok pubkey) (\<lambda>_.
        let data = pc_credential peer in
        and_then (if data = [] then Ok True else and_then (index data 0) (\<lambda>b. Ok (b \<noteq> 0xa3)))
          (\<lambda>other.
        if other then Ok ()
        else if length data < 2 then Err EInvalidMessage
        else
          and_then (index data 1) (\<lambda>b1.
          if b1 \<noteq> 0x01 \<or> get_at data 2 \<noteq> Some 0x01 then Err EInvalidMessage
          else if get_at data 3 \<noteq> Some 0x20 \<or> get_at data 4 \<noteq> Some 0x06 then Err EInvalidMessage
          else if get_at data 5 \<noteq> Some 0x21 then Err EInvalidMessage
          else
            and_then (slice_from data 6) (\<lambda>t.
            and_then (parse_bstr t) (\<lambda>(x_bytes, x_consumed).
              if length x_bytes \<noteq> 32 \<or> x_bytes \<noteq> pc_public_key peer
              then Err ESignatureVerification else Ok ())))))))"

subsection \<open>Consumption and absence of panics\<close>

lemma sized_eq [res_simps]:
  "sized data n = Ok m \<longleftrightarrow> m = n \<and> n \<le> length data"
  "sized data n = Err e \<longleftrightarrow> length data < n \<and> e = EInvalidMessage"
  "sized data n \<noteq> Panic"
  by (auto simp: sized_def)

definition consumes :: "bytes \<Rightarrow> (edhoc_error, nat) res \<Rightarrow> bool" where
  "consumes data r \<longleftrightarrow> r = Err EInvalidMessage \<or> (\<exists>n. r = Ok n \<and> 1 \<le> n \<and> n \<le> length data)"

lemma consumes_simps [simp]:
  "consumes data (Err e) \<longleftrightarrow> e = EInvalidMessage" "\<not> consumes data Panic"
  "consumes data (Ok n) \<longleftrightarrow> 1 \<le> n \<and> n \<le> length data"
  "1 \<le> n \<Longrightarrow> consumes data (sized data n)"
  by (auto simp: consumes_def sized_def)

text \<open>Every branch of \<open>skip_cbor_value\<close> answers like \<open>sized\<close> or like the loop over items.\<close>

lemma consumes_two:
  "(\<And>b. 2 \<le> length data \<Longrightarrow> consumes data (f b)) \<Longrightarrow>
   consumes data (if length data < 2 then Err EInvalidMessage else and_then (index data 1) f)"
  by (auto simp: index_def)

lemma skip_cbor_value_branches:
  assumes items: "\<And>off k. 1 \<le> off \<Longrightarrow> off \<le> length data \<Longrightarrow> consumes data (skip_items data off k)"
  shows "consumes data (skip_cbor_value data)"
proof (cases "data = []")
  case False
  then have len: "1 \<le> length data" by (simp add: Suc_le_eq)
  from False obtain first where first: "(index data 0 :: (edhoc_error, u8) res) = Ok first" by (simp add: index_def)
  have one: "consumes data (skip_items data 1 k)" for k by (rule items) (use len in auto)
  have two: "consumes data (if length data < 2 then Err EInvalidMessage
      else and_then (index data 1) (\<lambda>b. skip_items data 2 (as_usize b)))"
    by (rule consumes_two, rule items) auto
  have two_sized: "consumes data (if length data < 2 then Err EInvalidMessage
      else and_then (index data 1) (\<lambda>b. sized data (2 + as_usize b)))"
    by (rule consumes_two) auto
  show ?thesis
    unfolding skip_cbor_value.simps [of data]
    by (simp only: False if_False first and_then.simps if_distrib [of "consumes data"])
      (use one two two_sized len in \<open>auto split: if_splits\<close>)
qed (simp add: skip_cbor_value.simps)

lemma skip_items_Suc:
  "off \<le> length data \<Longrightarrow> skip_items data off (Suc k) =
     and_then (skip_cbor_value (drop off data)) (\<lambda>n. skip_items data (off + n) k)"
  by (simp add: slice_from_def)

lemma skip_consumes: "consumes data (skip_cbor_value data)"
proof (induction "length data" arbitrary: data rule: less_induct)
  case less
  have "consumes data (skip_items data off k)" if "1 \<le> off" "off \<le> length data" for off k
    using that
  proof (induction k arbitrary: off)
    case (Suc k)
    have "length (drop off data) < length data" using Suc.prems by auto
    from less [OF this] have c: "consumes (drop off data) (skip_cbor_value (drop off data))" .
    show ?case
    proof (cases "skip_cbor_value (drop off data)")
      case (Ok m)
      with c Suc.prems have "1 \<le> off + m" "off + m \<le> length data" by auto
      from Suc.IH [OF this] show ?thesis by (simp only: skip_items_Suc [OF Suc.prems(2)] Ok and_then.simps)
    qed (use c in \<open>simp_all only: skip_items_Suc [OF Suc.prems(2)] and_then.simps consumes_simps\<close>)
  qed simp
  then show ?case by (rule skip_cbor_value_branches)
qed

lemma skip_cbor_value_Ok: "skip_cbor_value data = Ok n \<Longrightarrow> 1 \<le> n \<and> n \<le> length data"
  using skip_consumes [of data] by simp

lemma skip_cbor_value_total:
  "skip_cbor_value data \<noteq> Panic" "skip_cbor_value data = Err e \<Longrightarrow> e = EInvalidMessage"
  using skip_consumes [of data] by auto

lemma try_parse_cbor_int_Ok:
  "try_parse_cbor_int data = Ok (Some (v, n)) \<Longrightarrow> 1 \<le> n \<and> n \<le> length data"
  by (auto simp: try_parse_cbor_int_def res_simps slice_simps Let_def Suc_le_eq split: if_splits)

lemma try_parse_cbor_int_total: "\<exists>r. try_parse_cbor_int data = Ok r"
  by (auto simp: try_parse_cbor_int_def index_def Let_def)

lemma parse_canonical_bstr_Ok:
  "parse_canonical_bstr data = Ok (v, n) \<Longrightarrow> 1 \<le> n \<and> n \<le> length data"
  by (auto simp: parse_canonical_bstr_def take_value_Ok res_simps slice_simps Let_def split: if_splits)

lemma parse_canonical_bstr_no_panic: "parse_canonical_bstr data \<noteq> Panic"
  by (auto simp: parse_canonical_bstr_def res_simps slice_simps Let_def take_value_total
      split: if_splits)

lemma skip_int_value_Ok: "skip_int_value data = Ok n \<Longrightarrow> 1 \<le> n \<and> n \<le> length data"
  by (auto simp: skip_int_value_def res_simps slice_simps Suc_le_eq split: if_splits)

lemma skip_int_value_no_panic: "skip_int_value data \<noteq> Panic"
  by (auto simp: skip_int_value_def res_simps slice_simps split: if_splits)

lemma alg_items_Ok:
  "alg_items data k off seen = Ok n \<Longrightarrow> off \<le> length data \<Longrightarrow> off \<le> n \<and> n \<le> length data"
proof (induction k arbitrary: off seen)
  case (Suc k)
  from Suc.prems obtain r where r: "try_parse_cbor_int (drop off data) = Ok r"
    using try_parse_cbor_int_total by blast
  have "\<exists>m seen'. alg_items data k (off + m) seen' = Ok n \<and> off + m \<le> length data"
  proof (cases r)
    case None
    with Suc.prems r show ?thesis
      by (fastforce simp: res_simps slice_simps dest: skip_cbor_value_Ok split: if_splits)
  next
    case (Some l)
    obtain a b where "l = (a, b)" by fastforce
    with Suc.prems r Some try_parse_cbor_int_Ok [of "drop off data" a b] show ?thesis
      by (intro exI [of _ b] exI [of _ "seen @ [a]"])
        (auto simp: res_simps slice_simps vec_simps split: if_splits)
  qed
  with Suc.IH show ?case by fastforce
qed simp

lemma alg_items_no_panic: "off \<le> length data \<Longrightarrow> alg_items data k off seen \<noteq> Panic"
proof (induction k arbitrary: off seen)
  case (Suc k)
  obtain r where r: "try_parse_cbor_int (drop off data) = Ok r"
    using try_parse_cbor_int_total by blast
  with Suc show ?case
    by (auto simp: res_simps slice_simps vec_simps skip_cbor_value_total
        dest: try_parse_cbor_int_Ok skip_cbor_value_Ok split: option.splits)
qed simp

lemma validate_alg_value_Ok:
  assumes "validate_alg_value data = Ok n" shows "1 \<le> n \<and> n \<le> length data"
proof (cases "skip_int_value data")
  case (Err e)
  with assms have "data \<noteq> []" "alg_items data (as_usize (data ! 0 - 0x80)) 1 [] = Ok n"
    by (auto simp: validate_alg_value_def res_simps slice_simps split: if_splits)
  with alg_items_Ok [OF this(2)] show ?thesis by (simp add: Suc_le_eq)
qed (use assms skip_int_value_Ok in \<open>auto simp: validate_alg_value_def res_simps split: if_splits\<close>)

lemma validate_alg_value_no_panic: "validate_alg_value data \<noteq> Panic"
  by (auto simp: validate_alg_value_def res_simps slice_simps skip_int_value_no_panic
      alg_items_no_panic Suc_le_eq split: res.splits if_splits)

lemma parse_x5t_value_Ok:
  "parse_x5t_value data = Ok (x, n) \<Longrightarrow> 1 \<le> n \<and> n \<le> length data"
  by (auto simp: parse_x5t_value_def parse_cbor_int_def res_simps slice_simps Let_def
      dest!: try_parse_cbor_int_Ok parse_bstr_Ok(2) split: if_splits)

lemma parse_x5t_value_no_panic: "parse_x5t_value data \<noteq> Panic"
proof -
  obtain r where "try_parse_cbor_int (drop (Suc 0) data) = Ok r"
    using try_parse_cbor_int_total by blast
  then show ?thesis
    by (auto simp: parse_x5t_value_def parse_cbor_int_def res_simps slice_simps vec_simps Let_def
        parse_bstr_total dest!: try_parse_cbor_int_Ok split: if_splits)
qed

lemma id_cred_pair_Ok:
  assumes "id_cred_pair data w = Ok w'"
  shows "w_offset w < w_offset w'" "w_offset w' \<le> length data"
proof -
  obtain r where r: "try_parse_cbor_int (drop (w_offset w) data) = Ok r"
    using try_parse_cbor_int_total by blast
  have "w_offset w < w_offset w' \<and> w_offset w' \<le> length data"
  proof (cases r)
    case None
    with assms r show ?thesis
      by (auto simp: id_cred_pair_def res_simps slice_simps Let_def dest!: skip_cbor_value_Ok
          split: if_splits)
  next
    case (Some l)
    obtain label label_len where l: "l = (label, label_len)" by fastforce
    with assms r Some show ?thesis
      by (auto simp: id_cred_pair_def res_simps slice_simps Let_def
          dest!: skip_cbor_value_Ok try_parse_cbor_int_Ok skip_int_value_Ok validate_alg_value_Ok
            parse_canonical_bstr_Ok parse_x5t_value_Ok
          split: if_splits)
  qed
  then show "w_offset w < w_offset w'" "w_offset w' \<le> length data" by blast+
qed

lemma id_cred_pair_no_panic: "id_cred_pair data w \<noteq> Panic"
proof -
  obtain r where r: "try_parse_cbor_int (drop (w_offset w) data) = Ok r"
    using try_parse_cbor_int_total by blast
  show ?thesis
  proof (cases r)
    case None
    with r show ?thesis
      by (auto simp: id_cred_pair_def res_simps slice_simps skip_cbor_value_total Let_def
          dest!: skip_cbor_value_Ok split: if_splits)
  next
    case (Some l)
    obtain label label_len where l: "l = (label, label_len)" by fastforce
    with r Some show ?thesis
      by (auto simp: id_cred_pair_def res_simps slice_simps vec_simps Let_def skip_cbor_value_total
          skip_int_value_no_panic validate_alg_value_no_panic parse_canonical_bstr_no_panic
          parse_x5t_value_no_panic dest!: try_parse_cbor_int_Ok split: if_splits)
  qed
qed

lemma id_cred_pairs_Ok:
  "id_cred_pairs data k w = Ok w' \<Longrightarrow> w_offset w \<le> length data \<Longrightarrow>
   w_offset w \<le> w_offset w' \<and> w_offset w' \<le> length data"
  by (induction k arbitrary: w) (fastforce simp: res_simps dest: id_cred_pair_Ok)+

lemma id_cred_pairs_no_panic: "id_cred_pairs data k w \<noteq> Panic"
  by (induction k arbitrary: w) (auto simp: res_simps id_cred_pair_no_panic)

subsection \<open>Parsing ID_CRED\<close>

lemma compact_kid_eq:
  "length raw \<le> 2 \<Longrightarrow>
   compact_kid head raw = Ok \<lparr>idc_encoded = [0xa1, 0x04, head] @ raw, idc_reference = Kid raw\<rparr>"
  by (simp add: compact_kid_def push_err_Ok extend_err_Ok)

lemma parse_id_cred_no_panic: "parse_id_cred data \<noteq> Panic"
proof -
  let ?w = "\<lparr>w_offset = 1, w_seen = [], w_kid = None, w_x5t = None\<rparr>"
  have "slice data 0 (w_offset w) \<noteq> Panic" if "id_cred_pairs data k ?w = Ok w" "data \<noteq> []" for k w
    using id_cred_pairs_Ok [OF that(1)] that(2) by (simp add: slice_simps Suc_le_eq)
  then show ?thesis
    by (auto simp: parse_id_cred_def compact_kid_eq res_simps slice_simps vec_simps Let_def
        encode_bstr_eq id_cred_pairs_no_panic parse_bstr_total
        split: if_splits option.splits prod.splits)
qed

lemma parse_bstr_range: "parse_bstr data = Ok (v, n) \<Longrightarrow> 1 \<le> n \<and> n \<le> length data"
  using parse_bstr_Ok [of data v n] by simp

text \<open>What the parser accepts lies inside the message, and the encoding it keeps is bounded.\<close>

lemma parse_id_cred_Ok:
  assumes "parse_id_cred data = Ok (c, n)"
  shows "1 \<le> n" "n \<le> length data" "length (idc_encoded c) \<le> 64"
proof -
  have "1 \<le> n \<and> n \<le> length data \<and> length (idc_encoded c) \<le> 64"
  proof (cases "data = []")
    case False
    then have l: "1 \<le> length data" by (simp add: Suc_le_eq)
    show ?thesis
      using assms l
      by (auto simp: parse_id_cred_def compact_kid_eq res_simps slice_simps vec_simps Let_def
          encode_bstr_eq dest!: parse_bstr_range id_cred_pairs_Ok
          split: if_splits option.splits prod.splits)
  qed (use assms in \<open>simp add: parse_id_cred_def\<close>)
  then show "1 \<le> n" "n \<le> length data" "length (idc_encoded c) \<le> 64" by blast+
qed

subsection \<open>The raw-key credential\<close>

definition raw_id_cred :: "bytes \<Rightarrow> bytes" where
  "raw_id_cred kid = [0xa1, 0x04, 0x48] @ take 8 kid"

definition raw_credential :: "bytes \<Rightarrow> bytes" where
  "raw_credential pubkey = [0xa3, 0x01, 0x01, 0x20, 0x06, 0x21] @ bstr_bytes pubkey"

lemma kid_head: "(0x40 :: u8) OR 8 = 0x48" by simp

lemma length_raw_id_cred [simp]: "8 \<le> length kid \<Longrightarrow> length (raw_id_cred kid) = 11"
  by (simp add: raw_id_cred_def)

lemma length_raw_credential [simp]: "length pubkey = 32 \<Longrightarrow> length (raw_credential pubkey) = 40"
  by (simp add: raw_credential_def length_bstr_bytes)

lemma encode_id_cred_eq:
  "length (digest pubkey) = 32 \<Longrightarrow> 11 \<le> N \<Longrightarrow>
   encode_id_cred digest N [] pubkey = Ok (raw_id_cred (digest pubkey))"
  by (simp add: encode_id_cred_def raw_id_cred_def push_err_Ok extend_err_Ok slice_def kid_head)

lemma encode_credential_eq:
  "length pubkey = 32 \<Longrightarrow> 40 \<le> N \<Longrightarrow>
   encode_credential N [] pubkey = Ok (raw_credential pubkey)"
  by (simp add: encode_credential_def raw_credential_def push_err_Ok encode_bstr_eq length_bstr_bytes)

lemma raw_key_credential_eq:
  assumes "length (digest pubkey) = 32" "length pubkey = 32"
  shows "raw_key_credential digest pubkey = Ok (raw_id_cred (digest pubkey), raw_credential pubkey)"
  using assms
  by (simp add: raw_key_credential_def raw_id_cred_def raw_credential_def push_err_Ok extend_err_Ok
      slice_def kid_head encode_bstr_eq length_bstr_bytes)

text \<open>The identifier that the encoder writes is read back, whatever follows it.\<close>

lemma parse_id_cred_raw:
  assumes "8 \<le> length kid"
  shows "parse_id_cred (raw_id_cred kid @ rest) =
    Ok (\<lparr>idc_encoded = raw_id_cred kid, idc_reference = Kid (take 8 kid)\<rparr>, 11)"
proof -
  let ?k = "take 8 kid" and ?w = "\<lparr>w_offset = 1, w_seen = [], w_kid = None, w_x5t = None\<rparr>"
  let ?data = "raw_id_cred kid @ rest"
  have k: "length ?k = 8" using assms by simp
  have int: "try_parse_cbor_int (0x04 # 0x48 # ?k @ rest) = Ok (Some (4, 1))"
    by (simp add: try_parse_cbor_int_def index_def)
  have bstr: "parse_canonical_bstr (0x48 # ?k @ rest) = Ok (?k, 9)"
    using k by (simp add: parse_canonical_bstr_def index_def take_value_def slice_def)
  have "id_cred_pair ?data ?w = Ok \<lparr>w_offset = 11, w_seen = [4], w_kid = Some ?k, w_x5t = None\<rparr>"
    using k
    by (simp add: id_cred_pair_def raw_id_cred_def slice_from_def int bstr vec_push_Ok vec_extend_Ok)
  then show ?thesis
    using k by (simp add: parse_id_cred_def raw_id_cred_def index_def slice_def extend_err_Ok)
qed

lemma validate_raw_credential:
  assumes "length pk = 32" and "point_ok pk"
  shows "validate_peer_credential point_ok
    \<lparr>pc_public_key = pk, pc_id_cred = idc, pc_credential = raw_credential pk\<rparr> = Ok ()"
proof -
  have "parse_bstr (bstr_bytes pk) = Ok (pk, length (bstr_bytes pk))"
    using parse_bstr_bytes [of pk "[]"] assms by simp
  then show ?thesis
    using assms
    by (simp add: validate_peer_credential_def raw_credential_def copy_at_def validate_pubkey_def
        index_def get_at_def slice_from_def)
qed

text \<open>A credential that is accepted as a raw key carries the peer's public key; any credential that
  is accepted comes with a valid public key.\<close>

lemma validate_peer_credential_sound:
  assumes "validate_peer_credential point_ok peer = Ok ()"
  shows "length (pc_public_key peer) = 32" "point_ok (pc_public_key peer)"
    "pc_credential peer \<noteq> [] \<and> pc_credential peer ! 0 = 0xa3 \<Longrightarrow>
       \<exists>n. parse_bstr (drop 6 (pc_credential peer)) = Ok (pc_public_key peer, n)"
  using assms
  by (auto simp: validate_peer_credential_def validate_pubkey_def copy_at_def res_simps slice_simps
      Let_def split: if_splits)

lemma validate_peer_credential_no_panic: "validate_peer_credential point_ok peer \<noteq> Panic"
  by (auto simp: validate_peer_credential_def validate_pubkey_def copy_at_def res_simps slice_simps
      Let_def get_at_def parse_bstr_total split: if_splits)

lemma encode_credential_no_panic: "encode_credential N buf pubkey \<noteq> Panic"
  by (simp add: encode_credential_def res_simps vec_simps encode_bstr_eq)

lemma encode_id_cred_no_panic: "8 \<le> length (digest pubkey) \<Longrightarrow> encode_id_cred digest N buf pubkey \<noteq> Panic"
  by (simp add: encode_id_cred_def res_simps vec_simps slice_simps Let_def)

lemma raw_key_credential_no_panic:
  "23 \<le> length (digest pubkey) \<Longrightarrow> raw_key_credential digest pubkey \<noteq> Panic"
  by (simp add: raw_key_credential_def res_simps vec_simps slice_simps encode_bstr_eq Let_def)

end
