(* ===== verification/EdhocSign.thy ===== *)
theory EdhocSign
  imports EdhocCredential
begin

text \<open>
  The primitives of the handshake and the signature abstraction of \<^verbatim>\<open>src/edhoc/sign.rs\<close>.
  The crates \<^verbatim>\<open>ed25519_dalek\<close>, \<^verbatim>\<open>schnorr48\<close>, \<^verbatim>\<open>curve25519_dalek\<close> and
  \<^verbatim>\<open>x25519_dalek\<close> are fields of the record \<open>edhoc_crypto\<close>, beside the hash, HKDF and
  AES-CCM of \<open>crypto\<close>; the cargo feature that selects the signature scheme is a field as well, so
  every theorem covers both builds. A signing key and a verifying key are represented by their raw
  bytes. The theory ends with what the two parties share: the lifecycle enumeration of
  \<^verbatim>\<open>src/edhoc/mod.rs\<close>, the combinator for steps that may fail on a state that is being
  changed, and the loop that applies a key stream.
\<close>

subsection \<open>The primitives\<close>

record edhoc_crypto =
  ec_base :: crypto
  feature_schnorr48 :: bool
  schnorr_keypair :: "bytes \<Rightarrow> bytes \<times> bytes"
  schnorr_sign :: "bytes \<Rightarrow> bytes \<Rightarrow> bytes \<Rightarrow> bytes"
  schnorr_verify :: "bytes \<Rightarrow> bytes \<Rightarrow> bytes \<Rightarrow> bool"
  schnorr_wipe :: "bytes \<Rightarrow> bytes"
  ed_public :: "bytes \<Rightarrow> bytes"
  ed_sign :: "bytes \<Rightarrow> bytes \<Rightarrow> bytes"
  ed_key_from_bytes :: "bytes \<Rightarrow> bytes option"
  ed_verify_strict :: "bytes \<Rightarrow> bytes \<Rightarrow> bytes \<Rightarrow> bool"
  point_decompress :: "bytes \<Rightarrow> bytes option"
  point_is_identity :: "bytes \<Rightarrow> bool"
  point_torsion_free :: "bytes \<Rightarrow> bool"
  x25519_public :: "bytes \<Rightarrow> bytes"
  x25519 :: "bytes \<Rightarrow> bytes \<Rightarrow> bytes"

text \<open>
  \<open>x25519 secret peer\<close> is the shared secret, \<open>schnorr_wipe\<close> what erasing a private key leaves in
  memory, \<open>point_decompress\<close> the Edwards point of 32 bytes.
\<close>

subsection \<open>Keys and signatures\<close>

definition sig_len :: "edhoc_crypto \<Rightarrow> nat" where
  "sig_len E = (if feature_schnorr48 E then 48 else 64)"

definition key_from_seed :: "edhoc_crypto \<Rightarrow> bytes \<Rightarrow> bytes \<times> bytes" where
  "key_from_seed E seed =
     (if feature_schnorr48 E then schnorr_keypair E seed else (seed, ed_public E seed))"

definition key_zeroize :: "edhoc_crypto \<Rightarrow> bytes \<Rightarrow> bytes" where
  "key_zeroize E key = (if feature_schnorr48 E then schnorr_wipe E key else replicate 32 0)"

definition sign_message :: "edhoc_crypto \<Rightarrow> bytes \<Rightarrow> bytes \<Rightarrow> bytes \<Rightarrow> bytes" where
  "sign_message E key pubkey message =
     (if feature_schnorr48 E then schnorr_sign E key pubkey message else ed_sign E key message)"

definition verifying_key :: "edhoc_crypto \<Rightarrow> bytes \<Rightarrow> bytes option" where
  "verifying_key E bs =
     (if feature_schnorr48 E then
        (case point_decompress E bs of None \<Rightarrow> None | Some _ \<Rightarrow> Some bs)
      else ed_key_from_bytes E bs)"

definition verify_message :: "edhoc_crypto \<Rightarrow> bytes \<Rightarrow> bytes \<Rightarrow> bytes \<Rightarrow> bool" where
  "verify_message E key message signature =
     (if feature_schnorr48 E then schnorr_verify E key message signature
      else ed_verify_strict E key message signature)"

text \<open>The check of \<open>validate_pubkey\<close>.\<close>

definition edwards_point_ok :: "edhoc_crypto \<Rightarrow> bytes \<Rightarrow> bool" where
  "edwards_point_ok E bs =
     (case point_decompress E bs of
        Some p \<Rightarrow> \<not> point_is_identity E p \<and> point_torsion_free E p
      | None \<Rightarrow> False)"

subsection \<open>What the primitives promise\<close>

definition hash_contract :: "crypto \<Rightarrow> bool" where
  "hash_contract C \<longleftrightarrow>
     (\<forall>m. length (sha256 C m) = 32) \<and> (\<forall>salt ikm. length (hkdf_extract C salt ikm) = 32) \<and>
     (\<forall>prk. 32 \<le> length prk \<longrightarrow> hkdf_from_prk C prk \<noteq> None)"

definition signature_contract :: "edhoc_crypto \<Rightarrow> bool" where
  "signature_contract E \<longleftrightarrow>
     (\<forall>seed key pub. key_from_seed E seed = (key, pub) \<and> length seed = 32 \<longrightarrow>
        length pub = 32 \<and> edwards_point_ok E pub \<and> verifying_key E pub = Some pub \<and>
        (\<forall>m. length (sign_message E key pub m) = sig_len E \<and>
             verify_message E pub m (sign_message E key pub m)))"

definition exchange_contract :: "edhoc_crypto \<Rightarrow> bool" where
  "exchange_contract E \<longleftrightarrow>
     (\<forall>a. length (x25519_public E a) = 32) \<and>
     (\<forall>a b. x25519 E a (x25519_public E b) = x25519 E b (x25519_public E a))"

lemma hash_lengths:
  assumes "hash_contract C"
  shows "length (sha256 C m) = 32" "length (hkdf_extract C salt ikm) = 32"
  using assms by (simp_all add: hash_contract_def)

lemma key_facts:
  assumes "signature_contract E" "length seed = 32" "key_from_seed E seed = (key, pub)"
  shows "length pub = 32" "edwards_point_ok E pub" "verifying_key E pub = Some pub"
    "length (sign_message E key pub m) = sig_len E"
    "verify_message E pub m (sign_message E key pub m)"
  using assms unfolding signature_contract_def by blast+

lemma sig_len_bounds: "48 \<le> sig_len E" "sig_len E \<le> 64"
  by (simp_all add: sig_len_def)

subsection \<open>Steps on a state\<close>

text \<open>
  \<open>try_st st m f\<close> is \<open>m?\<close> in a function that has brought its state to \<open>st\<close>: an error returns with
  that state. \<open>copy_from_slice n src\<close> is the copy into an array of \<open>n\<close> bytes, which panics on
  another length.
\<close>

definition try_st :: "'s \<Rightarrow> ('e, 'a) res \<Rightarrow> ('a \<Rightarrow> 's \<times> ('e, 'b) res) \<Rightarrow> 's \<times> ('e, 'b) res" where
  "try_st st m f = (case m of Ok x \<Rightarrow> f x | Err e \<Rightarrow> (st, Err e) | Panic \<Rightarrow> (st, Panic))"

definition copy_from_slice :: "nat \<Rightarrow> 'a list \<Rightarrow> ('e, 'a list) res" where
  "copy_from_slice n src = (if length src = n then Ok src else Panic)"

lemma try_st_simps [simp]:
  "try_st st (Ok x) f = f x" "try_st st (Err e) f = (st, Err e)" "try_st st Panic f = (st, Panic)"
  by (simp_all add: try_st_def)

lemma try_st_Ok [res_simps]:
  "try_st st m f = (st', Ok y) \<longleftrightarrow> (\<exists>x. m = Ok x \<and> f x = (st', Ok y))"
  by (cases m) auto

lemma try_st_Panic [res_simps]:
  "snd (try_st st m f) = Panic \<longleftrightarrow> m = Panic \<or> (\<exists>x. m = Ok x \<and> snd (f x) = Panic)"
  by (cases m) auto

lemma try_st_cong [fundef_cong]:
  "m = m' \<Longrightarrow> (\<And>x. m' = Ok x \<Longrightarrow> f x = g x) \<Longrightarrow> try_st st m f = try_st st m' g"
  by (cases m') auto

lemma copy_from_slice_eq [slice_simps]:
  "copy_from_slice n src = Ok v \<longleftrightarrow> length src = n \<and> v = src"
  "copy_from_slice n src = Panic \<longleftrightarrow> length src \<noteq> n"
  "copy_from_slice n src \<noteq> Err e"
  by (auto simp: copy_from_slice_def)

subsection \<open>Lifecycle\<close>

datatype lifecycle =
    Created
  | Message1Created
  | AwaitingMessage3
  | PendingMessage2
  | PendingMessage3
  | Complete
  | Failed
  | Zeroized

text \<open>
  What a lifecycle says about the steps a party has completed: the three steps of its role succeed
  in order and once, and only a party that has completed all three is marked as completed. After a
  failure or an erasure some first steps have been completed, and nothing is marked.
\<close>

datatype step = FirstStep | SecondStep | ThirdStep

definition steps_of :: "lifecycle \<Rightarrow> step list" where
  "steps_of l = (case l of
     Created \<Rightarrow> []
   | Message1Created \<Rightarrow> [FirstStep] | AwaitingMessage3 \<Rightarrow> [FirstStep]
   | PendingMessage2 \<Rightarrow> [FirstStep, SecondStep] | PendingMessage3 \<Rightarrow> [FirstStep, SecondStep]
   | _ \<Rightarrow> [FirstStep, SecondStep, ThirdStep])"

definition lifecycle_ok :: "lifecycle \<Rightarrow> bool \<Rightarrow> step list \<Rightarrow> bool" where
  "lifecycle_ok l completed ss \<longleftrightarrow>
     (completed \<longleftrightarrow> l = Complete) \<and>
     (if l = Failed \<or> l = Zeroized then \<exists>n. ss = take n [FirstStep, SecondStep, ThirdStep]
      else ss = steps_of l)"

lemma steps_of_prefix: "\<exists>n. steps_of l = take n [FirstStep, SecondStep, ThirdStep]"
proof -
  have "steps_of l \<in> {take 0 [FirstStep, SecondStep, ThirdStep], take 1 [FirstStep, SecondStep, ThirdStep],
    take 2 [FirstStep, SecondStep, ThirdStep], take 3 [FirstStep, SecondStep, ThirdStep]}"
    by (simp add: steps_of_def split: lifecycle.split)
  then show ?thesis by blast
qed

lemma lifecycle_ok_prefix:
  "lifecycle_ok l completed ss \<Longrightarrow> \<exists>n. ss = take n [FirstStep, SecondStep, ThirdStep]"
  using steps_of_prefix [of l] by (auto simp: lifecycle_ok_def split: if_splits)

lemma lifecycle_ok_over:
  "lifecycle_ok l completed ss \<Longrightarrow> l' = Failed \<or> l' = Zeroized \<Longrightarrow> lifecycle_ok l' False ss"
  using lifecycle_ok_prefix [of l completed ss] by (auto simp: lifecycle_ok_def)

text \<open>
  Runs of calls on a party: \<open>op\<close> performs a call and names the steps that succeed in it. Every party
  whose calls keep \<open>lifecycle_ok\<close> runs through its three steps in order and once.
\<close>

primrec run_calls :: "('c \<Rightarrow> 's \<Rightarrow> 's \<times> step list) \<Rightarrow> 'c list \<Rightarrow> 's \<Rightarrow> 's \<times> step list" where
  "run_calls op [] self = (self, [])"
| "run_calls op (c # cs) self =
     (let (self, s) = op c self; (self, ss) = run_calls op cs self in (self, s @ ss))"

locale party =
  fixes op :: "'c \<Rightarrow> 's \<Rightarrow> 's \<times> step list"
    and life :: "'s \<Rightarrow> lifecycle"
    and is_done :: "'s \<Rightarrow> bool"
  assumes call_ok:
    "lifecycle_ok (life self) (is_done self) ss \<Longrightarrow> op c self = (self', s) \<Longrightarrow>
     lifecycle_ok (life self') (is_done self') (ss @ s)"
begin

lemma run_ok:
  "lifecycle_ok (life self) (is_done self) ss \<Longrightarrow> run_calls op cs self = (self', s) \<Longrightarrow>
   lifecycle_ok (life self') (is_done self') (ss @ s)"
proof (induction cs arbitrary: self ss s)
  case (Cons c cs)
  obtain self1 s1 where c: "op c self = (self1, s1)" by fastforce
  obtain s2 where r: "run_calls op cs self1 = (self', s2)" and s: "s = s1 @ s2"
    using Cons.prems(2) by (auto simp: c split: prod.splits)
  from Cons.IH [OF call_ok [OF Cons.prems(1) c] r] show ?case by (simp add: s)
qed simp

lemma run_from_created:
  assumes "life self = Created" "\<not> is_done self" "run_calls op cs self = (self', s)"
  shows "\<exists>n. s = take n [FirstStep, SecondStep, ThirdStep]"
    and "is_done self' \<longleftrightarrow> life self' = Complete"
    and "is_done self' \<Longrightarrow> s = [FirstStep, SecondStep, ThirdStep]"
proof -
  have "lifecycle_ok (life self) (is_done self) []"
    using assms(1,2) by (simp add: lifecycle_ok_def steps_of_def)
  from run_ok [OF this assms(3)] have ok: "lifecycle_ok (life self') (is_done self') s" by simp
  then show "\<exists>n. s = take n [FirstStep, SecondStep, ThirdStep]" by (rule lifecycle_ok_prefix)
  show "is_done self' \<longleftrightarrow> life self' = Complete" using ok by (simp add: lifecycle_ok_def)
  then show "is_done self' \<Longrightarrow> s = [FirstStep, SecondStep, ThirdStep]"
    using ok by (simp add: lifecycle_ok_def steps_of_def)
qed

lemma over_forever:
  assumes "lifecycle_ok (life self) (is_done self) [FirstStep, SecondStep, ThirdStep]"
    "run_calls op cs self = (self', s)"
  shows "s = []"
proof -
  from run_ok [OF assms] obtain n where "[FirstStep, SecondStep, ThirdStep] @ s = take n [FirstStep, SecondStep, ThirdStep]"
    using lifecycle_ok_prefix by blast
  then have "length ([FirstStep, SecondStep, ThirdStep] @ s) \<le> 3" by (metis length_take length_Cons list.size(3) min.cobounded1 numeral_3_eq_3)
  then show ?thesis by simp
qed

end

subsection \<open>The key stream\<close>

text \<open>\<open>for (i, &b) in bs.iter().enumerate() { out.push_err(b ^ keystream[i])? }\<close>, from index \<open>i\<close>
  on.\<close>

primrec xor_keystream :: "nat \<Rightarrow> bytes \<Rightarrow> nat \<Rightarrow> bytes \<Rightarrow> bytes \<Rightarrow> (edhoc_error, bytes) res" where
  "xor_keystream N keystream i out [] = Ok out"
| "xor_keystream N keystream i out (b # bs) =
     and_then (index keystream i) (\<lambda>k.
     and_then (push_err N out (b XOR k)) (\<lambda>out.
       xor_keystream N keystream (Suc i) out bs))"

definition xor_bytes :: "bytes \<Rightarrow> bytes \<Rightarrow> bytes" where
  "xor_bytes xs ys = map2 (XOR) xs ys"

lemma length_xor_bytes [simp]: "length (xor_bytes xs ys) = min (length xs) (length ys)"
  by (simp add: xor_bytes_def)

lemma xor_bytes_cancel: "length xs = length ys \<Longrightarrow> xor_bytes (xor_bytes xs ys) ys = xs"
  by (induction xs ys rule: list_induct2) (simp_all add: xor_bytes_def xor.assoc)

lemma xor_keystream_eq:
  assumes "i + length bs \<le> length ks"
  shows "xor_keystream N ks i out bs =
    (if length out + length bs \<le> N \<or> bs = [] then Ok (out @ xor_bytes bs (drop i ks)) else Err EBufferTooSmall)"
  using assms
proof (induction bs arbitrary: i out)
  case (Cons b bs)
  then have i: "i < length ks" and d: "drop i ks = ks ! i # drop (Suc i) ks"
    by (simp_all add: Cons_nth_drop_Suc)
  from Cons.IH [of "Suc i" "out @ [b XOR ks ! i]"] Cons.prems show ?case
    by (auto simp: index_def i d push_err_def vec_push_def xor_bytes_def)
qed (simp add: xor_bytes_def)

end
