(* ===== verification/EdhocKdf.thy ===== *)
theory EdhocKdf
  imports EdhocSign OscoreContext
begin

text \<open>
  The key schedule of \<^verbatim>\<open>src/edhoc/kdf.rs\<close>: HKDF-Extract, EDHOC-KDF with its CBOR info
  structure, and the exporter that turns the last pseudorandom key into an OSCORE context. The
  lemmas give the closed form of the derivation, show that the info structure determines label,
  context and length, and that the exporter cannot fail on a 32-byte key and valid identifiers.
\<close>

subsection \<open>Labels\<close>

definition LABEL_KEYSTREAM_2 :: u32 where "LABEL_KEYSTREAM_2 = 0"
definition LABEL_SALT_3E2M :: u32 where "LABEL_SALT_3E2M = 1"
definition LABEL_MAC_2 :: u32 where "LABEL_MAC_2 = 2"
definition LABEL_K_3 :: u32 where "LABEL_K_3 = 3"
definition LABEL_IV_3 :: u32 where "LABEL_IV_3 = 4"
definition LABEL_SALT_4E3M :: u32 where "LABEL_SALT_4E3M = 5"
definition LABEL_MAC_3 :: u32 where "LABEL_MAC_3 = 6"
definition LABEL_PRK_OUT :: u32 where "LABEL_PRK_OUT = 7"
definition LABEL_K_4 :: u32 where "LABEL_K_4 = 8"
definition LABEL_IV_4 :: u32 where "LABEL_IV_4 = 9"
definition LABEL_PRK_EXPORTER :: u32 where "LABEL_PRK_EXPORTER = 10"
definition LABEL_OSCORE_SECRET :: u32 where "LABEL_OSCORE_SECRET = 0"
definition LABEL_OSCORE_SALT :: u32 where "LABEL_OSCORE_SALT = 1"

lemmas kdf_labels =
  LABEL_KEYSTREAM_2_def LABEL_SALT_3E2M_def LABEL_MAC_2_def LABEL_K_3_def LABEL_IV_3_def
  LABEL_SALT_4E3M_def LABEL_MAC_3_def LABEL_PRK_OUT_def LABEL_K_4_def LABEL_IV_4_def
  LABEL_PRK_EXPORTER_def LABEL_OSCORE_SECRET_def LABEL_OSCORE_SALT_def

subsection \<open>Derivation\<close>

definition edhoc_extract :: "crypto \<Rightarrow> bytes \<Rightarrow> bytes \<Rightarrow> bytes" where
  "edhoc_extract C salt ikm = hkdf_extract C (if salt = [] then None else Some salt) ikm"

definition vec_resize :: "nat \<Rightarrow> 'e \<Rightarrow> nat \<Rightarrow> ('e, bytes) res" where
  "vec_resize N e n = (if n \<le> N then Ok (replicate n 0) else Err e)"

text \<open>The three fields of the info structure, in the order in which they are appended.\<close>

definition kdf_push_label :: "bytes \<Rightarrow> u32 \<Rightarrow> (edhoc_error, bytes) res" where
  "kdf_push_label info label =
     (if label \<le> 23 then push_err 128 info (ucast label)
      else if label \<le> 0xff then
        and_then (push_err 128 info 0x18) (\<lambda>info. push_err 128 info (ucast label))
      else Err EBufferTooSmall)"

definition kdf_push_context :: "bytes \<Rightarrow> bytes \<Rightarrow> (edhoc_error, bytes) res" where
  "kdf_push_context info ctx =
     (if ctx = [] then push_err 128 info 0x40
      else if length ctx \<le> 23 then
        and_then (push_err 128 info (0x40 OR as_u8 (length ctx))) (\<lambda>info. extend_err 128 info ctx)
      else if length ctx \<le> 255 then
        and_then (push_err 128 info 0x58) (\<lambda>info.
        and_then (push_err 128 info (as_u8 (length ctx))) (\<lambda>info. extend_err 128 info ctx))
      else Err EBufferTooSmall)"

definition kdf_push_length :: "bytes \<Rightarrow> nat \<Rightarrow> (edhoc_error, bytes) res" where
  "kdf_push_length info len =
     (if len \<le> 23 then push_err 128 info (as_u8 len)
      else if len \<le> 0xff then
        and_then (push_err 128 info 0x18) (\<lambda>info. push_err 128 info (as_u8 len))
      else if len \<le> 0xffff then
        and_then (push_err 128 info 0x19) (\<lambda>info.
        and_then (push_err 128 info (as_u8 (drop_bit 8 len))) (\<lambda>info.
          push_err 128 info (as_u8 (len AND 0xff))))
      else Err EBufferTooSmall)"

definition edhoc_kdf :: "crypto \<Rightarrow> bytes \<Rightarrow> u32 \<Rightarrow> bytes \<Rightarrow> nat \<Rightarrow> (edhoc_error, bytes) res" where
  "edhoc_kdf C prk label ctx len =
     and_then (kdf_push_label [] label) (\<lambda>info.
     and_then (kdf_push_context info ctx) (\<lambda>info.
     and_then (kdf_push_length info len) (\<lambda>info.
     and_then (ok_or EKeyDerivation (hkdf_from_prk C prk)) (\<lambda>hk.
     and_then (vec_resize 128 EBufferTooSmall len) (\<lambda>okm.
       ok_or EKeyDerivation (hkdf_expand C hk info (length okm)))))))"

definition export_context ::
    "crypto \<Rightarrow> bytes \<Rightarrow> bytes \<Rightarrow> bytes \<Rightarrow> bytes \<Rightarrow> (oscore_error, oscore_context) res" where
  "export_context C prk th sid rid =
     (let key_err = map_err (\<lambda>_. KeyDerivation) in
      and_then (key_err (edhoc_kdf C prk LABEL_PRK_OUT th 32)) (\<lambda>prk_out_vec.
      and_then (slice prk_out_vec 0 32) (\<lambda>s.
      and_then (copy_from_slice 32 s) (\<lambda>prk_out.
      and_then (key_err (edhoc_kdf C prk_out LABEL_PRK_EXPORTER [] 32)) (\<lambda>prk_exporter_vec.
      and_then (copy_from_slice 32 prk_exporter_vec) (\<lambda>prk_exporter.
      and_then (key_err (edhoc_kdf C prk_exporter LABEL_OSCORE_SECRET [] KEY_LEN)) (\<lambda>secret_vec.
      and_then (copy_from_slice KEY_LEN secret_vec) (\<lambda>secret.
      and_then (key_err (edhoc_kdf C prk_exporter LABEL_OSCORE_SALT [] 8)) (\<lambda>salt_vec.
      and_then (copy_from_slice 8 salt_vec) (\<lambda>salt.
        context_new_fresh C secret (Some salt) None sid rid))))))))))"

subsection \<open>The info structure\<close>

definition cbor_uint :: "nat \<Rightarrow> bytes" where
  "cbor_uint n =
     (if n \<le> 23 then [as_u8 n] else if n \<le> 0xff then [0x18, as_u8 n]
      else [0x19, as_u8 (n div 256), as_u8 (n mod 256)])"

definition kdf_info :: "u32 \<Rightarrow> bytes \<Rightarrow> nat \<Rightarrow> bytes" where
  "kdf_info label ctx len = cbor_uint (unat label) @ bstr_bytes ctx @ cbor_uint len"

text \<open>EDHOC-KDF without the buffers.\<close>

definition kdf_spec :: "crypto \<Rightarrow> bytes \<Rightarrow> u32 \<Rightarrow> bytes \<Rightarrow> nat \<Rightarrow> bytes option" where
  "kdf_spec C prk label ctx len =
     (case hkdf_from_prk C prk of None \<Rightarrow> None | Some hk \<Rightarrow> hkdf_expand C hk (kdf_info label ctx len) len)"

lemma cbor_uint_not_Nil [simp]: "cbor_uint n \<noteq> []"
  by (simp add: cbor_uint_def)

lemma length_cbor_uint: "length (cbor_uint n) = (if n \<le> 23 then 1 else if n \<le> 255 then 2 else 3)"
  by (simp add: cbor_uint_def)

lemma kdf_push_label_eq:
  "kdf_push_label [] label = (if label \<le> 0xff then Ok (cbor_uint (unat label)) else Err EBufferTooSmall)"
proof -
  have "(label \<le> 23) = (unat label \<le> 23)" "(label \<le> 0xff) = (unat label \<le> 255)"
    by (simp_all add: word_le_nat_alt)
  then show ?thesis by (auto simp: kdf_push_label_def push_err_Ok cbor_uint_def)
qed

lemma kdf_push_context_eq:
  "kdf_push_context info ctx =
    (if length ctx \<le> 255 \<and> length info + length (bstr_bytes ctx) \<le> 128 then Ok (info @ bstr_bytes ctx)
     else Err EBufferTooSmall)"
  by (auto simp: kdf_push_context_def push_err_def extend_err_def vec_push_def vec_extend_def
      bstr_bytes_def bstr_head_def or_small simp del: of_nat_add)

lemma kdf_push_length_eq:
  "kdf_push_length info len =
    (if len \<le> 0xffff \<and> length info + length (cbor_uint len) \<le> 128 then Ok (info @ cbor_uint len)
     else Err EBufferTooSmall)"
  by (auto simp: kdf_push_length_def push_err_def vec_push_def cbor_uint_def length_high_low
      simp del: of_nat_div)

text \<open>EDHOC-KDF is HKDF-Expand over the info structure, for every argument that fits.\<close>

lemma edhoc_kdf_eq:
  "edhoc_kdf C prk label ctx len =
    (if label \<le> 0xff \<and> length ctx \<le> 255 \<and> len \<le> 0xffff \<and> length (kdf_info label ctx len) \<le> 128
     then if hkdf_from_prk C prk \<noteq> None \<and> 128 < len then Err EBufferTooSmall
       else ok_or EKeyDerivation (kdf_spec C prk label ctx len)
     else Err EBufferTooSmall)"
  by (simp add: edhoc_kdf_def kdf_push_label_eq kdf_push_context_eq kdf_push_length_eq kdf_info_def
      kdf_spec_def vec_resize_def split: option.split)

lemma edhoc_kdf_no_panic: "edhoc_kdf C prk label ctx len \<noteq> Panic"
  by (simp add: edhoc_kdf_eq res_simps)

lemma edhoc_kdf_spec:
  "edhoc_kdf C prk label ctx len = Ok okm \<Longrightarrow> kdf_spec C prk label ctx len = Some okm"
  by (auto simp: edhoc_kdf_eq res_simps split: if_splits)

lemma kdf_spec_length:
  assumes "hkdf_contract C" "kdf_spec C prk label ctx len = Some okm" "len \<le> 255 * 32"
  shows "length okm = len"
proof -
  obtain hk where hk: "hkdf_expand C hk (kdf_info label ctx len) len = Some okm"
    using assms(2) by (auto simp: kdf_spec_def split: option.splits)
  from assms(1,3) obtain okm' where "hkdf_expand C hk (kdf_info label ctx len) len = Some okm'"
    "length okm' = len"
    unfolding hkdf_contract_def by blast
  with hk show ?thesis by simp
qed

lemma edhoc_kdf_Ok:
  assumes "hkdf_contract C" "edhoc_kdf C prk label ctx len = Ok okm"
  shows "length okm = len" "len \<le> 128" "kdf_spec C prk label ctx len = Some okm"
proof -
  from assms(2) have s: "kdf_spec C prk label ctx len = Some okm" and l: "len \<le> 128"
    by (auto simp: edhoc_kdf_eq res_simps kdf_spec_def split: if_splits option.splits)
  then show "len \<le> 128" "kdf_spec C prk label ctx len = Some okm" by simp_all
  show "length okm = len" using kdf_spec_length [OF assms(1) s] l by simp
qed

text \<open>Under the contracts the derivation succeeds on every 32-byte key.\<close>

lemma kdf_spec_total:
  assumes "hkdf_contract C" "hash_contract C" "32 \<le> length prk" "len \<le> 255 * 32"
  obtains okm where "kdf_spec C prk label ctx len = Some okm" "length okm = len"
proof -
  obtain hk where hk: "hkdf_from_prk C prk = Some hk"
    using assms(2,3) by (auto simp: hash_contract_def)
  from assms(1,4) obtain okm where "hkdf_expand C hk (kdf_info label ctx len) len = Some okm"
    "length okm = len"
    unfolding hkdf_contract_def by blast
  with hk that show ?thesis by (simp add: kdf_spec_def)
qed

definition derived :: "crypto \<Rightarrow> bytes \<Rightarrow> u32 \<Rightarrow> bytes \<Rightarrow> nat \<Rightarrow> bytes" where
  "derived C prk label ctx len = the (kdf_spec C prk label ctx len)"

lemma length_kdf_info:
  "length (kdf_info label ctx len) =
     length (cbor_uint (unat label)) + length (bstr_bytes ctx) + length (cbor_uint len)"
  by (simp add: kdf_info_def)

lemma edhoc_kdf_total:
  assumes "hkdf_contract C" "hash_contract C" "length prk = 32" "label \<le> 23" "length ctx \<le> 120" "len \<le> 128"
  shows "edhoc_kdf C prk label ctx len = Ok (derived C prk label ctx len)"
    and "length (derived C prk label ctx len) = len"
proof -
  obtain okm where okm: "kdf_spec C prk label ctx len = Some okm" "length okm = len"
    by (rule kdf_spec_total [OF assms(1,2), of prk len label ctx]) (use assms in auto)
  have "unat label \<le> 23" "label \<le> 0xff" using assms(4) by (simp_all add: word_le_nat_alt)
  then have "length (kdf_info label ctx len) \<le> 128"
    using assms(5,6) by (simp add: length_kdf_info length_cbor_uint length_bstr_bytes)
  then show "edhoc_kdf C prk label ctx len = Ok (derived C prk label ctx len)"
    using assms okm \<open>label \<le> 0xff\<close> by (simp add: edhoc_kdf_eq derived_def)
  show "length (derived C prk label ctx len) = len" using okm by (simp add: derived_def)
qed

text \<open>The info structure determines its three parts: derivations from one key never share their
  input unless they agree in label, context and length.\<close>

lemma cbor_uint_inject:
  assumes "cbor_uint m @ xs = cbor_uint n @ ys" "m \<le> 0xffff" "n \<le> 0xffff"
  shows "m = n \<and> xs = ys"
proof -
  have u: "unat (as_u8 k) = k" if "k \<le> 255" for k
    unfolding unat_as_u8 by (rule mod_less) (use that in linarith)
  have big: "\<not> k \<le> 255 \<Longrightarrow> k \<le> 0xffff \<Longrightarrow> 256 * unat (as_u8 (k div 256)) + unat (as_u8 (k mod 256)) = k" for k
  proof -
    assume "k \<le> 0xffff"
    then have "k < 256 * 256" by linarith
    then have "k div 256 < 256" by (rule less_mult_imp_div_less)
    moreover have "k mod 256 < 256" by (rule mod_less_divisor) simp
    ultimately have "k div 256 \<le> 255" "k mod 256 \<le> 255" by linarith+
    then show ?thesis by (simp only: u mult_div_mod_eq)
  qed
  have small: "k \<le> 23 \<Longrightarrow> as_u8 k \<noteq> 0x18 \<and> as_u8 k \<noteq> 0x19" for k
    using u [of k] by (auto simp: byte_eq_iff)
  consider "m \<le> 23" "n \<le> 23" | "m \<le> 23" "\<not> n \<le> 23" | "\<not> m \<le> 23" "n \<le> 23"
    | "\<not> m \<le> 23" "m \<le> 255" "\<not> n \<le> 23" "n \<le> 255" | "\<not> m \<le> 255" "\<not> n \<le> 255"
    | "\<not> m \<le> 23" "m \<le> 255" "\<not> n \<le> 255" | "\<not> m \<le> 255" "\<not> n \<le> 23" "n \<le> 255"
    by linarith
  then show ?thesis
  proof cases
    case 1
    with assms(1) have e: "as_u8 m = as_u8 n \<and> xs = ys" by (simp add: cbor_uint_def)
    moreover have "m \<le> 255" "n \<le> 255" using 1 by linarith+
    ultimately show ?thesis using u [of m] u [of n] by metis
  next
    case 4
    with assms(1) have e: "as_u8 m = as_u8 n \<and> xs = ys" by (simp add: cbor_uint_def)
    moreover have "m \<le> 255" "n \<le> 255" using 4 by linarith+
    ultimately show ?thesis using u [of m] u [of n] by metis
  next
    case 5
    with assms(1) have "as_u8 (m div 256) = as_u8 (n div 256) \<and> as_u8 (m mod 256) = as_u8 (n mod 256) \<and> xs = ys"
      by (simp add: cbor_uint_def del: of_nat_div)
    with big [OF 5(1) assms(2)] big [OF 5(2) assms(3)] show ?thesis by metis
  qed (use assms(1) small [of m] small [of n] in \<open>auto simp: cbor_uint_def split: if_splits simp del: of_nat_div\<close>)
qed

lemma bstr_bytes_inject:
  assumes "bstr_bytes a @ xs = bstr_bytes b @ ys" "length a \<le> 0xffff" "length b \<le> 0xffff"
  shows "a = b \<and> xs = ys"
proof -
  have "parse_bstr (bstr_bytes a @ xs) = parse_bstr (bstr_bytes b @ ys)" using assms(1) by simp
  then have "a = b" using assms(2,3) by (simp add: parse_bstr_bytes)
  with assms(1) show ?thesis by simp
qed

lemma kdf_info_inject:
  assumes "kdf_info l c n = kdf_info l' c' n'" "l \<le> 0xff" "l' \<le> 0xff"
    "length c \<le> 0xffff" "length c' \<le> 0xffff" "n \<le> 0xffff" "n' \<le> 0xffff"
  shows "l = l' \<and> c = c' \<and> n = n'"
proof -
  have u: "unat l \<le> 0xffff" "unat l' \<le> 0xffff" using assms(2,3) by (simp_all add: word_le_nat_alt)
  from cbor_uint_inject [OF _ u] assms(1)
  have l: "unat l = unat l'" and r: "bstr_bytes c @ cbor_uint n = bstr_bytes c' @ cbor_uint n'"
    by (simp_all add: kdf_info_def)
  from bstr_bytes_inject [OF r assms(4,5)] have c: "c = c'" and n: "cbor_uint n @ [] = cbor_uint n' @ []"
    by simp_all
  from cbor_uint_inject [OF n assms(6,7)] l c show ?thesis by (simp add: word_unat_eq_iff)
qed

subsection \<open>The exporter\<close>

text \<open>The master secret and the master salt: they do not depend on the identifiers.\<close>

definition exporter_key :: "crypto \<Rightarrow> bytes \<Rightarrow> bytes \<Rightarrow> bytes" where
  "exporter_key C prk th = derived C (derived C prk LABEL_PRK_OUT th 32) LABEL_PRK_EXPORTER [] 32"

definition exported_secret :: "crypto \<Rightarrow> bytes \<Rightarrow> bytes \<Rightarrow> bytes" where
  "exported_secret C prk th = derived C (exporter_key C prk th) LABEL_OSCORE_SECRET [] 16"

definition exported_salt :: "crypto \<Rightarrow> bytes \<Rightarrow> bytes \<Rightarrow> bytes" where
  "exported_salt C prk th = derived C (exporter_key C prk th) LABEL_OSCORE_SALT [] 8"

lemma export_context_eq:
  assumes "hkdf_contract C" "hash_contract C" "length prk = 32" "length th = 32"
  shows "export_context C prk th sid rid =
      context_new_fresh C (exported_secret C prk th) (Some (exported_salt C prk th)) None sid rid"
    and "length (exported_secret C prk th) = 16" "length (exported_salt C prk th) = 8"
proof -
  note total = edhoc_kdf_total [OF assms(1,2)]
  let ?out = "derived C prk LABEL_PRK_OUT th 32" and ?exp = "exporter_key C prk th"
  have out: "edhoc_kdf C prk LABEL_PRK_OUT th 32 = Ok ?out" "length ?out = 32"
    by (rule total; use assms in \<open>simp add: kdf_labels\<close>)+
  have exp: "edhoc_kdf C ?out LABEL_PRK_EXPORTER [] 32 = Ok ?exp" "length ?exp = 32"
    unfolding exporter_key_def by (rule total; use out in \<open>simp add: kdf_labels\<close>)+
  have sec: "edhoc_kdf C ?exp LABEL_OSCORE_SECRET [] 16 = Ok (exported_secret C prk th)"
    and sec_len: "length (exported_secret C prk th) = 16"
    unfolding exported_secret_def by (rule total; use exp in \<open>simp add: kdf_labels\<close>)+
  have salt: "edhoc_kdf C ?exp LABEL_OSCORE_SALT [] 8 = Ok (exported_salt C prk th)"
    and salt_len: "length (exported_salt C prk th) = 8"
    unfolding exported_salt_def by (rule total; use exp in \<open>simp add: kdf_labels\<close>)+
  show "length (exported_secret C prk th) = 16" "length (exported_salt C prk th) = 8"
    by (rule sec_len, rule salt_len)
  show "export_context C prk th sid rid =
      context_new_fresh C (exported_secret C prk th) (Some (exported_salt C prk th)) None sid rid"
    by (simp add: export_context_def out exp sec salt sec_len salt_len slice_def copy_from_slice_def)
qed

end
