(* ===== verification/EdhocTranscript.thy ===== *)
theory EdhocTranscript
  imports EdhocSign
begin

text \<open>
  The transcript hashes and the structures that are hashed, signed and authenticated, of
  \<^verbatim>\<open>src/edhoc/transcript.rs\<close>, and the additional data of message 3 that both parties build
  in the same way. The lemmas give the closed forms within the buffer bounds and show that the
  structures determine what went into them.
\<close>

definition compute_th :: "crypto \<Rightarrow> bytes \<Rightarrow> bytes" where
  "compute_th C input = sha256 C input"

definition transcript_2 :: "crypto \<Rightarrow> bytes \<Rightarrow> bytes \<Rightarrow> (edhoc_error, bytes) res" where
  "transcript_2 C g_y msg1 =
     (let h_msg1 = compute_th C msg1 in
      and_then (encode_bstr 256 [] g_y) (\<lambda>buf.
      and_then (encode_bstr 256 buf h_msg1) (\<lambda>buf.
        Ok (compute_th C buf))))"

definition transcript_3 :: "crypto \<Rightarrow> bytes \<Rightarrow> bytes \<Rightarrow> bytes \<Rightarrow> (edhoc_error, bytes) res" where
  "transcript_3 C th_2 input cred =
     and_then (encode_bstr 1024 [] th_2) (\<lambda>buf.
     and_then (encode_bstr 1024 buf input) (\<lambda>buf.
     and_then (vec_extend 1024 EBufferTooSmall buf cred) (\<lambda>buf.
       Ok (compute_th C buf))))"

definition transcript_4 :: "crypto \<Rightarrow> bytes \<Rightarrow> bytes \<Rightarrow> bytes \<Rightarrow> (edhoc_error, bytes) res" where
  "transcript_4 C th_3 plaintext_3 cred_i =
     and_then (encode_bstr 1024 [] th_3) (\<lambda>buf.
     and_then (encode_bstr 1024 buf plaintext_3) (\<lambda>buf.
     and_then (vec_extend 1024 EBufferTooSmall buf cred_i) (\<lambda>buf.
       Ok (compute_th C buf))))"

definition build_context_2 :: "bytes \<Rightarrow> bytes \<Rightarrow> bytes \<Rightarrow> bytes \<Rightarrow> (edhoc_error, bytes) res" where
  "build_context_2 c_r idc th cred =
     and_then (encode_identifier 128 [] c_r) (\<lambda>ctx.
     and_then (vec_extend 128 EBufferTooSmall ctx idc) (\<lambda>ctx.
     and_then (encode_bstr 128 ctx th) (\<lambda>ctx.
       vec_extend 128 EBufferTooSmall ctx cred)))"

definition build_context_3 :: "bytes \<Rightarrow> bytes \<Rightarrow> bytes \<Rightarrow> (edhoc_error, bytes) res" where
  "build_context_3 idc th cred =
     and_then (vec_extend 128 EBufferTooSmall [] idc) (\<lambda>ctx.
     and_then (encode_bstr 128 ctx th) (\<lambda>ctx.
       vec_extend 128 EBufferTooSmall ctx cred))"

definition build_signature_structure ::
    "bytes \<Rightarrow> bytes \<Rightarrow> bytes \<Rightarrow> bytes \<Rightarrow> (edhoc_error, bytes) res" where
  "build_signature_structure idc th cred mac =
     and_then (push_err 160 [] 0x84) (\<lambda>m.
     and_then (extend_err 160 m (0x6a # ascii ''Signature1'')) (\<lambda>m.
     and_then (append_cbor_bstr 160 m idc) (\<lambda>m.
     and_then (encode_bstr 128 [] th) (\<lambda>external_aad.
     and_then (vec_extend 128 EBufferTooSmall external_aad cred) (\<lambda>external_aad.
     and_then (append_cbor_bstr 160 m external_aad) (\<lambda>m.
       append_cbor_bstr 160 m mac))))))"

text \<open>The additional data of message 3.\<close>

definition build_a_3 :: "bytes \<Rightarrow> (edhoc_error, bytes) res" where
  "build_a_3 th_3 =
     and_then (push_err 64 [] 0x83) (\<lambda>a.
     and_then (push_err 64 a 0x68) (\<lambda>a.
     and_then (extend_err 64 a (ascii ''Encrypt0'')) (\<lambda>a.
     and_then (push_err 64 a 0x40) (\<lambda>a.
     and_then (push_err 64 a 0x58) (\<lambda>a.
     and_then (push_err 64 a 32) (\<lambda>a.
       extend_err 64 a th_3))))))"

subsection \<open>Closed forms\<close>

definition context_2_bytes :: "bytes \<Rightarrow> bytes \<Rightarrow> bytes \<Rightarrow> bytes \<Rightarrow> bytes" where
  "context_2_bytes c_r idc th cred = identifier_bytes c_r @ idc @ bstr_bytes th @ cred"

definition context_3_bytes :: "bytes \<Rightarrow> bytes \<Rightarrow> bytes \<Rightarrow> bytes" where
  "context_3_bytes idc th cred = idc @ bstr_bytes th @ cred"

definition signature_structure :: "bytes \<Rightarrow> bytes \<Rightarrow> bytes \<Rightarrow> bytes \<Rightarrow> bytes" where
  "signature_structure idc th cred mac =
     0x84 # 0x6a # ascii ''Signature1'' @ bstr_bytes idc @ bstr_bytes (bstr_bytes th @ cred) @ bstr_bytes mac"

definition a_3_bytes :: "bytes \<Rightarrow> bytes" where
  "a_3_bytes th_3 = 0x83 # 0x68 # ascii ''Encrypt0'' @ [0x40] @ bstr_bytes th_3"

text \<open>The length of a byte string with its head.\<close>

definition bstr_size :: "nat \<Rightarrow> nat" where
  "bstr_size n = n + (if n \<le> 23 then 1 else if n \<le> 255 then 2 else 3)"

lemma length_bstr_size: "length (bstr_bytes data) = bstr_size (length data)"
  by (simp add: length_bstr_bytes bstr_size_def)

lemma bstr_size_ge: "n < bstr_size n"
  by (simp add: bstr_size_def)

lemma transcript_2_eq:
  assumes "length g_y = 32" "length (sha256 C msg1) = 32"
  shows "transcript_2 C g_y msg1 = Ok (sha256 C (bstr_bytes g_y @ bstr_bytes (sha256 C msg1)))"
  using assms
  by (simp add: transcript_2_def compute_th_def encode_bstr_eq length_bstr_size bstr_size_def)

lemma transcript_eq:
  "transcript_3 C th input cred =
    (if length th \<le> 0xffff \<and> length input \<le> 0xffff \<and>
        bstr_size (length th) + bstr_size (length input) + length cred \<le> 1024
     then Ok (sha256 C (bstr_bytes th @ bstr_bytes input @ cred)) else Err EBufferTooSmall)"
  by (auto simp: transcript_3_def compute_th_def encode_bstr_eq vec_extend_def length_bstr_size)

lemma transcript_4_eq: "transcript_4 C = transcript_3 C"
  by (intro ext) (simp only: transcript_4_def transcript_3_def)

lemma build_context_2_eq:
  assumes "length c_r \<le> 7"
  shows "build_context_2 c_r idc th cred =
    (if length th \<le> 0xffff \<and> length (context_2_bytes c_r idc th cred) \<le> 128
     then Ok (context_2_bytes c_r idc th cred) else Err EBufferTooSmall)"
  using assms
  by (auto simp: build_context_2_def context_2_bytes_def encode_identifier_eq encode_bstr_eq
      vec_extend_def)

lemma build_context_3_eq:
  "build_context_3 idc th cred =
    (if length th \<le> 0xffff \<and> length (context_3_bytes idc th cred) \<le> 128
     then Ok (context_3_bytes idc th cred) else Err EBufferTooSmall)"
  by (auto simp: build_context_3_def context_3_bytes_def encode_bstr_eq vec_extend_def)

lemma build_signature_structure_eq:
  "build_signature_structure idc th cred mac =
    (if length th \<le> 0xffff \<and> bstr_size (length th) + length cred \<le> 128 \<and>
        length (signature_structure idc th cred mac) \<le> 160
     then Ok (signature_structure idc th cred mac) else Err EBufferTooSmall)"
  using bstr_size_ge [of "length idc"] bstr_size_ge [of "length mac"]
  by (auto simp: build_signature_structure_def signature_structure_def push_err_def extend_err_def
      vec_push_def vec_extend_def append_cbor_bstr_eq encode_bstr_eq length_bstr_size)

lemma build_a_3_eq: "length th_3 = 32 \<Longrightarrow> build_a_3 th_3 = Ok (a_3_bytes th_3)"
  by (simp add: build_a_3_def a_3_bytes_def push_err_Ok extend_err_Ok bstr_bytes_def bstr_head_def)

subsection \<open>What the builders determine\<close>

lemma encode_identifier_Ok:
  "encode_identifier N buf cid = Ok v \<Longrightarrow> v = buf @ identifier_bytes cid"
  by (cases cid)
    (auto simp: encode_identifier_def identifier_bytes_def compact_id_def encode_bstr_eq vec_simps
      res_simps index_def split: if_splits)

lemma build_context_2_Ok:
  "build_context_2 c_r idc th cred = Ok v \<Longrightarrow> v = context_2_bytes c_r idc th cred"
  by (auto simp: build_context_2_def context_2_bytes_def encode_bstr_eq vec_simps res_simps
      dest!: encode_identifier_Ok split: if_splits)

lemma build_context_3_Ok:
  "build_context_3 idc th cred = Ok v \<Longrightarrow> v = context_3_bytes idc th cred"
  by (simp add: build_context_3_eq split: if_splits)

lemma build_signature_structure_Ok:
  "build_signature_structure idc th cred mac = Ok v \<Longrightarrow> v = signature_structure idc th cred mac"
  by (simp add: build_signature_structure_eq split: if_splits)

lemma transcript_2_Ok:
  "transcript_2 C g_y msg1 = Ok th \<Longrightarrow> th = sha256 C (bstr_bytes g_y @ bstr_bytes (sha256 C msg1))"
  by (auto simp: transcript_2_def compute_th_def encode_bstr_eq Let_def split: if_splits)

lemma transcript_Ok:
  "transcript_3 C th input cred = Ok th' \<Longrightarrow> th' = sha256 C (bstr_bytes th @ bstr_bytes input @ cred)"
  by (simp add: transcript_eq split: if_splits)

lemma encode_bstr_no_panic: "encode_bstr N buf data \<noteq> Panic"
  by (simp add: encode_bstr_eq)

lemma encode_identifier_no_panic: "encode_identifier N buf cid \<noteq> Panic"
  by (cases cid) (auto simp: encode_identifier_def res_simps vec_simps encode_bstr_no_panic index_def)

lemma transcript_no_panic:
  "transcript_2 C g_y msg1 \<noteq> Panic" "transcript_3 C th input cred \<noteq> Panic"
  "transcript_4 C th input cred \<noteq> Panic"
  by (auto simp: transcript_2_def transcript_4_eq transcript_eq encode_bstr_no_panic res_simps Let_def)

lemma build_no_panic:
  "build_context_2 c_r idc th cred \<noteq> Panic" "build_context_3 idc th cred \<noteq> Panic"
  "build_signature_structure idc th cred mac \<noteq> Panic" "build_a_3 th \<noteq> Panic"
  by (auto simp: build_context_2_def build_context_3_eq build_signature_structure_eq build_a_3_def
      encode_identifier_no_panic encode_bstr_no_panic res_simps vec_simps)

lemmas builder_no_panic = encode_bstr_no_panic encode_identifier_no_panic transcript_no_panic build_no_panic

end
