(* ===== verification/EdhocInitiator.thy ===== *)
theory EdhocInitiator
  imports EdhocKdf EdhocTranscript
begin

text \<open>
  The initiator of the handshake, \<^verbatim>\<open>src/edhoc/initiator.rs\<close>. Every method takes the struct
  and returns it with its result, so what an error leaves behind is part of the model. The closures
  of the code that collect a result before the struct is poisoned are the definitions
  \<open>message_2_body\<close> and \<open>message_3_body\<close>, which work on the inner state alone. Entropy is an
  argument of the constructors.
\<close>

subsection \<open>The structs\<close>

record initiator_state =
  i_msg1 :: bytes
  i_g_y :: bytes
  i_c_r :: bytes
  i_prk_2e :: bytes
  i_prk_3e2m :: bytes
  i_prk_4e3m :: bytes
  i_th_2 :: bytes
  i_th_3 :: bytes
  i_th_4 :: bytes
  i_completed :: bool
  i_lifecycle :: lifecycle

record edhoc_initiator =
  ini_privkey :: bytes
  ini_pubkey :: bytes
  ini_c_i :: bytes
  ini_eph_secret :: "bytes option"
  ini_eph_public :: bytes
  ini_state :: initiator_state

record pending_message_2 =
  pm2_id_cred :: id_cred
  pm2_plaintext :: bytes
  pm2_c_r :: bytes
  pm2_signature_offset :: nat
  pm2_transcript_binding :: bytes

definition initiator_state_default :: initiator_state where
  "initiator_state_default = \<lparr>
     i_msg1 = [], i_g_y = replicate 32 0, i_c_r = [], i_prk_2e = replicate 32 0,
     i_prk_3e2m = replicate 32 0, i_prk_4e3m = replicate 32 0, i_th_2 = replicate 32 0,
     i_th_3 = replicate 32 0, i_th_4 = replicate 32 0, i_completed = False,
     i_lifecycle = Created\<rparr>"

text \<open>Wiping a bounded vector overwrites its bytes and keeps its length.\<close>

definition initiator_state_zeroize :: "initiator_state \<Rightarrow> initiator_state" where
  "initiator_state_zeroize st = st\<lparr>
     i_g_y := replicate 32 0, i_prk_2e := replicate 32 0, i_prk_3e2m := replicate 32 0,
     i_prk_4e3m := replicate 32 0, i_th_2 := replicate 32 0, i_th_3 := replicate 32 0,
     i_th_4 := replicate 32 0, i_msg1 := replicate (length (i_msg1 st)) 0, i_completed := False\<rparr>"

definition initiator_wipe :: "edhoc_crypto \<Rightarrow> lifecycle \<Rightarrow> edhoc_initiator \<Rightarrow> edhoc_initiator" where
  "initiator_wipe E l self = self\<lparr>
     ini_privkey := key_zeroize E (ini_privkey self), ini_eph_secret := None,
     ini_state := (initiator_state_zeroize (ini_state self))\<lparr>i_lifecycle := l\<rparr>\<rparr>"

definition initiator_zeroize :: "edhoc_crypto \<Rightarrow> edhoc_initiator \<Rightarrow> edhoc_initiator" where
  "initiator_zeroize E self = initiator_wipe E Zeroized self"

definition initiator_poison :: "edhoc_crypto \<Rightarrow> edhoc_initiator \<Rightarrow> edhoc_initiator" where
  "initiator_poison E self = initiator_wipe E Failed self"

subsection \<open>Construction\<close>

definition initiator_with_secret ::
    "edhoc_crypto \<Rightarrow> bytes \<Rightarrow> bytes \<Rightarrow> bytes \<Rightarrow> edhoc_initiator" where
  "initiator_with_secret E seed c_i eph_secret =
     (let (privkey, pubkey) = key_from_seed E seed;
          eph_public = x25519_public E eph_secret in
      \<lparr>ini_privkey = privkey, ini_pubkey = pubkey, ini_c_i = c_i,
       ini_eph_secret = Some eph_secret, ini_eph_public = eph_public,
       ini_state = initiator_state_default\<rparr>)"

text \<open>\<open>entropy\<close> is what the random number generator fills in, \<open>None\<close> when it fails.\<close>

definition initiator_new_with_rng ::
    "edhoc_crypto \<Rightarrow> bytes \<Rightarrow> bytes \<Rightarrow> bytes option \<Rightarrow> (oscore_error, edhoc_initiator) res" where
  "initiator_new_with_rng E seed c_i entropy =
     and_then (ok_or EntropyFailure entropy) (\<lambda>eph_seed.
       Ok (initiator_with_secret E seed c_i eph_seed))"

definition initiator_new ::
    "edhoc_crypto \<Rightarrow> bytes \<Rightarrow> u8 \<Rightarrow> bytes \<Rightarrow> (oscore_error, edhoc_initiator) res" where
  "initiator_new E seed c_i entropy =
     (case connection_id_new [c_i] of
        Ok c \<Rightarrow> Ok (initiator_with_secret E seed c entropy)
      | _ \<Rightarrow> Panic)"

definition initiator_new_std ::
    "edhoc_crypto \<Rightarrow> bytes \<Rightarrow> u8 \<Rightarrow> bytes \<Rightarrow> (oscore_error, edhoc_initiator) res" where
  "initiator_new_std E seed c_i entropy = initiator_new E seed c_i entropy"

subsection \<open>Message 1\<close>

definition message_1_bytes :: "edhoc_initiator \<Rightarrow> (edhoc_error, bytes) res" where
  "message_1_bytes self =
     and_then (push_err 64 [] 0) (\<lambda>msg1.
     and_then (push_err 64 msg1 SUITE_0) (\<lambda>msg1.
     and_then (encode_bstr 64 msg1 (ini_eph_public self)) (\<lambda>msg1.
       encode_identifier 64 msg1 (ini_c_i self))))"

definition create_message_1 :: "edhoc_initiator \<Rightarrow> edhoc_initiator \<times> (edhoc_error, bytes) res" where
  "create_message_1 self =
     (if i_lifecycle (ini_state self) \<noteq> Created then (self, Err EInvalidState)
      else
        try_st self (message_1_bytes self) (\<lambda>msg1.
          (self\<lparr>ini_state := (ini_state self)\<lparr>i_msg1 := msg1, i_lifecycle := Message1Created\<rparr>\<rparr>,
           Ok msg1)))"

subsection \<open>Message 2\<close>

text \<open>The outer structure of message 2: \<open>G_Y\<close> and the ciphertext.\<close>

definition message_2_parts :: "edhoc_crypto \<Rightarrow> bytes \<Rightarrow> (edhoc_error, bytes \<times> bytes) res" where
  "message_2_parts E msg2 =
     and_then (parse_bstr msg2) (\<lambda>(g_y_ct2, consumed).
     if consumed \<noteq> length msg2 \<or> length g_y_ct2 < KEY_LEN_32 + 1 + sig_len E then Err EInvalidMessage
     else
       and_then (slice g_y_ct2 0 KEY_LEN_32) (\<lambda>s.
       and_then (copy_from_slice KEY_LEN_32 s) (\<lambda>g_y.
       and_then (slice_from g_y_ct2 KEY_LEN_32) (\<lambda>ciphertext_2.
         Ok (g_y, ciphertext_2)))))"

text \<open>The parts of the decrypted plaintext: the peer's identifier, its ID_CRED and where the
  signature starts.\<close>

definition plaintext_2_parts ::
    "edhoc_crypto \<Rightarrow> bytes \<Rightarrow> bytes \<Rightarrow> (edhoc_error, bytes \<times> id_cred \<times> nat) res" where
  "plaintext_2_parts E c_i pt2 =
     and_then (parse_identifier pt2) (\<lambda>(c_r, c_r_len).
     if c_r = c_i then Err EInvalidMessage
     else
       and_then (slice_from pt2 c_r_len) (\<lambda>t.
       and_then (parse_id_cred t) (\<lambda>(id_cred_r, id_len).
       let sig_offset = c_r_len + id_len in
       and_then (slice_from pt2 sig_offset) (\<lambda>t.
       and_then (parse_bstr t) (\<lambda>(signature_bytes, sig_length).
         if length signature_bytes \<noteq> sig_len E \<or> sig_offset + sig_length \<noteq> length pt2
         then Err EInvalidMessage
         else Ok (c_r, id_cred_r, sig_offset))))))"

definition message_2_body ::
    "edhoc_crypto \<Rightarrow> bytes \<Rightarrow> bytes \<Rightarrow> bytes \<Rightarrow> initiator_state \<Rightarrow>
     initiator_state \<times> (edhoc_error, pending_message_2) res" where
  "message_2_body E c_i g_xy ciphertext_2 st =
     (let C = ec_base E in
      if g_xy = replicate KEY_LEN_32 0 then (st, Err EInvalidMessage)
      else
        try_st st (transcript_2 C (i_g_y st) (i_msg1 st)) (\<lambda>th_2.
        let st = st\<lparr>i_th_2 := th_2\<rparr>;
            st = st\<lparr>i_prk_2e := edhoc_extract C (i_th_2 st) g_xy\<rparr> in
        try_st st (edhoc_kdf C (i_prk_2e st) LABEL_KEYSTREAM_2 (i_th_2 st) (length ciphertext_2))
          (\<lambda>keystream_2.
        try_st st (xor_keystream 128 keystream_2 0 [] ciphertext_2) (\<lambda>plaintext_2.
        let st = st\<lparr>i_prk_3e2m := i_prk_2e st\<rparr> in
        try_st st (plaintext_2_parts E c_i plaintext_2) (\<lambda>(c_r, id_cred_r, sig_offset).
        try_st st (extend_err 128 [] plaintext_2) (\<lambda>plaintext.
        let st = st\<lparr>i_lifecycle := PendingMessage2\<rparr> in
          (st, Ok \<lparr>pm2_id_cred = id_cred_r, pm2_plaintext = plaintext, pm2_c_r = c_r,
                   pm2_signature_offset = sig_offset, pm2_transcript_binding = i_th_2 st\<rparr>)))))))"

text \<open>Storing the inner state and poisoning the struct when the result is an error.\<close>

definition initiator_settle ::
    "edhoc_crypto \<Rightarrow> edhoc_initiator \<Rightarrow> initiator_state \<times> (edhoc_error, 'a) res \<Rightarrow>
     edhoc_initiator \<times> (edhoc_error, 'a) res" where
  "initiator_settle E self out =
     (let (st, result) = out;
          self = self\<lparr>ini_state := st\<rparr> in
      (case result of Err e \<Rightarrow> (initiator_poison E self, Err e) | _ \<Rightarrow> (self, result)))"

definition begin_process_message_2 ::
    "edhoc_crypto \<Rightarrow> edhoc_initiator \<Rightarrow> bytes \<Rightarrow> edhoc_initiator \<times> (edhoc_error, pending_message_2) res" where
  "begin_process_message_2 E self msg2 =
     (if i_lifecycle (ini_state self) \<noteq> Message1Created \<or> ini_eph_secret self = None
      then (self, Err EInvalidState)
      else if get_at msg2 0 = Some 2 then
        (case and_then (slice_from msg2 1) parse_suites_r of
           Panic \<Rightarrow> (self, Panic)
         | Ok consumed \<Rightarrow>
             (initiator_poison E self,
              Err (if consumed + 1 = length msg2 then EUnsupportedSuite else EInvalidMessage))
         | Err _ \<Rightarrow> (initiator_poison E self, Err EInvalidMessage))
      else
        try_st self (message_2_parts E msg2) (\<lambda>(g_y, ciphertext_2).
        try_st self (ok_or EInvalidState (ini_eph_secret self)) (\<lambda>eph_secret.
        let self = self\<lparr>ini_eph_secret := None\<rparr>;
            g_xy = x25519 E eph_secret g_y;
            self = self\<lparr>ini_state := (ini_state self)\<lparr>i_g_y := g_y\<rparr>\<rparr> in
        initiator_settle E self (message_2_body E (ini_c_i self) g_xy ciphertext_2 (ini_state self)))))"

subsection \<open>Message 3\<close>

text \<open>The verification of the responder's credential and signature.\<close>

definition check_message_2 ::
    "edhoc_crypto \<Rightarrow> initiator_state \<Rightarrow> pending_message_2 \<Rightarrow> peer_credential \<Rightarrow> (edhoc_error, unit) res" where
  "check_message_2 E st pending peer =
     (let idc = idc_encoded (pm2_id_cred pending) in
      and_then (validate_peer_credential (edwards_point_ok E) peer) (\<lambda>_.
      and_then (slice_from (pm2_plaintext pending) (pm2_signature_offset pending)) (\<lambda>t.
      and_then (parse_bstr t) (\<lambda>(signature_bytes, _).
      and_then (build_context_2 (pm2_c_r pending) idc (i_th_2 st) (pc_credential peer)) (\<lambda>context_2.
      and_then (edhoc_kdf (ec_base E) (i_prk_3e2m st) LABEL_MAC_2 context_2 32) (\<lambda>mac_2.
      and_then (build_signature_structure idc (i_th_2 st) (pc_credential peer) mac_2) (\<lambda>m_2.
      and_then (validate_pubkey (edwards_point_ok E) (pc_public_key peer)) (\<lambda>_.
      and_then (ok_or ESignatureVerification (verifying_key E (pc_public_key peer))) (\<lambda>peer_pubkey.
      and_then (guard (length signature_bytes = sig_len E) EInvalidMessage) (\<lambda>_.
        guard (verify_message E peer_pubkey m_2 signature_bytes) ESignatureVerification))))))))))"

text \<open>The plaintext, ciphertext and credential of message 3.\<close>

definition seal_message_3 ::
    "edhoc_crypto \<Rightarrow> edhoc_initiator \<Rightarrow> initiator_state \<Rightarrow> (edhoc_error, bytes \<times> bytes \<times> bytes) res" where
  "seal_message_3 E self st =
     (let C = ec_base E in
      and_then (encode_credential 80 [] (ini_pubkey self)) (\<lambda>credential_i.
      and_then (encode_id_cred (sha256 C) 40 [] (ini_pubkey self)) (\<lambda>id_cred_i.
      and_then (build_context_3 id_cred_i (i_th_3 st) credential_i) (\<lambda>context_3.
      and_then (edhoc_kdf C (i_prk_4e3m st) LABEL_MAC_3 context_3 32) (\<lambda>mac_3.
      and_then (build_signature_structure id_cred_i (i_th_3 st) credential_i mac_3) (\<lambda>m_3.
      let signature_3 = sign_message E (ini_privkey self) (ini_pubkey self) m_3 in
      and_then (extend_err 128 [] id_cred_i) (\<lambda>ciphertext_3.
      and_then (encode_bstr 128 ciphertext_3 signature_3) (\<lambda>ciphertext_3.
      and_then (edhoc_kdf C (i_prk_3e2m st) LABEL_K_3 (i_th_3 st) KEY_LEN) (\<lambda>k_3.
      and_then (edhoc_kdf C (i_prk_3e2m st) LABEL_IV_3 (i_th_3 st) NONCE_LEN) (\<lambda>iv_3.
      and_then (build_a_3 (i_th_3 st)) (\<lambda>a_3.
      let data_3 = ciphertext_3 in
      and_then (ok_or EInvalidState (ccm_new C k_3)) (\<lambda>cipher.
      and_then (copy_from_slice NONCE_LEN iv_3) (\<lambda>nonce.
      and_then (ok_or EInvalidState (ccm_encrypt C cipher nonce a_3 ciphertext_3)) (\<lambda>(ciphertext_3, tag).
      and_then (extend_err 128 ciphertext_3 tag) (\<lambda>ciphertext_3.
        Ok (ciphertext_3, data_3, credential_i))))))))))))))))"

definition message_3_body ::
    "edhoc_crypto \<Rightarrow> edhoc_initiator \<Rightarrow> pending_message_2 \<Rightarrow> peer_credential \<Rightarrow> initiator_state \<Rightarrow>
     initiator_state \<times> (edhoc_error, bytes) res" where
  "message_3_body E self pending peer st =
     (let C = ec_base E in
      try_st st (check_message_2 E st pending peer) (\<lambda>_.
      let st = st\<lparr>i_c_r := pm2_c_r pending\<rparr> in
      try_st st (transcript_3 C (i_th_2 st) (pm2_plaintext pending) (pc_credential peer)) (\<lambda>th_3.
      let st = st\<lparr>i_th_3 := th_3, i_prk_4e3m := i_prk_3e2m st\<rparr> in
      try_st st (seal_message_3 E self st) (\<lambda>(ciphertext_3, data_3, credential_i).
      try_st st (transcript_4 C (i_th_3 st) data_3 credential_i) (\<lambda>th_4.
      let st = st\<lparr>i_th_4 := th_4, i_completed := True, i_lifecycle := Complete\<rparr> in
      try_st st (encode_bstr 128 [] ciphertext_3) (\<lambda>msg3. (st, Ok msg3)))))))"

definition finish_process_message_2 ::
    "edhoc_crypto \<Rightarrow> edhoc_initiator \<Rightarrow> pending_message_2 \<Rightarrow> peer_credential \<Rightarrow>
     edhoc_initiator \<times> (edhoc_error, bytes) res" where
  "finish_process_message_2 E self pending peer =
     (if i_lifecycle (ini_state self) \<noteq> PendingMessage2 \<or>
         pm2_transcript_binding pending \<noteq> i_th_2 (ini_state self)
      then (self, Err EInvalidState)
      else if pc_id_cred peer \<noteq> idc_encoded (pm2_id_cred pending)
      then (self, Err ESignatureVerification)
      else initiator_settle E self (message_3_body E self pending peer (ini_state self)))"

definition process_message_2_with_credential ::
    "edhoc_crypto \<Rightarrow> edhoc_initiator \<Rightarrow> bytes \<Rightarrow> peer_credential \<Rightarrow>
     edhoc_initiator \<times> (edhoc_error, bytes) res" where
  "process_message_2_with_credential E self msg2 peer =
     (let (self, r) = begin_process_message_2 E self msg2 in
      try_st self r (\<lambda>pending. finish_process_message_2 E self pending peer))"

definition process_message_2 ::
    "edhoc_crypto \<Rightarrow> edhoc_initiator \<Rightarrow> bytes \<Rightarrow> bytes \<Rightarrow> edhoc_initiator \<times> (edhoc_error, bytes) res" where
  "process_message_2 E self msg2 peer_pubkey =
     try_st self (raw_key_credential (sha256 (ec_base E)) peer_pubkey) (\<lambda>(idc, credential).
       process_message_2_with_credential E self msg2 (peer_credential_new peer_pubkey idc credential))"

subsection \<open>Export\<close>

definition initiator_export_oscore ::
    "edhoc_crypto \<Rightarrow> edhoc_initiator \<Rightarrow> (oscore_error, oscore_context) res" where
  "initiator_export_oscore E self =
     (let st = ini_state self in
      if \<not> i_completed st \<or> foldl (OR) 0 (i_prk_4e3m st) = 0 then Err NoContext
      else export_context (ec_base E) (i_prk_4e3m st) (i_th_4 st) (i_c_r st) (ini_c_i self))"

subsection \<open>Outcomes\<close>

lemma initiator_wipe_fields [simp]:
  "i_lifecycle (ini_state (initiator_wipe E l self)) = l"
  "i_completed (ini_state (initiator_wipe E l self)) \<longleftrightarrow> False"
  "ini_eph_secret (initiator_wipe E l self) = None"
  "ini_privkey (initiator_wipe E l self) = key_zeroize E (ini_privkey self)"
  by (simp_all add: initiator_wipe_def initiator_state_zeroize_def)

lemmas initiator_end = initiator_poison_def initiator_zeroize_def

lemma initiator_settle_eq:
  "initiator_settle E self (st, Ok x) = (self\<lparr>ini_state := st\<rparr>, Ok x)"
  "initiator_settle E self (st, Err e) = (initiator_poison E (self\<lparr>ini_state := st\<rparr>), Err e)"
  "initiator_settle E self (st, Panic) = (self\<lparr>ini_state := st\<rparr>, Panic)"
  by (simp_all add: initiator_settle_def)

lemma initiator_settle_Ok:
  "initiator_settle E self out = (self', Ok x) \<longleftrightarrow>
   (\<exists>st. out = (st, Ok x) \<and> self' = self\<lparr>ini_state := st\<rparr>)"
  by (cases out; cases "snd out") (auto simp: initiator_settle_eq)

lemma create_message_1_Ok:
  "create_message_1 self = (self', Ok msg1) \<longleftrightarrow>
   i_lifecycle (ini_state self) = Created \<and> message_1_bytes self = Ok msg1 \<and>
   self' = self\<lparr>ini_state := (ini_state self)\<lparr>i_msg1 := msg1, i_lifecycle := Message1Created\<rparr>\<rparr>"
  by (auto simp: create_message_1_def res_simps)

lemma create_message_1_not_Ok:
  "create_message_1 self = (self', r) \<Longrightarrow> (\<forall>m. r \<noteq> Ok m) \<Longrightarrow> self' = self"
  by (cases r) (auto simp: create_message_1_def try_st_def split: if_splits res.splits)

text \<open>The steps of \<open>message_2_body\<close> when it returns a pending message.\<close>

lemma message_2_body_Ok:
  assumes "message_2_body E c_i g_xy ct st = (st', Ok p)"
  shows "\<exists>th_2 ks pt. g_xy \<noteq> replicate 32 0 \<and>
    transcript_2 (ec_base E) (i_g_y st) (i_msg1 st) = Ok th_2 \<and>
    edhoc_kdf (ec_base E) (edhoc_extract (ec_base E) th_2 g_xy) LABEL_KEYSTREAM_2 th_2 (length ct) = Ok ks \<and>
    xor_keystream 128 ks 0 [] ct = Ok pt \<and>
    plaintext_2_parts E c_i pt = Ok (pm2_c_r p, pm2_id_cred p, pm2_signature_offset p) \<and>
    pm2_plaintext p = pt \<and> pm2_transcript_binding p = th_2 \<and>
    st' = st\<lparr>i_th_2 := th_2, i_prk_2e := edhoc_extract (ec_base E) th_2 g_xy,
      i_prk_3e2m := edhoc_extract (ec_base E) th_2 g_xy, i_lifecycle := PendingMessage2\<rparr>"
  using assms
  by (auto simp: message_2_body_def Let_def res_simps vec_simps split: if_splits prod.splits)

lemma message_2_body_lifecycle:
  assumes "message_2_body E c_i g_xy ct st = (st', r)"
  shows "i_completed st' = i_completed st"
    and "(\<forall>p. r \<noteq> Ok p) \<Longrightarrow> i_lifecycle st' = i_lifecycle st"
proof -
  have "i_completed st' = i_completed st \<and> ((\<forall>p. r \<noteq> Ok p) \<longrightarrow> i_lifecycle st' = i_lifecycle st)"
    using assms
    by (auto simp: message_2_body_def Let_def try_st_def split: if_splits prod.splits res.splits)
  then show "i_completed st' = i_completed st"
    and "(\<forall>p. r \<noteq> Ok p) \<Longrightarrow> i_lifecycle st' = i_lifecycle st" by blast+
qed

lemma begin_process_message_2_Ok:
  assumes "begin_process_message_2 E self msg2 = (self', Ok p)"
  shows "\<exists>eph g_y ct st'. i_lifecycle (ini_state self) = Message1Created \<and>
    ini_eph_secret self = Some eph \<and> get_at msg2 0 \<noteq> Some 2 \<and> message_2_parts E msg2 = Ok (g_y, ct) \<and>
    message_2_body E (ini_c_i self) (x25519 E eph g_y) ct ((ini_state self)\<lparr>i_g_y := g_y\<rparr>) = (st', Ok p) \<and>
    self' = self\<lparr>ini_eph_secret := None, ini_state := st'\<rparr>"
  using assms
  by (auto simp: begin_process_message_2_def Let_def res_simps initiator_settle_Ok
      split: if_splits prod.splits res.splits)

lemma begin_process_message_2_not_Ok:
  assumes "begin_process_message_2 E self msg2 = (self', r)" "\<forall>p. r \<noteq> Ok p"
  shows "self' = self \<or> i_lifecycle (ini_state self') = Failed \<and> \<not> i_completed (ini_state self') \<and>
      ini_eph_secret self' = None \<and> (\<exists>e. r = Err e) \<or>
    r = Panic \<and> i_lifecycle (ini_state self') = i_lifecycle (ini_state self) \<and>
      i_completed (ini_state self') = i_completed (ini_state self)"
proof -
  have settle: ?thesis if "initiator_settle E (self\<lparr>ini_eph_secret := None,
      ini_state := (ini_state self)\<lparr>i_g_y := g_y\<rparr>\<rparr>) (message_2_body E (ini_c_i self) g_xy ct
        ((ini_state self)\<lparr>i_g_y := g_y\<rparr>)) = (self', r)" for g_y g_xy ct
  proof -
    obtain st' r' where b: "message_2_body E (ini_c_i self) g_xy ct ((ini_state self)\<lparr>i_g_y := g_y\<rparr>) = (st', r')"
      by fastforce
    from message_2_body_lifecycle [OF b] that assms(2) show ?thesis
      unfolding b by (cases r') (auto simp: initiator_settle_eq initiator_end)
  qed
  show ?thesis
    using assms settle
    by (auto simp: begin_process_message_2_def Let_def try_st_def initiator_end
        split: if_splits prod.splits res.splits)
qed

lemma message_3_body_Ok:
  assumes "message_3_body E self p peer st = (st', Ok msg3)"
  shows "\<exists>th_3 ct data cred th_4. check_message_2 E st p peer = Ok () \<and>
    transcript_3 (ec_base E) (i_th_2 st) (pm2_plaintext p) (pc_credential peer) = Ok th_3 \<and>
    seal_message_3 E self (st\<lparr>i_c_r := pm2_c_r p, i_th_3 := th_3, i_prk_4e3m := i_prk_3e2m st\<rparr>) =
      Ok (ct, data, cred) \<and>
    transcript_4 (ec_base E) th_3 data cred = Ok th_4 \<and> encode_bstr 128 [] ct = Ok msg3 \<and>
    st' = st\<lparr>i_c_r := pm2_c_r p, i_th_3 := th_3, i_prk_4e3m := i_prk_3e2m st, i_th_4 := th_4,
      i_completed := True, i_lifecycle := Complete\<rparr>"
  using assms
  by (auto simp: message_3_body_def Let_def res_simps split: prod.splits)

lemma message_3_body_panic:
  assumes "message_3_body E self p peer st = (st', Panic)"
  shows "i_completed st' = i_completed st \<and> i_lifecycle st' = i_lifecycle st"
  using assms
  by (auto simp: message_3_body_def Let_def try_st_def encode_bstr_no_panic
      split: prod.splits res.splits)

lemma finish_process_message_2_Ok:
  assumes "finish_process_message_2 E self p peer = (self', Ok msg3)"
  shows "i_lifecycle (ini_state self) = PendingMessage2"
    and "pm2_transcript_binding p = i_th_2 (ini_state self)"
    and "pc_id_cred peer = idc_encoded (pm2_id_cred p)"
    and "\<exists>st'. message_3_body E self p peer (ini_state self) = (st', Ok msg3) \<and>
      self' = self\<lparr>ini_state := st'\<rparr>"
  using assms
  by (auto simp: finish_process_message_2_def initiator_settle_Ok split: if_splits)

lemma finish_process_message_2_not_Ok:
  assumes "finish_process_message_2 E self p peer = (self', r)" "\<forall>m. r \<noteq> Ok m"
  shows "self' = self \<and> (\<exists>e. r = Err e) \<or>
    i_lifecycle (ini_state self') = Failed \<and> \<not> i_completed (ini_state self') \<and> (\<exists>e. r = Err e) \<or>
    r = Panic \<and> i_lifecycle (ini_state self') = i_lifecycle (ini_state self) \<and>
      i_completed (ini_state self') = i_completed (ini_state self)"
proof -
  obtain st' r' where b: "message_3_body E self p peer (ini_state self) = (st', r')" by fastforce
  show ?thesis
    using assms message_3_body_panic [of E self p peer "ini_state self" st'] unfolding finish_process_message_2_def b
    by (cases r') (auto simp: initiator_settle_eq initiator_end split: if_splits)
qed

subsection \<open>Runs of calls\<close>

text \<open>
  The public methods that change the struct, with any pending message and credential, and the run of
  a list of calls with the steps that succeed. The invariant is that of \<open>lifecycle_ok\<close>.
\<close>

datatype initiator_call =
    CreateMessage1
  | BeginMessage2 bytes
  | FinishMessage2 pending_message_2 peer_credential
  | ZeroizeInitiator

fun call_initiator :: "edhoc_crypto \<Rightarrow> initiator_call \<Rightarrow> edhoc_initiator \<Rightarrow> edhoc_initiator \<times> step list" where
  "call_initiator E CreateMessage1 self =
     (case create_message_1 self of (self, r) \<Rightarrow> (self, case r of Ok _ \<Rightarrow> [FirstStep] | _ \<Rightarrow> []))"
| "call_initiator E (BeginMessage2 msg2) self =
     (case begin_process_message_2 E self msg2 of
        (self, r) \<Rightarrow> (self, case r of Ok _ \<Rightarrow> [SecondStep] | _ \<Rightarrow> []))"
| "call_initiator E (FinishMessage2 pending peer) self =
     (case finish_process_message_2 E self pending peer of
        (self, r) \<Rightarrow> (self, case r of Ok _ \<Rightarrow> [ThirdStep] | _ \<Rightarrow> []))"
| "call_initiator E ZeroizeInitiator self = (initiator_zeroize E self, [])"

definition initiator_inv :: "edhoc_initiator \<Rightarrow> step list \<Rightarrow> bool" where
  "initiator_inv self ss \<longleftrightarrow>
     lifecycle_ok (i_lifecycle (ini_state self)) (i_completed (ini_state self)) ss"

lemma initiator_inv_over:
  "initiator_inv self ss \<Longrightarrow> i_lifecycle (ini_state self') = Failed \<or> i_lifecycle (ini_state self') = Zeroized \<Longrightarrow>
   \<not> i_completed (ini_state self') \<Longrightarrow> initiator_inv self' ss"
  using lifecycle_ok_over unfolding initiator_inv_def by fastforce

lemma call_initiator_inv:
  assumes "initiator_inv self ss" "call_initiator E c self = (self', s)"
  shows "initiator_inv self' (ss @ s)"
proof (cases c)
  case CreateMessage1
  obtain r where c: "create_message_1 self = (self', r)" and s: "s = (case r of Ok _ \<Rightarrow> [FirstStep] | _ \<Rightarrow> [])"
    using assms(2) CreateMessage1 by (auto split: prod.splits)
  show ?thesis
  proof (cases r)
    case (Ok m)
    with c s assms(1) show ?thesis
      by (auto simp: create_message_1_Ok initiator_inv_def lifecycle_ok_def steps_of_def)
  qed (use create_message_1_not_Ok [OF c] s assms(1) in auto)
next
  case (BeginMessage2 msg2)
  then obtain r where c: "begin_process_message_2 E self msg2 = (self', r)"
    and s: "s = (case r of Ok _ \<Rightarrow> [SecondStep] | _ \<Rightarrow> [])"
    using assms(2) by (auto split: prod.splits)
  show ?thesis
  proof (cases "\<exists>p. r = Ok p")
    case True
    then obtain p where r: "r = Ok p" by blast
    from begin_process_message_2_Ok [OF c [unfolded r]] message_2_body_Ok assms(1) s r show ?thesis
      by (fastforce simp: initiator_inv_def lifecycle_ok_def steps_of_def)
  next
    case False
    then have "s = []" using s by (cases r) auto
    with begin_process_message_2_not_Ok [OF c] False assms(1) initiator_inv_over [OF assms(1), of self'] show ?thesis
      by (auto simp: initiator_inv_def)
  qed
next
  case (FinishMessage2 pending peer)
  then obtain r where c: "finish_process_message_2 E self pending peer = (self', r)"
    and s: "s = (case r of Ok _ \<Rightarrow> [ThirdStep] | _ \<Rightarrow> [])"
    using assms(2) by (auto split: prod.splits)
  show ?thesis
  proof (cases "\<exists>m. r = Ok m")
    case True
    then obtain m where r: "r = Ok m" by blast
    from finish_process_message_2_Ok [OF c [unfolded r]] message_3_body_Ok assms(1) s r show ?thesis
      by (fastforce simp: initiator_inv_def lifecycle_ok_def steps_of_def)
  next
    case False
    then have "s = []" using s by (cases r) auto
    with finish_process_message_2_not_Ok [OF c] False assms(1) initiator_inv_over [OF assms(1), of self'] show ?thesis
      by (auto simp: initiator_inv_def)
  qed
next
  case ZeroizeInitiator
  with assms initiator_inv_over [OF assms(1), of self'] show ?thesis by (auto simp: initiator_end)
qed

interpretation initiator: party "call_initiator E" "\<lambda>self. i_lifecycle (ini_state self)"
  "\<lambda>self. i_completed (ini_state self)" for E
  by unfold_locales (use call_initiator_inv in \<open>simp add: initiator_inv_def\<close>)

lemma initiator_fresh:
  "i_lifecycle (ini_state (initiator_with_secret E seed cid eph)) = Created"
  "\<not> i_completed (ini_state (initiator_with_secret E seed cid eph))"
  by (simp_all add: initiator_with_secret_def initiator_state_default_def split: prod.split)

subsection \<open>Authentication of message 2\<close>

text \<open>The responder's key signed the identifiers, the transcript and the credential, with the MAC
  over the context of message 2.\<close>

definition signed_2 ::
    "edhoc_crypto \<Rightarrow> bytes \<Rightarrow> bytes \<Rightarrow> bytes \<Rightarrow> bytes \<Rightarrow> bytes \<Rightarrow> bytes \<Rightarrow> bytes \<Rightarrow> bool" where
  "signed_2 E prk c_r idc th cred public_key sig \<longleftrightarrow>
     (\<exists>mac key. kdf_spec (ec_base E) prk LABEL_MAC_2 (context_2_bytes c_r idc th cred) 32 = Some mac \<and>
        verifying_key E public_key = Some key \<and> edwards_point_ok E public_key \<and>
        length sig = sig_len E \<and> verify_message E key (signature_structure idc th cred mac) sig)"

lemma check_message_2_Ok:
  assumes "check_message_2 E st p peer = Ok ()"
  shows "\<exists>sig n. parse_bstr (drop (pm2_signature_offset p) (pm2_plaintext p)) = Ok (sig, n) \<and>
    signed_2 E (i_prk_3e2m st) (pm2_c_r p) (idc_encoded (pm2_id_cred p)) (i_th_2 st) (pc_credential peer)
      (pc_public_key peer) sig"
  using assms unfolding signed_2_def
  by (auto simp: check_message_2_def Let_def res_simps slice_simps validate_pubkey_def
      dest!: build_context_2_Ok build_signature_structure_Ok edhoc_kdf_spec split: if_splits)

lemma plaintext_2_parts_Ok:
  assumes "plaintext_2_parts E c_i pt = Ok (c_r, idc, off)"
  shows "c_r \<noteq> c_i" "length c_r \<le> 7" "off \<le> length pt"
    "\<exists>n m. parse_identifier pt = Ok (c_r, n) \<and> parse_id_cred (drop n pt) = Ok (idc, m) \<and> off = n + m"
    "\<exists>sig k. parse_bstr (drop off pt) = Ok (sig, k) \<and> length sig = sig_len E \<and> off + k = length pt"
  using assms
  by (auto simp: plaintext_2_parts_def res_simps slice_simps Let_def dest: parse_identifier_Ok(3)
      split: if_splits)

lemma plaintext_2_parts_no_panic: "plaintext_2_parts E c_i pt \<noteq> Panic"
  by (auto simp: plaintext_2_parts_def res_simps slice_simps Let_def parse_identifier_no_panic
      parse_id_cred_no_panic parse_bstr_total dest!: parse_identifier_Ok(2) parse_id_cred_Ok(2)
      split: if_splits)

lemma message_2_parts_no_panic: "message_2_parts E msg2 \<noteq> Panic"
  by (auto simp: message_2_parts_def res_simps slice_simps parse_bstr_total)

lemma message_2_body_no_panic:
  assumes "hkdf_contract (ec_base E)"
  shows "snd (message_2_body E c_i g_xy ct st) \<noteq> Panic"
proof -
  have "xor_keystream 128 ks 0 [] ct \<noteq> Panic"
    if "edhoc_kdf (ec_base E) prk label ctx (length ct) = Ok ks" for prk label ctx ks
    using edhoc_kdf_Ok(1) [OF assms that] by (simp add: xor_keystream_eq)
  then show ?thesis
    by (auto simp: message_2_body_def Let_def res_simps vec_simps builder_no_panic edhoc_kdf_no_panic
        plaintext_2_parts_no_panic split: prod.split)
qed

lemma initiator_settle_Panic: "snd (initiator_settle E self out) = Panic \<longleftrightarrow> snd out = Panic"
  by (cases out; cases "snd out") (auto simp: initiator_settle_eq)

lemma begin_process_message_2_no_panic:
  assumes "hkdf_contract (ec_base E)"
  shows "snd (begin_process_message_2 E self msg2) \<noteq> Panic"
proof -
  have "and_then (slice_from msg2 1) parse_suites_r \<noteq> (Panic :: (edhoc_error, nat) res)" if "get_at msg2 0 = Some 2"
    using that by (cases msg2) (auto simp: res_simps slice_simps get_at_def parse_suites_r_total)
  then show ?thesis
    using message_2_body_no_panic [OF assms]
    by (auto simp: begin_process_message_2_def Let_def res_simps initiator_settle_Panic
        message_2_parts_no_panic split: res.split prod.split)
qed

lemma check_message_2_no_panic:
  "pm2_signature_offset p \<le> length (pm2_plaintext p) \<Longrightarrow> check_message_2 E st p peer \<noteq> Panic"
  by (auto simp: check_message_2_def Let_def res_simps slice_simps validate_peer_credential_no_panic
      parse_bstr_total builder_no_panic edhoc_kdf_no_panic validate_pubkey_def split: if_splits)

lemma seal_message_3_no_panic:
  assumes "hkdf_contract (ec_base E)" "hash_contract (ec_base E)"
  shows "seal_message_3 E self st \<noteq> Panic"
proof -
  have "8 \<le> length (sha256 (ec_base E) m)" for m using hash_lengths [OF assms(2)] by simp
  then show ?thesis
    using edhoc_kdf_Ok(1) [OF assms(1)]
    by (auto simp: seal_message_3_def Let_def res_simps vec_simps slice_simps builder_no_panic
        edhoc_kdf_no_panic encode_credential_no_panic encode_id_cred_no_panic)
qed

lemma finish_process_message_2_no_panic:
  assumes "hkdf_contract (ec_base E)" "hash_contract (ec_base E)"
    and "pm2_signature_offset p \<le> length (pm2_plaintext p)"
  shows "snd (finish_process_message_2 E self p peer) \<noteq> Panic"
  using seal_message_3_no_panic [OF assms(1,2)] check_message_2_no_panic [OF assms(3)]
  by (auto simp: finish_process_message_2_def initiator_settle_Panic message_3_body_def Let_def
      res_simps builder_no_panic split: prod.split)

lemma begin_pending_2:
  assumes "begin_process_message_2 E self msg2 = (self', Ok p)"
  shows "pm2_signature_offset p \<le> length (pm2_plaintext p)"
proof -
  obtain g_xy ct st st' where "message_2_body E (ini_c_i self) g_xy ct st = (st', Ok p)"
    using begin_process_message_2_Ok [OF assms] by blast
  from message_2_body_Ok [OF this] show ?thesis using plaintext_2_parts_Ok(3) by blast
qed

lemma process_message_2_no_panic:
  assumes "hkdf_contract (ec_base E)" "hash_contract (ec_base E)"
  shows "snd (process_message_2_with_credential E self msg2 peer) \<noteq> Panic"
    and "snd (process_message_2 E self msg2 pk) \<noteq> Panic"
proof -
  show *: "snd (process_message_2_with_credential E self msg2 peer) \<noteq> Panic" for peer
  proof (cases "begin_process_message_2 E self msg2")
    case (Pair self1 r)
    then show ?thesis
      using begin_process_message_2_no_panic [OF assms(1), of self msg2] begin_pending_2
        finish_process_message_2_no_panic [OF assms]
      by (cases r) (auto simp: process_message_2_with_credential_def)
  qed
  have "23 \<le> length (sha256 (ec_base E) m)" for m using hash_lengths [OF assms(2)] by simp
  then show "snd (process_message_2 E self msg2 pk) \<noteq> Panic"
    using * by (auto simp: process_message_2_def res_simps raw_key_credential_no_panic)
qed

text \<open>What a successful processing of message 2 has established.\<close>

text \<open>The plaintext and the signature that an initiator reads in a message 2.\<close>

definition message_2_reading :: "edhoc_crypto \<Rightarrow> edhoc_initiator \<Rightarrow> bytes \<Rightarrow> (bytes \<times> bytes) option" where
  "message_2_reading E self msg2 =
     (case snd (begin_process_message_2 E self msg2) of
        Ok p \<Rightarrow> (case parse_bstr (drop (pm2_signature_offset p) (pm2_plaintext p)) of
           Ok (sig, _) \<Rightarrow> Some (pm2_plaintext p, sig) | _ \<Rightarrow> None)
      | _ \<Rightarrow> None)"

lemma process_message_2_Ok:
  assumes "process_message_2_with_credential E self msg2 peer = (self', Ok msg3)"
  shows "\<exists>eph g_y ct ks pt c_r idc off sig n. let C = ec_base E;
      th_2 = sha256 C (bstr_bytes g_y @ bstr_bytes (sha256 C (i_msg1 (ini_state self))));
      prk = edhoc_extract C th_2 (x25519 E eph g_y) in
    i_lifecycle (ini_state self) = Message1Created \<and> ini_eph_secret self = Some eph \<and>
    message_2_parts E msg2 = Ok (g_y, ct) \<and> x25519 E eph g_y \<noteq> replicate 32 0 \<and>
    kdf_spec C prk LABEL_KEYSTREAM_2 th_2 (length ct) = Some ks \<and> xor_keystream 128 ks 0 [] ct = Ok pt \<and>
    plaintext_2_parts E (ini_c_i self) pt = Ok (c_r, idc, off) \<and>
    parse_bstr (drop off pt) = Ok (sig, n) \<and> pc_id_cred peer = idc_encoded idc \<and>
    signed_2 E prk c_r (pc_id_cred peer) th_2 (pc_credential peer) (pc_public_key peer) sig \<and>
    i_c_r (ini_state self') = c_r \<and> i_prk_4e3m (ini_state self') = prk \<and>
    i_th_3 (ini_state self') = sha256 C (bstr_bytes th_2 @ bstr_bytes pt @ pc_credential peer) \<and>
    i_completed (ini_state self') \<and> ini_eph_secret self' = None \<and>
    i_g_y (ini_state self') = g_y \<and> i_th_2 (ini_state self') = th_2 \<and> i_prk_3e2m (ini_state self') = prk \<and>
    ini_c_i self' = ini_c_i self \<and> ini_pubkey self' = ini_pubkey self \<and>
    message_2_reading E self msg2 = Some (pt, sig)"
proof -
  obtain self1 p where b: "begin_process_message_2 E self msg2 = (self1, Ok p)"
    and f: "finish_process_message_2 E self1 p peer = (self', Ok msg3)"
    using assms by (auto simp: process_message_2_with_credential_def res_simps split: prod.splits)
  from begin_process_message_2_Ok [OF b] obtain eph g_y ct st1 where
    b1: "i_lifecycle (ini_state self) = Message1Created" "ini_eph_secret self = Some eph"
      "message_2_parts E msg2 = Ok (g_y, ct)"
      "message_2_body E (ini_c_i self) (x25519 E eph g_y) ct ((ini_state self)\<lparr>i_g_y := g_y\<rparr>) = (st1, Ok p)"
      "self1 = self\<lparr>ini_eph_secret := None, ini_state := st1\<rparr>" by blast
  note body = message_2_body_Ok [OF b1(4)]
  note fin = finish_process_message_2_Ok [OF f]
  from fin(4) obtain st2 where st2: "message_3_body E self1 p peer (ini_state self1) = (st2, Ok msg3)"
    "self' = self1\<lparr>ini_state := st2\<rparr>" by blast
  note m3 = message_3_body_Ok [OF st2(1)]
  from m3 obtain sig n where "parse_bstr (drop (pm2_signature_offset p) (pm2_plaintext p)) = Ok (sig, n)"
    "signed_2 E (i_prk_3e2m st1) (pm2_c_r p) (idc_encoded (pm2_id_cred p)) (i_th_2 st1) (pc_credential peer)
      (pc_public_key peer) sig"
    using check_message_2_Ok b1(5) by fastforce
  moreover from this(1) have "message_2_reading E self msg2 = Some (pm2_plaintext p, sig)"
    by (simp add: message_2_reading_def b)
  ultimately show ?thesis using body m3 b1 fin(3) st2(2)
    by (fastforce simp: Let_def dest!: transcript_2_Ok transcript_Ok edhoc_kdf_spec)
qed

end
