(* ===== verification/EdhocResponder.thy ===== *)
theory EdhocResponder
  imports EdhocKdf EdhocTranscript
begin

text \<open>
  The responder of the handshake, \<^verbatim>\<open>src/edhoc/responder.rs\<close>, in the form of
  \<open>EdhocInitiator\<close>: every method returns the struct with its result, and the closures whose result
  is collected before the struct is poisoned work on the inner state alone.
\<close>

subsection \<open>The structs\<close>

record responder_state =
  r_msg1 :: bytes
  r_g_x :: bytes
  r_c_i :: bytes
  r_prk_2e :: bytes
  r_prk_3e2m :: bytes
  r_prk_4e3m :: bytes
  r_th_2 :: bytes
  r_th_3 :: bytes
  r_th_4 :: bytes
  r_completed :: bool
  r_lifecycle :: lifecycle

record edhoc_responder =
  rsp_privkey :: bytes
  rsp_pubkey :: bytes
  rsp_c_r :: bytes
  rsp_eph_secret :: "bytes option"
  rsp_eph_public :: bytes
  rsp_state :: responder_state

record pending_message_3 =
  pm3_id_cred :: id_cred
  pm3_plaintext :: bytes
  pm3_signature_offset :: nat
  pm3_transcript_binding :: bytes

definition responder_state_default :: responder_state where
  "responder_state_default = \<lparr>
     r_msg1 = [], r_g_x = replicate 32 0, r_c_i = [], r_prk_2e = replicate 32 0,
     r_prk_3e2m = replicate 32 0, r_prk_4e3m = replicate 32 0, r_th_2 = replicate 32 0,
     r_th_3 = replicate 32 0, r_th_4 = replicate 32 0, r_completed = False,
     r_lifecycle = Created\<rparr>"

definition responder_state_zeroize :: "responder_state \<Rightarrow> responder_state" where
  "responder_state_zeroize st = st\<lparr>
     r_g_x := replicate 32 0, r_prk_2e := replicate 32 0, r_prk_3e2m := replicate 32 0,
     r_prk_4e3m := replicate 32 0, r_th_2 := replicate 32 0, r_th_3 := replicate 32 0,
     r_th_4 := replicate 32 0, r_msg1 := replicate (length (r_msg1 st)) 0, r_completed := False\<rparr>"

definition responder_wipe :: "edhoc_crypto \<Rightarrow> lifecycle \<Rightarrow> edhoc_responder \<Rightarrow> edhoc_responder" where
  "responder_wipe E l self = self\<lparr>
     rsp_privkey := key_zeroize E (rsp_privkey self), rsp_eph_secret := None,
     rsp_state := (responder_state_zeroize (rsp_state self))\<lparr>r_lifecycle := l\<rparr>\<rparr>"

definition responder_zeroize :: "edhoc_crypto \<Rightarrow> edhoc_responder \<Rightarrow> edhoc_responder" where
  "responder_zeroize E self = responder_wipe E Zeroized self"

definition responder_poison :: "edhoc_crypto \<Rightarrow> edhoc_responder \<Rightarrow> edhoc_responder" where
  "responder_poison E self = responder_wipe E Failed self"

subsection \<open>Construction\<close>

definition responder_with_secret ::
    "edhoc_crypto \<Rightarrow> bytes \<Rightarrow> bytes \<Rightarrow> bytes \<Rightarrow> edhoc_responder" where
  "responder_with_secret E seed c_r eph_secret =
     (let (privkey, pubkey) = key_from_seed E seed;
          eph_public = x25519_public E eph_secret in
      \<lparr>rsp_privkey = privkey, rsp_pubkey = pubkey, rsp_c_r = c_r,
       rsp_eph_secret = Some eph_secret, rsp_eph_public = eph_public,
       rsp_state = responder_state_default\<rparr>)"

definition responder_new ::
    "edhoc_crypto \<Rightarrow> bytes \<Rightarrow> u8 \<Rightarrow> bytes \<Rightarrow> (oscore_error, edhoc_responder) res" where
  "responder_new E seed c_r entropy =
     (case connection_id_new [c_r] of
        Ok c \<Rightarrow> Ok (responder_with_secret E seed c entropy)
      | _ \<Rightarrow> Panic)"

definition responder_new_with_rng ::
    "edhoc_crypto \<Rightarrow> bytes \<Rightarrow> u8 \<Rightarrow> bytes option \<Rightarrow> (oscore_error, edhoc_responder) res" where
  "responder_new_with_rng E seed c_r entropy =
     and_then (ok_or EntropyFailure entropy) (\<lambda>eph_seed. responder_new E seed c_r eph_seed)"

definition responder_new_std ::
    "edhoc_crypto \<Rightarrow> bytes \<Rightarrow> u8 \<Rightarrow> bytes option \<Rightarrow> (oscore_error, edhoc_responder) res" where
  "responder_new_std E seed c_r entropy = responder_new_with_rng E seed c_r entropy"

subsection \<open>Message 1\<close>

text \<open>The method, the suites and \<open>G_X\<close>; what is left after them is \<open>C_I\<close>.\<close>

definition message_1_head :: "bytes \<Rightarrow> (edhoc_error, bytes \<times> bytes \<times> bytes) res" where
  "message_1_head msg1 =
     and_then (extend_err 64 [] msg1) (\<lambda>stored_msg1.
     if length msg1 < 37 then Err EInvalidMessage
     else
       and_then (index msg1 0) (\<lambda>method.
       if method \<noteq> 0 then Err EInvalidMessage
       else
         and_then (slice_from msg1 1) (\<lambda>t.
         and_then (parse_suites_i t) (\<lambda>(selected_suite, suites_i_end).
         if selected_suite \<noteq> SUITE_0 then Err EUnsupportedSuite
         else
           let g_x_start = 1 + suites_i_end in
           if length msg1 < g_x_start + 2 + 32 + 1 then Err EInvalidMessage
           else
             and_then (index msg1 g_x_start) (\<lambda>b0.
             and_then (if b0 \<noteq> 0x58 then Ok True
                       else and_then (index msg1 (g_x_start + 1)) (\<lambda>b1. Ok (b1 \<noteq> 32))) (\<lambda>bad.
             if bad then Err EInvalidMessage
             else
               and_then (slice msg1 (g_x_start + 2) (g_x_start + 2 + 32)) (\<lambda>s.
               and_then (copy_from_slice 32 s) (\<lambda>g_x.
               and_then (slice_from msg1 (g_x_start + 2 + 32)) (\<lambda>rest.
                 Ok (stored_msg1, g_x, rest))))))))))"

text \<open>\<open>C_I\<close>, with nothing behind it.\<close>

definition message_1_c_i :: "bytes \<Rightarrow> (edhoc_error, u8) res" where
  "message_1_c_i rest =
     and_then
       (if rest \<noteq> [] then
          and_then (index rest 0) (\<lambda>b.
          if b \<le> 23 then Ok (b, 1)
          else if b = 0x41 \<and> length rest > 1 then and_then (index rest 1) (\<lambda>c. Ok (c, 2))
          else Err EInvalidMessage)
        else Err EInvalidMessage) (\<lambda>(c_i, c_i_len :: nat).
     if length rest > c_i_len then Err EInvalidMessage else Ok c_i)"

definition sign_plaintext_2 ::
    "edhoc_crypto \<Rightarrow> edhoc_responder \<Rightarrow> responder_state \<Rightarrow> (edhoc_error, bytes \<times> bytes) res" where
  "sign_plaintext_2 E self st =
     (let C = ec_base E in
      and_then (encode_id_cred (sha256 C) 40 [] (rsp_pubkey self)) (\<lambda>id_cred_r.
      and_then (encode_credential 80 [] (rsp_pubkey self)) (\<lambda>credential_r.
      and_then (build_context_2 (rsp_c_r self) id_cred_r (r_th_2 st) credential_r) (\<lambda>context_2.
      and_then (edhoc_kdf C (r_prk_3e2m st) LABEL_MAC_2 context_2 32) (\<lambda>mac_2.
      and_then (build_signature_structure id_cred_r (r_th_2 st) credential_r mac_2) (\<lambda>m_2.
      let signature_2 = sign_message E (rsp_privkey self) (rsp_pubkey self) m_2 in
      and_then (encode_identifier 128 [] (rsp_c_r self)) (\<lambda>plaintext_2.
      and_then (extend_err 128 plaintext_2 id_cred_r) (\<lambda>plaintext_2.
      and_then (encode_bstr 128 plaintext_2 signature_2) (\<lambda>plaintext_2.
        Ok (plaintext_2, credential_r))))))))))"

definition message_2_reply ::
    "edhoc_crypto \<Rightarrow> edhoc_responder \<Rightarrow> bytes \<Rightarrow> bytes \<Rightarrow> responder_state \<Rightarrow>
     responder_state \<times> (edhoc_error, bytes) res" where
  "message_2_reply E self msg1 g_xy st =
     (let C = ec_base E in
      if g_xy = replicate KEY_LEN_32 0 then (st, Err EInvalidMessage)
      else
        try_st st (transcript_2 C (rsp_eph_public self) msg1) (\<lambda>th_2.
        let st = st\<lparr>r_th_2 := th_2\<rparr>;
            st = st\<lparr>r_prk_2e := edhoc_extract C (r_th_2 st) g_xy\<rparr>;
            st = st\<lparr>r_prk_3e2m := r_prk_2e st\<rparr> in
        try_st st (sign_plaintext_2 E self st) (\<lambda>(plaintext_2, credential_r).
        try_st st (edhoc_kdf C (r_prk_2e st) LABEL_KEYSTREAM_2 (r_th_2 st) (length plaintext_2))
          (\<lambda>keystream_2.
        try_st st (xor_keystream 128 keystream_2 0 [] plaintext_2) (\<lambda>ciphertext_2.
        try_st st (transcript_3 C (r_th_2 st) plaintext_2 credential_r) (\<lambda>th_3.
        let st = st\<lparr>r_th_3 := th_3\<rparr> in
        try_st st (extend_err 144 [] (rsp_eph_public self)) (\<lambda>g_y_ciphertext.
        try_st st (extend_err 144 g_y_ciphertext ciphertext_2) (\<lambda>g_y_ciphertext.
        try_st st (encode_bstr 160 [] g_y_ciphertext) (\<lambda>msg2.
        let st = st\<lparr>r_lifecycle := AwaitingMessage3\<rparr> in
          (st, Ok msg2))))))))))"

definition responder_settle ::
    "edhoc_crypto \<Rightarrow> edhoc_responder \<Rightarrow> responder_state \<times> (edhoc_error, 'a) res \<Rightarrow>
     edhoc_responder \<times> (edhoc_error, 'a) res" where
  "responder_settle E self out =
     (let (st, result) = out;
          self = self\<lparr>rsp_state := st\<rparr> in
      (case result of Err e \<Rightarrow> (responder_poison E self, Err e) | _ \<Rightarrow> (self, result)))"

definition process_message_1 ::
    "edhoc_crypto \<Rightarrow> edhoc_responder \<Rightarrow> bytes \<Rightarrow> edhoc_responder \<times> (edhoc_error, bytes) res" where
  "process_message_1 E self msg1 =
     (if r_lifecycle (rsp_state self) \<noteq> Created \<or> rsp_eph_secret self = None
      then (self, Err EInvalidState)
      else
        try_st self (message_1_head msg1) (\<lambda>(stored_msg1, g_x, rest).
        let self = self\<lparr>rsp_state := (rsp_state self)\<lparr>r_g_x := g_x\<rparr>\<rparr> in
        try_st self (message_1_c_i rest) (\<lambda>c_i.
        if rsp_c_r self = [c_i] then (responder_poison E self, Err EInvalidMessage)
        else
          try_st self (ok_or EInvalidState (rsp_eph_secret self)) (\<lambda>eph_secret.
          let self = self\<lparr>rsp_eph_secret := None\<rparr>;
              g_xy = x25519 E eph_secret g_x in
          try_st self (connection_id_from_u8 c_i) (\<lambda>c_i.
          let self = self\<lparr>rsp_state := (rsp_state self)\<lparr>r_msg1 := stored_msg1, r_g_x := g_x, r_c_i := c_i\<rparr>\<rparr> in
          responder_settle E self (message_2_reply E self msg1 g_xy (rsp_state self)))))))"

subsection \<open>Message 3\<close>

definition open_message_3 ::
    "edhoc_crypto \<Rightarrow> responder_state \<Rightarrow> bytes \<Rightarrow> (edhoc_error, bytes) res" where
  "open_message_3 E st msg3 =
     (let C = ec_base E in
      and_then (parse_bstr msg3) (\<lambda>(ciphertext_3, consumed).
      if consumed \<noteq> length msg3 then Err EInvalidMessage
      else
        and_then (edhoc_kdf C (r_prk_3e2m st) LABEL_K_3 (r_th_3 st) KEY_LEN) (\<lambda>k_3.
        and_then (edhoc_kdf C (r_prk_3e2m st) LABEL_IV_3 (r_th_3 st) NONCE_LEN) (\<lambda>iv_3.
        and_then (build_a_3 (r_th_3 st)) (\<lambda>a_3.
        if length ciphertext_3 < TAG_LEN then Err EInvalidMessage
        else
          let tag_start = length ciphertext_3 - TAG_LEN in
          and_then (slice_from ciphertext_3 tag_start) (\<lambda>tag.
          and_then (ok_or EInvalidState (ccm_new C k_3)) (\<lambda>cipher.
          and_then (slice ciphertext_3 0 tag_start) (\<lambda>body.
          and_then (extend_err 128 [] body) (\<lambda>plaintext_3.
          and_then (copy_from_slice NONCE_LEN iv_3) (\<lambda>nonce.
            ok_or EDecryptFailed (ccm_decrypt C cipher nonce a_3 plaintext_3 tag)))))))))))"

definition message_3_pending ::
    "edhoc_crypto \<Rightarrow> bytes \<Rightarrow> responder_state \<Rightarrow> responder_state \<times> (edhoc_error, pending_message_3) res" where
  "message_3_pending E msg3 st =
     try_st st (open_message_3 E st msg3) (\<lambda>plaintext_3.
     try_st st (parse_id_cred plaintext_3) (\<lambda>(id_cred_i, id_len).
     try_st st (slice_from plaintext_3 id_len) (\<lambda>t.
     try_st st (parse_bstr t) (\<lambda>(sig_bytes, sig_length).
     if length sig_bytes \<noteq> sig_len E \<or> id_len + sig_length \<noteq> length plaintext_3
     then (st, Err EInvalidMessage)
     else
       try_st st (extend_err 128 [] plaintext_3) (\<lambda>plaintext.
       let st = st\<lparr>r_lifecycle := PendingMessage3\<rparr> in
         (st, Ok \<lparr>pm3_id_cred = id_cred_i, pm3_plaintext = plaintext,
                  pm3_signature_offset = id_len, pm3_transcript_binding = r_th_3 st\<rparr>))))))"

definition begin_process_message_3 ::
    "edhoc_crypto \<Rightarrow> edhoc_responder \<Rightarrow> bytes \<Rightarrow> edhoc_responder \<times> (edhoc_error, pending_message_3) res" where
  "begin_process_message_3 E self msg3 =
     (if r_lifecycle (rsp_state self) \<noteq> AwaitingMessage3 then (self, Err EInvalidState)
      else responder_settle E self (message_3_pending E msg3 (rsp_state self)))"

text \<open>What precedes the key update: the credential, the signature bytes and the peer's key.\<close>

definition message_3_credential ::
    "edhoc_crypto \<Rightarrow> pending_message_3 \<Rightarrow> peer_credential \<Rightarrow> (edhoc_error, bytes \<times> bytes) res" where
  "message_3_credential E pending peer =
     and_then (validate_peer_credential (edwards_point_ok E) peer) (\<lambda>_.
     and_then (slice_from (pm3_plaintext pending) (pm3_signature_offset pending)) (\<lambda>t.
     and_then (parse_bstr t) (\<lambda>(sig_bytes, _).
     and_then (guard (length sig_bytes = sig_len E) EInvalidMessage) (\<lambda>_.
     and_then (validate_pubkey (edwards_point_ok E) (pc_public_key peer)) (\<lambda>_.
     and_then (ok_or ESignatureVerification (verifying_key E (pc_public_key peer))) (\<lambda>peer_pubkey.
       Ok (peer_pubkey, sig_bytes)))))))"

definition check_message_3 ::
    "edhoc_crypto \<Rightarrow> responder_state \<Rightarrow> pending_message_3 \<Rightarrow> peer_credential \<Rightarrow> bytes \<Rightarrow> bytes \<Rightarrow>
     (edhoc_error, unit) res" where
  "check_message_3 E st pending peer peer_pubkey signature =
     (let idc = idc_encoded (pm3_id_cred pending) in
      and_then (build_context_3 idc (r_th_3 st) (pc_credential peer)) (\<lambda>context_3.
      and_then (edhoc_kdf (ec_base E) (r_prk_4e3m st) LABEL_MAC_3 context_3 32) (\<lambda>mac_3.
      and_then (build_signature_structure idc (r_th_3 st) (pc_credential peer) mac_3) (\<lambda>m_3.
        guard (verify_message E peer_pubkey m_3 signature) ESignatureVerification))))"

definition message_3_accept ::
    "edhoc_crypto \<Rightarrow> pending_message_3 \<Rightarrow> peer_credential \<Rightarrow> responder_state \<Rightarrow>
     responder_state \<times> (edhoc_error, unit) res" where
  "message_3_accept E pending peer st =
     try_st st (message_3_credential E pending peer) (\<lambda>(peer_pubkey, signature).
     let st = st\<lparr>r_prk_4e3m := r_prk_3e2m st\<rparr> in
     try_st st (check_message_3 E st pending peer peer_pubkey signature) (\<lambda>_.
     try_st st (transcript_4 (ec_base E) (r_th_3 st) (pm3_plaintext pending) (pc_credential peer)) (\<lambda>th_4.
     let st = st\<lparr>r_th_4 := th_4, r_completed := True, r_lifecycle := Complete\<rparr> in
       (st, Ok ()))))"

definition finish_process_message_3 ::
    "edhoc_crypto \<Rightarrow> edhoc_responder \<Rightarrow> pending_message_3 \<Rightarrow> peer_credential \<Rightarrow>
     edhoc_responder \<times> (edhoc_error, unit) res" where
  "finish_process_message_3 E self pending peer =
     (if r_lifecycle (rsp_state self) \<noteq> PendingMessage3 \<or>
         pm3_transcript_binding pending \<noteq> r_th_3 (rsp_state self)
      then (responder_poison E self, Err EInvalidState)
      else if pc_id_cred peer \<noteq> idc_encoded (pm3_id_cred pending)
      then (responder_poison E self, Err ESignatureVerification)
      else responder_settle E self (message_3_accept E pending peer (rsp_state self)))"

definition process_message_3_with_credential ::
    "edhoc_crypto \<Rightarrow> edhoc_responder \<Rightarrow> bytes \<Rightarrow> peer_credential \<Rightarrow>
     edhoc_responder \<times> (edhoc_error, unit) res" where
  "process_message_3_with_credential E self msg3 peer =
     (let (self, r) = begin_process_message_3 E self msg3 in
      try_st self r (\<lambda>pending. finish_process_message_3 E self pending peer))"

definition process_message_3 ::
    "edhoc_crypto \<Rightarrow> edhoc_responder \<Rightarrow> bytes \<Rightarrow> bytes \<Rightarrow> edhoc_responder \<times> (edhoc_error, unit) res" where
  "process_message_3 E self msg3 peer_pubkey =
     try_st self (raw_key_credential (sha256 (ec_base E)) peer_pubkey) (\<lambda>(idc, credential).
       process_message_3_with_credential E self msg3 (peer_credential_new peer_pubkey idc credential))"

subsection \<open>Export\<close>

definition responder_export_oscore ::
    "edhoc_crypto \<Rightarrow> edhoc_responder \<Rightarrow> (oscore_error, oscore_context) res" where
  "responder_export_oscore E self =
     (let st = rsp_state self in
      if \<not> r_completed st \<or> foldl (OR) 0 (r_prk_4e3m st) = 0 then Err NoContext
      else export_context (ec_base E) (r_prk_4e3m st) (r_th_4 st) (r_c_i st) (rsp_c_r self))"

subsection \<open>Outcomes\<close>

lemma responder_wipe_fields [simp]:
  "r_lifecycle (rsp_state (responder_wipe E l self)) = l"
  "r_completed (rsp_state (responder_wipe E l self)) \<longleftrightarrow> False"
  "rsp_eph_secret (responder_wipe E l self) = None"
  "rsp_privkey (responder_wipe E l self) = key_zeroize E (rsp_privkey self)"
  by (simp_all add: responder_wipe_def responder_state_zeroize_def)

lemmas responder_end = responder_poison_def responder_zeroize_def

lemma responder_settle_eq:
  "responder_settle E self (st, Ok x) = (self\<lparr>rsp_state := st\<rparr>, Ok x)"
  "responder_settle E self (st, Err e) = (responder_poison E (self\<lparr>rsp_state := st\<rparr>), Err e)"
  "responder_settle E self (st, Panic) = (self\<lparr>rsp_state := st\<rparr>, Panic)"
  by (simp_all add: responder_settle_def)

lemma responder_settle_Ok:
  "responder_settle E self out = (self', Ok x) \<longleftrightarrow>
   (\<exists>st. out = (st, Ok x) \<and> self' = self\<lparr>rsp_state := st\<rparr>)"
  by (cases out; cases "snd out") (auto simp: responder_settle_eq)

lemma responder_settle_Panic: "snd (responder_settle E self out) = Panic \<longleftrightarrow> snd out = Panic"
  by (cases out; cases "snd out") (auto simp: responder_settle_eq)

text \<open>The outcome of a settled body that touches neither lifecycle nor completion unless it
  succeeds.\<close>

definition lifecycle_kept :: "responder_state \<Rightarrow> responder_state \<times> (edhoc_error, 'a) res \<Rightarrow> bool" where
  "lifecycle_kept st out \<longleftrightarrow> (\<exists>x. snd out = Ok x) \<or>
     r_lifecycle (fst out) = r_lifecycle st \<and> r_completed (fst out) = r_completed st"

definition responder_fails :: "edhoc_responder \<Rightarrow> edhoc_responder \<Rightarrow> (edhoc_error, 'a) res \<Rightarrow> bool" where
  "responder_fails self self' r \<longleftrightarrow>
     r_lifecycle (rsp_state self') = r_lifecycle (rsp_state self) \<and>
       r_completed (rsp_state self') = r_completed (rsp_state self) \<or>
     r_lifecycle (rsp_state self') = Failed \<and> \<not> r_completed (rsp_state self') \<and> (\<exists>e. r = Err e)"

lemma responder_fails_simps [simp]:
  "responder_fails self self r" "responder_fails self (responder_poison E s) (Err e)"
  by (simp_all add: responder_fails_def responder_poison_def)

lemma responder_settle_fails:
  assumes "lifecycle_kept (rsp_state self) out" "responder_settle E self out = (self', r)" "\<forall>x. r \<noteq> Ok x"
  shows "responder_fails self self' r"
proof (cases out)
  case (Pair st r')
  with assms show ?thesis
    by (cases r') (auto simp: responder_settle_eq responder_fails_def responder_end lifecycle_kept_def)
qed

lemma message_2_reply_Ok:
  assumes "message_2_reply E self msg1 g_xy st = (st', Ok msg2)"
  shows "\<exists>th_2 prk pt cred ks ct th_3. g_xy \<noteq> replicate 32 0 \<and>
    transcript_2 (ec_base E) (rsp_eph_public self) msg1 = Ok th_2 \<and>
    prk = edhoc_extract (ec_base E) th_2 g_xy \<and>
    sign_plaintext_2 E self (st\<lparr>r_th_2 := th_2, r_prk_2e := prk, r_prk_3e2m := prk\<rparr>) = Ok (pt, cred) \<and>
    edhoc_kdf (ec_base E) prk LABEL_KEYSTREAM_2 th_2 (length pt) = Ok ks \<and>
    xor_keystream 128 ks 0 [] pt = Ok ct \<and> transcript_3 (ec_base E) th_2 pt cred = Ok th_3 \<and>
    encode_bstr 160 [] (rsp_eph_public self @ ct) = Ok msg2 \<and>
    st' = st\<lparr>r_th_2 := th_2, r_prk_2e := prk, r_prk_3e2m := prk, r_th_3 := th_3,
      r_lifecycle := AwaitingMessage3\<rparr>"
  using assms
  by (auto simp: message_2_reply_def Let_def res_simps vec_simps split: if_splits prod.splits)

lemma message_2_reply_kept: "lifecycle_kept st (message_2_reply E self msg1 g_xy st)"
  by (auto simp: message_2_reply_def Let_def try_st_def lifecycle_kept_def split: prod.splits res.splits)

lemma connection_id_from_u8_eq: "connection_id_from_u8 b = Ok [b]"
  by (simp add: connection_id_from_u8_def vec_push_def)

lemma process_message_1_Ok:
  assumes "process_message_1 E self msg1 = (self', Ok msg2)"
  shows "\<exists>g_x rest c eph st'. r_lifecycle (rsp_state self) = Created \<and> rsp_eph_secret self = Some eph \<and>
    message_1_head msg1 = Ok (msg1, g_x, rest) \<and> message_1_c_i rest = Ok c \<and> rsp_c_r self \<noteq> [c] \<and>
    message_2_reply E (self\<lparr>rsp_eph_secret := None,
        rsp_state := (rsp_state self)\<lparr>r_msg1 := msg1, r_g_x := g_x, r_c_i := [c]\<rparr>\<rparr>) msg1 (x25519 E eph g_x)
      ((rsp_state self)\<lparr>r_msg1 := msg1, r_g_x := g_x, r_c_i := [c]\<rparr>) = (st', Ok msg2) \<and>
    self' = self\<lparr>rsp_eph_secret := None, rsp_state := st'\<rparr>"
proof -
  have h: "m = msg1" if "message_1_head msg1 = Ok (m, x)" for m x
    using that by (auto simp: message_1_head_def res_simps vec_simps Let_def split: if_splits prod.splits)
  show ?thesis
    using assms
    by (auto simp: process_message_1_def Let_def res_simps responder_settle_Ok connection_id_from_u8_eq
        split: if_splits prod.splits dest: h)
qed

lemma process_message_1_fails:
  assumes "process_message_1 E self msg1 = (self', r)" "\<forall>x. r \<noteq> Ok x"
  shows "responder_fails self self' r"
proof -
  let ?s = "\<lambda>m g c. (rsp_state self)\<lparr>r_msg1 := m, r_g_x := g, r_c_i := c\<rparr>"
  let ?self = "\<lambda>m g c. self\<lparr>rsp_eph_secret := None, rsp_state := ?s m g c\<rparr>"
  have settle: "responder_fails self self' r"
    if "responder_settle E (?self m g c) (message_2_reply E (?self m g c) msg1 g_xy (?s m g c)) = (self', r)"
    for m g c g_xy
  proof -
    have "lifecycle_kept (rsp_state (?self m g c)) (message_2_reply E (?self m g c) msg1 g_xy (?s m g c))"
      using message_2_reply_kept [of "?s m g c"] by simp
    from responder_settle_fails [OF this that assms(2)] show ?thesis by (simp add: responder_fails_def)
  qed
  have g_x: "responder_fails self (self\<lparr>rsp_state := (rsp_state self)\<lparr>r_g_x := g\<rparr>\<rparr>) r" for g
    by (simp add: responder_fails_def)
  show ?thesis
    using assms settle g_x
    by (auto simp: process_message_1_def Let_def try_st_def connection_id_from_u8_eq
        split: if_splits prod.splits res.splits)
qed

lemma message_3_pending_Ok:
  assumes "message_3_pending E msg3 st = (st', Ok p)"
  shows "open_message_3 E st msg3 = Ok (pm3_plaintext p)"
    and "parse_id_cred (pm3_plaintext p) = Ok (pm3_id_cred p, pm3_signature_offset p)"
    and "\<exists>sig n. parse_bstr (drop (pm3_signature_offset p) (pm3_plaintext p)) = Ok (sig, n) \<and>
      length sig = sig_len E \<and> pm3_signature_offset p + n = length (pm3_plaintext p)"
    and "pm3_transcript_binding p = r_th_3 st" "st' = st\<lparr>r_lifecycle := PendingMessage3\<rparr>"
  using assms
  by (auto simp: message_3_pending_def Let_def res_simps vec_simps slice_simps split: if_splits prod.splits)

lemma message_3_pending_kept: "lifecycle_kept st (message_3_pending E msg3 st)"
  by (auto simp: message_3_pending_def Let_def try_st_def lifecycle_kept_def split: prod.splits res.splits)

lemma begin_process_message_3_Ok:
  assumes "begin_process_message_3 E self msg3 = (self', Ok p)"
  shows "r_lifecycle (rsp_state self) = AwaitingMessage3"
    and "\<exists>st'. message_3_pending E msg3 (rsp_state self) = (st', Ok p) \<and> self' = self\<lparr>rsp_state := st'\<rparr>"
  using assms by (auto simp: begin_process_message_3_def responder_settle_Ok split: if_splits)

lemma begin_process_message_3_fails:
  assumes "begin_process_message_3 E self msg3 = (self', r)" "\<forall>x. r \<noteq> Ok x"
  shows "responder_fails self self' r"
  using assms
  by (auto simp: begin_process_message_3_def split: if_splits
      intro: responder_settle_fails [OF message_3_pending_kept])

lemma message_3_accept_Ok:
  assumes "message_3_accept E p peer st = (st', Ok u)"
  shows "\<exists>key sig th_4. message_3_credential E p peer = Ok (key, sig) \<and>
    check_message_3 E (st\<lparr>r_prk_4e3m := r_prk_3e2m st\<rparr>) p peer key sig = Ok () \<and>
    transcript_4 (ec_base E) (r_th_3 st) (pm3_plaintext p) (pc_credential peer) = Ok th_4 \<and>
    st' = st\<lparr>r_prk_4e3m := r_prk_3e2m st, r_th_4 := th_4, r_completed := True, r_lifecycle := Complete\<rparr>"
  using assms
  by (auto simp: message_3_accept_def Let_def res_simps split: prod.splits)

lemma message_3_accept_kept: "lifecycle_kept st (message_3_accept E p peer st)"
  by (auto simp: message_3_accept_def Let_def try_st_def lifecycle_kept_def split: prod.splits res.splits)

lemma finish_process_message_3_Ok:
  assumes "finish_process_message_3 E self p peer = (self', Ok u)"
  shows "r_lifecycle (rsp_state self) = PendingMessage3"
    and "pm3_transcript_binding p = r_th_3 (rsp_state self)"
    and "pc_id_cred peer = idc_encoded (pm3_id_cred p)"
    and "\<exists>st'. message_3_accept E p peer (rsp_state self) = (st', Ok u) \<and> self' = self\<lparr>rsp_state := st'\<rparr>"
  using assms by (auto simp: finish_process_message_3_def responder_settle_Ok split: if_splits)

lemma finish_process_message_3_fails:
  assumes "finish_process_message_3 E self p peer = (self', r)" "\<forall>x. r \<noteq> Ok x"
  shows "responder_fails self self' r"
  using assms
  by (auto simp: finish_process_message_3_def split: if_splits
      intro: responder_settle_fails [OF message_3_accept_kept])

subsection \<open>Runs of calls\<close>

datatype responder_call =
    ProcessMessage1 bytes
  | BeginMessage3 bytes
  | FinishMessage3 pending_message_3 peer_credential
  | ZeroizeResponder

fun call_responder :: "edhoc_crypto \<Rightarrow> responder_call \<Rightarrow> edhoc_responder \<Rightarrow> edhoc_responder \<times> step list" where
  "call_responder E (ProcessMessage1 msg1) self =
     (case process_message_1 E self msg1 of (self, r) \<Rightarrow> (self, case r of Ok _ \<Rightarrow> [FirstStep] | _ \<Rightarrow> []))"
| "call_responder E (BeginMessage3 msg3) self =
     (case begin_process_message_3 E self msg3 of
        (self, r) \<Rightarrow> (self, case r of Ok _ \<Rightarrow> [SecondStep] | _ \<Rightarrow> []))"
| "call_responder E (FinishMessage3 pending peer) self =
     (case finish_process_message_3 E self pending peer of
        (self, r) \<Rightarrow> (self, case r of Ok _ \<Rightarrow> [ThirdStep] | _ \<Rightarrow> []))"
| "call_responder E ZeroizeResponder self = (responder_zeroize E self, [])"

definition responder_inv :: "edhoc_responder \<Rightarrow> step list \<Rightarrow> bool" where
  "responder_inv self ss \<longleftrightarrow>
     lifecycle_ok (r_lifecycle (rsp_state self)) (r_completed (rsp_state self)) ss"

lemma responder_inv_fails: "responder_inv self ss \<Longrightarrow> responder_fails self self' r \<Longrightarrow> responder_inv self' ss"
  using lifecycle_ok_over [of "r_lifecycle (rsp_state self)" "r_completed (rsp_state self)" ss Failed]
  by (auto simp: responder_inv_def responder_fails_def)

lemma call_responder_inv:
  assumes "responder_inv self ss" "call_responder E c self = (self', s)"
  shows "responder_inv self' (ss @ s)"
proof (cases c)
  case (ProcessMessage1 msg1)
  then obtain r where c: "process_message_1 E self msg1 = (self', r)"
    and s: "s = (case r of Ok _ \<Rightarrow> [FirstStep] | _ \<Rightarrow> [])"
    using assms(2) by (auto split: prod.splits)
  show ?thesis
  proof (cases "\<exists>p. r = Ok p")
    case True
    then obtain m where r: "r = Ok m" by blast
    from process_message_1_Ok [OF c [unfolded r]] obtain st st' sf g_xy where
      p: "r_lifecycle (rsp_state self) = Created" "message_2_reply E sf msg1 g_xy st = (st', Ok m)"
        "self' = self\<lparr>rsp_eph_secret := None, rsp_state := st'\<rparr>" "r_completed st = r_completed (rsp_state self)"
      by fastforce
    from message_2_reply_Ok [OF p(2)] p assms(1) s r show ?thesis
      by (auto simp: responder_inv_def lifecycle_ok_def steps_of_def)
  next
    case False
    then have "s = []" using s by (cases r) auto
    with responder_inv_fails [OF assms(1) process_message_1_fails [OF c]] False show ?thesis by simp
  qed
next
  case (BeginMessage3 msg3)
  then obtain r where c: "begin_process_message_3 E self msg3 = (self', r)"
    and s: "s = (case r of Ok _ \<Rightarrow> [SecondStep] | _ \<Rightarrow> [])"
    using assms(2) by (auto split: prod.splits)
  show ?thesis
  proof (cases "\<exists>p. r = Ok p")
    case True
    then obtain p where r: "r = Ok p" by blast
    from begin_process_message_3_Ok [OF c [unfolded r]] message_3_pending_Ok(5) assms(1) s r show ?thesis
      by (fastforce simp: responder_inv_def lifecycle_ok_def steps_of_def)
  next
    case False
    then have "s = []" using s by (cases r) auto
    with responder_inv_fails [OF assms(1) begin_process_message_3_fails [OF c]] False show ?thesis by simp
  qed
next
  case (FinishMessage3 pending peer)
  then obtain r where c: "finish_process_message_3 E self pending peer = (self', r)"
    and s: "s = (case r of Ok _ \<Rightarrow> [ThirdStep] | _ \<Rightarrow> [])"
    using assms(2) by (auto split: prod.splits)
  show ?thesis
  proof (cases "\<exists>p. r = Ok p")
    case True
    then obtain u where r: "r = Ok u" by blast
    from finish_process_message_3_Ok [OF c [unfolded r]] message_3_accept_Ok assms(1) s r show ?thesis
      by (fastforce simp: responder_inv_def lifecycle_ok_def steps_of_def)
  next
    case False
    then have "s = []" using s by (cases r) auto
    with responder_inv_fails [OF assms(1) finish_process_message_3_fails [OF c]] False show ?thesis by simp
  qed
next
  case ZeroizeResponder
  with assms lifecycle_ok_over [of "r_lifecycle (rsp_state self)" "r_completed (rsp_state self)" ss Zeroized]
  show ?thesis by (auto simp: responder_inv_def responder_end)
qed

interpretation responder: party "call_responder E" "\<lambda>self. r_lifecycle (rsp_state self)"
  "\<lambda>self. r_completed (rsp_state self)" for E
  by unfold_locales (use call_responder_inv in \<open>simp add: responder_inv_def\<close>)

lemma responder_fresh:
  "r_lifecycle (rsp_state (responder_with_secret E seed cid eph)) = Created"
  "\<not> r_completed (rsp_state (responder_with_secret E seed cid eph))"
  by (simp_all add: responder_with_secret_def responder_state_default_def split: prod.split)

subsection \<open>Authentication of message 3\<close>

definition signed_3 ::
    "edhoc_crypto \<Rightarrow> bytes \<Rightarrow> bytes \<Rightarrow> bytes \<Rightarrow> bytes \<Rightarrow> bytes \<Rightarrow> bytes \<Rightarrow> bool" where
  "signed_3 E prk idc th cred public_key sig \<longleftrightarrow>
     (\<exists>mac key. kdf_spec (ec_base E) prk LABEL_MAC_3 (context_3_bytes idc th cred) 32 = Some mac \<and>
        verifying_key E public_key = Some key \<and> edwards_point_ok E public_key \<and>
        length sig = sig_len E \<and> verify_message E key (signature_structure idc th cred mac) sig)"

lemma check_message_3_Ok:
  assumes "message_3_credential E p peer = Ok (key, sig)" "check_message_3 E st p peer key sig = Ok u"
  shows "(\<exists>n. parse_bstr (drop (pm3_signature_offset p) (pm3_plaintext p)) = Ok (sig, n)) \<and>
    signed_3 E (r_prk_4e3m st) (idc_encoded (pm3_id_cred p)) (r_th_3 st) (pc_credential peer)
      (pc_public_key peer) sig"
  using assms unfolding signed_3_def
  by (auto simp: message_3_credential_def check_message_3_def Let_def res_simps slice_simps
      validate_pubkey_def
      dest!: build_context_3_Ok build_signature_structure_Ok edhoc_kdf_spec split: if_splits)

text \<open>Message 3 is accepted only as an authenticated encryption under the keys of the third
  transcript hash.\<close>

definition opens_3 :: "crypto \<Rightarrow> bytes \<Rightarrow> bytes \<Rightarrow> bytes \<Rightarrow> bytes \<Rightarrow> bool" where
  "opens_3 C prk th_3 msg3 plaintext \<longleftrightarrow>
     (\<exists>ct key iv cipher a_3. parse_bstr msg3 = Ok (ct, length msg3) \<and> 8 \<le> length ct \<and>
        kdf_spec C prk LABEL_K_3 th_3 16 = Some key \<and> kdf_spec C prk LABEL_IV_3 th_3 13 = Some iv \<and>
        ccm_new C key = Some cipher \<and> build_a_3 th_3 = Ok a_3 \<and>
        ccm_decrypt C cipher iv a_3 (take (length ct - 8) ct) (drop (length ct - 8) ct) = Some plaintext)"

lemma open_message_3_Ok:
  "open_message_3 E st msg3 = Ok pt \<Longrightarrow> opens_3 (ec_base E) (r_prk_3e2m st) (r_th_3 st) msg3 pt"
  by (auto simp: open_message_3_def opens_3_def Let_def res_simps vec_simps slice_simps not_less
      dest!: edhoc_kdf_spec split: if_splits)

text \<open>The plaintext and the signature that a responder reads in a message 3.\<close>

definition message_3_reading :: "edhoc_crypto \<Rightarrow> edhoc_responder \<Rightarrow> bytes \<Rightarrow> (bytes \<times> bytes) option" where
  "message_3_reading E self msg3 =
     (case snd (begin_process_message_3 E self msg3) of
        Ok p \<Rightarrow> (case parse_bstr (drop (pm3_signature_offset p) (pm3_plaintext p)) of
           Ok (sig, _) \<Rightarrow> Some (pm3_plaintext p, sig) | _ \<Rightarrow> None)
      | _ \<Rightarrow> None)"

lemma process_message_3_Ok:
  assumes "process_message_3_with_credential E self msg3 peer = (self', Ok u)"
  shows "\<exists>pt idc off sig n. let C = ec_base E; st = rsp_state self in
    r_lifecycle st = AwaitingMessage3 \<and> opens_3 C (r_prk_3e2m st) (r_th_3 st) msg3 pt \<and>
    parse_id_cred pt = Ok (idc, off) \<and> parse_bstr (drop off pt) = Ok (sig, n) \<and>
    off + n = length pt \<and> pc_id_cred peer = idc_encoded idc \<and>
    signed_3 E (r_prk_3e2m st) (pc_id_cred peer) (r_th_3 st) (pc_credential peer) (pc_public_key peer) sig \<and>
    r_prk_4e3m (rsp_state self') = r_prk_3e2m st \<and>
    r_th_4 (rsp_state self') = sha256 C (bstr_bytes (r_th_3 st) @ bstr_bytes pt @ pc_credential peer) \<and>
    r_c_i (rsp_state self') = r_c_i st \<and> r_completed (rsp_state self') \<and>
    message_3_reading E self msg3 = Some (pt, sig)"
proof -
  obtain self1 p where b: "begin_process_message_3 E self msg3 = (self1, Ok p)"
    and f: "finish_process_message_3 E self1 p peer = (self', Ok u)"
    using assms by (auto simp: process_message_3_with_credential_def res_simps split: prod.splits)
  from begin_process_message_3_Ok [OF b] obtain st1 where
    b1: "r_lifecycle (rsp_state self) = AwaitingMessage3"
      "message_3_pending E msg3 (rsp_state self) = (st1, Ok p)" "self1 = self\<lparr>rsp_state := st1\<rparr>" by blast
  note pend = message_3_pending_Ok [OF b1(2)]
  note fin = finish_process_message_3_Ok [OF f]
  from fin(4) obtain st2 where st2: "message_3_accept E p peer (rsp_state self1) = (st2, Ok u)"
    "self' = self1\<lparr>rsp_state := st2\<rparr>" by blast
  from message_3_accept_Ok [OF st2(1)] obtain key sig th_4 where
    a: "message_3_credential E p peer = Ok (key, sig)"
      "check_message_3 E (st1\<lparr>r_prk_4e3m := r_prk_3e2m st1\<rparr>) p peer key sig = Ok ()"
      "transcript_4 (ec_base E) (r_th_3 st1) (pm3_plaintext p) (pc_credential peer) = Ok th_4"
      "st2 = st1\<lparr>r_prk_4e3m := r_prk_3e2m st1, r_th_4 := th_4, r_completed := True, r_lifecycle := Complete\<rparr>"
    using b1(3) by auto
  from check_message_3_Ok [OF a(1,2)] have "message_3_reading E self msg3 = Some (pm3_plaintext p, sig)"
    by (auto simp: message_3_reading_def b)
  with check_message_3_Ok [OF a(1,2)] a(3,4) b1 pend fin(3) st2(2) open_message_3_Ok [OF pend(1)]
  show ?thesis
    by (fastforce simp: Let_def transcript_4_eq dest!: transcript_Ok)
qed

subsection \<open>Absence of panics\<close>

lemma message_1_head_no_panic: "message_1_head msg1 \<noteq> Panic"
proof -
  have "n \<le> length (drop 1 msg1)" if "parse_suites_i (drop 1 msg1) = Ok (s, n)" for s n
    using parse_suites_i_Ok [OF that] by simp
  then show ?thesis
    by (auto simp: message_1_head_def Let_def res_simps vec_simps slice_simps parse_suites_i_total)
qed

lemma message_1_c_i_no_panic: "message_1_c_i rest \<noteq> Panic"
  by (auto simp: message_1_c_i_def res_simps slice_simps)

lemma sign_plaintext_2_no_panic:
  assumes "hash_contract (ec_base E)"
  shows "sign_plaintext_2 E self st \<noteq> Panic"
proof -
  have "8 \<le> length (sha256 (ec_base E) m)" for m using hash_lengths [OF assms] by simp
  then show ?thesis
    by (auto simp: sign_plaintext_2_def Let_def res_simps vec_simps builder_no_panic
        edhoc_kdf_no_panic encode_credential_no_panic encode_id_cred_no_panic)
qed

lemma message_2_reply_no_panic:
  assumes "hkdf_contract (ec_base E)" "hash_contract (ec_base E)"
  shows "snd (message_2_reply E self msg1 g_xy st) \<noteq> Panic"
proof -
  have "xor_keystream 128 ks 0 [] pt \<noteq> Panic"
    if "edhoc_kdf (ec_base E) prk label ctx (length pt) = Ok ks" for prk label ctx ks pt
    using edhoc_kdf_Ok(1) [OF assms(1) that] by (simp add: xor_keystream_eq)
  then show ?thesis
    using sign_plaintext_2_no_panic [OF assms(2)]
    by (auto simp: message_2_reply_def Let_def res_simps vec_simps builder_no_panic edhoc_kdf_no_panic
        split: prod.split)
qed

lemma process_message_1_no_panic:
  assumes "hkdf_contract (ec_base E)" "hash_contract (ec_base E)"
  shows "snd (process_message_1 E self msg1) \<noteq> Panic"
  using message_2_reply_no_panic [OF assms]
  by (auto simp: process_message_1_def Let_def res_simps connection_id_from_u8_eq
      responder_settle_Panic message_1_head_no_panic message_1_c_i_no_panic split: prod.split)

lemma open_message_3_no_panic:
  assumes "hkdf_contract (ec_base E)"
  shows "open_message_3 E st msg3 \<noteq> Panic"
  using edhoc_kdf_Ok(1) [OF assms]
  by (auto simp: open_message_3_def Let_def res_simps vec_simps slice_simps builder_no_panic
      edhoc_kdf_no_panic parse_bstr_total)

lemma message_3_pending_no_panic:
  assumes "hkdf_contract (ec_base E)"
  shows "snd (message_3_pending E msg3 st) \<noteq> Panic"
  using open_message_3_no_panic [OF assms]
  by (auto simp: message_3_pending_def Let_def res_simps vec_simps slice_simps parse_id_cred_no_panic
      parse_bstr_total not_le dest!: parse_id_cred_Ok(2) split: prod.split)

lemma message_3_accept_no_panic:
  assumes "pm3_signature_offset p \<le> length (pm3_plaintext p)"
  shows "snd (message_3_accept E p peer st) \<noteq> Panic"
  using assms
  by (auto simp: message_3_accept_def message_3_credential_def check_message_3_def Let_def res_simps
      slice_simps validate_peer_credential_no_panic parse_bstr_total builder_no_panic
      edhoc_kdf_no_panic validate_pubkey_def split: prod.split if_splits)

lemma process_message_3_no_panic:
  assumes "hkdf_contract (ec_base E)" "hash_contract (ec_base E)"
  shows "snd (process_message_3_with_credential E self msg3 peer) \<noteq> Panic"
    and "snd (process_message_3 E self msg3 pk) \<noteq> Panic"
proof -
  show *: "snd (process_message_3_with_credential E self msg3 peer) \<noteq> Panic" for peer
  proof (cases "begin_process_message_3 E self msg3")
    case (Pair self1 r)
    have "r \<noteq> Panic"
      using Pair message_3_pending_no_panic [OF assms(1), of msg3 "rsp_state self"]
        responder_settle_Panic [of E self "message_3_pending E msg3 (rsp_state self)"]
      by (auto simp: begin_process_message_3_def split: if_splits)
    moreover have "snd (finish_process_message_3 E self1 p peer) \<noteq> Panic" if r: "r = Ok p" for p
    proof -
      obtain st' where "message_3_pending E msg3 (rsp_state self) = (st', Ok p)"
        using begin_process_message_3_Ok(2) Pair r by blast
      from message_3_pending_Ok(3) [OF this] have "pm3_signature_offset p \<le> length (pm3_plaintext p)"
        by auto
      from message_3_accept_no_panic [OF this] show ?thesis
        by (simp add: finish_process_message_3_def responder_settle_Panic)
    qed
    ultimately show ?thesis
      using Pair by (cases r) (auto simp: process_message_3_with_credential_def)
  qed
  have "23 \<le> length (sha256 (ec_base E) m)" for m using hash_lengths [OF assms(2)] by simp
  then show "snd (process_message_3 E self msg3 pk) \<noteq> Panic"
    using * by (auto simp: process_message_3_def res_simps raw_key_credential_no_panic)
qed

end
