(* ===== verification/EdhocHandshake.thy ===== *)
theory EdhocHandshake
  imports EdhocInitiator EdhocResponder
begin

text \<open>
  Both parties of the handshake together: the exchange of the three messages between an initiator
  and a responder with raw-key credentials, what each of them computes in it, and the contexts they
  export. The primitives are assumed to keep their contracts; nothing is assumed about secrecy.
\<close>

subsection \<open>The exchange\<close>

definition primitives_ok :: "edhoc_crypto \<Rightarrow> bool" where
  "primitives_ok E \<longleftrightarrow>
     hkdf_contract (ec_base E) \<and> hash_contract (ec_base E) \<and> ccm_contract (ec_base E) \<and>
     signature_contract E \<and> exchange_contract E"

definition run_handshake ::
    "edhoc_crypto \<Rightarrow> edhoc_initiator \<Rightarrow> edhoc_responder \<Rightarrow>
     (edhoc_error, edhoc_initiator \<times> edhoc_responder) res" where
  "run_handshake E ini rsp =
     (let (ini, r1) = create_message_1 ini in
      and_then r1 (\<lambda>msg1. let (rsp, r2) = process_message_1 E rsp msg1 in
      and_then r2 (\<lambda>msg2. let (ini, r3) = process_message_2 E ini msg2 (rsp_pubkey rsp) in
      and_then r3 (\<lambda>msg3. let (rsp, r4) = process_message_3 E rsp msg3 (ini_pubkey ini) in
      and_then r4 (\<lambda>_. Ok (ini, rsp))))))"

subsection \<open>Message 1\<close>

definition message_1 :: "bytes \<Rightarrow> bytes \<Rightarrow> bytes" where
  "message_1 g_x c_i = 0 # 0 # bstr_bytes g_x @ identifier_bytes c_i"

lemma bstr_bytes_32: "length bs = 32 \<Longrightarrow> bstr_bytes bs = 0x58 # 32 # bs"
  by (simp add: bstr_bytes_def bstr_head_def)

lemma message_1_bytes_eq:
  assumes "length (ini_eph_public self) = 32" "length (ini_c_i self) \<le> 7"
  shows "message_1_bytes self = Ok (message_1 (ini_eph_public self) (ini_c_i self))"
  using length_identifier_bytes [OF assms(2)] assms
  by (simp add: message_1_bytes_def message_1_def push_err_Ok encode_bstr_eq encode_identifier_eq
      bstr_bytes_32 SUITE_0_def)

lemma message_1_head_eq:
  assumes "length g_x = 32" "1 \<le> length rest" "length rest \<le> 8"
  shows "message_1_head (0 # 0 # bstr_bytes g_x @ rest) = Ok (0 # 0 # bstr_bytes g_x @ rest, g_x, rest)"
proof -
  have "parse_suites_i (0 # 0x58 # 32 # g_x @ rest) = Ok (0, 1)"
    by (simp add: parse_suites_i_def index_def)
  moreover have "rest \<noteq> []" using assms(2) by auto
  ultimately show ?thesis
    using assms
    by (simp add: message_1_head_def bstr_bytes_32 extend_err_Ok slice_from_def slice_def index_def
        copy_from_slice_def SUITE_0_def Let_def)
qed

text \<open>\<open>C_I\<close> as the responder reads it: one byte that is not a negative one-byte integer.\<close>

lemma message_1_c_i_eq:
  assumes "length cid \<le> 7"
  shows "message_1_c_i (identifier_bytes cid) =
    (if length cid = 1 \<and> \<not> negative_id cid then Ok (cid ! 0) else Err EInvalidMessage)"
proof (cases "compact_id cid")
  case True
  then obtain b where b: "cid = [b]" by (cases cid) (auto simp: compact_id_def)
  show ?thesis
  proof (cases "b \<le> 0x17")
    case True
    then have "\<not> 0x20 \<le> b" by (simp add: word_le_nat_alt)
    with True b show ?thesis
      by (simp add: identifier_bytes_def compact_id_def negative_id_def message_1_c_i_def index_def)
  next
    case False
    with \<open>compact_id cid\<close> b have r: "0x20 \<le> b" "b \<le> 0x37" by (simp_all add: compact_id_def)
    then have "b \<noteq> 0x41" by (auto simp: word_le_nat_alt)
    with False b r show ?thesis
      by (simp add: identifier_bytes_def compact_id_def negative_id_def message_1_c_i_def index_def)
  qed
next
  case False
  let ?h = "as_u8 (64 + length cid)"
  have h: "\<not> ?h \<le> 23" "?h = 0x41 \<longleftrightarrow> length cid = 1"
    using assms by (simp_all add: word_le_nat_alt byte_eq_iff unat_as_u8 del: of_nat_add)
  have n: "\<not> negative_id cid" using False by (auto simp: compact_id_def negative_id_def)
  show ?thesis
    using False assms h n
    by (auto simp: identifier_bytes_def bstr_bytes_def bstr_head_def message_1_c_i_def index_def
        nth_append length_Suc_conv simp del: of_nat_add)
qed

subsection \<open>Message 2\<close>

text \<open>What the responder with public key \<open>pk\<close> signs, and the plaintext of message 2.\<close>

definition tbs_2 :: "edhoc_crypto \<Rightarrow> bytes \<Rightarrow> bytes \<Rightarrow> bytes \<Rightarrow> bytes \<Rightarrow> bytes" where
  "tbs_2 E prk c_r pk th =
     (let idc = raw_id_cred (sha256 (ec_base E) pk); cred = raw_credential pk in
      signature_structure idc th cred
        (derived (ec_base E) prk LABEL_MAC_2 (context_2_bytes c_r idc th cred) 32))"

definition plain_2 :: "edhoc_crypto \<Rightarrow> bytes \<Rightarrow> bytes \<Rightarrow> bytes \<Rightarrow> bytes \<Rightarrow> bytes \<Rightarrow> bytes" where
  "plain_2 E prk c_r sk pk th =
     identifier_bytes c_r @ raw_id_cred (sha256 (ec_base E) pk) @
     bstr_bytes (sign_message E sk pk (tbs_2 E prk c_r pk th))"

definition tbs_3 :: "edhoc_crypto \<Rightarrow> bytes \<Rightarrow> bytes \<Rightarrow> bytes \<Rightarrow> bytes" where
  "tbs_3 E prk pk th =
     (let idc = raw_id_cred (sha256 (ec_base E) pk); cred = raw_credential pk in
      signature_structure idc th cred
        (derived (ec_base E) prk LABEL_MAC_3 (context_3_bytes idc th cred) 32))"

definition plain_3 :: "edhoc_crypto \<Rightarrow> bytes \<Rightarrow> bytes \<Rightarrow> bytes \<Rightarrow> bytes \<Rightarrow> bytes" where
  "plain_3 E prk sk pk th =
     raw_id_cred (sha256 (ec_base E) pk) @ bstr_bytes (sign_message E sk pk (tbs_3 E prk pk th))"

lemma primitives:
  assumes "primitives_ok E"
  shows "hkdf_contract (ec_base E)" "hash_contract (ec_base E)" "ccm_contract (ec_base E)"
    "signature_contract E" "exchange_contract E" "length (sha256 (ec_base E) m) = 32"
    "length (hkdf_extract (ec_base E) salt ikm) = 32"
  using assms hash_lengths [of "ec_base E"] by (auto simp: primitives_ok_def)

text \<open>One party's key material: a seed, and the pair derived from it.\<close>

definition party_key :: "edhoc_crypto \<Rightarrow> bytes \<Rightarrow> bytes \<Rightarrow> bool" where
  "party_key E sk pk \<longleftrightarrow> (\<exists>seed. length seed = 32 \<and> key_from_seed E seed = (sk, pk))"

lemma party_key_facts:
  assumes "primitives_ok E" "party_key E sk pk"
  shows "length pk = 32" "edwards_point_ok E pk" "verifying_key E pk = Some pk"
    "length (sign_message E sk pk m) = sig_len E" "verify_message E pk m (sign_message E sk pk m)"
  using assms key_facts [of E] unfolding party_key_def primitives_ok_def by blast+

text \<open>The sizes in a handshake with raw keys: everything fits.\<close>

lemma handshake_sizes:
  assumes "primitives_ok E" "length pk = 32" "length th = 32"
  defines "idc \<equiv> raw_id_cred (sha256 (ec_base E) pk)"
  shows "length idc = 11"
    "length c_r \<le> 7 \<Longrightarrow> length (context_2_bytes c_r idc th (raw_credential pk)) \<le> 93"
    "length (context_3_bytes idc th (raw_credential pk)) = 85"
    "length mac = 32 \<Longrightarrow> length (signature_structure idc th (raw_credential pk) mac) = 134"
proof -
  show i: "length idc = 11" unfolding idc_def using primitives(6) [OF assms(1)] by simp
  show "length (context_2_bytes c_r idc th (raw_credential pk)) \<le> 93" if "length c_r \<le> 7"
    using length_identifier_bytes [OF that] assms(2,3) i by (simp add: context_2_bytes_def length_bstr_bytes)
  show "length (context_3_bytes idc th (raw_credential pk)) = 85"
    using assms(2,3) i by (simp add: context_3_bytes_def length_bstr_bytes)
  show "length (signature_structure idc th (raw_credential pk) mac) = 134" if "length mac = 32"
    using assms(2,3) i that by (simp add: signature_structure_def length_bstr_bytes)
qed

lemma labels_small:
  "LABEL_KEYSTREAM_2 \<le> 23" "LABEL_MAC_2 \<le> 23" "LABEL_MAC_3 \<le> 23" "LABEL_K_3 \<le> 23" "LABEL_IV_3 \<le> 23"
  by (simp_all add: kdf_labels)

lemma mac_2_eq:
  assumes "primitives_ok E" "length pk = 32" "length th = 32" "length prk = 32" "length c_r \<le> 7"
  defines "idc \<equiv> raw_id_cred (sha256 (ec_base E) pk)" and "cred \<equiv> raw_credential pk"
  shows "build_context_2 c_r idc th cred = Ok (context_2_bytes c_r idc th cred)"
    and "edhoc_kdf (ec_base E) prk LABEL_MAC_2 (context_2_bytes c_r idc th cred) 32 =
      Ok (derived (ec_base E) prk LABEL_MAC_2 (context_2_bytes c_r idc th cred) 32)"
    and "build_signature_structure idc th cred
        (derived (ec_base E) prk LABEL_MAC_2 (context_2_bytes c_r idc th cred) 32) = Ok (tbs_2 E prk c_r pk th)"
proof -
  note sz = handshake_sizes [OF assms(1-3), folded idc_def cred_def]
  note k = edhoc_kdf_total [OF primitives(1,2) [OF assms(1)] assms(4) labels_small(2)]
  show "build_context_2 c_r idc th cred = Ok (context_2_bytes c_r idc th cred)"
    using sz(2) [OF assms(5)] assms(3,5) by (simp add: build_context_2_eq)
  show "edhoc_kdf (ec_base E) prk LABEL_MAC_2 (context_2_bytes c_r idc th cred) 32 =
      Ok (derived (ec_base E) prk LABEL_MAC_2 (context_2_bytes c_r idc th cred) 32)"
    by (rule k(1)) (use sz(2) [OF assms(5)] in simp_all)
  have "length (derived (ec_base E) prk LABEL_MAC_2 (context_2_bytes c_r idc th cred) 32) = 32"
    by (rule k(2)) (use sz(2) [OF assms(5)] in simp_all)
  from sz(4) [OF this] show "build_signature_structure idc th cred
        (derived (ec_base E) prk LABEL_MAC_2 (context_2_bytes c_r idc th cred) 32) = Ok (tbs_2 E prk c_r pk th)"
    using assms(2,3)
    by (simp add: build_signature_structure_eq tbs_2_def Let_def bstr_size_def flip: idc_def cred_def)
      (simp add: cred_def)
qed

lemma mac_3_eq:
  assumes "primitives_ok E" "length pk = 32" "length th = 32" "length prk = 32"
  defines "idc \<equiv> raw_id_cred (sha256 (ec_base E) pk)" and "cred \<equiv> raw_credential pk"
  shows "build_context_3 idc th cred = Ok (context_3_bytes idc th cred)"
    and "edhoc_kdf (ec_base E) prk LABEL_MAC_3 (context_3_bytes idc th cred) 32 =
      Ok (derived (ec_base E) prk LABEL_MAC_3 (context_3_bytes idc th cred) 32)"
    and "build_signature_structure idc th cred
        (derived (ec_base E) prk LABEL_MAC_3 (context_3_bytes idc th cred) 32) = Ok (tbs_3 E prk pk th)"
proof -
  note sz = handshake_sizes [OF assms(1-3), folded idc_def cred_def]
  note k = edhoc_kdf_total [OF primitives(1,2) [OF assms(1)] assms(4) labels_small(3)]
  show "build_context_3 idc th cred = Ok (context_3_bytes idc th cred)"
    using sz(3) assms(3) by (simp add: build_context_3_eq)
  show "edhoc_kdf (ec_base E) prk LABEL_MAC_3 (context_3_bytes idc th cred) 32 =
      Ok (derived (ec_base E) prk LABEL_MAC_3 (context_3_bytes idc th cred) 32)"
    by (rule k(1)) (use sz(3) in simp_all)
  have "length (derived (ec_base E) prk LABEL_MAC_3 (context_3_bytes idc th cred) 32) = 32"
    by (rule k(2)) (use sz(3) in simp_all)
  from sz(4) [OF this] show "build_signature_structure idc th cred
        (derived (ec_base E) prk LABEL_MAC_3 (context_3_bytes idc th cred) 32) = Ok (tbs_3 E prk pk th)"
    using assms(2,3)
    by (simp add: build_signature_structure_eq tbs_3_def Let_def bstr_size_def flip: idc_def cred_def)
      (simp add: cred_def)
qed

lemma length_plain_2:
  assumes "primitives_ok E" "party_key E sk pk" "length c_r \<le> 7"
  shows "sig_len E + 14 \<le> length (plain_2 E prk c_r sk pk th)" "length (plain_2 E prk c_r sk pk th) \<le> 85"
  using length_identifier_bytes [OF assms(3)] party_key_facts(4) [OF assms(1,2)] sig_len_bounds [of E]
    primitives(6) [OF assms(1)]
  by (auto simp: plain_2_def length_bstr_bytes Suc_le_eq)

lemma length_plain_3:
  assumes "primitives_ok E" "party_key E sk pk"
  shows "length (plain_3 E prk sk pk th) \<le> 77"
  using party_key_facts(4) [OF assms] sig_len_bounds [of E] primitives(6) [OF assms(1)]
  by (simp add: plain_3_def length_bstr_bytes)

lemma sign_plaintext_2_eq:
  assumes "primitives_ok E" "party_key E (rsp_privkey self) (rsp_pubkey self)" "length (rsp_c_r self) \<le> 7"
    "length (r_th_2 st) = 32" "length (r_prk_3e2m st) = 32"
  shows "sign_plaintext_2 E self st =
    Ok (plain_2 E (r_prk_3e2m st) (rsp_c_r self) (rsp_privkey self) (rsp_pubkey self) (r_th_2 st),
        raw_credential (rsp_pubkey self))"
proof -
  note pk = party_key_facts [OF assms(1,2)]
  note m = mac_2_eq [OF assms(1) pk(1) assms(4,5,3)]
  note l = length_plain_2(2) [OF assms(1-3), of "r_prk_3e2m st" "r_th_2 st", unfolded plain_2_def]
  show ?thesis
    using l pk(1) primitives(6) [OF assms(1)] assms(3) pk(4) sig_len_bounds [of E]
    by (simp add: sign_plaintext_2_def plain_2_def encode_id_cred_eq encode_credential_eq m
        encode_identifier_eq extend_err_Ok encode_bstr_eq)
qed

text \<open>The initiator parses the plaintext of message 2 back into its parts.\<close>

definition raw_id_cred_parsed :: "edhoc_crypto \<Rightarrow> bytes \<Rightarrow> id_cred" where
  "raw_id_cred_parsed E pk =
     \<lparr>idc_encoded = raw_id_cred (sha256 (ec_base E) pk),
      idc_reference = Kid (take 8 (sha256 (ec_base E) pk))\<rparr>"

text \<open>The identifier that is read where \<open>encode_identifier\<close> wrote one.\<close>

definition identifier_read :: "bytes \<Rightarrow> bytes" where
  "identifier_read cid = (if negative_id cid then [0x1F - cid ! 0] else cid)"

lemma identifier_read_same [simp]: "\<not> negative_id cid \<Longrightarrow> identifier_read cid = cid"
  by (simp add: identifier_read_def)

lemma identifier_read_eq:
  assumes "length cid \<le> 7"
  shows "parse_identifier (identifier_bytes cid @ rest) = Ok (identifier_read cid, length (identifier_bytes cid))"
  using parse_identifier_bytes [OF assms] parse_identifier_negative [of cid rest]
  by (auto simp: identifier_read_def)

lemma identifier_read_iff: "identifier_read cid = cid \<longleftrightarrow> \<not> negative_id cid"
proof (cases "negative_id cid")
  case True
  then obtain b where "cid = [b]" "0x1F - b \<noteq> b" using parse_identifier_negative [of cid] by metis
  with True show ?thesis by (metis identifier_read_def list.inject nth_Cons_0)
qed simp

lemma plaintext_2_parts_read:
  assumes "primitives_ok E" "party_key E sk pk" "length c_r \<le> 7"
  shows "plaintext_2_parts E c_i (plain_2 E prk c_r sk pk th) =
    (if identifier_read c_r = c_i then Err EInvalidMessage
     else Ok (identifier_read c_r, raw_id_cred_parsed E pk, length (identifier_bytes c_r) + 11))"
proof -
  let ?kid = "sha256 (ec_base E) pk" and ?sig = "sign_message E sk pk (tbs_2 E prk c_r pk th)"
  have kid: "8 \<le> length ?kid" "length (raw_id_cred ?kid) = 11" using primitives(6) [OF assms(1)] by simp_all
  have sig: "length ?sig = sig_len E" by (rule party_key_facts(4) [OF assms(1,2)])
  then have b: "parse_bstr (bstr_bytes ?sig) = Ok (?sig, length (bstr_bytes ?sig))"
    using parse_bstr_bytes [of ?sig "[]"] sig_len_bounds [of E] by simp
  show ?thesis
    using identifier_read_eq [OF assms(3)] parse_id_cred_raw [OF kid(1)] b sig kid
    by (simp add: plaintext_2_parts_def plain_2_def slice_from_def raw_id_cred_parsed_def)
qed

subsection \<open>The responder answers message 1\<close>

text \<open>The values of one exchange, as functions of what the messages carry.\<close>

definition th_2_of :: "edhoc_crypto \<Rightarrow> bytes \<Rightarrow> bytes \<Rightarrow> bytes" where
  "th_2_of E g_y msg1 = sha256 (ec_base E) (bstr_bytes g_y @ bstr_bytes (sha256 (ec_base E) msg1))"

definition next_th :: "edhoc_crypto \<Rightarrow> bytes \<Rightarrow> bytes \<Rightarrow> bytes \<Rightarrow> bytes" where
  "next_th E th pt pk = sha256 (ec_base E) (bstr_bytes th @ bstr_bytes pt @ raw_credential pk)"

definition stream_2 :: "edhoc_crypto \<Rightarrow> bytes \<Rightarrow> bytes \<Rightarrow> bytes \<Rightarrow> bytes" where
  "stream_2 E prk th pt = xor_bytes pt (derived (ec_base E) prk LABEL_KEYSTREAM_2 th (length pt))"

definition message_2 :: "edhoc_crypto \<Rightarrow> bytes \<Rightarrow> bytes \<Rightarrow> bytes \<Rightarrow> bytes \<Rightarrow> bytes" where
  "message_2 E g_y prk th pt = bstr_bytes (g_y @ stream_2 E prk th pt)"

lemma th_lengths:
  assumes "primitives_ok E"
  shows "length (th_2_of E g_y msg1) = 32" "length (next_th E th pt pk) = 32"
    "length (edhoc_extract (ec_base E) salt ikm) = 32"
  using primitives(6,7) [OF assms] by (simp_all add: th_2_of_def next_th_def edhoc_extract_def)

lemma keystream_2_eq:
  assumes "primitives_ok E" "length prk = 32" "length th = 32" "n \<le> 128"
  shows "edhoc_kdf (ec_base E) prk LABEL_KEYSTREAM_2 th n = Ok (derived (ec_base E) prk LABEL_KEYSTREAM_2 th n)"
    and "length (derived (ec_base E) prk LABEL_KEYSTREAM_2 th n) = n"
  by (rule edhoc_kdf_total [OF primitives(1,2) [OF assms(1)] assms(2) labels_small(1)]; use assms in simp)+

lemma length_stream_2:
  assumes "primitives_ok E" "length prk = 32" "length th = 32" "length pt \<le> 128"
  shows "length (stream_2 E prk th pt) = length pt"
  by (simp add: stream_2_def keystream_2_eq [OF assms])

lemma next_th_eq:
  assumes "length th = 32" "length pt \<le> 128" "length pk = 32"
  shows "transcript_3 (ec_base E) th pt (raw_credential pk) = Ok (next_th E th pt pk)"
  using assms by (simp add: transcript_eq next_th_def bstr_size_def)

lemma message_2_reply_eq:
  fixes E self msg1 g_xy
  defines "th_2 \<equiv> th_2_of E (rsp_eph_public self) msg1"
  defines "prk \<equiv> edhoc_extract (ec_base E) th_2 g_xy"
  defines "pt \<equiv> plain_2 E prk (rsp_c_r self) (rsp_privkey self) (rsp_pubkey self) th_2"
  assumes P: "primitives_ok E" and key: "party_key E (rsp_privkey self) (rsp_pubkey self)"
    and "length (rsp_c_r self) \<le> 7" "length (rsp_eph_public self) = 32" "g_xy \<noteq> replicate 32 0"
  shows "message_2_reply E self msg1 g_xy st =
    (st\<lparr>r_th_2 := th_2, r_prk_2e := prk, r_prk_3e2m := prk,
        r_th_3 := next_th E th_2 pt (rsp_pubkey self), r_lifecycle := AwaitingMessage3\<rparr>,
     Ok (message_2 E (rsp_eph_public self) prk th_2 pt))"
proof -
  have th: "transcript_2 (ec_base E) (rsp_eph_public self) msg1 = Ok th_2" "length th_2 = 32"
    using assms(7) primitives(6) [OF P] by (simp_all add: transcript_2_eq th_2_def th_2_of_def)
  have prk: "length prk = 32" unfolding prk_def by (rule th_lengths(3) [OF P])
  have pt: "length pt \<le> 85" unfolding pt_def by (rule length_plain_2(2) [OF P key assms(6)])
  then have pt': "length pt \<le> 128" by simp
  note ks = keystream_2_eq [OF P prk th(2) pt']
  note st2 = length_stream_2 [OF P prk th(2) pt', unfolded stream_2_def]
  have s: "sign_plaintext_2 E self s = Ok (pt, raw_credential (rsp_pubkey self))"
    if "r_th_2 s = th_2" "r_prk_3e2m s = prk" for s
    using sign_plaintext_2_eq [OF P key assms(6), of s] that th(2) prk by (simp add: pt_def)
  have x: "xor_keystream 128 (derived (ec_base E) prk LABEL_KEYSTREAM_2 th_2 (length pt)) 0 [] pt =
      Ok (stream_2 E prk th_2 pt)"
    using pt' ks(2) by (simp add: xor_keystream_eq stream_2_def)
  show ?thesis
    using assms(7,8) pt st2
    by (simp add: message_2_reply_def th s ks x next_th_eq [OF th(2) pt' party_key_facts(1) [OF P key]]
        extend_err_Ok encode_bstr_eq length_bstr_bytes message_2_def stream_2_def
        flip: prk_def)
qed

text \<open>The state of the responder that has sent message 2.\<close>

definition replied ::
    "edhoc_crypto \<Rightarrow> edhoc_responder \<Rightarrow> bytes \<Rightarrow> bytes \<Rightarrow> bytes \<Rightarrow> bytes \<Rightarrow> bytes \<Rightarrow> bytes \<Rightarrow> edhoc_responder" where
  "replied E self msg1 g_x c_i th_2 prk pt =
     self\<lparr>rsp_eph_secret := None,
       rsp_state := (rsp_state self)\<lparr>r_msg1 := msg1, r_g_x := g_x, r_c_i := c_i, r_th_2 := th_2,
         r_prk_2e := prk, r_prk_3e2m := prk, r_th_3 := next_th E th_2 pt (rsp_pubkey self),
         r_lifecycle := AwaitingMessage3\<rparr>\<rparr>"

lemma process_message_1_eq:
  fixes E self g_x c_i y
  defines "msg1 \<equiv> message_1 g_x c_i"
  defines "th_2 \<equiv> th_2_of E (rsp_eph_public self) msg1"
  defines "prk \<equiv> edhoc_extract (ec_base E) th_2 (x25519 E y g_x)"
  defines "pt \<equiv> plain_2 E prk (rsp_c_r self) (rsp_privkey self) (rsp_pubkey self) th_2"
  assumes P: "primitives_ok E" and key: "party_key E (rsp_privkey self) (rsp_pubkey self)"
    and c_r: "length (rsp_c_r self) \<le> 7" "rsp_c_r self \<noteq> c_i"
    and c_i: "length c_i = 1" "\<not> negative_id c_i"
    and self: "r_lifecycle (rsp_state self) = Created" "rsp_eph_secret self = Some y"
      "length (rsp_eph_public self) = 32"
    and g: "length g_x = 32" "x25519 E y g_x \<noteq> replicate 32 0"
  shows "process_message_1 E self msg1 =
    (replied E self msg1 g_x c_i th_2 prk pt, Ok (message_2 E (rsp_eph_public self) prk th_2 pt))"
proof -
  obtain c where c: "c_i = [c]" using c_i(1) by (cases c_i) auto
  have i: "length c_i \<le> 7" using c_i(1) by simp
  have "message_1_head msg1 = Ok (msg1, g_x, identifier_bytes c_i)"
    using length_identifier_bytes [OF i] g(1)
    by (simp add: msg1_def message_1_def message_1_head_eq Suc_le_eq)
  moreover have "message_1_c_i (identifier_bytes c_i) = Ok c"
    using message_1_c_i_eq [OF i] c_i c by simp
  ultimately show ?thesis
    using c_r(2) self c
    by (simp add: process_message_1_def connection_id_from_u8_eq
        message_2_reply_eq [OF P, of "self\<lparr>rsp_eph_secret := None, rsp_state := s\<rparr>" for s, simplified, OF key c_r(1) self(3) g(2)]
        responder_settle_eq replied_def flip: th_2_def)
      (simp add: prk_def pt_def)
qed

subsection \<open>The initiator answers message 2\<close>

text \<open>The pending message that the initiator makes of a plaintext, and its state behind it.\<close>

definition pending_2 :: "edhoc_crypto \<Rightarrow> bytes \<Rightarrow> bytes \<Rightarrow> bytes \<Rightarrow> bytes \<Rightarrow> pending_message_2" where
  "pending_2 E c_r pk th_2 pt =
     \<lparr>pm2_id_cred = raw_id_cred_parsed E pk, pm2_plaintext = pt, pm2_c_r = c_r,
      pm2_signature_offset = length (identifier_bytes c_r) + 11, pm2_transcript_binding = th_2\<rparr>"

definition opened_2 :: "edhoc_initiator \<Rightarrow> bytes \<Rightarrow> bytes \<Rightarrow> bytes \<Rightarrow> edhoc_initiator" where
  "opened_2 self g_y th_2 prk =
     self\<lparr>ini_eph_secret := None,
       ini_state := (ini_state self)\<lparr>i_g_y := g_y, i_th_2 := th_2, i_prk_2e := prk, i_prk_3e2m := prk,
         i_lifecycle := PendingMessage2\<rparr>\<rparr>"

lemma message_2_parts_eq:
  assumes "length g_y = 32" "1 + sig_len E \<le> length ct" "length ct \<le> 128"
  shows "message_2_parts E (bstr_bytes (g_y @ ct)) = Ok (g_y, ct)"
    and "get_at (bstr_bytes (g_y @ ct)) 0 \<noteq> Some 2"
proof -
  have "parse_bstr (bstr_bytes (g_y @ ct)) = Ok (g_y @ ct, length (bstr_bytes (g_y @ ct)))"
    using parse_bstr_bytes [of "g_y @ ct" "[]"] assms by simp
  then show "message_2_parts E (bstr_bytes (g_y @ ct)) = Ok (g_y, ct)"
    using assms by (simp add: message_2_parts_def slice_def slice_from_def copy_from_slice_def)
  have "bstr_bytes (g_y @ ct) ! 0 = 0x58"
    using assms sig_len_bounds(1) [of E] by (simp add: bstr_bytes_def bstr_head_def)
  then show "get_at (bstr_bytes (g_y @ ct)) 0 \<noteq> Some 2" by (simp add: get_at_def)
qed

lemma begin_process_message_2_read:
  fixes E self x g_y sk pk c_r
  defines "th_2 \<equiv> th_2_of E g_y (i_msg1 (ini_state self))"
  defines "prk \<equiv> edhoc_extract (ec_base E) th_2 (x25519 E x g_y)"
  defines "pt \<equiv> plain_2 E prk c_r sk pk th_2"
  assumes P: "primitives_ok E" and key: "party_key E sk pk"
    and c_r: "length c_r \<le> 7"
    and self: "i_lifecycle (ini_state self) = Message1Created" "ini_eph_secret self = Some x"
    and g: "length g_y = 32" "x25519 E x g_y \<noteq> replicate 32 0"
  shows "if identifier_read c_r = ini_c_i self
    then \<exists>self'. begin_process_message_2 E self (message_2 E g_y prk th_2 pt) =
      (initiator_poison E self', Err EInvalidMessage)
    else begin_process_message_2 E self (message_2 E g_y prk th_2 pt) =
      (opened_2 self g_y th_2 prk, Ok ((pending_2 E c_r pk th_2 pt)\<lparr>pm2_c_r := identifier_read c_r\<rparr>))"
proof -
  have th: "transcript_2 (ec_base E) g_y (i_msg1 (ini_state self)) = Ok th_2" "length th_2 = 32"
    using g(1) primitives(6) [OF P] by (simp_all add: transcript_2_eq th_2_def th_2_of_def)
  have prk: "length prk = 32" unfolding prk_def by (rule th_lengths(3) [OF P])
  have pt: "sig_len E + 14 \<le> length pt" "length pt \<le> 85"
    unfolding pt_def by (rule length_plain_2 [OF P key c_r])+
  then have pt': "length pt \<le> 128" by simp
  let ?ks = "derived (ec_base E) prk LABEL_KEYSTREAM_2 th_2 (length pt)" and ?ct = "stream_2 E prk th_2 pt"
  note ks = keystream_2_eq [OF P prk th(2) pt']
  note ct = length_stream_2 [OF P prk th(2) pt']
  have "1 + sig_len E \<le> length ?ct" "length ?ct \<le> 128" using pt ct by simp_all
  note parts = message_2_parts_eq [OF g(1) this]
  have x: "xor_keystream 128 ?ks 0 [] ?ct = Ok pt"
    using pt' ks(2) ct by (simp add: xor_keystream_eq stream_2_def xor_bytes_cancel)
  have "plaintext_2_parts E (ini_c_i self) pt =
      (if identifier_read c_r = ini_c_i self then Err EInvalidMessage
       else Ok (identifier_read c_r, raw_id_cred_parsed E pk, length (identifier_bytes c_r) + 11))"
    unfolding pt_def by (rule plaintext_2_parts_read [OF P key c_r])
  then show ?thesis
    using self pt' parts g(2)
    by (simp add: begin_process_message_2_def message_2_body_def message_2_def th ks ct x extend_err_Ok
        initiator_settle_eq opened_2_def pending_2_def flip: prk_def)
      blast
qed

lemma begin_process_message_2_eq:
  fixes E self x g_y sk pk c_r
  defines "th_2 \<equiv> th_2_of E g_y (i_msg1 (ini_state self))"
  defines "prk \<equiv> edhoc_extract (ec_base E) th_2 (x25519 E x g_y)"
  defines "pt \<equiv> plain_2 E prk c_r sk pk th_2"
  assumes P: "primitives_ok E" and key: "party_key E sk pk"
    and c_r: "length c_r \<le> 7" "\<not> negative_id c_r" "c_r \<noteq> ini_c_i self"
    and self: "i_lifecycle (ini_state self) = Message1Created" "ini_eph_secret self = Some x"
    and g: "length g_y = 32" "x25519 E x g_y \<noteq> replicate 32 0"
  shows "begin_process_message_2 E self (message_2 E g_y prk th_2 pt) =
    (opened_2 self g_y th_2 prk, Ok (pending_2 E c_r pk th_2 pt))"
proof -
  have "(pending_2 E c_r pk th_2 pt)\<lparr>pm2_c_r := c_r\<rparr> = pending_2 E c_r pk th_2 pt"
    by (simp add: pending_2_def)
  with begin_process_message_2_read [OF P key c_r(1) self g] c_r(2,3) show ?thesis
    by (simp add: th_2_def prk_def pt_def)
qed

text \<open>The credential and the signature of message 2 are accepted.\<close>

definition raw_peer :: "edhoc_crypto \<Rightarrow> bytes \<Rightarrow> peer_credential" where
  "raw_peer E pk =
     \<lparr>pc_public_key = pk, pc_id_cred = raw_id_cred (sha256 (ec_base E) pk), pc_credential = raw_credential pk\<rparr>"

lemma check_message_2_eq:
  assumes P: "primitives_ok E" and key: "party_key E sk pk" and c_r: "length c_r \<le> 7"
    and st: "i_th_2 st = th_2" "i_prk_3e2m st = prk" "length th_2 = 32" "length prk = 32"
  shows "check_message_2 E st (pending_2 E c_r pk th_2 (plain_2 E prk c_r sk pk th_2)) (raw_peer E pk) = Ok ()"
proof -
  let ?kid = "sha256 (ec_base E) pk" and ?sig = "sign_message E sk pk (tbs_2 E prk c_r pk th_2)"
  note pk = party_key_facts [OF P key]
  note m = mac_2_eq [OF P pk(1) st(3,4) c_r]
  have sig: "length ?sig = sig_len E" by (rule pk(4))
  then have b: "parse_bstr (bstr_bytes ?sig) = Ok (?sig, length (bstr_bytes ?sig))"
    using parse_bstr_bytes [of ?sig "[]"] sig_len_bounds [of E] by simp
  have "slice_from (plain_2 E prk c_r sk pk th_2) (length (identifier_bytes c_r) + 11) =
      (Ok (bstr_bytes ?sig) :: (edhoc_error, bytes) res)"
    using primitives(6) [OF P] by (simp add: plain_2_def slice_from_def)
  then show ?thesis
    using pk sig
    by (simp add: check_message_2_def pending_2_def raw_id_cred_parsed_def raw_peer_def st m b
        validate_raw_credential validate_pubkey_def guard_def)
qed

subsection \<open>Message 3\<close>

definition key_3 :: "edhoc_crypto \<Rightarrow> bytes \<Rightarrow> bytes \<Rightarrow> bytes" where
  "key_3 E prk th = derived (ec_base E) prk LABEL_K_3 th 16"

definition nonce_3 :: "edhoc_crypto \<Rightarrow> bytes \<Rightarrow> bytes \<Rightarrow> bytes" where
  "nonce_3 E prk th = derived (ec_base E) prk LABEL_IV_3 th 13"

definition sealed_3 :: "edhoc_crypto \<Rightarrow> bytes \<Rightarrow> bytes \<Rightarrow> bytes \<Rightarrow> bytes" where
  "sealed_3 E prk th pt =
     (case ccm_encrypt (ec_base E) (the (ccm_new (ec_base E) (key_3 E prk th))) (nonce_3 E prk th) (a_3_bytes th) pt of
        Some (ct, tag) \<Rightarrow> ct @ tag | None \<Rightarrow> [])"

lemma key_3_eq:
  assumes "primitives_ok E" "length prk = 32" "length th = 32"
  shows "edhoc_kdf (ec_base E) prk LABEL_K_3 th 16 = Ok (key_3 E prk th)" "length (key_3 E prk th) = 16"
    and "edhoc_kdf (ec_base E) prk LABEL_IV_3 th 13 = Ok (nonce_3 E prk th)" "length (nonce_3 E prk th) = 13"
  unfolding key_3_def nonce_3_def
  by (rule edhoc_kdf_total [OF primitives(1,2) [OF assms(1)] assms(2)]; use assms in \<open>simp add: kdf_labels\<close>)+

lemma sealed_3_cases:
  assumes "primitives_ok E" "length prk = 32" "length th = 32" "length pt \<le> 128"
  obtains cipher ct tag where "ccm_new (ec_base E) (key_3 E prk th) = Some cipher"
    "ccm_encrypt (ec_base E) cipher (nonce_3 E prk th) (a_3_bytes th) pt = Some (ct, tag)"
    "sealed_3 E prk th pt = ct @ tag" "length ct = length pt" "length tag = 8"
    "ccm_decrypt (ec_base E) cipher (nonce_3 E prk th) (a_3_bytes th) ct tag = Some pt"
proof -
  note k = key_3_eq [OF assms(1-3)]
  note ccm = primitives(3) [OF assms(1), unfolded ccm_contract_def]
  obtain cipher where c: "ccm_new (ec_base E) (key_3 E prk th) = Some cipher" using ccm k(2) by blast
  moreover have "length pt < 2 ^ 16" using assms(4) by simp
  ultimately obtain ct tag where
    "ccm_encrypt (ec_base E) cipher (nonce_3 E prk th) (a_3_bytes th) pt = Some (ct, tag)"
    "length ct = length pt" "length tag = 8"
    "ccm_decrypt (ec_base E) cipher (nonce_3 E prk th) (a_3_bytes th) ct tag = Some pt"
    using ccm k(4) by metis
  with c that show ?thesis by (simp add: sealed_3_def)
qed

lemma seal_message_3_eq:
  assumes P: "primitives_ok E" and key: "party_key E (ini_privkey self) (ini_pubkey self)"
    and st: "i_th_3 st = th" "i_prk_3e2m st = prk" "i_prk_4e3m st = prk" "length th = 32" "length prk = 32"
  defines "pt \<equiv> plain_3 E prk (ini_privkey self) (ini_pubkey self) th"
  shows "seal_message_3 E self st = Ok (sealed_3 E prk th pt, pt, raw_credential (ini_pubkey self))"
    and "length (sealed_3 E prk th pt) \<le> 85"
proof -
  note pk = party_key_facts [OF P key]
  note m = mac_3_eq [OF P pk(1) st(4,5)]
  have pt: "length pt \<le> 77" unfolding pt_def by (rule length_plain_3 [OF P key])
  then have pt': "length pt \<le> 128" by simp
  obtain cipher ct tag where s: "ccm_new (ec_base E) (key_3 E prk th) = Some cipher"
    "ccm_encrypt (ec_base E) cipher (nonce_3 E prk th) (a_3_bytes th) pt = Some (ct, tag)"
    "sealed_3 E prk th pt = ct @ tag" "length ct = length pt" "length tag = 8"
    by (rule sealed_3_cases [OF P st(5,4) pt'])
  then show "length (sealed_3 E prk th pt) \<le> 85" using pt by simp
  show "seal_message_3 E self st = Ok (sealed_3 E prk th pt, pt, raw_credential (ini_pubkey self))"
    using s pt pk(1) primitives(6) [OF P] pk(4) sig_len_bounds [of E]
    by (simp add: seal_message_3_def st m key_3_eq [OF P st(5,4)] build_a_3_eq encode_credential_eq
        encode_id_cred_eq extend_err_Ok encode_bstr_eq copy_from_slice_def length_bstr_bytes pt_def plain_3_def)
qed

definition accepted_2 :: "edhoc_initiator \<Rightarrow> bytes \<Rightarrow> bytes \<Rightarrow> bytes \<Rightarrow> bytes \<Rightarrow> edhoc_initiator" where
  "accepted_2 self c_r prk th_3 th_4 =
     self\<lparr>ini_state := (ini_state self)\<lparr>i_c_r := c_r, i_th_3 := th_3, i_prk_4e3m := prk, i_th_4 := th_4,
       i_completed := True, i_lifecycle := Complete\<rparr>\<rparr>"

lemma raw_key_credential_peer:
  assumes "primitives_ok E" "length pk = 32"
  shows "raw_key_credential (sha256 (ec_base E)) pk = Ok (raw_id_cred (sha256 (ec_base E) pk), raw_credential pk)"
    and "peer_credential_new pk (raw_id_cred (sha256 (ec_base E) pk)) (raw_credential pk) = raw_peer E pk"
  using raw_key_credential_eq primitives(6) [OF assms(1)] assms(2)
  by (simp_all add: peer_credential_new_def raw_peer_def)

lemma process_message_2_eq:
  fixes E self x g_y sk pk c_r
  defines "th_2 \<equiv> th_2_of E g_y (i_msg1 (ini_state self))"
  defines "prk \<equiv> edhoc_extract (ec_base E) th_2 (x25519 E x g_y)"
  defines "pt2 \<equiv> plain_2 E prk c_r sk pk th_2"
  defines "th_3 \<equiv> next_th E th_2 pt2 pk"
  defines "pt3 \<equiv> plain_3 E prk (ini_privkey self) (ini_pubkey self) th_3"
  assumes P: "primitives_ok E" and key: "party_key E sk pk"
    and own: "party_key E (ini_privkey self) (ini_pubkey self)"
    and c_r: "length c_r \<le> 7" "\<not> negative_id c_r" "c_r \<noteq> ini_c_i self"
    and self: "i_lifecycle (ini_state self) = Message1Created" "ini_eph_secret self = Some x"
    and g: "length g_y = 32" "x25519 E x g_y \<noteq> replicate 32 0"
  shows "process_message_2 E self (message_2 E g_y prk th_2 pt2) pk =
    (accepted_2 (opened_2 self g_y th_2 prk) c_r prk th_3 (next_th E th_3 pt3 (ini_pubkey self)),
     Ok (bstr_bytes (sealed_3 E prk th_3 pt3)))"
proof -
  let ?ini = "opened_2 self g_y th_2 prk" and ?p = "pending_2 E c_r pk th_2 pt2"
  have th: "length th_2 = 32" "length th_3 = 32" and prk: "length prk = 32"
    unfolding th_2_def th_3_def prk_def by (rule th_lengths [OF P])+
  have pt2: "length pt2 \<le> 128"
    unfolding pt2_def using length_plain_2(2) [OF P key c_r(1), of prk th_2] by simp
  have pt3: "length pt3 \<le> 128" unfolding pt3_def using length_plain_3 [OF P own, of prk th_3] by simp
  have b: "begin_process_message_2 E self (message_2 E g_y prk th_2 pt2) = (?ini, Ok ?p)"
    unfolding th_2_def prk_def pt2_def
    by (rule begin_process_message_2_eq [OF P key c_r self g])
  have st: "i_th_2 (ini_state ?ini) = th_2" "i_prk_3e2m (ini_state ?ini) = prk"
    "i_lifecycle (ini_state ?ini) = PendingMessage2"
    "ini_privkey ?ini = ini_privkey self" "ini_pubkey ?ini = ini_pubkey self"
    by (simp_all add: opened_2_def)
  have c: "check_message_2 E (ini_state ?ini) ?p (raw_peer E pk) = Ok ()"
    unfolding pt2_def by (rule check_message_2_eq [OF P key c_r(1) st(1,2) th(1) prk])
  have s: "seal_message_3 E ?ini s = Ok (sealed_3 E prk th_3 pt3, pt3, raw_credential (ini_pubkey self))"
    if "i_th_3 s = th_3" "i_prk_3e2m s = prk" "i_prk_4e3m s = prk" for s
    using seal_message_3_eq(1) [OF P, of ?ini s, OF _ that th(2) prk] own st by (simp add: pt3_def)
  have l: "length (sealed_3 E prk th_3 pt3) \<le> 85"
    unfolding pt3_def
    by (rule seal_message_3_eq(2) [OF P own, of "(ini_state ?ini)\<lparr>i_th_3 := th_3, i_prk_4e3m := prk\<rparr>"])
      (simp_all add: st th prk)
  have p: "pm2_id_cred ?p = raw_id_cred_parsed E pk" "pm2_plaintext ?p = pt2" "pm2_c_r ?p = c_r"
    "pm2_transcript_binding ?p = th_2"
    by (simp_all add: pending_2_def)
  have peer: "pc_credential (raw_peer E pk) = raw_credential pk"
    "pc_id_cred (raw_peer E pk) = idc_encoded (raw_id_cred_parsed E pk)"
    by (simp_all add: raw_peer_def raw_id_cred_parsed_def)
  have t3: "transcript_3 (ec_base E) th_2 pt2 (raw_credential pk) = Ok th_3"
    unfolding th_3_def by (rule next_th_eq [OF th(1) pt2 party_key_facts(1) [OF P key]])
  have "finish_process_message_2 E ?ini ?p (raw_peer E pk) =
      (accepted_2 ?ini c_r prk th_3 (next_th E th_3 pt3 (ini_pubkey self)),
       Ok (bstr_bytes (sealed_3 E prk th_3 pt3)))"
    using l party_key_facts(1) [OF P own]
    by (simp add: finish_process_message_2_def message_3_body_def st p peer c s transcript_4_eq
        t3 next_th_eq [OF th(2) pt3] encode_bstr_eq length_bstr_bytes initiator_settle_eq accepted_2_def)
  then show ?thesis
    by (simp add: process_message_2_def process_message_2_with_credential_def b
        raw_key_credential_peer [OF P party_key_facts(1) [OF P key]])
qed

subsection \<open>The responder accepts message 3\<close>

definition pending_3 :: "edhoc_crypto \<Rightarrow> bytes \<Rightarrow> bytes \<Rightarrow> bytes \<Rightarrow> pending_message_3" where
  "pending_3 E pk th_3 pt =
     \<lparr>pm3_id_cred = raw_id_cred_parsed E pk, pm3_plaintext = pt, pm3_signature_offset = 11,
      pm3_transcript_binding = th_3\<rparr>"

lemma open_message_3_eq:
  assumes P: "primitives_ok E" and st: "r_prk_3e2m st = prk" "r_th_3 st = th" "length prk = 32" "length th = 32"
    and pt: "length pt \<le> 120"
  shows "open_message_3 E st (bstr_bytes (sealed_3 E prk th pt)) = Ok pt"
proof -
  have pt': "length pt \<le> 128" using pt by simp
  obtain cipher ct tag where s: "ccm_new (ec_base E) (key_3 E prk th) = Some cipher"
    "sealed_3 E prk th pt = ct @ tag" "length ct = length pt" "length tag = 8"
    "ccm_decrypt (ec_base E) cipher (nonce_3 E prk th) (a_3_bytes th) ct tag = Some pt"
    by (rule sealed_3_cases [OF P st(3,4) pt'])
  then have "parse_bstr (bstr_bytes (ct @ tag)) = Ok (ct @ tag, length (bstr_bytes (ct @ tag)))"
    using parse_bstr_bytes [of "ct @ tag" "[]"] pt by simp
  then show ?thesis
    using s pt
    by (simp add: open_message_3_def st key_3_eq [OF P st(3,4)] build_a_3_eq slice_def slice_from_def
        copy_from_slice_def extend_err_Ok)
qed

lemma signature_3_parts:
  fixes E prk th sk pk
  defines "pt \<equiv> plain_3 E prk sk pk th" and "sig \<equiv> sign_message E sk pk (tbs_3 E prk pk th)"
  assumes P: "primitives_ok E" and key: "party_key E sk pk"
  shows "parse_id_cred pt = Ok (raw_id_cred_parsed E pk, 11)" "slice_from pt 11 = (Ok (bstr_bytes sig) :: (edhoc_error, bytes) res)"
    "parse_bstr (bstr_bytes sig) = Ok (sig, length (bstr_bytes sig))" "length pt = 11 + length (bstr_bytes sig)"
proof -
  have kid: "8 \<le> length (sha256 (ec_base E) pk)" using primitives(6) [OF P] by simp
  have sig: "length sig \<le> 0xffff"
    unfolding sig_def party_key_facts(4) [OF P key] using sig_len_bounds(2) [of E] by linarith
  show "parse_id_cred pt = Ok (raw_id_cred_parsed E pk, 11)"
    using parse_id_cred_raw [OF kid] by (simp add: pt_def plain_3_def raw_id_cred_parsed_def)
  show "slice_from pt 11 = (Ok (bstr_bytes sig) :: (edhoc_error, bytes) res)" "length pt = 11 + length (bstr_bytes sig)"
    using kid by (simp_all add: pt_def plain_3_def slice_from_def sig_def)
  show "parse_bstr (bstr_bytes sig) = Ok (sig, length (bstr_bytes sig))"
    using parse_bstr_bytes [of sig "[]"] sig by simp
qed

definition accepted_3 :: "edhoc_responder \<Rightarrow> bytes \<Rightarrow> bytes \<Rightarrow> edhoc_responder" where
  "accepted_3 self prk th_4 =
     self\<lparr>rsp_state := (rsp_state self)\<lparr>r_prk_4e3m := prk, r_th_4 := th_4, r_completed := True,
       r_lifecycle := Complete\<rparr>\<rparr>"

lemma process_message_3_eq:
  fixes E self sk pk prk th_3
  defines "pt \<equiv> plain_3 E prk sk pk th_3"
  assumes P: "primitives_ok E" and key: "party_key E sk pk"
    and self: "r_lifecycle (rsp_state self) = AwaitingMessage3" "r_prk_3e2m (rsp_state self) = prk"
      "r_th_3 (rsp_state self) = th_3"
    and len: "length prk = 32" "length th_3 = 32"
  shows "process_message_3 E self (bstr_bytes (sealed_3 E prk th_3 pt)) pk =
    (accepted_3 self prk (next_th E th_3 pt pk), Ok ())"
proof -
  let ?rsp = "self\<lparr>rsp_state := (rsp_state self)\<lparr>r_lifecycle := PendingMessage3\<rparr>\<rparr>"
  note pk = party_key_facts [OF P key]
  note parts = signature_3_parts [OF P key, of prk th_3, folded pt_def]
  have pt: "length pt \<le> 77" unfolding pt_def by (rule length_plain_3 [OF P key])
  then have pt': "length pt \<le> 120" "length pt \<le> 128" by simp_all
  have b: "begin_process_message_3 E self (bstr_bytes (sealed_3 E prk th_3 pt)) =
      (?rsp, Ok (pending_3 E pk th_3 pt))"
    using parts pt pk(4)
    by (simp add: begin_process_message_3_def self message_3_pending_def
        open_message_3_eq [OF P self(2,3) len pt'(1)] extend_err_Ok responder_settle_eq pending_3_def)
  have c: "message_3_credential E (pending_3 E pk th_3 pt) (raw_peer E pk) =
      Ok (pk, sign_message E sk pk (tbs_3 E prk pk th_3))"
    using parts pk
    by (simp add: message_3_credential_def pending_3_def raw_peer_def validate_raw_credential guard_def
        validate_pubkey_def)
  have v: "check_message_3 E s (pending_3 E pk th_3 pt) (raw_peer E pk) pk (sign_message E sk pk (tbs_3 E prk pk th_3)) = Ok ()"
    if "r_th_3 s = th_3" "r_prk_4e3m s = prk" for s
    using that pk(5) mac_3_eq [OF P pk(1) len(2,1)]
    by (simp add: check_message_3_def pending_3_def raw_id_cred_parsed_def raw_peer_def guard_def)
  have p: "pm3_id_cred (pending_3 E pk th_3 pt) = raw_id_cred_parsed E pk"
    "pm3_plaintext (pending_3 E pk th_3 pt) = pt" "pm3_transcript_binding (pending_3 E pk th_3 pt) = th_3"
    by (simp_all add: pending_3_def)
  have peer: "pc_credential (raw_peer E pk) = raw_credential pk"
    "pc_id_cred (raw_peer E pk) = idc_encoded (raw_id_cred_parsed E pk)"
    by (simp_all add: raw_peer_def raw_id_cred_parsed_def)
  have "finish_process_message_3 E ?rsp (pending_3 E pk th_3 pt) (raw_peer E pk) =
      (accepted_3 self prk (next_th E th_3 pt pk), Ok ())"
    by (simp add: finish_process_message_3_def message_3_accept_def self p peer c v transcript_4_eq
        next_th_eq [OF len(2) pt'(2) pk(1)] responder_settle_eq accepted_3_def)
  then show ?thesis
    by (simp add: process_message_3_def process_message_3_with_credential_def b
        raw_key_credential_peer [OF P pk(1)])
qed

subsection \<open>The whole exchange\<close>

text \<open>What the two parties end up sharing, from their secrets and public values alone.\<close>

definition session_th_2 :: "edhoc_crypto \<Rightarrow> bytes \<Rightarrow> bytes \<Rightarrow> bytes \<Rightarrow> bytes" where
  "session_th_2 E x y c_i = th_2_of E (x25519_public E y) (message_1 (x25519_public E x) c_i)"

definition session_prk :: "edhoc_crypto \<Rightarrow> bytes \<Rightarrow> bytes \<Rightarrow> bytes \<Rightarrow> bytes" where
  "session_prk E x y c_i =
     edhoc_extract (ec_base E) (session_th_2 E x y c_i) (x25519 E x (x25519_public E y))"

definition session_ok :: "edhoc_crypto \<Rightarrow> bytes \<Rightarrow> bytes \<Rightarrow> bytes \<Rightarrow> bytes \<Rightarrow> bool" where
  "session_ok E x y c_i c_r \<longleftrightarrow>
     length c_i = 1 \<and> \<not> negative_id c_i \<and> length c_r \<le> 7 \<and> \<not> negative_id c_r \<and> c_i \<noteq> c_r \<and>
     x25519 E x (x25519_public E y) \<noteq> replicate 32 0"

lemma fresh_party:
  fixes E seed c x
  assumes "length seed = 32"
  defines "ini \<equiv> initiator_with_secret E seed c x" and "rsp \<equiv> responder_with_secret E seed c x"
  shows "party_key E (ini_privkey ini) (ini_pubkey ini)" "party_key E (rsp_privkey rsp) (rsp_pubkey rsp)"
    "ini_c_i ini = c" "rsp_c_r rsp = c" "ini_eph_secret ini = Some x" "rsp_eph_secret rsp = Some x"
    "ini_eph_public ini = x25519_public E x" "rsp_eph_public rsp = x25519_public E x"
    "i_lifecycle (ini_state ini) = Created" "r_lifecycle (rsp_state rsp) = Created"
  unfolding ini_def rsp_def party_key_def using assms(1)
  by (cases "key_from_seed E seed"; auto simp: initiator_with_secret_def responder_with_secret_def
      initiator_state_default_def responder_state_default_def)+

lemma run_handshake_fresh:
  assumes P: "primitives_ok E" and s: "session_ok E x y c_i c_r"
    and seeds: "length seed_i = 32" "length seed_r = 32"
  shows "\<exists>ini rsp th_4.
    run_handshake E (initiator_with_secret E seed_i c_i x) (responder_with_secret E seed_r c_r y) = Ok (ini, rsp) \<and>
    length th_4 = 32 \<and> i_th_4 (ini_state ini) = th_4 \<and> r_th_4 (rsp_state rsp) = th_4 \<and>
    i_prk_4e3m (ini_state ini) = session_prk E x y c_i \<and> r_prk_4e3m (rsp_state rsp) = session_prk E x y c_i \<and>
    i_lifecycle (ini_state ini) = Complete \<and> r_lifecycle (rsp_state rsp) = Complete \<and>
    i_completed (ini_state ini) \<and> r_completed (rsp_state rsp) \<and>
    ini_c_i ini = c_i \<and> i_c_r (ini_state ini) = c_r \<and> rsp_c_r rsp = c_r \<and> r_c_i (rsp_state rsp) = c_i \<and>
    ini_eph_secret ini = None \<and> rsp_eph_secret rsp = None"
proof -
  let ?C = "ec_base E"
  define ini0 where "ini0 = initiator_with_secret E seed_i c_i x"
  define rsp0 where "rsp0 = responder_with_secret E seed_r c_r y"
  define g_x where "g_x = x25519_public E x"
  define g_y where "g_y = x25519_public E y"
  define msg1 where "msg1 = message_1 g_x c_i"
  define th_2 where "th_2 = th_2_of E g_y msg1"
  define prk where "prk = edhoc_extract ?C th_2 (x25519 E x g_y)"
  note ini = fresh_party [OF seeds(1), of E c_i x, folded ini0_def]
  note rsp = fresh_party [OF seeds(2), of E c_r y, folded rsp0_def]
  have g: "length g_x = 32" "length g_y = 32" "x25519 E y g_x = x25519 E x g_y"
    "x25519 E x g_y \<noteq> replicate 32 0"
    using primitives(5) [OF P] s by (simp_all add: exchange_contract_def session_ok_def g_x_def g_y_def)
  have c: "length c_i = 1" "\<not> negative_id c_i" "length c_r \<le> 7" "\<not> negative_id c_r" "c_i \<noteq> c_r" "c_r \<noteq> c_i"
    using s by (auto simp: session_ok_def)
  define pt2 where "pt2 = plain_2 E prk c_r (rsp_privkey rsp0) (rsp_pubkey rsp0) th_2"
  define th_3 where "th_3 = next_th E th_2 pt2 (rsp_pubkey rsp0)"
  define pt3 where "pt3 = plain_3 E prk (ini_privkey ini0) (ini_pubkey ini0) th_3"
  define th_4 where "th_4 = next_th E th_3 pt3 (ini_pubkey ini0)"
  have len: "length prk = 32" "length th_3 = 32" "length th_4 = 32"
    unfolding prk_def th_3_def th_4_def by (rule th_lengths [OF P])+
  let ?ini1 = "ini0\<lparr>ini_state := (ini_state ini0)\<lparr>i_msg1 := msg1, i_lifecycle := Message1Created\<rparr>\<rparr>"
  have 1: "create_message_1 ini0 = (?ini1, Ok msg1)"
    using message_1_bytes_eq [of ini0] ini g(1) c by (simp add: create_message_1_def msg1_def g_x_def)
  let ?rsp1 = "replied E rsp0 msg1 g_x c_i th_2 prk pt2"
  have 2: "process_message_1 E rsp0 msg1 = (?rsp1, Ok (message_2 E g_y prk th_2 pt2))"
    using process_message_1_eq [OF P rsp(2), of c_i y g_x] rsp(4,6,8,10) c g
    by (simp add: msg1_def th_2_def prk_def pt2_def flip: g_y_def)
  let ?ini2 = "accepted_2 (opened_2 ?ini1 g_y th_2 prk) c_r prk th_3 th_4"
  have 3: "process_message_2 E ?ini1 (message_2 E g_y prk th_2 pt2) (rsp_pubkey ?rsp1) =
      (?ini2, Ok (bstr_bytes (sealed_3 E prk th_3 pt3)))"
    using process_message_2_eq [OF P rsp(2), of ?ini1 c_r x g_y] ini(1,3,5) c g
    by (simp add: replied_def flip: th_2_def prk_def pt2_def th_3_def pt3_def th_4_def)
  have r: "r_lifecycle (rsp_state ?rsp1) = AwaitingMessage3" "r_prk_3e2m (rsp_state ?rsp1) = prk"
    "r_th_3 (rsp_state ?rsp1) = th_3"
    by (simp_all add: replied_def th_3_def)
  have 4: "process_message_3 E ?rsp1 (bstr_bytes (sealed_3 E prk th_3 pt3)) (ini_pubkey ?ini2) =
      (accepted_3 ?rsp1 prk th_4, Ok ())"
    using process_message_3_eq [OF P ini(1) r len(1,2)]
    by (simp add: accepted_2_def opened_2_def pt3_def th_4_def)
  have run: "run_handshake E ini0 rsp0 = Ok (?ini2, accepted_3 ?rsp1 prk th_4)"
    using 1 2 3 4 by (simp add: run_handshake_def)
  have prk': "session_prk E x y c_i = prk"
    by (simp add: session_prk_def session_th_2_def prk_def th_2_def msg1_def g_x_def g_y_def)
  show ?thesis
    unfolding ini0_def [symmetric] rsp0_def [symmetric] prk'
    by (intro exI conjI) (rule run, rule len(3), simp_all add: accepted_2_def opened_2_def accepted_3_def
        replied_def ini rsp)
qed

subsection \<open>The exported contexts\<close>

lemma export_pair:
  assumes P: "primitives_ok E" and len: "length prk = 32" "length th = 32"
    and ids: "length c_i \<le> 7" "length c_r \<le> 7" "c_i \<noteq> c_r"
  obtains c d where "export_context (ec_base E) prk th c_r c_i = Ok c"
    "export_context (ec_base E) prk th c_i c_r = Ok d"
    "mirrored c d" "wf_context c" "wf_context d" "sender_id c = c_r" "recipient_id c = c_i"
    "\<not> ctx_active c" "\<not> ctx_active d" "\<And>s. \<not> is_replay c s" "\<And>s. \<not> is_replay d s"
proof -
  let ?C = "ec_base E" and ?sec = "exported_secret (ec_base E) prk th"
  let ?salt = "exported_salt (ec_base E) prk th"
  note H = primitives(1,2) [OF P]
  note e = export_context_eq [OF H len]
  have "new_params_ok (Some ?salt) None c_r c_i" "new_params_ok (Some ?salt) None c_i c_r"
    using ids e(3) by (simp_all add: new_params_ok_def)
  then obtain a b where a: "context_new ?C ?sec (Some ?salt) None c_r c_i = Ok a"
    and b: "context_new ?C ?sec (Some ?salt) None c_i c_r = Ok b"
    by (metis context_new_total [OF H(1)])
  let ?c = "a\<lparr>ctx_restored := False, ctx_active := False, ctx_allow_no_piv_response := True\<rparr>"
  let ?d = "b\<lparr>ctx_restored := False, ctx_active := False, ctx_allow_no_piv_response := True\<rparr>"
  note w = context_new_fresh_windows [OF a] context_new_fresh_windows [OF b]
  show ?thesis
  proof (rule that)
    show "export_context ?C prk th c_r c_i = Ok ?c" "export_context ?C prk th c_i c_r = Ok ?d"
      by (simp_all add: e(1) context_new_fresh_def a b)
    show "mirrored ?c ?d"
      using context_new_mirrored [OF a b]
      by (simp add: mirrored_def sender_id_def recipient_id_def id_context_def)
    show "wf_context ?c" "wf_context ?d"
      using context_new_wf [OF H(1) e(2) a] context_new_wf [OF H(1) e(2) b] by (simp_all add: wf_flags)
    show "sender_id ?c = c_r" "recipient_id ?c = c_i"
      using context_new_Ok(2,3) [OF a] by (simp_all add: sender_id_def recipient_id_def)
    show "\<not> is_replay ?c s" "\<not> is_replay ?d s" for s
      using w by (simp_all add: is_replay_def)
  qed simp_all
qed

end
