(* ===== verification/EdhocAgreement.thy ===== *)
theory EdhocAgreement
  imports EdhocHandshake
begin

text \<open>
  What two parties agree on when an attacker decides every message that reaches them. A party's key
  pair may be used in any number of sessions, each of which runs the party's own code on whatever
  arrives; when a session of the other party completes with that key, then one of those sessions
  has taken part with the same values, or the run contains an explicit break of a primitive: a
  signature that was received and verifies although its owner released none on that message, or two
  inputs with the same hash or MAC, both of which the run computes. The theory states these outcomes
  as predicates on the values of the run, so that nothing is assumed about the primitives beyond
  their contracts.
\<close>

subsection \<open>Sessions of one key\<close>

text \<open>A session of a responder is given by its identifier, its ephemeral secret and the message 1 that
  reaches it; a session of an initiator by its identifier, its ephemeral secret, the message 2 that
  reaches it and the public key of the responder it wants to talk to.\<close>

definition responder_session :: "edhoc_crypto \<Rightarrow> bytes \<Rightarrow> bytes \<times> bytes \<times> bytes \<Rightarrow> edhoc_responder" where
  "responder_session E seed = (\<lambda>(c_r, y, m1). fst (process_message_1 E (responder_with_secret E seed c_r y) m1))"

definition initiator_session :: "edhoc_crypto \<Rightarrow> bytes \<Rightarrow> bytes \<times> bytes \<times> bytes \<times> bytes \<Rightarrow> edhoc_initiator" where
  "initiator_session E seed = (\<lambda>(c_i, x, msg2, pk).
     fst (process_message_2 E (fst (create_message_1 (initiator_with_secret E seed c_i x))) msg2 pk))"

text \<open>The messages whose signature a session releases: nothing before it answers.\<close>

definition signed_by_responder :: "edhoc_crypto \<Rightarrow> edhoc_responder \<Rightarrow> bytes set" where
  "signed_by_responder E rsp =
     (if r_lifecycle (rsp_state rsp) = AwaitingMessage3
      then {tbs_2 E (r_prk_3e2m (rsp_state rsp)) (rsp_c_r rsp) (rsp_pubkey rsp) (r_th_2 (rsp_state rsp))}
      else {})"

definition signed_by_initiator :: "edhoc_crypto \<Rightarrow> edhoc_initiator \<Rightarrow> bytes set" where
  "signed_by_initiator E ini =
     (if i_completed (ini_state ini)
      then {tbs_3 E (i_prk_4e3m (ini_state ini)) (ini_pubkey ini) (i_th_3 (ini_state ini))}
      else {})"

subsection \<open>Breaks of the primitives\<close>

text \<open>A forgery: the signature that was read from a message verifies, under \<open>pk\<close>, on a message that
  its owner has not signed. A collision: two different inputs with the same value.\<close>

definition forged :: "edhoc_crypto \<Rightarrow> bytes \<Rightarrow> bytes set \<Rightarrow> bytes \<Rightarrow> (bytes \<times> bytes) option \<Rightarrow> bool" where
  "forged E pk own m reading \<longleftrightarrow>
     m \<notin> own \<and> (case reading of Some (pt, sig) \<Rightarrow> verify_message E pk m sig | None \<Rightarrow> False)"

definition collides :: "('a \<Rightarrow> 'b) \<Rightarrow> 'a \<Rightarrow> 'a \<Rightarrow> bool" where
  "collides f a b \<longleftrightarrow> a \<noteq> b \<and> f a = f b"

text \<open>The inputs of the hashes and of the MAC of message 2.\<close>

definition th_2_input :: "edhoc_crypto \<Rightarrow> bytes \<Rightarrow> bytes \<Rightarrow> bytes" where
  "th_2_input E g_y msg1 = bstr_bytes g_y @ bstr_bytes (sha256 (ec_base E) msg1)"

definition th_3_input :: "bytes \<Rightarrow> bytes \<Rightarrow> bytes \<Rightarrow> bytes" where
  "th_3_input th_2 pt pk = bstr_bytes th_2 @ bstr_bytes pt @ raw_credential pk"

definition mac_2_input :: "edhoc_crypto \<Rightarrow> bytes \<Rightarrow> bytes \<Rightarrow> bytes \<Rightarrow> bytes" where
  "mac_2_input E c_r pk th = context_2_bytes c_r (raw_id_cred (sha256 (ec_base E) pk)) th (raw_credential pk)"

subsection \<open>Encodings that determine their parts\<close>

lemma signature_structure_inject:
  assumes "signature_structure idc th cred mac = signature_structure idc' th' cred' mac'"
    and "length idc \<le> 0xffff" "length idc' \<le> 0xffff" "length th \<le> 0xffff" "length th' \<le> 0xffff"
    and "length (bstr_bytes th @ cred) \<le> 0xffff" "length (bstr_bytes th' @ cred') \<le> 0xffff"
    and "length mac \<le> 0xffff" "length mac' \<le> 0xffff"
  shows "idc = idc' \<and> th = th' \<and> cred = cred' \<and> mac = mac'"
proof -
  from assms(1) have e: "bstr_bytes idc @ bstr_bytes (bstr_bytes th @ cred) @ bstr_bytes mac =
      bstr_bytes idc' @ bstr_bytes (bstr_bytes th' @ cred') @ bstr_bytes mac'"
    by (simp add: signature_structure_def)
  from bstr_bytes_inject [OF e assms(2,3)] have i: "idc = idc'" and
    e2: "bstr_bytes (bstr_bytes th @ cred) @ bstr_bytes mac = bstr_bytes (bstr_bytes th' @ cred') @ bstr_bytes mac'"
    by blast+
  from bstr_bytes_inject [OF e2 assms(6,7)] have a: "bstr_bytes th @ cred = bstr_bytes th' @ cred'" and
    m: "bstr_bytes mac @ [] = bstr_bytes mac' @ []"
    by auto
  from bstr_bytes_inject [OF a assms(4,5)] bstr_bytes_inject [OF m assms(8,9)] i show ?thesis by blast
qed

lemma raw_credential_inject: "raw_credential pk = raw_credential pk' \<Longrightarrow> length pk = 32 \<Longrightarrow> length pk' = 32 \<Longrightarrow> pk = pk'"
  using bstr_bytes_inject [of pk "[]" pk' "[]"] by (simp add: raw_credential_def)

lemma identifier_bytes_inject:
  assumes "identifier_bytes a = identifier_bytes b" "length a \<le> 7" "length b \<le> 7"
  shows "a = b"
proof -
  have head: "\<not> bstr_bytes v ! 0 \<le> 0x37" if "length v \<le> 7" for v
    using that by (simp add: bstr_bytes_def bstr_head_def word_le_nat_alt unat_as_u8 del: of_nat_add)
  have mixed: "c \<noteq> bstr_bytes v" if "compact_id c" "length v \<le> 7" for c v
  proof
    assume "c = bstr_bytes v"
    with head [OF that(2)] that(1) show False by (auto simp: compact_id_def word_le_nat_alt)
  qed
  show ?thesis
  proof (cases "compact_id a"; cases "compact_id b")
    assume "\<not> compact_id a" "\<not> compact_id b"
    with assms(1) have "bstr_bytes a @ [] = bstr_bytes b @ []" by (simp add: identifier_bytes_def)
    from bstr_bytes_inject [OF this] assms(2,3) show ?thesis by simp
  qed (use assms mixed in \<open>auto simp: identifier_bytes_def\<close>)
qed

lemma mac_length:
  assumes "primitives_ok E" "length pk = 32" "length th = 32" "length prk = 32"
  shows "length c_r \<le> 7 \<Longrightarrow> length (derived (ec_base E) prk LABEL_MAC_2 (mac_2_input E c_r pk th) 32) = 32"
    "length (derived (ec_base E) prk LABEL_MAC_3
       (context_3_bytes (raw_id_cred (sha256 (ec_base E) pk)) th (raw_credential pk)) 32) = 32"
proof -
  note k = edhoc_kdf_total [OF primitives(1,2) [OF assms(1)] assms(4)]
  note sz = handshake_sizes [OF assms(1-3)]
  show "length (derived (ec_base E) prk LABEL_MAC_2 (mac_2_input E c_r pk th) 32) = 32" if "length c_r \<le> 7"
    unfolding mac_2_input_def by (rule k(2)) (use labels_small sz(2) [OF that] in simp_all)
  show "length (derived (ec_base E) prk LABEL_MAC_3
       (context_3_bytes (raw_id_cred (sha256 (ec_base E) pk)) th (raw_credential pk)) 32) = 32"
    by (rule k(2)) (use labels_small sz(3) in simp_all)
qed

lemma tbs_2_inject:
  assumes "primitives_ok E" "length pk = 32" "length th = 32" "length th' = 32" "length prk = 32" "length prk' = 32"
    and "length c \<le> 7" "length c' \<le> 7" and eq: "tbs_2 E prk c pk th = tbs_2 E prk' c' pk th'"
  shows "th = th'"
    "derived (ec_base E) prk LABEL_MAC_2 (mac_2_input E c pk th) 32 =
     derived (ec_base E) prk' LABEL_MAC_2 (mac_2_input E c' pk th') 32"
proof -
  note l = mac_length(1) [OF assms(1,2,3,5,7)] mac_length(1) [OF assms(1,2,4,6,8)]
  from eq have s: "signature_structure (raw_id_cred (sha256 (ec_base E) pk)) th (raw_credential pk)
      (derived (ec_base E) prk LABEL_MAC_2 (mac_2_input E c pk th) 32) =
    signature_structure (raw_id_cred (sha256 (ec_base E) pk)) th' (raw_credential pk)
      (derived (ec_base E) prk' LABEL_MAC_2 (mac_2_input E c' pk th') 32)"
    by (simp add: tbs_2_def mac_2_input_def Let_def)
  have "raw_id_cred (sha256 (ec_base E) pk) = raw_id_cred (sha256 (ec_base E) pk) \<and> th = th' \<and>
      raw_credential pk = raw_credential pk \<and>
      derived (ec_base E) prk LABEL_MAC_2 (mac_2_input E c pk th) 32 =
      derived (ec_base E) prk' LABEL_MAC_2 (mac_2_input E c' pk th') 32"
    by (rule signature_structure_inject [OF s])
      (use l assms(2-4) primitives(6) [OF assms(1)] in \<open>simp_all add: length_bstr_bytes\<close>)
  then show "th = th'"
    "derived (ec_base E) prk LABEL_MAC_2 (mac_2_input E c pk th) 32 =
     derived (ec_base E) prk' LABEL_MAC_2 (mac_2_input E c' pk th') 32"
    by blast+
qed

lemma tbs_3_inject:
  assumes "primitives_ok E" "length pk = 32" "length th = 32" "length th' = 32" "length prk = 32" "length prk' = 32"
    and eq: "tbs_3 E prk pk th = tbs_3 E prk' pk th'"
  shows "th = th'"
proof -
  note l = mac_length(2) [OF assms(1,2,3,5)] mac_length(2) [OF assms(1,2,4,6)]
  from signature_structure_inject [OF eq [unfolded tbs_3_def Let_def]] l assms(2-4) primitives(6) [OF assms(1)]
  show ?thesis by (simp add: length_bstr_bytes)
qed

lemma mac_2_input_inject:
  assumes "mac_2_input E c pk th = mac_2_input E c' pk th" "length c \<le> 7" "length c' \<le> 7"
  shows "c = c'"
  using assms identifier_bytes_inject by (simp add: mac_2_input_def context_2_bytes_def)

subsection \<open>What the parties hold\<close>

lemma xor_keystream_length: "xor_keystream N ks i out bs = Ok v \<Longrightarrow> length out \<le> N \<Longrightarrow> length v \<le> N"
  by (induction bs arbitrary: i out) (auto simp: res_simps vec_simps)

lemma created_message_1:
  assumes "primitives_ok E" "length c_i \<le> 7" "create_message_1 (initiator_with_secret E seed c_i x) = (ini1, Ok msg1)"
    and "length seed = 32"
  shows "msg1 = message_1 (x25519_public E x) c_i" "i_msg1 (ini_state ini1) = msg1" "ini_eph_secret ini1 = Some x"
    "ini_c_i ini1 = c_i" "\<not> i_completed (ini_state ini1)"
    "ini_pubkey ini1 = ini_pubkey (initiator_with_secret E seed c_i x)"
proof -
  note i = fresh_party [OF assms(4), of E c_i x]
  have g: "length (x25519_public E x) = 32"
    using primitives(5) [OF assms(1)] by (simp add: exchange_contract_def)
  show "msg1 = message_1 (x25519_public E x) c_i"
    using message_1_bytes_eq [of "initiator_with_secret E seed c_i x"] i g assms(2,3) by (simp add: create_message_1_Ok)
  show "i_msg1 (ini_state ini1) = msg1" "ini_eph_secret ini1 = Some x" "ini_c_i ini1 = c_i" "\<not> i_completed (ini_state ini1)"
    "ini_pubkey ini1 = ini_pubkey (initiator_with_secret E seed c_i x)"
    using assms(3) i initiator_fresh(2) [of E seed c_i x] by (auto simp: create_message_1_Ok)
qed

text \<open>The initiator that has completed with the responder key \<open>pk\<close>.\<close>

lemma completed_initiator:
  assumes P: "primitives_ok E" and pk: "length pk = 32"
    and run: "process_message_2 E ini1 msg2 pk = (ini2, Ok msg3)" and eph: "ini_eph_secret ini1 = Some x"
  defines "st \<equiv> ini_state ini2" and "g_y \<equiv> i_g_y (ini_state ini2)"
  defines "th_2 \<equiv> th_2_of E g_y (i_msg1 (ini_state ini1))"
  defines "prk \<equiv> edhoc_extract (ec_base E) th_2 (x25519 E x g_y)"
  shows "length g_y = 32" "i_th_2 st = th_2" "i_prk_3e2m st = prk" "i_prk_4e3m st = prk" "length (i_c_r st) \<le> 7"
    "i_completed st" "ini_pubkey ini2 = ini_pubkey ini1"
    "\<exists>pt sig n. message_2_reading E ini1 msg2 = Some (pt, sig) \<and>
       (verifying_key E pk = Some pk \<longrightarrow> verify_message E pk (tbs_2 E prk (i_c_r st) pk th_2) sig) \<and>
       length pt \<le> 128 \<and> parse_identifier pt = Ok (i_c_r st, n) \<and> i_th_3 st = next_th E th_2 pt pk"
proof -
  have "process_message_2_with_credential E ini1 msg2 (raw_peer E pk) = (ini2, Ok msg3)"
    using run by (simp add: process_message_2_def raw_key_credential_peer [OF P pk])
  from process_message_2_Ok [OF this, unfolded Let_def, folded th_2_of_def] eph
  obtain ct ks pt c_r idc off sig n g where
    m: "message_2_parts E msg2 = Ok (g, ct)" "xor_keystream 128 ks 0 [] ct = Ok pt"
      "plaintext_2_parts E (ini_c_i ini1) pt = Ok (c_r, idc, off)" and
    s: "signed_2 E (edhoc_extract (ec_base E) (th_2_of E g (i_msg1 (ini_state ini1))) (x25519 E x g)) c_r
        (pc_id_cred (raw_peer E pk)) (th_2_of E g (i_msg1 (ini_state ini1)))
        (pc_credential (raw_peer E pk)) (pc_public_key (raw_peer E pk)) sig" and
    st: "i_c_r st = c_r" "i_g_y st = g" "i_th_2 st = th_2_of E g (i_msg1 (ini_state ini1))"
      "i_prk_3e2m st = edhoc_extract (ec_base E) (th_2_of E g (i_msg1 (ini_state ini1))) (x25519 E x g)"
      "i_prk_4e3m st = edhoc_extract (ec_base E) (th_2_of E g (i_msg1 (ini_state ini1))) (x25519 E x g)"
      "i_th_3 st = sha256 (ec_base E) (bstr_bytes (th_2_of E g (i_msg1 (ini_state ini1))) @ bstr_bytes pt @
        pc_credential (raw_peer E pk))"
      "i_completed st" "ini_pubkey ini2 = ini_pubkey ini1" and
    rd: "message_2_reading E ini1 msg2 = Some (pt, sig)"
    unfolding st_def by auto
  have g: "g = g_y" using st(2) by (simp add: st_def g_y_def)
  show "length g_y = 32" using m(1) by (auto simp: g message_2_parts_def res_simps slice_simps split: if_splits)
  show "i_th_2 st = th_2" "i_prk_3e2m st = prk" "i_prk_4e3m st = prk" "i_completed st" "ini_pubkey ini2 = ini_pubkey ini1"
    using st by (simp_all add: g th_2_def prk_def)
  show "length (i_c_r st) \<le> 7" using plaintext_2_parts_Ok(2) [OF m(3)] st(1) by simp
  have "verify_message E pk (tbs_2 E prk (i_c_r st) pk th_2) sig" if "verifying_key E pk = Some pk"
    using s that st(1)
    by (auto simp: signed_2_def raw_peer_def tbs_2_def Let_def derived_def g th_2_def prk_def)
  then show "\<exists>pt sig n. message_2_reading E ini1 msg2 = Some (pt, sig) \<and>
       (verifying_key E pk = Some pk \<longrightarrow> verify_message E pk (tbs_2 E prk (i_c_r st) pk th_2) sig) \<and>
       length pt \<le> 128 \<and> parse_identifier pt = Ok (i_c_r st, n) \<and> i_th_3 st = next_th E th_2 pt pk"
    using rd plaintext_2_parts_Ok(4) [OF m(3)] xor_keystream_length [OF m(2)] st(1,6)
    by (auto simp: next_th_def raw_peer_def g th_2_def)
qed

lemma failed_initiator:
  assumes "process_message_2 E self msg2 pk = (self', r)" "\<forall>m. r \<noteq> Ok m" "\<not> i_completed (ini_state self)"
  shows "\<not> i_completed (ini_state self')"
proof -
  have *: "\<not> i_completed (ini_state self')"
    if "process_message_2_with_credential E self msg2 peer = (self', r)" for peer
  proof (cases "begin_process_message_2 E self msg2")
    case (Pair self1 r1)
    show ?thesis
    proof (cases "\<exists>p. r1 = Ok p")
      case True
      then obtain p where p: "r1 = Ok p" by blast
      from begin_process_message_2_Ok [OF Pair [unfolded p]] obtain c g ct st st' where
        b: "message_2_body E c g ct st = (st', Ok p)" "i_completed st = i_completed (ini_state self)"
        and s1: "ini_state self1 = st'"
        by fastforce
      from message_2_body_lifecycle(1) [OF b(1)] b(2) assms(3) s1
      have c: "\<not> i_completed (ini_state self1)" by simp
      from that have "finish_process_message_2 E self1 p peer = (self', r)"
        by (simp add: process_message_2_with_credential_def Pair p)
      from finish_process_message_2_not_Ok [OF this assms(2)] c show ?thesis by auto
    next
      case False
      then have "self' = self1"
        using that by (cases r1) (auto simp: process_message_2_with_credential_def Pair)
      with begin_process_message_2_not_Ok [OF Pair] False assms(3) show ?thesis by auto
    qed
  qed
  show ?thesis
    using assms * by (cases "raw_key_credential (sha256 (ec_base E)) pk :: (edhoc_error, bytes \<times> bytes) res")
      (auto simp: process_message_2_def split: prod.splits)
qed

text \<open>The responder that has answered message 1.\<close>

lemma replied_responder:
  fixes E seed c_r y
  defines "rsp0 \<equiv> responder_with_secret E seed c_r y"
  assumes P: "primitives_ok E" and "length seed = 32" "length c_r \<le> 7"
    and run: "process_message_1 E rsp0 m1 = (rsp1, Ok m2)"
  defines "rt \<equiv> rsp_state rsp1"
  defines "th_2 \<equiv> th_2_of E (x25519_public E y) m1"
  defines "prk \<equiv> edhoc_extract (ec_base E) th_2 (x25519 E y (r_g_x rt))"
  shows "r_th_2 rt = th_2" "r_prk_3e2m rt = prk" "r_lifecycle rt = AwaitingMessage3"
    "rsp_c_r rsp1 = c_r" "rsp_pubkey rsp1 = rsp_pubkey rsp0"
    "r_th_3 rt = next_th E th_2 (plain_2 E prk c_r (rsp_privkey rsp0) (rsp_pubkey rsp0) th_2) (rsp_pubkey rsp0)"
    "\<exists>rest c. message_1_head m1 = Ok (m1, r_g_x rt, rest) \<and> message_1_c_i rest = Ok c \<and> r_c_i rt = [c]"
proof -
  note r = fresh_party [OF assms(3), of E c_r y, folded rsp0_def]
  have g_y: "length (x25519_public E y) = 32" using primitives(5) [OF P] by (simp add: exchange_contract_def)
  from process_message_1_Ok [OF run] obtain g_x rest c st' where
    h: "message_1_head m1 = Ok (m1, g_x, rest)" "message_1_c_i rest = Ok c" and
    reply: "message_2_reply E (rsp0\<lparr>rsp_eph_secret := None,
        rsp_state := (rsp_state rsp0)\<lparr>r_msg1 := m1, r_g_x := g_x, r_c_i := [c]\<rparr>\<rparr>) m1 (x25519 E y g_x)
      ((rsp_state rsp0)\<lparr>r_msg1 := m1, r_g_x := g_x, r_c_i := [c]\<rparr>) = (st', Ok m2)" and
    s: "rsp1 = rsp0\<lparr>rsp_eph_secret := None, rsp_state := st'\<rparr>"
    using r(6) by auto
  from message_2_reply_Ok [OF reply] have "x25519 E y g_x \<noteq> replicate 32 0" by blast
  from reply message_2_reply_eq [OF P, of "rsp0\<lparr>rsp_eph_secret := None,
        rsp_state := (rsp_state rsp0)\<lparr>r_msg1 := m1, r_g_x := g_x, r_c_i := [c]\<rparr>\<rparr>", simplified, OF r(2) _ _ this]
  have st: "st' = ((rsp_state rsp0)\<lparr>r_msg1 := m1, r_g_x := g_x, r_c_i := [c]\<rparr>)
      \<lparr>r_th_2 := th_2, r_prk_2e := edhoc_extract (ec_base E) th_2 (x25519 E y g_x),
        r_prk_3e2m := edhoc_extract (ec_base E) th_2 (x25519 E y g_x),
        r_th_3 := next_th E th_2 (plain_2 E (edhoc_extract (ec_base E) th_2 (x25519 E y g_x)) c_r
          (rsp_privkey rsp0) (rsp_pubkey rsp0) th_2) (rsp_pubkey rsp0), r_lifecycle := AwaitingMessage3\<rparr>"
    using r(4,8) assms(4) g_y by (simp add: th_2_def)
  then have g: "r_g_x rt = g_x" by (simp add: rt_def s)
  show "r_th_2 rt = th_2" "r_prk_3e2m rt = prk" "r_lifecycle rt = AwaitingMessage3"
    "rsp_c_r rsp1 = c_r" "rsp_pubkey rsp1 = rsp_pubkey rsp0"
    "r_th_3 rt = next_th E th_2 (plain_2 E prk c_r (rsp_privkey rsp0) (rsp_pubkey rsp0) th_2) (rsp_pubkey rsp0)"
    using st r(4) by (simp_all add: rt_def s prk_def)
  show "\<exists>rest c. message_1_head m1 = Ok (m1, r_g_x rt, rest) \<and> message_1_c_i rest = Ok c \<and> r_c_i rt = [c]"
    using h st by (simp add: g) (simp add: rt_def s)
qed

subsection \<open>Agreement\<close>

lemma th_2_agreement:
  assumes "primitives_ok E" "th_2_of E g msg = th_2_of E g' msg'" "length g = 32" "length g' = 32"
  shows "g = g' \<and> msg = msg' \<or>
    collides (sha256 (ec_base E)) (th_2_input E g msg) (th_2_input E g' msg') \<or>
    collides (sha256 (ec_base E)) msg msg'"
proof (cases "th_2_input E g msg = th_2_input E g' msg'")
  case True
  then have "bstr_bytes g @ bstr_bytes (sha256 (ec_base E) msg) = bstr_bytes g' @ bstr_bytes (sha256 (ec_base E) msg')"
    by (simp add: th_2_input_def)
  from bstr_bytes_inject [OF this] assms(3,4) have g: "g = g'" and
    "bstr_bytes (sha256 (ec_base E) msg) @ [] = bstr_bytes (sha256 (ec_base E) msg') @ []"
    by auto
  from bstr_bytes_inject [OF this(2)] primitives(6) [OF assms(1)] have "sha256 (ec_base E) msg = sha256 (ec_base E) msg'"
    by simp
  with g show ?thesis by (auto simp: collides_def)
next
  case False
  with assms(2) show ?thesis by (simp add: collides_def th_2_of_def th_2_input_def)
qed

lemma message_1_agreement:
  assumes "message_1_head (message_1 g_x c_i) = Ok (m, g, rest)" "message_1_c_i rest = Ok c"
    and "length g_x = 32" "length c_i \<le> 7"
  shows "g = g_x \<and> [c] = c_i"
proof -
  from assms(1) have "g = g_x" "rest = identifier_bytes c_i"
    using length_identifier_bytes [OF assms(4)] assms(3)
    by (simp_all add: message_1_def message_1_head_eq Suc_le_eq)
  with assms(2) message_1_c_i_eq [OF assms(4)] show ?thesis
    by (cases c_i) (auto split: if_splits)
qed

text \<open>The two ends of a session hold each other's ephemeral public value and identifier, and the same
  transcript hash and key.\<close>

definition same_session ::
    "edhoc_crypto \<Rightarrow> bytes \<times> bytes \<Rightarrow> initiator_state \<Rightarrow> bytes \<times> bytes \<Rightarrow> responder_state \<Rightarrow> bool" where
  "same_session E = (\<lambda>(c_i, x) st (c_r, y) rt.
     i_g_y st = x25519_public E y \<and> r_g_x rt = x25519_public E x \<and> r_c_i rt = c_i \<and> i_c_r st = c_r \<and>
     i_th_2 st = r_th_2 rt \<and> i_prk_3e2m st = r_prk_3e2m rt)"

lemma party_keys [simp]:
  "ini_pubkey (initiator_with_secret E seed c x) = snd (key_from_seed E seed)"
  "rsp_pubkey (responder_with_secret E seed c x) = snd (key_from_seed E seed)"
  "ini_privkey (initiator_with_secret E seed c x) = fst (key_from_seed E seed)"
  "rsp_privkey (responder_with_secret E seed c x) = fst (key_from_seed E seed)"
  by (simp_all add: initiator_with_secret_def responder_with_secret_def split: prod.splits)

lemma seed_key: "length seed = 32 \<Longrightarrow> party_key E (fst (key_from_seed E seed)) (snd (key_from_seed E seed))"
  unfolding party_key_def by (intro exI [of _ seed]) simp

lemma exchange:
  assumes "primitives_ok E"
  shows "length (x25519_public E x) = 32" "x25519 E x (x25519_public E y) = x25519 E y (x25519_public E x)"
  using primitives(5) [OF assms] by (simp_all add: exchange_contract_def)

text \<open>A session that has released a signature has answered.\<close>

lemma signed_responder:
  assumes "length seed = 32" "m \<in> signed_by_responder E (responder_session E seed (c_r, y, m1))"
  obtains m2 where "process_message_1 E (responder_with_secret E seed c_r y) m1 =
    (responder_session E seed (c_r, y, m1), Ok m2)"
proof -
  obtain rsp1 r where run: "process_message_1 E (responder_with_secret E seed c_r y) m1 = (rsp1, r)" by fastforce
  then have "r_lifecycle (rsp_state rsp1) = AwaitingMessage3"
    using assms(2) by (simp add: responder_session_def signed_by_responder_def split: if_splits)
  with process_message_1_fails [OF run] fresh_party(10) [OF assms(1), of E c_r y] obtain m2 where "r = Ok m2"
    by (auto simp: responder_fails_def)
  with run that show ?thesis by (simp add: responder_session_def)
qed

lemma signed_initiator:
  assumes "primitives_ok E" "length seed = 32" "length c_i \<le> 7"
    and "m \<in> signed_by_initiator E (initiator_session E seed (c_i, x, msg2, pk))"
  obtains ini1 msg1 msg3 where "create_message_1 (initiator_with_secret E seed c_i x) = (ini1, Ok msg1)"
    "process_message_2 E ini1 msg2 pk = (initiator_session E seed (c_i, x, msg2, pk), Ok msg3)"
proof -
  note i = fresh_party [OF assms(2), of E c_i x]
  obtain ini1 msg1 where c: "create_message_1 (initiator_with_secret E seed c_i x) = (ini1, Ok msg1)"
    using message_1_bytes_eq [of "initiator_with_secret E seed c_i x"] i exchange(1) [OF assms(1)] assms(3)
    by (auto simp: create_message_1_def)
  obtain ini2 r where run: "process_message_2 E ini1 msg2 pk = (ini2, r)" by fastforce
  then have "i_completed (ini_state ini2)"
    using assms(4) c by (simp add: initiator_session_def signed_by_initiator_def split: if_splits)
  with failed_initiator [OF run] created_message_1(5) [OF assms(1,3) c assms(2)] obtain msg3 where "r = Ok msg3" by blast
  with run that [OF c] c show ?thesis by (simp add: initiator_session_def)
qed

text \<open>Equal transcript hashes, equal sessions.\<close>

lemma same_transcript:
  fixes E c_i x seed c_r y
  defines "rsp0 \<equiv> responder_with_secret E seed c_r y"
  assumes P: "primitives_ok E" and "length seed = 32" "length c_i \<le> 7" "length c_r \<le> 7" "length g = 32"
    and run: "process_message_1 E rsp0 m1 = (rsp1, Ok m2)" and msg1: "msg1 = message_1 (x25519_public E x) c_i"
    and th: "th_2_of E g msg1 = r_th_2 (rsp_state rsp1)"
  shows "(g = x25519_public E y \<and> m1 = msg1 \<and> r_g_x (rsp_state rsp1) = x25519_public E x \<and>
      r_c_i (rsp_state rsp1) = c_i \<and>
      r_prk_3e2m (rsp_state rsp1) = edhoc_extract (ec_base E) (th_2_of E g msg1) (x25519 E x g)) \<or>
    collides (sha256 (ec_base E)) (th_2_input E g msg1) (th_2_input E (x25519_public E y) m1) \<or>
    collides (sha256 (ec_base E)) msg1 m1"
proof -
  note r1 = replied_responder [OF P assms(3,5) run [unfolded rsp0_def], folded rsp0_def]
  have "th_2_of E g msg1 = th_2_of E (x25519_public E y) m1" using th r1(1) by simp
  from th_2_agreement [OF P this assms(6) exchange(1) [OF P]]
  consider "g = x25519_public E y" "m1 = msg1"
    | "collides (sha256 (ec_base E)) (th_2_input E g msg1) (th_2_input E (x25519_public E y) m1)"
    | "collides (sha256 (ec_base E)) msg1 m1" by blast
  then show ?thesis
  proof cases
    case 1
    from r1(7) obtain rest c where "message_1_head m1 = Ok (m1, r_g_x (rsp_state rsp1), rest)"
      "message_1_c_i rest = Ok c" "r_c_i (rsp_state rsp1) = [c]" by blast
    with message_1_agreement [OF _ _ exchange(1) [OF P] assms(4)] 1(2) msg1 have
      "r_g_x (rsp_state rsp1) = x25519_public E x" "r_c_i (rsp_state rsp1) = c_i" by fastforce+
    with 1 r1(1,2) th exchange(2) [OF P] show ?thesis by simp
  qed blast+
qed

text \<open>An initiator that completes agrees with a session of the responder whose key it checked.\<close>

lemma initiator_agrees:
  fixes E seed_i c_i x seed_r S
  assumes P: "primitives_ok E" and seeds: "length seed_i = 32" "length seed_r = 32"
    and ids: "length c_i \<le> 7" "\<forall>(c_r, y, m1) \<in> S. length c_r \<le> 7"
    and msg1: "create_message_1 (initiator_with_secret E seed_i c_i x) = (ini1, Ok msg1)"
    and run: "process_message_2 E ini1 msg2 (snd (key_from_seed E seed_r)) = (ini2, Ok msg3)"
  defines "st \<equiv> ini_state ini2" and "pk \<equiv> snd (key_from_seed E seed_r)"
  shows "forged E pk (\<Union>s \<in> S. signed_by_responder E (responder_session E seed_r s))
      (tbs_2 E (i_prk_3e2m st) (i_c_r st) pk (i_th_2 st)) (message_2_reading E ini1 msg2) \<or>
    (\<exists>c_r y m1. (c_r, y, m1) \<in> S \<and>
      (m1 = msg1 \<and> same_session E (c_i, x) st (c_r, y) (rsp_state (responder_session E seed_r (c_r, y, m1))) \<or>
       collides (sha256 (ec_base E)) (th_2_input E (i_g_y st) msg1) (th_2_input E (x25519_public E y) m1) \<or>
       collides (sha256 (ec_base E)) msg1 m1 \<or>
       collides (\<lambda>ctx. derived (ec_base E) (i_prk_3e2m st) LABEL_MAC_2 ctx 32)
         (mac_2_input E (i_c_r st) pk (i_th_2 st)) (mac_2_input E c_r pk (i_th_2 st))))"
    (is "forged E pk ?own ?m ?reading \<or> ?rest")
proof (cases "?m \<in> ?own")
  case False
  note pk = party_key_facts [OF P seed_key [OF seeds(2)], folded pk_def]
  note i1 = created_message_1 [OF P ids(1) msg1 seeds(1)]
  note i2 = completed_initiator [OF P pk(1) run [folded pk_def] i1(3), folded st_def]
  from i2(8) pk(3) i2(2,3) False have "forged E pk ?own ?m ?reading" by (auto simp: forged_def)
  then show ?thesis ..
next
  case True
  note pk = party_key_facts(1) [OF P seed_key [OF seeds(2)], folded pk_def]
  note i1 = created_message_1 [OF P ids(1) msg1 seeds(1)]
  note i2 = completed_initiator [OF P pk run [folded pk_def] i1(3), folded st_def]
  from True obtain c_r y m1 where s: "(c_r, y, m1) \<in> S"
    and m: "?m \<in> signed_by_responder E (responder_session E seed_r (c_r, y, m1))" by auto
  define rsp1 where "rsp1 = responder_session E seed_r (c_r, y, m1)"
  define rt where "rt = rsp_state rsp1"
  from s ids(2) have c_r: "length c_r \<le> 7" by auto
  from signed_responder [OF seeds(2) m] obtain m2 where
    r: "process_message_1 E (responder_with_secret E seed_r c_r y) m1 = (rsp1, Ok m2)" by (auto simp: rsp1_def)
  note r1 = replied_responder [OF P seeds(2) c_r r, folded rt_def, simplified, folded pk_def]
  have len: "length (i_th_2 st) = 32" "length (i_prk_3e2m st) = 32" "length (r_th_2 rt) = 32" "length (r_prk_3e2m rt) = 32"
    using i2(2,3) r1(1,2) th_lengths [OF P] by simp_all
  have "?m = tbs_2 E (r_prk_3e2m rt) c_r pk (r_th_2 rt)"
    using m r1(3-5) by (simp add: signed_by_responder_def rsp1_def [symmetric] rt_def)
  note t = tbs_2_inject [OF P pk len(1,3,2,4) i2(5) c_r this]
  have "th_2_of E (i_g_y st) msg1 = r_th_2 rt" using i2(2) t(1) i1(2) by (simp add: st_def)
  from same_transcript [OF P seeds(2) ids(1) c_r _ r i1(1), of "i_g_y st", folded rt_def, OF _ this] i2(1)
  consider (same) "i_g_y st = x25519_public E y" "m1 = msg1" "r_g_x rt = x25519_public E x" "r_c_i rt = c_i"
      "r_prk_3e2m rt = edhoc_extract (ec_base E) (th_2_of E (i_g_y st) msg1) (x25519 E x (i_g_y st))"
    | "collides (sha256 (ec_base E)) (th_2_input E (i_g_y st) msg1) (th_2_input E (x25519_public E y) m1)"
    | "collides (sha256 (ec_base E)) msg1 m1" by (auto simp: st_def)
  then have ?rest
  proof cases
    case same
    have prk: "i_prk_3e2m st = r_prk_3e2m rt" using i2(3) same(5) i1(2) by (simp add: st_def)
    show ?thesis
    proof (cases "i_c_r st = c_r")
      case True
      with same prk t(1) have
        "same_session E (c_i, x) st (c_r, y) (rsp_state (responder_session E seed_r (c_r, y, m1)))"
        by (simp add: same_session_def rt_def rsp1_def)
      with s same(2) show ?thesis by blast
    next
      case False
      then have "mac_2_input E (i_c_r st) pk (i_th_2 st) \<noteq> mac_2_input E c_r pk (i_th_2 st)"
        using mac_2_input_inject [OF _ i2(5) c_r] by blast
      with t prk have "collides (\<lambda>ctx. derived (ec_base E) (i_prk_3e2m st) LABEL_MAC_2 ctx 32)
         (mac_2_input E (i_c_r st) pk (i_th_2 st)) (mac_2_input E c_r pk (i_th_2 st))" by (simp add: collides_def)
      with s show ?thesis by blast
    qed
  qed (use s in blast)+
  then show ?thesis ..
qed

text \<open>A responder that completes agrees with a session of the initiator whose key it checked: that
  session has completed, with this responder's key.\<close>

lemma completed_responder:
  assumes P: "primitives_ok E" and pk: "length pk = 32" "verifying_key E pk = Some pk"
    and run: "process_message_3 E rsp1 msg3 pk = (rsp2, Ok u)"
  defines "st \<equiv> rsp_state rsp1"
  shows "\<exists>pt sig. message_3_reading E rsp1 msg3 = Some (pt, sig) \<and>
      verify_message E pk (tbs_3 E (r_prk_3e2m st) pk (r_th_3 st)) sig"
    and "r_prk_4e3m (rsp_state rsp2) = r_prk_3e2m st"
proof -
  have "process_message_3_with_credential E rsp1 msg3 (raw_peer E pk) = (rsp2, Ok u)"
    using run by (simp add: process_message_3_def raw_key_credential_peer [OF P pk(1)])
  from process_message_3_Ok [OF this, unfolded Let_def, folded st_def]
  show "\<exists>pt sig. message_3_reading E rsp1 msg3 = Some (pt, sig) \<and>
      verify_message E pk (tbs_3 E (r_prk_3e2m st) pk (r_th_3 st)) sig"
    and "r_prk_4e3m (rsp_state rsp2) = r_prk_3e2m st"
    using pk(2) by (auto simp: signed_3_def raw_peer_def tbs_3_def Let_def derived_def)
qed

lemma th_3_input_inject:
  assumes "th_3_input th pt pk = th_3_input th' pt' pk'" "length th = 32" "length th' = 32"
    and "length pt \<le> 128" "length pt' \<le> 128" "length pk = 32" "length pk' = 32"
  shows "th = th' \<and> pt = pt' \<and> pk = pk'"
proof -
  from bstr_bytes_inject [OF assms(1) [unfolded th_3_input_def]] assms(2,3) have t: "th = th'" and
    e: "bstr_bytes pt @ raw_credential pk = bstr_bytes pt' @ raw_credential pk'" by auto
  from bstr_bytes_inject [OF e] assms(4,5) have "pt = pt'" "raw_credential pk = raw_credential pk'" by auto
  with t raw_credential_inject assms(6,7) show ?thesis by blast
qed

lemma responder_agrees:
  fixes E seed_i seed_r c_r y S
  defines "rsp0 \<equiv> responder_with_secret E seed_r c_r y"
  assumes P: "primitives_ok E" and seeds: "length seed_i = 32" "length seed_r = 32"
    and ids: "length c_r \<le> 7" "\<not> negative_id c_r" "\<forall>(c_i, x, msg2, pk) \<in> S. length c_i \<le> 7 \<and> length pk = 32"
    and m1: "process_message_1 E rsp0 m1 = (rsp1, Ok m2)"
    and run: "process_message_3 E rsp1 msg3 (snd (key_from_seed E seed_i)) = (rsp2, Ok u)"
  defines "rt \<equiv> rsp_state rsp1" and "own \<equiv> snd (key_from_seed E seed_i)"
  defines "pt_r \<equiv> plain_2 E (r_prk_3e2m rt) c_r (rsp_privkey rsp0) (rsp_pubkey rsp0) (r_th_2 rt)"
  shows "forged E own (\<Union>s \<in> S. signed_by_initiator E (initiator_session E seed_i s))
      (tbs_3 E (r_prk_3e2m rt) own (r_th_3 rt)) (message_3_reading E rsp1 msg3) \<or>
    (\<exists>c_i x msg2 pk ini1 msg1 pt sig. (c_i, x, msg2, pk) \<in> S \<and>
      create_message_1 (initiator_with_secret E seed_i c_i x) = (ini1, Ok msg1) \<and>
      message_2_reading E ini1 msg2 = Some (pt, sig) \<and>
      (let st = ini_state (initiator_session E seed_i (c_i, x, msg2, pk)) in
       i_completed st \<and>
       (pk = rsp_pubkey rsp0 \<and> m1 = msg1 \<and> same_session E (c_i, x) st (c_r, y) rt \<and>
          i_th_3 st = r_th_3 rt \<and> i_prk_4e3m st = r_prk_4e3m (rsp_state rsp2) \<or>
        collides (sha256 (ec_base E)) (th_3_input (i_th_2 st) pt pk) (th_3_input (r_th_2 rt) pt_r (rsp_pubkey rsp0)) \<or>
        collides (sha256 (ec_base E)) (th_2_input E (i_g_y st) msg1) (th_2_input E (x25519_public E y) m1) \<or>
        collides (sha256 (ec_base E)) msg1 m1)))"
    (is "forged E own ?own ?m ?reading \<or> ?rest")
proof -
  note ipk = party_key_facts [OF P seed_key [OF seeds(1)], folded own_def]
  note key = seed_key [OF seeds(2), of E]
  note r1 = replied_responder [OF P seeds(2) ids(1) m1 [unfolded rsp0_def], folded rt_def rsp0_def]
  note r2 = completed_responder [OF P ipk(1,3) run [folded own_def], folded rt_def]
  have pk_r: "length (rsp_pubkey rsp0) = 32" using party_key_facts(1) [OF P key] by (simp add: rsp0_def)
  show ?thesis
  proof (cases "?m \<in> ?own")
    case False
    with r2(1) have "forged E own ?own ?m ?reading" by (auto simp: forged_def)
    then show ?thesis ..
  next
    case True
    then obtain c_i x msg2 pk where s: "(c_i, x, msg2, pk) \<in> S"
      and m: "?m \<in> signed_by_initiator E (initiator_session E seed_i (c_i, x, msg2, pk))" by auto
    from s ids(3) have c_i: "length c_i \<le> 7" and pk: "length pk = 32" by auto
    define ini2 where "ini2 = initiator_session E seed_i (c_i, x, msg2, pk)"
    define st where "st = ini_state ini2"
    from signed_initiator [OF P seeds(1) c_i m] obtain ini1 msg1 msg3' where
      c: "create_message_1 (initiator_with_secret E seed_i c_i x) = (ini1, Ok msg1)"
        "process_message_2 E ini1 msg2 pk = (ini2, Ok msg3')" by (auto simp: ini2_def)
    note i1 = created_message_1 [OF P c_i c(1) seeds(1)]
    note i2 = completed_initiator [OF P pk c(2) i1(3), folded st_def]
    from i2(8) obtain pt sig n where
      rd: "message_2_reading E ini1 msg2 = Some (pt, sig)" and
      pt: "length pt \<le> 128" "parse_identifier pt = Ok (i_c_r st, n)" and
      th_3: "i_th_3 st = sha256 (ec_base E) (th_3_input (i_th_2 st) pt pk)"
      using i2(2) by (auto simp: next_th_def th_3_input_def)
    have pt_r: "length pt_r \<le> 128" "r_th_3 rt = sha256 (ec_base E) (th_3_input (r_th_2 rt) pt_r (rsp_pubkey rsp0))"
      using length_plain_2(2) [OF P key ids(1)] r1(1,2,6)
      by (simp_all add: pt_r_def next_th_def th_3_input_def rsp0_def le_trans [of _ 85])
    have len: "length (i_th_2 st) = 32" "length (i_prk_4e3m st) = 32" "length (i_th_3 st) = 32"
      "length (r_th_2 rt) = 32" "length (r_prk_3e2m rt) = 32" "length (r_th_3 rt) = 32"
      using i2(2,4) r1(1,2,6) th_3 th_lengths [OF P] primitives(6) [OF P] by simp_all
    have "ini_pubkey ini2 = own" using i2(7) i1(6) by (simp add: own_def)
    then have "?m = tbs_3 E (i_prk_4e3m st) own (i_th_3 st)"
      using m i2(6) by (simp add: signed_by_initiator_def ini2_def [symmetric] st_def)
    from tbs_3_inject [OF P ipk(1) len(6,3,5,2) this] have eq: "i_th_3 st = r_th_3 rt" by simp
    have "pk = rsp_pubkey rsp0 \<and> m1 = msg1 \<and> same_session E (c_i, x) st (c_r, y) rt \<and>
          i_th_3 st = r_th_3 rt \<and> i_prk_4e3m st = r_prk_4e3m (rsp_state rsp2) \<or>
        collides (sha256 (ec_base E)) (th_3_input (i_th_2 st) pt pk) (th_3_input (r_th_2 rt) pt_r (rsp_pubkey rsp0)) \<or>
        collides (sha256 (ec_base E)) (th_2_input E (i_g_y st) msg1) (th_2_input E (x25519_public E y) m1) \<or>
        collides (sha256 (ec_base E)) msg1 m1"
    proof (cases "th_3_input (i_th_2 st) pt pk = th_3_input (r_th_2 rt) pt_r (rsp_pubkey rsp0)")
      case False
      with eq th_3 pt_r(2) show ?thesis by (simp add: collides_def)
    next
      case True
      from th_3_input_inject [OF True len(1,4) pt(1) pt_r(1) pk pk_r]
      have e: "i_th_2 st = r_th_2 rt" "pt = pt_r" "pk = rsp_pubkey rsp0" by blast+
      then have c_r: "i_c_r st = c_r"
        using pt(2) parse_identifier_bytes [OF ids(1,2)] by (simp add: pt_r_def plain_2_def)
      have "th_2_of E (i_g_y st) msg1 = r_th_2 rt" using e(1) i2(2) i1(2) by (simp add: st_def)
      from same_transcript [OF P seeds(2) c_i ids(1) _ m1 [unfolded rsp0_def] i1(1), of "i_g_y st", folded rt_def,
          OF _ this] i2(1)
      show ?thesis using c_r e eq r2(2) i2(3,4) i1(2) by (auto simp: same_session_def st_def)
    qed
    with s c(1) rd i2(6) show ?thesis unfolding ini2_def st_def Let_def by blast
  qed
qed

end
