(* ===== verification/EdhocInstances.thy ===== *)
theory EdhocInstances
  imports EdhocAgreement Instances
begin

text \<open>
  Concrete primitives for the witnesses of the handshake: a hash that pads, an extraction and an
  exchange that add bytes, a signature that is a checksum under the key. They keep the contracts the
  properties assume, which shows that those can hold together; they promise no secrecy.
\<close>

definition pad_32 :: "bytes \<Rightarrow> bytes" where
  "pad_32 bs = take 32 (bs @ replicate 32 0)"

definition toy_signature :: "bytes \<Rightarrow> bytes \<Rightarrow> bytes" where
  "toy_signature key m = checksum (key @ m) # replicate 63 0"

definition toy_edhoc :: edhoc_crypto where
  "toy_edhoc = \<lparr>
     ec_base = toy_crypto\<lparr>hkdf_extract := \<lambda>salt ikm. pad_32 (5 # ikm)\<rparr>,
     feature_schnorr48 = False,
     schnorr_keypair = \<lambda>seed. (seed, seed),
     schnorr_sign = \<lambda>key pub m. [],
     schnorr_verify = \<lambda>key m sig. False,
     schnorr_wipe = \<lambda>key. [],
     ed_public = pad_32,
     ed_sign = \<lambda>key m. toy_signature key m,
     ed_key_from_bytes = Some,
     ed_verify_strict = \<lambda>key m sig. sig = toy_signature key m,
     point_decompress = Some,
     point_is_identity = \<lambda>p. False,
     point_torsion_free = \<lambda>p. True,
     x25519_public = pad_32,
     x25519 = \<lambda>secret peer. map2 (+) (pad_32 secret) peer\<rparr>"

lemma length_pad_32 [simp]: "length (pad_32 bs) = 32"
  by (simp add: pad_32_def)

lemma pad_32_id: "length bs = 32 \<Longrightarrow> pad_32 bs = bs"
  by (simp add: pad_32_def)

lemma map2_add_commute: "map2 (+) xs ys = map2 (+) ys (xs :: bytes)"
  by (induction xs ys rule: list_induct2') (simp_all add: add.commute)

lemma toy_primitives: "primitives_ok toy_edhoc"
proof -
  have "hkdf_contract (ec_base toy_edhoc)"
    by (simp add: hkdf_contract_def toy_edhoc_def toy_crypto_def)
  moreover have "hash_contract (ec_base toy_edhoc)"
    by (simp add: hash_contract_def toy_edhoc_def toy_crypto_def min_def)
  moreover have "ccm_contract (ec_base toy_edhoc)"
    by (auto simp: ccm_contract_def toy_edhoc_def toy_crypto_def toy_tag_def)
  moreover have "signature_contract toy_edhoc"
    by (simp add: signature_contract_def toy_edhoc_def key_from_seed_def edwards_point_ok_def
        verifying_key_def sign_message_def verify_message_def sig_len_def toy_signature_def pad_32_id)
  moreover have "exchange_contract toy_edhoc"
    by (simp add: exchange_contract_def toy_edhoc_def map2_add_commute)
  ultimately show ?thesis by (simp add: primitives_ok_def)
qed

lemmas toy_edhoc_contracts = primitives(1,2) [OF toy_primitives]

text \<open>The key material of two parties.\<close>

definition toy_seed_i :: bytes where "toy_seed_i = replicate 32 1"
definition toy_seed_r :: bytes where "toy_seed_r = replicate 32 2"
definition toy_x :: bytes where "toy_x = replicate 32 3"
definition toy_y :: bytes where "toy_y = replicate 32 4"

lemma toy_seeds: "length toy_seed_i = 32" "length toy_seed_r = 32"
  by (simp_all add: toy_seed_i_def toy_seed_r_def)

lemma toy_shared: "x25519 toy_edhoc toy_x (x25519_public toy_edhoc toy_y) = replicate 32 7"
  by (simp add: toy_edhoc_def toy_x_def toy_y_def pad_32_id zip_replicate map_replicate)

lemma toy_session: "session_ok toy_edhoc toy_x toy_y [1] [2]"
proof -
  have "\<not> negative_id [1]" "\<not> negative_id [2]" by code_simp+
  moreover have "(7 :: u8) \<noteq> 0" "[1 :: u8] \<noteq> [2]" by simp_all
  ultimately show ?thesis by (simp add: session_ok_def toy_shared)
qed

lemma toy_prk: "foldl (OR) 0 (session_prk toy_edhoc toy_x toy_y [1]) \<noteq> 0"
proof -
  have "session_prk toy_edhoc toy_x toy_y [1] = pad_32 (5 # replicate 32 7)"
    unfolding session_prk_def toy_shared by (simp add: edhoc_extract_def toy_edhoc_def)
  moreover have "foldl (OR) 0 (pad_32 (5 # replicate 32 7)) \<noteq> 0" by code_simp
  ultimately show ?thesis by simp
qed

definition toy_initiator :: edhoc_initiator where
  "toy_initiator = initiator_with_secret toy_edhoc toy_seed_i [1] toy_x"

definition toy_responder :: edhoc_responder where
  "toy_responder = responder_with_secret toy_edhoc toy_seed_r [2] toy_y"

text \<open>The calls of a handshake that completes, with the public keys of the fresh parties.\<close>

lemma run_handshake_calls:
  assumes "run_handshake E ini0 rsp0 = Ok (ini, rsp)"
  obtains ini1 rsp1 msg1 msg2 msg3 where
    "create_message_1 ini0 = (ini1, Ok msg1)" "process_message_1 E rsp0 msg1 = (rsp1, Ok msg2)"
    "process_message_2 E ini1 msg2 (rsp_pubkey rsp1) = (ini, Ok msg3)"
    "process_message_3 E rsp1 msg3 (ini_pubkey ini) = (rsp, Ok ())"
proof -
  obtain ini1 r1 where 1: "create_message_1 ini0 = (ini1, r1)" by fastforce
  obtain msg1 where r1: "r1 = Ok msg1" using assms by (cases r1) (simp_all add: run_handshake_def 1)
  obtain rsp1 r2 where 2: "process_message_1 E rsp0 msg1 = (rsp1, r2)" by fastforce
  obtain msg2 where r2: "r2 = Ok msg2" using assms by (cases r2) (simp_all add: run_handshake_def 1 r1 2)
  obtain ini2 r3 where 3: "process_message_2 E ini1 msg2 (rsp_pubkey rsp1) = (ini2, r3)" by fastforce
  obtain msg3 where r3: "r3 = Ok msg3"
    using assms by (cases r3) (simp_all add: run_handshake_def 1 r1 2 r2 3)
  obtain rsp2 r4 where 4: "process_message_3 E rsp1 msg3 (ini_pubkey ini2) = (rsp2, r4)" by fastforce
  have "r4 = Ok () \<and> ini2 = ini \<and> rsp2 = rsp"
    using assms by (cases r4) (simp_all add: run_handshake_def 1 r1 2 r2 3 r3 4)
  with that 1 2 3 4 r1 r2 r3 show ?thesis by simp
qed

lemma toy_messages:
  obtains ini ini1 rsp rsp1 msg1 msg2 msg3 where
    "create_message_1 toy_initiator = (ini1, Ok msg1)"
    "process_message_1 toy_edhoc toy_responder msg1 = (rsp1, Ok msg2)"
    "process_message_2 toy_edhoc ini1 msg2 (rsp_pubkey toy_responder) = (ini, Ok msg3)"
    "process_message_3 toy_edhoc rsp1 msg3 (ini_pubkey toy_initiator) = (rsp, Ok ())"
proof -
  from run_handshake_fresh [OF toy_primitives toy_session toy_seeds, folded toy_initiator_def toy_responder_def]
  obtain ini rsp where "run_handshake toy_edhoc toy_initiator toy_responder = Ok (ini, rsp)" by blast
  from run_handshake_calls [OF this] obtain ini1 rsp1 msg1 msg2 msg3 where
    c: "create_message_1 toy_initiator = (ini1, Ok msg1)" "process_message_1 toy_edhoc toy_responder msg1 = (rsp1, Ok msg2)"
      "process_message_2 toy_edhoc ini1 msg2 (rsp_pubkey rsp1) = (ini, Ok msg3)"
      "process_message_3 toy_edhoc rsp1 msg3 (ini_pubkey ini) = (rsp, Ok ())" by metis
  have "rsp_pubkey rsp1 = rsp_pubkey toy_responder"
    using replied_responder(5) [OF toy_primitives toy_seeds(2) _ c(2) [unfolded toy_responder_def]]
    by (simp add: toy_responder_def)
  moreover have i: "ini_eph_secret ini1 = Some toy_x" "ini_pubkey ini1 = ini_pubkey toy_initiator"
    using created_message_1(3,6) [OF toy_primitives _ c(1) [unfolded toy_initiator_def] toy_seeds(1)]
    by (simp_all add: toy_initiator_def)
  moreover have "ini_pubkey ini = ini_pubkey ini1"
    using completed_initiator(7) [OF toy_primitives _ _ i(1)] c(3) calculation(1)
      party_key_facts(1) [OF toy_primitives seed_key [OF toy_seeds(2)]]
    by (simp add: toy_responder_def)
  ultimately show ?thesis using c that by simp
qed

lemma toy_calls:
  obtains ini ini1 rsp rsp1 msg1 msg2 msg3 peer_i peer_r where
    "create_message_1 toy_initiator = (ini1, Ok msg1)"
    "process_message_1 toy_edhoc toy_responder msg1 = (rsp1, Ok msg2)"
    "process_message_2_with_credential toy_edhoc ini1 msg2 peer_i = (ini, Ok msg3)"
    "process_message_3_with_credential toy_edhoc rsp1 msg3 peer_r = (rsp, Ok ())"
proof (rule toy_messages)
  fix ini ini1 rsp rsp1 msg1 msg2 msg3
  assume c: "create_message_1 toy_initiator = (ini1, Ok msg1)"
    "process_message_1 toy_edhoc toy_responder msg1 = (rsp1, Ok msg2)"
    "process_message_2 toy_edhoc ini1 msg2 (rsp_pubkey toy_responder) = (ini, Ok msg3)"
    "process_message_3 toy_edhoc rsp1 msg3 (ini_pubkey toy_initiator) = (rsp, Ok ())"
  with that [OF c(1,2)] show ?thesis
    by (auto simp: process_message_2_def process_message_3_def res_simps)
qed

end
