(* ===== verification/EdhocStates.thy ===== *)
theory EdhocStates
  imports EdhocInitiator EdhocResponder
begin

text \<open>
  What an error leaves behind in the structs of both parties: either the struct as it was, or one
  whose secrets are erased and that refuses everything from then on.
\<close>

subsection \<open>Failure\<close>

text \<open>A party whose private key was \<open>key\<close> and whose secrets are gone.\<close>

definition initiator_erased :: "edhoc_crypto \<Rightarrow> bytes \<Rightarrow> edhoc_initiator \<Rightarrow> bool" where
  "initiator_erased E key self \<longleftrightarrow>
     ini_privkey self = key_zeroize E key \<and> ini_eph_secret self = None \<and>
     i_lifecycle (ini_state self) = Failed \<and> \<not> i_completed (ini_state self) \<and>
     (\<forall>v \<in> {i_g_y (ini_state self), i_prk_2e (ini_state self), i_prk_3e2m (ini_state self),
           i_prk_4e3m (ini_state self), i_th_2 (ini_state self), i_th_3 (ini_state self),
           i_th_4 (ini_state self)}. v = replicate 32 0) \<and>
     set (i_msg1 (ini_state self)) \<subseteq> {0}"

definition responder_erased :: "edhoc_crypto \<Rightarrow> bytes \<Rightarrow> edhoc_responder \<Rightarrow> bool" where
  "responder_erased E key self \<longleftrightarrow>
     rsp_privkey self = key_zeroize E key \<and> rsp_eph_secret self = None \<and>
     r_lifecycle (rsp_state self) = Failed \<and> \<not> r_completed (rsp_state self) \<and>
     (\<forall>v \<in> {r_g_x (rsp_state self), r_prk_2e (rsp_state self), r_prk_3e2m (rsp_state self),
           r_prk_4e3m (rsp_state self), r_th_2 (rsp_state self), r_th_3 (rsp_state self),
           r_th_4 (rsp_state self)}. v = replicate 32 0) \<and>
     set (r_msg1 (rsp_state self)) \<subseteq> {0}"

lemma poison_erased:
  "ini_privkey ini = key \<Longrightarrow> initiator_erased E key (initiator_poison E ini)"
  "rsp_privkey rsp = key \<Longrightarrow> responder_erased E key (responder_poison E rsp)"
  by (auto simp: initiator_erased_def initiator_poison_def initiator_wipe_def initiator_state_zeroize_def
      responder_erased_def responder_poison_def responder_wipe_def responder_state_zeroize_def)

text \<open>Nothing succeeds on an erased party, and nothing is exported from it.\<close>

lemma erased_refuses:
  "initiator_erased E key ini \<Longrightarrow> snd (call_initiator E c ini) = [] \<and> initiator_export_oscore E ini = Err NoContext"
  "responder_erased E key rsp \<Longrightarrow> snd (call_responder E d rsp) = [] \<and> responder_export_oscore E rsp = Err NoContext"
  by (cases c; simp add: initiator_erased_def create_message_1_def begin_process_message_2_def
      finish_process_message_2_def initiator_export_oscore_def)
    (cases d; simp add: responder_erased_def process_message_1_def begin_process_message_3_def
      finish_process_message_3_def responder_export_oscore_def)

lemma initiator_settle_Err:
  "initiator_settle E self out = (self', Err e) \<Longrightarrow> initiator_erased E (ini_privkey self) self'"
  by (cases out; cases "snd out") (auto simp: initiator_settle_eq poison_erased)

lemma responder_settle_Err:
  "responder_settle E self out = (self', Err e) \<Longrightarrow> responder_erased E (rsp_privkey self) self'"
  by (cases out; cases "snd out") (auto simp: responder_settle_eq poison_erased)

lemma begin_process_message_2_Err:
  assumes "begin_process_message_2 E self msg2 = (self', Err e)"
  shows "self' = self \<or> initiator_erased E (ini_privkey self) self'"
  using assms
  by (auto simp: begin_process_message_2_def Let_def try_st_def poison_erased
      dest!: initiator_settle_Err split: if_splits res.splits prod.splits)

lemma process_message_2_Err:
  assumes "process_message_2_with_credential E self msg2 peer = (self', Err e)"
    and "\<not> i_completed (ini_state self)"
  shows "self' = self \<or> initiator_erased E (ini_privkey self) self' \<or>
    i_lifecycle (ini_state self') = PendingMessage2 \<and> \<not> i_completed (ini_state self') \<and>
      ini_eph_secret self' = None \<and> e = ESignatureVerification"
proof (cases "begin_process_message_2 E self msg2")
  case (Pair self1 r)
  show ?thesis
  proof (cases r)
    case (Ok p)
    from begin_process_message_2_Ok [OF Pair [unfolded Ok]] obtain c g_xy ct st st' where
      b: "message_2_body E c g_xy ct st = (st', Ok p)" "i_completed st = i_completed (ini_state self)"
      and s1: "self1 = self\<lparr>ini_eph_secret := None, ini_state := st'\<rparr>"
      by fastforce
    from message_2_body_Ok [OF b(1)] b(2) assms(2) s1
    have c: "\<not> i_completed (ini_state self1)" "i_lifecycle (ini_state self1) = PendingMessage2"
      "pm2_transcript_binding p = i_th_2 (ini_state self1)"
      by auto
    have f: "finish_process_message_2 E self1 p peer = (self', Err e)"
      using assms(1) Pair Ok by (simp add: process_message_2_with_credential_def)
    then show ?thesis
      using c s1 by (auto simp: finish_process_message_2_def dest: initiator_settle_Err split: if_splits)
  next
    case (Err e')
    with assms(1) Pair have "begin_process_message_2 E self msg2 = (self', Err e)"
      by (simp add: process_message_2_with_credential_def)
    from begin_process_message_2_Err [OF this] show ?thesis by blast
  qed (use assms(1) Pair in \<open>simp add: process_message_2_with_credential_def\<close>)
qed

lemma process_message_1_Err:
  assumes "process_message_1 E self msg1 = (self', Err e)"
  shows "(\<exists>g. self' = self\<lparr>rsp_state := (rsp_state self)\<lparr>r_g_x := g\<rparr>\<rparr>) \<or>
    responder_erased E (rsp_privkey self) self'"
proof -
  have same: "\<exists>g. s = s\<lparr>rsp_state := (rsp_state s)\<lparr>r_g_x := g\<rparr>\<rparr>" for s :: edhoc_responder
    by (rule exI [of _ "r_g_x (rsp_state s)"]) simp
  show ?thesis
    using assms
    by (auto simp: process_message_1_def Let_def try_st_def connection_id_from_u8_eq poison_erased
        intro: same dest!: responder_settle_Err split: if_splits res.splits prod.splits)
qed

lemma process_message_3_Err:
  assumes "process_message_3_with_credential E self msg3 peer = (self', Err e)"
  shows "self' = self \<and> r_lifecycle (rsp_state self) \<noteq> AwaitingMessage3 \<and> e = EInvalidState \<or>
    responder_erased E (rsp_privkey self) self'"
proof (cases "begin_process_message_3 E self msg3")
  case (Pair self1 r)
  show ?thesis
  proof (cases r)
    case (Ok p)
    from begin_process_message_3_Ok(2) [OF Pair [unfolded Ok]]
    have s1: "rsp_privkey self1 = rsp_privkey self" by auto
    have "finish_process_message_3 E self1 p peer = (self', Err e)"
      using assms Pair Ok by (simp add: process_message_3_with_credential_def)
    then show ?thesis
      using s1 by (auto simp: finish_process_message_3_def poison_erased
          dest: responder_settle_Err split: if_splits)
  next
    case (Err e')
    with assms Pair have "begin_process_message_3 E self msg3 = (self', Err e)"
      by (simp add: process_message_3_with_credential_def)
    then show ?thesis
      by (auto simp: begin_process_message_3_def dest: responder_settle_Err split: if_splits)
  qed (use assms Pair in \<open>simp add: process_message_3_with_credential_def\<close>)
qed

end
