(* ===== verification/CborItems.thy ===== *)
theory CborItems
  imports EdhocCredential
begin

text \<open>
  A grammar for the CBOR values that \<open>skip_cbor_value\<close> (\<^verbatim>\<open>src/edhoc/credential.rs\<close>) walks
  over when it skips a header it does not know: integers of up to two bytes, strings of up to 255
  bytes, and arrays of up to 255 elements, nested to any depth. The walk decides the grammar: it
  accepts exactly the prefixes that are values, and the depth of its recursion is the depth of the
  value, which is at most its length.
\<close>

subsection \<open>Heads\<close>

text \<open>The size of a value without elements, and the head of an array with its number of elements.\<close>

definition head_size :: "u8 \<Rightarrow> nat option" where
  "head_size b =
     (if b \<le> 0x17 then Some 1 else if b = 0x18 then Some 2 else if b = 0x19 then Some 3
      else if 0x20 \<le> b \<and> b \<le> 0x37 then Some 1 else if b = 0x38 then Some 2 else if b = 0x39 then Some 3
      else if 0x40 \<le> b \<and> b \<le> 0x57 then Some (1 + unat (b - 0x40))
      else if 0x60 \<le> b \<and> b \<le> 0x77 then Some (1 + unat (b - 0x60))
      else None)"

definition leaf_size :: "bytes \<Rightarrow> nat option" where
  "leaf_size data = (case data of
     [] \<Rightarrow> None
   | b # r \<Rightarrow>
       if b = 0x58 \<or> b = 0x78 then (case r of [] \<Rightarrow> None | n # _ \<Rightarrow> Some (2 + unat n))
       else head_size b)"

definition array_start :: "bytes \<Rightarrow> (nat \<times> nat) option" where
  "array_start data = (case data of
     [] \<Rightarrow> None
   | b # r \<Rightarrow>
       if 0x80 \<le> b \<and> b \<le> 0x97 then Some (1, unat (b - 0x80))
       else if b = 0x98 then (case r of [] \<Rightarrow> None | n # _ \<Rightarrow> Some (2, unat n))
       else None)"

text \<open>Items and sequences of items, with their depth.\<close>

inductive cbor_item :: "nat \<Rightarrow> bytes \<Rightarrow> bool"
  and cbor_items :: "nat \<Rightarrow> nat \<Rightarrow> bytes \<Rightarrow> bool" where
  leaf: "leaf_size bs = Some (length bs) \<Longrightarrow> cbor_item 0 bs"
| array: "array_start start = Some (length start, k) \<Longrightarrow> cbor_items d k bs \<Longrightarrow> cbor_item (Suc d) (start @ bs)"
| none: "cbor_items 0 0 []"
| more: "cbor_item d x \<Longrightarrow> cbor_items e k xs \<Longrightarrow> cbor_items (max d e) (Suc k) (x @ xs)"

lemma head_size_Some: "head_size b = Some n \<Longrightarrow> 1 \<le> n \<and> b < 0x80"
  by (auto simp: head_size_def word_le_nat_alt word_less_nat_alt split: if_splits)

lemma leaf_not_array: "leaf_size data = Some n \<Longrightarrow> array_start data = None"
  by (auto simp: leaf_size_def array_start_def word_le_nat_alt word_less_nat_alt byte_eq_iff
      dest!: head_size_Some split: list.splits if_splits)

lemma leaf_size_append:
  "leaf_size bs = Some n \<Longrightarrow> leaf_size (bs @ rest) = Some n"
  by (auto simp: leaf_size_def split: list.splits if_splits)

lemma array_start_append:
  "array_start bs = Some x \<Longrightarrow> array_start (bs @ rest) = Some x"
  by (auto simp: array_start_def split: list.splits if_splits)

lemma leaf_size_take:
  assumes "leaf_size data = Some n" "n \<le> length data"
  shows "leaf_size (take n data) = Some n" "1 \<le> n"
proof -
  show one: "1 \<le> n"
    using assms(1) by (auto simp: leaf_size_def dest: head_size_Some split: list.splits if_splits)
  then obtain m where "n = Suc m" by (cases n) auto
  then show "leaf_size (take n data) = Some n"
    using assms by (cases m) (auto simp: leaf_size_def split: list.splits if_splits)
qed

lemma array_start_take:
  assumes "array_start data = Some (h, k)"
  shows "array_start (take h data) = Some (h, k)" "1 \<le> h" "h \<le> length data"
  using assms by (auto simp: array_start_def split: if_splits list.splits)

subsection \<open>The walk in terms of the heads\<close>

lemma sized_one: "sized (b # r) (Suc 0) = Ok (Suc 0)"
  by (simp add: sized_def)

lemma skip_cbor_value_heads:
  "skip_cbor_value data =
    (case leaf_size data of
       Some n \<Rightarrow> sized data n
     | None \<Rightarrow> (case array_start data of
         Some (h, k) \<Rightarrow> skip_items data h k
       | None \<Rightarrow> Err EInvalidMessage))"
proof (cases data)
  case d: (Cons b r)
  show ?thesis
  proof (cases r)
    case r: Nil
    show ?thesis
      unfolding d r skip_cbor_value.simps [of "[b]"]
      by (simp add: leaf_size_def head_size_def array_start_def index_def sized_def Suc_le_eq)
  next
    case r: (Cons c r')
    show ?thesis
      unfolding d r skip_cbor_value.simps [of "b # c # r'"]
      by (simp add: leaf_size_def head_size_def array_start_def index_def sized_one)
  qed
qed (simp add: skip_cbor_value.simps leaf_size_def array_start_def)

subsection \<open>Values are accepted\<close>

lemma leaf_item_bounds: "leaf_size bs = Some (length bs) \<Longrightarrow> 1 \<le> length bs"
  using leaf_size_take(2) [of bs "length bs"] by simp

lemma cbor_item_depth:
  "cbor_item d x \<Longrightarrow> d \<le> length x"
  "cbor_items e k xs \<Longrightarrow> e \<le> length xs"
proof (induction rule: cbor_item_cbor_items.inducts)
  case (leaf bs)
  from leaf_item_bounds [OF this] show ?case by (cases bs) simp_all
next
  case (array start k d bs)
  from array_start_take(2) [OF array(1)] array(3) show ?case by simp
qed auto

lemma skip_accepts_items:
  "cbor_item d x \<Longrightarrow> skip_cbor_value (x @ rest) = Ok (length x)"
  "cbor_items e k xs \<Longrightarrow> skip_items (pre @ xs @ rest) (length pre) k = Ok (length pre + length xs)"
proof (induction arbitrary: rest and pre rest rule: cbor_item_cbor_items.inducts)
  case (leaf bs)
  then show ?case by (simp add: skip_cbor_value_heads leaf_size_append sized_def)
next
  case (array start k d bs)
  have a: "array_start (start @ bs @ rest) = Some (length start, k)" by (rule array_start_append [OF array(1)])
  then have "leaf_size (start @ bs @ rest) = None" using leaf_not_array by fastforce
  with a array(3) [of start rest] show ?case by (simp add: skip_cbor_value_heads)
next
  case (more d x e k xs)
  have "skip_items (pre @ (x @ xs) @ rest) (length pre) (Suc k) =
      and_then (skip_cbor_value (x @ xs @ rest)) (\<lambda>n. skip_items (pre @ (x @ xs) @ rest) (length pre + n) k)"
    by (subst skip_items_Suc) simp_all
  also have "\<dots> = skip_items ((pre @ x) @ xs @ rest) (length (pre @ x)) k"
    using more(3) [of "xs @ rest"] by simp
  finally show ?case using more(4) [of "pre @ x" rest] by simp
qed simp

subsection \<open>Only values are accepted\<close>

lemma drop_take_split:
  assumes "off + m \<le> n"
  shows "drop off (take n xs) = take m (drop off xs) @ drop (off + m) (take n xs)"
proof -
  have "drop off (take n xs) = take m (drop off (take n xs)) @ drop m (drop off (take n xs))"
    by (rule append_take_drop_id [symmetric])
  moreover have "take m (drop off (take n xs)) = take m (drop off xs)"
    using assms by (simp add: drop_take min_def)
  moreover have "drop m (drop off (take n xs)) = drop (off + m) (take n xs)"
    by (simp only: drop_drop add.commute)
  ultimately show ?thesis by (simp only:)
qed

lemma skip_items_value:
  assumes ih: "\<And>tl n. length tl < length data \<Longrightarrow> skip_cbor_value tl = Ok n \<Longrightarrow> \<exists>d. cbor_item d (take n tl)"
    and "1 \<le> off" "off \<le> length data" "skip_items data off k = Ok n"
  shows "off \<le> n \<and> n \<le> length data \<and> (\<exists>e. cbor_items e k (drop off (take n data)))"
  using assms(2-)
proof (induction k arbitrary: off)
  case 0
  then show ?case by (auto intro: none)
next
  case (Suc k)
  obtain m where m: "skip_cbor_value (drop off data) = Ok m" "skip_items data (off + m) k = Ok n"
    using Suc.prems(3) unfolding skip_items_Suc [OF Suc.prems(2)] by (auto simp: res_simps)
  note r = skip_cbor_value_Ok [OF m(1)]
  have "length (drop off data) < length data" using Suc.prems(1,2) by simp
  from ih [OF this m(1)] obtain d where d: "cbor_item d (take m (drop off data))" by blast
  have "1 \<le> off + m" "off + m \<le> length data" using r Suc.prems(1,2) by auto
  from Suc.IH [OF this m(2)] obtain e where
    e: "off + m \<le> n" "n \<le> length data" "cbor_items e k (drop (off + m) (take n data))" by blast
  have "drop off (take n data) = take m (drop off data) @ drop (off + m) (take n data)"
    by (rule drop_take_split [OF e(1)])
  with more [OF d e(3)] e(1,2) show ?case by auto
qed

lemma skip_value:
  "skip_cbor_value data = Ok n \<Longrightarrow> \<exists>d. cbor_item d (take n data)"
proof (induction "length data" arbitrary: data n rule: less_induct)
  case less
  show ?case
  proof (cases "leaf_size data")
    case (Some m)
    with less.prems have m: "m = n" "n \<le> length data"
      by (auto simp: skip_cbor_value_heads sized_def split: if_splits)
    from leaf_size_take(1) [OF Some [unfolded m(1)] m(2)] m(2) have "cbor_item 0 (take n data)"
      by (intro leaf) simp
    then show ?thesis by blast
  next
    case None
    with less.prems obtain h k where a: "array_start data = Some (h, k)" "skip_items data h k = Ok n"
      by (auto simp: skip_cbor_value_heads split: option.splits)
    note h = array_start_take [OF a(1)]
    have ih: "\<exists>d. cbor_item d (take n tl)" if "length tl < length data" "skip_cbor_value tl = Ok n" for tl n
      using less.hyps that by blast
    from skip_items_value [OF ih h(2,3) a(2)] obtain e where
      e: "h \<le> n" "n \<le> length data" "cbor_items e k (drop h (take n data))" by blast
    have "array_start (take h data) = Some (length (take h data), k)" using h by simp
    from array [OF this e(3)] have "cbor_item (Suc e) (take h data @ drop h (take n data))" .
    moreover have "take h data @ drop h (take n data) = take n data"
      using e(1) by (metis append_take_drop_id min.absorb1 take_take)
    ultimately show ?thesis by metis
  qed
qed

text \<open>The walk decides the grammar.\<close>

lemma skip_cbor_value_decides:
  "skip_cbor_value data = Ok n \<longleftrightarrow> n \<le> length data \<and> (\<exists>d. cbor_item d (take n data))"
proof
  assume "skip_cbor_value data = Ok n"
  with skip_cbor_value_Ok skip_value show "n \<le> length data \<and> (\<exists>d. cbor_item d (take n data))" by blast
next
  assume r: "n \<le> length data \<and> (\<exists>d. cbor_item d (take n data))"
  then obtain d where "cbor_item d (take n data)" by blast
  from skip_accepts_items(1) [OF this, of "drop n data"] r show "skip_cbor_value data = Ok n" by simp
qed

end
