(* ===== verification/EdhocProperties.thy ===== *)
theory EdhocProperties
  imports EdhocInstances EdhocStates CborItems Protocol
begin

text \<open>
  The properties of the EDHOC handshake (\<^verbatim>\<open>src/edhoc/\<close>), each with a witness on the
  concrete instances where it has hypotheses.
\<close>

subsection \<open>The handshake\<close>

lemma session_prk_length: "primitives_ok E \<Longrightarrow> length (session_prk E x y c_i) = 32"
  by (simp add: session_prk_def th_lengths)

text \<open>C5: Take a fresh initiator and a fresh responder, each with a seed of 32 bytes, whose identifiers
  differ, where \<open>C_I\<close> is one byte, \<open>C_R\<close> has up to seven, neither is a single byte from 0x20 to 0x37,
  and whose shared secret is not zero (C40 says what happens to other identifiers and to a zero
  secret). Under the contracts of the primitives, if they exchange their three messages, both
  complete: every call succeeds, the two end with the same key and the same last transcript hash, and
  either that key is zero and both refuse to export, or they export mirrored, well-formed, inactive
  contexts in which each sends under the identifier the other chose.\<close>

theorem handshake_agreement:
  assumes "primitives_ok E" "session_ok E x y c_i c_r" "length seed_i = 32" "length seed_r = 32"
  shows "\<exists>ini rsp. run_handshake E (initiator_with_secret E seed_i c_i x) (responder_with_secret E seed_r c_r y) =
      Ok (ini, rsp) \<and>
    i_lifecycle (ini_state ini) = Complete \<and> r_lifecycle (rsp_state rsp) = Complete \<and>
    i_prk_4e3m (ini_state ini) = r_prk_4e3m (rsp_state rsp) \<and>
    i_th_4 (ini_state ini) = r_th_4 (rsp_state rsp) \<and>
    (if foldl (OR) 0 (session_prk E x y c_i) = 0
     then initiator_export_oscore E ini = Err NoContext \<and> responder_export_oscore E rsp = Err NoContext
     else \<exists>c d. initiator_export_oscore E ini = Ok c \<and> responder_export_oscore E rsp = Ok d \<and>
       mirrored c d \<and> wf_context c \<and> wf_context d \<and> \<not> ctx_active c \<and> \<not> ctx_active d \<and>
       sender_id c = c_r \<and> recipient_id c = c_i)"
proof -
  from run_handshake_fresh [OF assms] obtain ini rsp th_4 where
    run: "run_handshake E (initiator_with_secret E seed_i c_i x) (responder_with_secret E seed_r c_r y) = Ok (ini, rsp)"
    and s: "length th_4 = 32" "i_th_4 (ini_state ini) = th_4" "r_th_4 (rsp_state rsp) = th_4"
      "i_prk_4e3m (ini_state ini) = session_prk E x y c_i" "r_prk_4e3m (rsp_state rsp) = session_prk E x y c_i"
      "i_lifecycle (ini_state ini) = Complete" "r_lifecycle (rsp_state rsp) = Complete"
      "i_completed (ini_state ini)" "r_completed (rsp_state rsp)"
      "ini_c_i ini = c_i" "i_c_r (ini_state ini) = c_r" "rsp_c_r rsp = c_r" "r_c_i (rsp_state rsp) = c_i"
    by blast
  have ids: "length c_i \<le> 7" "length c_r \<le> 7" "c_i \<noteq> c_r" using assms(2) by (simp_all add: session_ok_def)
  obtain c d where e: "export_context (ec_base E) (session_prk E x y c_i) th_4 c_r c_i = Ok c"
    "export_context (ec_base E) (session_prk E x y c_i) th_4 c_i c_r = Ok d"
    "mirrored c d" "wf_context c" "wf_context d" "sender_id c = c_r" "recipient_id c = c_i"
    "\<not> ctx_active c" "\<not> ctx_active d"
    by (rule export_pair [OF assms(1) session_prk_length [OF assms(1), of x y c_i] s(1) ids])
  show ?thesis
    by (intro exI conjI, rule run)
      (use s e in \<open>simp_all add: initiator_export_oscore_def responder_export_oscore_def\<close>)
qed

theorem handshake_agreement_witness:
  "\<exists>ini rsp c d. run_handshake toy_edhoc toy_initiator toy_responder = Ok (ini, rsp) \<and>
    initiator_export_oscore toy_edhoc ini = Ok c \<and> responder_export_oscore toy_edhoc rsp = Ok d \<and>
    mirrored c d \<and> sender_id c = [2] \<and> recipient_id c = [1]"
  using handshake_agreement [OF toy_primitives toy_session toy_seeds] toy_prk
  unfolding toy_initiator_def toy_responder_def by (simp only: if_False) blast

text \<open>C16: What the handshake exports works. After a handshake of fresh parties with identifiers and a
  shared secret as in C5 (they differ, \<open>C_I\<close> is one byte, \<open>C_R\<close> has up to seven, neither is a single
  byte from 0x20 to 0x37, the secret is not zero), under the contracts of the primitives, either party
  protects a request with any 40-bit sequence number under its exported context, and the other party's
  exported context decrypts it to exactly what went in, if the options are a well-formed list of up to
  128 bytes, the payload has up to 128 bytes, and code, options, marker and payload together up to
  256.\<close>

theorem handshake_then_request:
  assumes "primitives_ok E" "session_ok E x y c_i c_r" "length seed_i = 32" "length seed_r = 32"
    and "run_handshake E (initiator_with_secret E seed_i c_i x) (responder_with_secret E seed_r c_r y) = Ok (ini, rsp)"
    and "initiator_export_oscore E ini = Ok c" "responder_export_oscore E rsp = Ok d"
    and "seq_wf s" "body_ok opts payload" "length (plaintext_of code opts payload) \<le> 256"
  shows "(\<exists>ct opt. protect_request_reserved (ec_base E) c s code opts payload = Ok (ct, opt) \<and>
      unprotect_request oc (ec_base E) d opt ct = (update_replay_window d s, Ok (code, opts, payload))) \<and>
    (\<exists>ct opt. protect_request_reserved (ec_base E) d s code opts payload = Ok (ct, opt) \<and>
      unprotect_request oc (ec_base E) c opt ct = (update_replay_window c s, Ok (code, opts, payload)))"
proof -
  let ?prk = "session_prk E x y c_i"
  from run_handshake_fresh [OF assms(1-4)] assms(5) obtain th_4 where
    s: "length th_4 = 32" "i_th_4 (ini_state ini) = th_4" "r_th_4 (rsp_state rsp) = th_4"
      "i_prk_4e3m (ini_state ini) = ?prk" "r_prk_4e3m (rsp_state rsp) = ?prk"
      "ini_c_i ini = c_i" "i_c_r (ini_state ini) = c_r" "rsp_c_r rsp = c_r" "r_c_i (rsp_state rsp) = c_i"
    by auto
  have ids: "length c_i \<le> 7" "length c_r \<le> 7" "c_i \<noteq> c_r" using assms(2) by (simp_all add: session_ok_def)
  obtain c' d' where e: "export_context (ec_base E) ?prk th_4 c_r c_i = Ok c'"
    "export_context (ec_base E) ?prk th_4 c_i c_r = Ok d'" "mirrored c' d'" "wf_context c'" "wf_context d'"
    and w: "\<not> is_replay c' s" "\<not> is_replay d' s"
    by (rule export_pair [OF assms(1) session_prk_length [OF assms(1), of x y c_i] s(1) ids]) simp
  from assms(6,7) s e(1,2) have [simp]: "c' = c" "d' = d"
    by (simp_all add: initiator_export_oscore_def responder_export_oscore_def Let_def split: if_splits)
  have trip: "\<exists>ct opt. protect_request_reserved (ec_base E) a s code opts payload = Ok (ct, opt) \<and>
      unprotect_request oc (ec_base E) b opt ct = (update_replay_window b s, Ok (code, opts, payload))"
    if a: "wf_context a" and b: "wf_context b" "mirrored a b" "\<not> is_replay b s" for a b
  proof -
    note ccm = primitives(3) [OF assms(1)]
    obtain ct opt where p: "protect_request_reserved (ec_base E) a s code opts payload = Ok (ct, opt)"
      using assms(10) by (auto simp: protect_request_eq [OF a assms(8) ccm])
    from request_round_trip [OF a b(1,2) assms(8) ccm b(3) assms(9,10) p] p show ?thesis by blast
  qed
  from trip [of c d] trip [of d c] e(3-5) mirrored_sym [OF e(3)] w show ?thesis by simp
qed

theorem handshake_then_request_witness:
  "\<exists>ini rsp c d ct opt. run_handshake toy_edhoc toy_initiator toy_responder = Ok (ini, rsp) \<and>
    initiator_export_oscore toy_edhoc ini = Ok c \<and> responder_export_oscore toy_edhoc rsp = Ok d \<and>
    protect_request_reserved (ec_base toy_edhoc) c (OscoreSeqNum 0) 1 [] [] = Ok (ct, opt) \<and>
    unprotect_request True (ec_base toy_edhoc) d opt ct = (update_replay_window d (OscoreSeqNum 0), Ok (1, [], []))"
proof -
  from run_handshake_fresh [OF toy_primitives toy_session toy_seeds, folded toy_initiator_def toy_responder_def]
  obtain ini rsp th_4 where run: "run_handshake toy_edhoc toy_initiator toy_responder = Ok (ini, rsp)"
    and s: "length th_4 = 32" "i_th_4 (ini_state ini) = th_4" "r_th_4 (rsp_state rsp) = th_4"
      "i_prk_4e3m (ini_state ini) = session_prk toy_edhoc toy_x toy_y [1]"
      "r_prk_4e3m (rsp_state rsp) = session_prk toy_edhoc toy_x toy_y [1]"
      "i_completed (ini_state ini)" "r_completed (rsp_state rsp)"
      "ini_c_i ini = [1]" "i_c_r (ini_state ini) = [2]" "rsp_c_r rsp = [2]" "r_c_i (rsp_state rsp) = [1]"
    by blast
  obtain c d where "initiator_export_oscore toy_edhoc ini = Ok c" "responder_export_oscore toy_edhoc rsp = Ok d"
    by (rule export_pair [OF toy_primitives session_prk_length [OF toy_primitives, of toy_x toy_y "[1]"] s(1), of "[1]" "[2]"])
      (use s toy_prk in \<open>simp_all add: initiator_export_oscore_def responder_export_oscore_def\<close>)
  moreover have "seq_wf (OscoreSeqNum 0)" "body_ok [] []" "length (plaintext_of 1 [] []) \<le> 256"
    by (simp_all add: seq_wf_def body_ok_def parse_inner_body_def parse_loop_end length_plaintext_of)
  ultimately show ?thesis
    using handshake_then_request [OF toy_primitives toy_session toy_seeds run [unfolded toy_initiator_def toy_responder_def],
        of c d "OscoreSeqNum 0" "[]" "[]" 1 True] run
    by blast
qed

subsection \<open>Authentication\<close>

text \<open>C12: An initiator completes only on a message 2 that it decrypted with its own ephemeral secret
  to an identifier other than its own, to the identifier of the credential it was given, and to a
  signature that the credential's key, a valid point, made over the transcript of its own message 1,
  the credential and the MAC of the derived key; the key it exports from is the one derived there.\<close>

theorem initiator_authenticates:
  assumes "process_message_2_with_credential E self msg2 peer = (self', Ok msg3)"
  shows "\<exists>eph g_y ct ks pt c_r idc off sig n. let C = ec_base E;
      th_2 = sha256 C (bstr_bytes g_y @ bstr_bytes (sha256 C (i_msg1 (ini_state self))));
      prk = edhoc_extract C th_2 (x25519 E eph g_y) in
    i_lifecycle (ini_state self) = Message1Created \<and> ini_eph_secret self = Some eph \<and>
    message_2_parts E msg2 = Ok (g_y, ct) \<and> x25519 E eph g_y \<noteq> replicate 32 0 \<and>
    kdf_spec C prk LABEL_KEYSTREAM_2 th_2 (length ct) = Some ks \<and> xor_keystream 128 ks 0 [] ct = Ok pt \<and>
    plaintext_2_parts E (ini_c_i self) pt = Ok (c_r, idc, off) \<and> c_r \<noteq> ini_c_i self \<and>
    parse_bstr (drop off pt) = Ok (sig, n) \<and> pc_id_cred peer = idc_encoded idc \<and>
    signed_2 E prk c_r (pc_id_cred peer) th_2 (pc_credential peer) (pc_public_key peer) sig \<and>
    i_c_r (ini_state self') = c_r \<and> i_prk_4e3m (ini_state self') = prk \<and>
    i_completed (ini_state self') \<and> ini_eph_secret self' = None"
  using process_message_2_Ok [OF assms] plaintext_2_parts_Ok(1) unfolding Let_def by metis

theorem initiator_authenticates_witness:
  "\<exists>self msg2 peer self' msg3 prk c_r th_2 sig.
    process_message_2_with_credential toy_edhoc self msg2 peer = (self', Ok msg3) \<and>
    signed_2 toy_edhoc prk c_r (pc_id_cred peer) th_2 (pc_credential peer) (pc_public_key peer) sig \<and>
    i_prk_4e3m (ini_state self') = prk \<and> i_completed (ini_state self')"
proof -
  obtain self msg2 peer self' msg3 where
    "process_message_2_with_credential toy_edhoc self msg2 peer = (self', Ok msg3)"
    by (rule toy_calls)
  with initiator_authenticates [OF this] show ?thesis unfolding Let_def by metis
qed

text \<open>C13: A responder completes only on a message 3 that opens under the keys and the transcript of
  its own message 2, to the identifier of the credential it was given and a signature that the
  credential's key made over that transcript, the credential and the MAC; nothing follows the
  signature, and the last transcript hash covers the plaintext and the credential.\<close>

theorem responder_authenticates:
  assumes "process_message_3_with_credential E self msg3 peer = (self', Ok u)"
  shows "\<exists>pt idc off sig n. let C = ec_base E; st = rsp_state self in
    r_lifecycle st = AwaitingMessage3 \<and> opens_3 C (r_prk_3e2m st) (r_th_3 st) msg3 pt \<and>
    parse_id_cred pt = Ok (idc, off) \<and> parse_bstr (drop off pt) = Ok (sig, n) \<and>
    off + n = length pt \<and> pc_id_cred peer = idc_encoded idc \<and>
    signed_3 E (r_prk_3e2m st) (pc_id_cred peer) (r_th_3 st) (pc_credential peer) (pc_public_key peer) sig \<and>
    r_prk_4e3m (rsp_state self') = r_prk_3e2m st \<and>
    r_th_4 (rsp_state self') = sha256 C (bstr_bytes (r_th_3 st) @ bstr_bytes pt @ pc_credential peer) \<and>
    r_c_i (rsp_state self') = r_c_i st \<and> r_completed (rsp_state self')"
  using process_message_3_Ok [OF assms] unfolding Let_def by blast

theorem responder_authenticates_witness:
  "\<exists>self msg3 peer self' pt sig.
    process_message_3_with_credential toy_edhoc self msg3 peer = (self', Ok ()) \<and>
    opens_3 (ec_base toy_edhoc) (r_prk_3e2m (rsp_state self)) (r_th_3 (rsp_state self)) msg3 pt \<and>
    signed_3 toy_edhoc (r_prk_3e2m (rsp_state self)) (pc_id_cred peer) (r_th_3 (rsp_state self))
      (pc_credential peer) (pc_public_key peer) sig \<and> r_completed (rsp_state self')"
proof -
  obtain self msg3 peer self' where
    "process_message_3_with_credential toy_edhoc self msg3 peer = (self', Ok ())"
    by (rule toy_calls)
  with responder_authenticates [OF this] show ?thesis unfolding Let_def by metis
qed

subsection \<open>Agreement under an active attacker\<close>

text \<open>C6: An initiator that completes with a responder's public key agrees with one of the sessions
  in which that key is used, whatever message 1 reached each of those sessions and whoever wrote
  message 2: the session answered the initiator's own message 1, and the two hold each other's
  ephemeral public values and identifiers, the same transcript hash and the same key. Otherwise the
  run holds a break of a primitive: the signature read from message 2 verifies on a message whose
  signature no session of the key released, or the hash or the MAC collides on the inputs that are
  named.\<close>

theorem initiator_agreement:
  assumes "primitives_ok E" "length seed_i = 32" "length seed_r = 32"
    and "length c_i \<le> 7" "\<forall>(c_r, y, m1) \<in> S. length c_r \<le> 7"
    and "create_message_1 (initiator_with_secret E seed_i c_i x) = (ini1, Ok msg1)"
    and "process_message_2 E ini1 msg2 (snd (key_from_seed E seed_r)) = (ini2, Ok msg3)"
  shows "let st = ini_state ini2; pk = snd (key_from_seed E seed_r) in
    forged E pk (\<Union>s \<in> S. signed_by_responder E (responder_session E seed_r s))
      (tbs_2 E (i_prk_3e2m st) (i_c_r st) pk (i_th_2 st)) (message_2_reading E ini1 msg2) \<or>
    (\<exists>c_r y m1. (c_r, y, m1) \<in> S \<and>
      (m1 = msg1 \<and> same_session E (c_i, x) st (c_r, y) (rsp_state (responder_session E seed_r (c_r, y, m1))) \<or>
       collides (sha256 (ec_base E)) (th_2_input E (i_g_y st) msg1) (th_2_input E (x25519_public E y) m1) \<or>
       collides (sha256 (ec_base E)) msg1 m1 \<or>
       collides (\<lambda>ctx. derived (ec_base E) (i_prk_3e2m st) LABEL_MAC_2 ctx 32)
         (mac_2_input E (i_c_r st) pk (i_th_2 st)) (mac_2_input E c_r pk (i_th_2 st))))"
  unfolding Let_def by (rule initiator_agrees [OF assms])

theorem initiator_agreement_witness:
  "\<exists>ini1 ini2 msg1 msg2 msg3 st pk. create_message_1 toy_initiator = (ini1, Ok msg1) \<and>
    process_message_2 toy_edhoc ini1 msg2 pk = (ini2, Ok msg3) \<and> st = ini_state ini2 \<and> pk = rsp_pubkey toy_responder \<and>
    (forged toy_edhoc pk (signed_by_responder toy_edhoc (responder_session toy_edhoc toy_seed_r ([2], toy_y, msg1)))
       (tbs_2 toy_edhoc (i_prk_3e2m st) (i_c_r st) pk (i_th_2 st)) (message_2_reading toy_edhoc ini1 msg2) \<or>
     same_session toy_edhoc ([1], toy_x) st ([2], toy_y)
       (rsp_state (responder_session toy_edhoc toy_seed_r ([2], toy_y, msg1))) \<or>
     collides (sha256 (ec_base toy_edhoc)) (th_2_input toy_edhoc (i_g_y st) msg1)
       (th_2_input toy_edhoc (x25519_public toy_edhoc toy_y) msg1) \<or>
     collides (\<lambda>ctx. derived (ec_base toy_edhoc) (i_prk_3e2m st) LABEL_MAC_2 ctx 32)
       (mac_2_input toy_edhoc (i_c_r st) pk (i_th_2 st)) (mac_2_input toy_edhoc [2] pk (i_th_2 st)))"
proof (rule toy_messages)
  fix ini1 ini2 rsp1 rsp2 msg1 msg2 msg3
  assume c: "create_message_1 toy_initiator = (ini1, Ok msg1)"
    "process_message_2 toy_edhoc ini1 msg2 (rsp_pubkey toy_responder) = (ini2, Ok msg3)"
  have pk: "rsp_pubkey toy_responder = snd (key_from_seed toy_edhoc toy_seed_r)" by (simp add: toy_responder_def)
  have "\<not> collides (sha256 (ec_base toy_edhoc)) msg1 msg1" by (simp add: collides_def)
  with initiator_agreement [OF toy_primitives toy_seeds _ _ c(1) [unfolded toy_initiator_def] c(2) [unfolded pk],
      of "{([2], toy_y, msg1)}"] c pk
  show ?thesis unfolding Let_def by (simp del: split_paired_Ex) blast
qed

text \<open>C7: A responder whose own identifier has up to seven bytes and is not a single byte from 0x20 to
  0x37 (initiators read those 24 as other identifiers, C40), and that completes with an initiator's
  public key (both keys come from seeds of 32 bytes), agrees, under the contracts of the primitives,
  with one of the sessions in which that key is used, each with an identifier of up to seven bytes and
  a responder key of 32, whoever wrote message 1 and message 3, and whatever message 2 and
  whatever responder key each of those sessions was given: the session completed, with this
  responder's key and its answer to this message 1, and the two hold each other's ephemeral public
  values and identifiers, the same transcript hashes and the same key. Otherwise the signature read
  from message 3 is a forgery, or the hash collides on the inputs that are named.\<close>

theorem responder_agreement:
  assumes "primitives_ok E" "length seed_i = 32" "length seed_r = 32" "length c_r \<le> 7" "\<not> negative_id c_r"
    and "\<forall>(c_i, x, msg2, pk) \<in> S. length c_i \<le> 7 \<and> length pk = 32"
    and "process_message_1 E (responder_with_secret E seed_r c_r y) m1 = (rsp1, Ok m2)"
    and "process_message_3 E rsp1 msg3 (snd (key_from_seed E seed_i)) = (rsp2, Ok u)"
  shows "let rt = rsp_state rsp1; own = snd (key_from_seed E seed_i); (sk_r, pk_r) = key_from_seed E seed_r in
    forged E own (\<Union>s \<in> S. signed_by_initiator E (initiator_session E seed_i s))
      (tbs_3 E (r_prk_3e2m rt) own (r_th_3 rt)) (message_3_reading E rsp1 msg3) \<or>
    (\<exists>c_i x msg2 pk ini1 msg1 pt sig. (c_i, x, msg2, pk) \<in> S \<and>
      create_message_1 (initiator_with_secret E seed_i c_i x) = (ini1, Ok msg1) \<and>
      message_2_reading E ini1 msg2 = Some (pt, sig) \<and>
      (let st = ini_state (initiator_session E seed_i (c_i, x, msg2, pk)) in
       i_completed st \<and>
       (pk = pk_r \<and> m1 = msg1 \<and> same_session E (c_i, x) st (c_r, y) rt \<and>
          i_th_3 st = r_th_3 rt \<and> i_prk_4e3m st = r_prk_4e3m (rsp_state rsp2) \<or>
        collides (sha256 (ec_base E)) (th_3_input (i_th_2 st) pt pk)
          (th_3_input (r_th_2 rt) (plain_2 E (r_prk_3e2m rt) c_r sk_r pk_r (r_th_2 rt)) pk_r) \<or>
        collides (sha256 (ec_base E)) (th_2_input E (i_g_y st) msg1) (th_2_input E (x25519_public E y) m1) \<or>
        collides (sha256 (ec_base E)) msg1 m1)))"
  using responder_agrees [OF assms] unfolding Let_def by (simp only: party_keys case_prod_beta)

theorem responder_agreement_witness:
  "\<exists>rsp1 rsp2 msg1 msg2 msg3 rt own. process_message_1 toy_edhoc toy_responder msg1 = (rsp1, Ok msg2) \<and>
    process_message_3 toy_edhoc rsp1 msg3 own = (rsp2, Ok ()) \<and> rt = rsp_state rsp1 \<and> own = ini_pubkey toy_initiator \<and>
    (forged toy_edhoc own
       (signed_by_initiator toy_edhoc (initiator_session toy_edhoc toy_seed_i ([1], toy_x, msg2, rsp_pubkey toy_responder)))
       (tbs_3 toy_edhoc (r_prk_3e2m rt) own (r_th_3 rt)) (message_3_reading toy_edhoc rsp1 msg3) \<or>
     i_completed (ini_state (initiator_session toy_edhoc toy_seed_i ([1], toy_x, msg2, rsp_pubkey toy_responder))))"
proof (rule toy_messages)
  fix ini1 ini2 rsp1 rsp2 msg1 msg2 msg3
  assume c: "process_message_1 toy_edhoc toy_responder msg1 = (rsp1, Ok msg2)"
    "process_message_3 toy_edhoc rsp1 msg3 (ini_pubkey toy_initiator) = (rsp2, Ok ())"
  have pk: "ini_pubkey toy_initiator = snd (key_from_seed toy_edhoc toy_seed_i)" by (simp add: toy_initiator_def)
  have r: "length (rsp_pubkey toy_responder) = 32"
    using party_key_facts(1) [OF toy_primitives seed_key [OF toy_seeds(2)]] by (simp add: toy_responder_def)
  have "\<not> negative_id [2]" by code_simp
  from responder_agreement [OF toy_primitives toy_seeds _ this _ c(1) [unfolded toy_responder_def] c(2) [unfolded pk],
      of "{([1], toy_x, msg2, rsp_pubkey toy_responder)}"] c pk r
  show ?thesis unfolding Let_def case_prod_beta by (simp del: split_paired_Ex) blast
qed

subsection \<open>Order of the calls\<close>

lemma initiator_lifecycle:
  assumes "run_calls (call_initiator E) cs (initiator_with_secret E seed c_i eph) = (self, ss)"
  shows "(\<exists>n. ss = take n [FirstStep, SecondStep, ThirdStep]) \<and>
    (i_completed (ini_state self) \<longleftrightarrow> i_lifecycle (ini_state self) = Complete) \<and>
    ((\<exists>c. initiator_export_oscore E self = Ok c) \<longrightarrow> ss = [FirstStep, SecondStep, ThirdStep])"
  using initiator.run_from_created [OF initiator_fresh assms]
  by (auto simp: initiator_export_oscore_def Let_def split: if_splits)

lemma responder_lifecycle:
  assumes "run_calls (call_responder E) cs (responder_with_secret E seed c_r eph) = (self, ss)"
  shows "(\<exists>n. ss = take n [FirstStep, SecondStep, ThirdStep]) \<and>
    (r_completed (rsp_state self) \<longleftrightarrow> r_lifecycle (rsp_state self) = Complete) \<and>
    ((\<exists>c. responder_export_oscore E self = Ok c) \<longrightarrow> ss = [FirstStep, SecondStep, ThirdStep])"
  using responder.run_from_created [OF responder_fresh assms]
  by (auto simp: responder_export_oscore_def Let_def split: if_splits)

text \<open>C14: Whatever calls reach an initiator and a responder, with whatever messages, pending values and
  credentials and in whatever order, the three steps of each succeed in order and at most once each,
  each is marked as completed exactly in its final state, and it exports a context only after all
  three.\<close>

theorem handshake_lifecycles:
  assumes "run_calls (call_initiator E) cs (initiator_with_secret E seed c_i eph) = (ini, is)"
    and "run_calls (call_responder E) ds (responder_with_secret E seed' c_r eph') = (rsp, rs)"
  shows "(\<exists>n. is = take n [FirstStep, SecondStep, ThirdStep]) \<and>
    (\<exists>n. rs = take n [FirstStep, SecondStep, ThirdStep]) \<and>
    (i_completed (ini_state ini) \<longleftrightarrow> i_lifecycle (ini_state ini) = Complete) \<and>
    (r_completed (rsp_state rsp) \<longleftrightarrow> r_lifecycle (rsp_state rsp) = Complete) \<and>
    ((\<exists>c. initiator_export_oscore E ini = Ok c) \<longrightarrow> is = [FirstStep, SecondStep, ThirdStep]) \<and>
    ((\<exists>c. responder_export_oscore E rsp = Ok c) \<longrightarrow> rs = [FirstStep, SecondStep, ThirdStep])"
  using initiator_lifecycle [OF assms(1)] responder_lifecycle [OF assms(2)] by blast

theorem handshake_lifecycles_witness:
  "\<exists>msg1 ini rsp. run_calls (call_initiator toy_edhoc) [CreateMessage1, CreateMessage1] toy_initiator = (ini, [FirstStep]) \<and>
    run_calls (call_responder toy_edhoc) [ProcessMessage1 msg1, ProcessMessage1 msg1] toy_responder = (rsp, [FirstStep]) \<and>
    (\<nexists>c. initiator_export_oscore toy_edhoc ini = Ok c) \<and> (\<nexists>c. responder_export_oscore toy_edhoc rsp = Ok c)"
proof -
  obtain msg1 ini rsp msg2 where c: "create_message_1 toy_initiator = (ini, Ok msg1)"
      "process_message_1 toy_edhoc toy_responder msg1 = (rsp, Ok msg2)" by (rule toy_calls)
  then have "i_lifecycle (ini_state ini) = Message1Created" "r_lifecycle (rsp_state rsp) = AwaitingMessage3"
    by (auto simp: create_message_1_Ok dest!: process_message_1_Ok message_2_reply_Ok)
  then have "create_message_1 ini = (ini, Err EInvalidState)" "process_message_1 toy_edhoc rsp msg1 = (rsp, Err EInvalidState)"
    by (simp_all add: create_message_1_def process_message_1_def)
  with c have run: "run_calls (call_initiator toy_edhoc) [CreateMessage1, CreateMessage1] toy_initiator = (ini, [FirstStep])"
    "run_calls (call_responder toy_edhoc) [ProcessMessage1 msg1, ProcessMessage1 msg1] toy_responder = (rsp, [FirstStep])"
    by simp_all
  from handshake_lifecycles [OF run(1) [unfolded toy_initiator_def] run(2) [unfolded toy_responder_def]] have
    "\<nexists>c. initiator_export_oscore toy_edhoc ini = Ok c" "\<nexists>c. responder_export_oscore toy_edhoc rsp = Ok c" by auto
  with run show ?thesis by blast
qed

subsection \<open>Errors\<close>





text \<open>C23: No message, however malformed, makes either party panic: neither its indexing and slicing
  nor its copies into fixed arrays can fail.\<close>

theorem edhoc_no_panic:
  assumes "hkdf_contract (ec_base E)" "hash_contract (ec_base E)"
  shows "snd (create_message_1 ini) \<noteq> Panic \<and> snd (process_message_1 E rsp msg) \<noteq> Panic \<and>
    snd (process_message_2 E ini msg pk) \<noteq> Panic \<and>
    snd (process_message_2_with_credential E ini msg peer) \<noteq> Panic \<and>
    snd (process_message_3 E rsp msg pk) \<noteq> Panic \<and>
    snd (process_message_3_with_credential E rsp msg peer) \<noteq> Panic"
proof -
  have "snd (create_message_1 ini) \<noteq> Panic"
    by (auto simp: create_message_1_def message_1_bytes_def res_simps vec_simps builder_no_panic)
  then show ?thesis
    using process_message_1_no_panic [OF assms] process_message_2_no_panic [OF assms]
      process_message_3_no_panic [OF assms]
    by blast
qed

theorem edhoc_no_panic_witness:
  "\<forall>msg. snd (create_message_1 toy_initiator) \<noteq> Panic \<and> snd (process_message_1 toy_edhoc toy_responder msg) \<noteq> Panic"
  using edhoc_no_panic [OF toy_edhoc_contracts] by blast

subsection \<open>Sizes\<close>

subsection \<open>Parsing\<close>

text \<open>Parsing a credential reference never panics and never reads beyond the message; the encoding
  that is kept fits its 64 bytes and, for the map form, is the bytes that were read; and the
  reference that the encoder writes for a raw key is read back, whatever follows it.\<close>

lemma id_cred_parsing:
  "parse_id_cred data \<noteq> Panic \<and>
   (\<forall>c n. parse_id_cred data = Ok (c, n) \<longrightarrow> 1 \<le> n \<and> n \<le> length data \<and> length (idc_encoded c) \<le> 64 \<and>
      (0xa1 \<le> data ! 0 \<and> data ! 0 \<le> 0xa8 \<longrightarrow> idc_encoded c = take n data)) \<and>
   (length (digest pubkey) = 32 \<longrightarrow>
      (\<exists>enc. encode_id_cred digest 40 [] pubkey = Ok enc \<and>
         parse_id_cred (enc @ rest) =
           Ok (\<lparr>idc_encoded = enc, idc_reference = Kid (take 8 (digest pubkey))\<rparr>, length enc)))"
proof -
  have "idc_encoded c = take n data"
    if "parse_id_cred data = Ok (c, n)" "0xa1 \<le> data ! 0" "data ! 0 \<le> 0xa8" for c n
  proof (cases "data = []")
    case False
    have "\<not> data ! 0 \<le> 0x17" "\<not> data ! 0 \<le> 0x37" "data ! 0 \<noteq> 0x18" "data ! 0 \<noteq> 0x38"
      "\<not> data ! 0 \<le> 0x57" "data ! 0 \<noteq> 0x58"
      using that(2) by (auto simp: word_le_nat_alt byte_eq_iff)
    with that False show ?thesis
      by (auto simp: parse_id_cred_def index_def res_simps slice_simps vec_simps Let_def
          split: if_splits option.splits prod.splits)
  qed (use that in \<open>simp add: parse_id_cred_def\<close>)
  moreover have "\<exists>enc. encode_id_cred digest 40 [] pubkey = Ok enc \<and> parse_id_cred (enc @ rest) =
      Ok (\<lparr>idc_encoded = enc, idc_reference = Kid (take 8 (digest pubkey))\<rparr>, length enc)"
    if "length (digest pubkey) = 32"
    using that parse_id_cred_raw [of "digest pubkey" rest] by (simp add: encode_id_cred_eq)
  ultimately show ?thesis using parse_id_cred_no_panic parse_id_cred_Ok by blast
qed

text \<open>C33: The recursive walk over a value of an unknown header returns on every input: it finds the
  length of the value when the input starts with one, whose nesting, and so the depth of the
  recursion, is at most that length, and it reports an invalid message exactly when it does not.\<close>

theorem skip_cbor_value_returns:
  "case skip_cbor_value data of
      Ok n \<Rightarrow> 1 \<le> n \<and> n \<le> length data \<and> (\<exists>d \<le> n. cbor_item d (take n data))
    | Err e \<Rightarrow> e = EInvalidMessage \<and> (\<forall>n d. n \<le> length data \<longrightarrow> \<not> cbor_item d (take n data))
    | Panic \<Rightarrow> False"
proof (cases "skip_cbor_value data")
  case (Ok n)
  with skip_cbor_value_decides [of data n] obtain d where d: "n \<le> length data" "cbor_item d (take n data)"
    by blast
  from cbor_item_depth(1) [OF d(2)] d have "\<exists>d \<le> n. cbor_item d (take n data)" by auto
  with Ok skip_cbor_value_Ok [OF Ok] show ?thesis by simp
next
  case (Err e)
  with skip_cbor_value_total(2) [of data e] skip_cbor_value_decides [of data] show ?thesis by auto
qed (use skip_cbor_value_total(1) [of data] in simp)

theorem skip_cbor_value_returns_witness:
  "skip_cbor_value [0x82, 0x01, 0x81, 0x41, 0xff, 0x00] = Ok 5 \<and>
   (\<exists>d \<le> 5. cbor_item d [0x82, 0x01, 0x81, 0x41, 0xff])"
proof -
  have "skip_cbor_value [0x82, 0x01, 0x81, 0x41, 0xff, 0x00] = Ok 5" by code_simp
  with skip_cbor_value_returns [of "[0x82, 0x01, 0x81, 0x41, 0xff, 0x00]"] show ?thesis by simp
qed

subsection \<open>Derivation and signatures\<close>

text \<open>C34: EDHOC-KDF is HKDF-Expand over the info structure of RFC 9528 for every label, context and
  length that fit its buffers, and a buffer error for all others; two derivations that differ in
  label, context or length never share an info structure.\<close>

theorem edhoc_kdf_exact:
  assumes "hash_contract C" "length prk = 32"
  shows "edhoc_kdf C prk label ctx len =
      (if label \<le> 0xff \<and> length ctx \<le> 255 \<and> len \<le> 128 \<and> length (kdf_info label ctx len) \<le> 128
       then ok_or EKeyDerivation (kdf_spec C prk label ctx len) else Err EBufferTooSmall) \<and>
    (\<forall>okm okm' label' ctx' len'. edhoc_kdf C prk label ctx len = Ok okm \<and>
       edhoc_kdf C prk label' ctx' len' = Ok okm' \<and> (label, ctx, len) \<noteq> (label', ctx', len') \<longrightarrow>
       kdf_info label ctx len \<noteq> kdf_info label' ctx' len')"
proof -
  have "hkdf_from_prk C prk \<noteq> None" using assms by (simp add: hash_contract_def)
  then have eq: "edhoc_kdf C prk l c n =
      (if l \<le> 0xff \<and> length c \<le> 255 \<and> n \<le> 128 \<and> length (kdf_info l c n) \<le> 128
       then ok_or EKeyDerivation (kdf_spec C prk l c n) else Err EBufferTooSmall)" for l c n
    by (auto simp: edhoc_kdf_eq)
  have fits: "l \<le> 0xff \<and> length c \<le> 0xffff \<and> n \<le> 0xffff" if "edhoc_kdf C prk l c n = Ok okm" for l c n okm
    using that by (auto simp: eq split: if_splits)
  have "kdf_info label ctx len \<noteq> kdf_info label' ctx' len'"
    if "edhoc_kdf C prk label ctx len = Ok okm" "edhoc_kdf C prk label' ctx' len' = Ok okm'"
      "(label, ctx, len) \<noteq> (label', ctx', len')" for okm okm' label' ctx' len'
    using fits [OF that(1)] fits [OF that(2)] that(3) kdf_info_inject [of label ctx len label' ctx' len'] by auto
  with eq show ?thesis by blast
qed

theorem edhoc_kdf_exact_witness:
  "edhoc_kdf (ec_base toy_edhoc) (replicate 32 1) LABEL_MAC_2 [7] 32 =
     ok_or EKeyDerivation (kdf_spec (ec_base toy_edhoc) (replicate 32 1) LABEL_MAC_2 [7] 32)"
  using edhoc_kdf_exact [OF toy_edhoc_contracts(2), of "replicate 32 1" LABEL_MAC_2 "[7]" 32]
  by (simp add: kdf_labels length_kdf_info length_cbor_uint length_bstr_bytes)

text \<open>C35: What is signed determines what it is about: two signature inputs that are built and agree
  have the same credential reference, transcript hash, credential and MAC.\<close>

theorem signature_input_injective:
  assumes "build_signature_structure idc th cred mac = Ok m"
    and "build_signature_structure idc' th' cred' mac' = Ok m"
  shows "idc = idc' \<and> th = th' \<and> cred = cred' \<and> mac = mac'"
proof -
  have fits: "length i \<le> 0xffff \<and> length t \<le> 0xffff \<and> length (bstr_bytes t @ c) \<le> 0xffff \<and> length k \<le> 0xffff"
    if "build_signature_structure i t c k = Ok v" for i t c k v
    using that bstr_size_ge [of "length i"] bstr_size_ge [of "length k"]
    by (auto simp: build_signature_structure_eq signature_structure_def length_bstr_size split: if_splits)
  note f = fits [OF assms(1)] fits [OF assms(2)]
  from build_signature_structure_Ok [OF assms(1)] build_signature_structure_Ok [OF assms(2)]
  have "signature_structure idc th cred mac = signature_structure idc' th' cred' mac'" by simp
  from signature_structure_inject [OF this] f show ?thesis by blast
qed

theorem signature_input_injective_witness:
  "\<exists>m. build_signature_structure [1] [2] [3] [4] = Ok m \<and>
    (\<forall>idc th cred mac. build_signature_structure idc th cred mac = Ok m \<longrightarrow> (idc, th, cred, mac) = ([1], [2], [3], [4]))"
proof -
  have "build_signature_structure [1] [2] [3] [4] = Ok (signature_structure [1] [2] [3] [4])"
    by (simp add: build_signature_structure_eq signature_structure_def length_bstr_bytes bstr_size_def)
  then show ?thesis using signature_input_injective by blast
qed

subsection \<open>Connection identifiers\<close>

text \<open>A connection identifier that is written is read back, whatever follows it, with one
  exception: a single byte that is a negative CBOR integer is read as a different byte.\<close>

lemma identifier_round_trip:
  assumes "length cid \<le> 7" "length buf + 8 \<le> N"
  shows "\<exists>enc. encode_identifier N buf cid = Ok (buf @ enc) \<and>
    (if negative_id cid
     then parse_identifier (enc @ rest) = Ok ([0x1F - cid ! 0], 1) \<and> [0x1F - cid ! 0] \<noteq> cid
     else parse_identifier (enc @ rest) = Ok (cid, length enc))"
proof (intro exI conjI)
  show "encode_identifier N buf cid = Ok (buf @ identifier_bytes cid)"
    using assms length_identifier_bytes [OF assms(1)] by (simp add: encode_identifier_eq)
  show "if negative_id cid
     then parse_identifier (identifier_bytes cid @ rest) = Ok ([0x1F - cid ! 0], 1) \<and> [0x1F - cid ! 0] \<noteq> cid
     else parse_identifier (identifier_bytes cid @ rest) = Ok (cid, length (identifier_bytes cid))"
    using parse_identifier_bytes [OF assms(1)] parse_identifier_negative [of cid rest] by auto
qed

text \<open>A responder refuses the message 1 of an initiator whose connection identifier is not a
  single byte or is a single byte that is a negative CBOR integer, although the initiator accepts
  such an identifier and encodes it; it stays ready for another message 1.\<close>

lemma responder_refuses_connection_id:
  assumes "create_message_1 ini = (ini', Ok msg1)"
    and "length (ini_eph_public ini) = 32" "length (ini_c_i ini) \<le> 7"
    and "r_lifecycle (rsp_state rsp) = Created" "rsp_eph_secret rsp = Some y"
    and "length (ini_c_i ini) \<noteq> 1 \<or> negative_id (ini_c_i ini)"
  shows "\<exists>rsp'. process_message_1 E rsp msg1 = (rsp', Err EInvalidMessage) \<and>
    r_lifecycle (rsp_state rsp') = Created \<and> rsp_eph_secret rsp' = Some y"
proof -
  have m: "msg1 = message_1 (ini_eph_public ini) (ini_c_i ini)"
    using assms(1) message_1_bytes_eq [OF assms(2,3)] by (simp add: create_message_1_Ok)
  have "message_1_head msg1 = Ok (msg1, ini_eph_public ini, identifier_bytes (ini_c_i ini))"
    using length_identifier_bytes [OF assms(3)] assms(2)
    by (simp add: m message_1_def message_1_head_eq Suc_le_eq)
  moreover have "message_1_c_i (identifier_bytes (ini_c_i ini)) = Err EInvalidMessage"
    using message_1_c_i_eq [OF assms(3)] assms(6) by auto
  ultimately show ?thesis using assms(4,5) by (simp add: process_message_1_def)
qed

text \<open>A responder without a shared secret, or with the initiator's identifier, poisons itself.\<close>

lemma responder_refuses_session:
  assumes "length g_x = 32" "length c_i = 1" "\<not> negative_id c_i"
    and "r_lifecycle (rsp_state rsp) = Created" "rsp_eph_secret rsp = Some y"
    and "c_i = rsp_c_r rsp \<or> x25519 E y g_x = replicate 32 0"
  shows "\<exists>rsp'. process_message_1 E rsp (message_1 g_x c_i) = (rsp', Err EInvalidMessage) \<and>
    r_lifecycle (rsp_state rsp') = Failed \<and> rsp_eph_secret rsp' = None"
proof -
  obtain c where c: "c_i = [c]" using assms(2) by (cases c_i) auto
  have i: "length c_i \<le> 7" using assms(2) by simp
  have "message_1_head (message_1 g_x c_i) = Ok (message_1 g_x c_i, g_x, identifier_bytes c_i)"
    using length_identifier_bytes [OF i] assms(1) by (simp add: message_1_def message_1_head_eq Suc_le_eq)
  moreover have "message_1_c_i (identifier_bytes c_i) = Ok c"
    using message_1_c_i_eq [OF i] assms(2,3) c by simp
  ultimately show ?thesis
    using assms(4-6) c
    by (auto simp: process_message_1_def connection_id_from_u8_eq message_2_reply_def responder_settle_eq
        responder_poison_def responder_wipe_def Let_def)
qed

text \<open>C40: What the connection identifiers and the shared secret decide in the first two messages of
  fresh parties, for all identifiers of up to seven bytes that the constructors accept. The responder
  refuses message 1 with \<open>InvalidMessage\<close> if \<open>C_I\<close> is not one byte or is a byte from 0x20 to 0x37, and
  then keeps its ephemeral key for another message 1; if \<open>C_I\<close> is its own identifier or the shared
  secret is zero it refuses with \<open>InvalidMessage\<close> and is poisoned; in every other case it answers,
  with the initiator's identifier and ephemeral value stored. The initiator reads the answer's
  \<open>C_R\<close> as the responder's identifier, except for a byte from 0x20 to 0x37, which it reads as 0x1F
  minus that byte, a different identifier. If what it reads is its own identifier it fails; otherwise
  it has opened the message, with the responder's ephemeral value, transcript hash and key.\<close>

theorem first_messages_exact:
  assumes "primitives_ok E" "length seed_i = 32" "length seed_r = 32" "length c_i \<le> 7" "length c_r \<le> 7"
  shows "\<exists>ini1 msg1. create_message_1 (initiator_with_secret E seed_i c_i x) = (ini1, Ok msg1) \<and>
    (let out = process_message_1 E (responder_with_secret E seed_r c_r y) msg1; rsp1 = fst out in
     if length c_i \<noteq> 1 \<or> negative_id c_i
     then snd out = Err EInvalidMessage \<and> r_lifecycle (rsp_state rsp1) = Created \<and> rsp_eph_secret rsp1 = Some y
     else if c_i = c_r \<or> x25519 E x (x25519_public E y) = replicate 32 0
     then snd out = Err EInvalidMessage \<and> r_lifecycle (rsp_state rsp1) = Failed \<and> rsp_eph_secret rsp1 = None
     else r_c_i (rsp_state rsp1) = c_i \<and> r_g_x (rsp_state rsp1) = x25519_public E x \<and>
       (\<exists>msg2. snd out = Ok msg2 \<and>
         (let read = (if negative_id c_r then [0x1F - c_r ! 0] else c_r);
              reply = begin_process_message_2 E ini1 msg2; ini2 = fst reply in
          (read = c_r \<longleftrightarrow> \<not> negative_id c_r) \<and>
          (if read = c_i then snd reply = Err EInvalidMessage \<and> i_lifecycle (ini_state ini2) = Failed
           else (\<exists>p. snd reply = Ok p \<and> pm2_c_r p = read) \<and> i_g_y (ini_state ini2) = x25519_public E y \<and>
             i_th_2 (ini_state ini2) = r_th_2 (rsp_state rsp1) \<and>
             i_prk_3e2m (ini_state ini2) = r_prk_3e2m (rsp_state rsp1)))))"
proof -
  define ini0 where "ini0 = initiator_with_secret E seed_i c_i x"
  define rsp0 where "rsp0 = responder_with_secret E seed_r c_r y"
  define g_x where "g_x = x25519_public E x"
  define g_y where "g_y = x25519_public E y"
  define msg1 where "msg1 = message_1 g_x c_i"
  note ini = fresh_party [OF assms(2), of E c_i x, folded ini0_def]
  note rsp = fresh_party [OF assms(3), of E c_r y, folded rsp0_def]
  have g: "length g_x = 32" "length g_y = 32" "x25519 E y g_x = x25519 E x g_y"
    using primitives(5) [OF assms(1)] by (simp_all add: exchange_contract_def g_x_def g_y_def)
  let ?ini1 = "ini0\<lparr>ini_state := (ini_state ini0)\<lparr>i_msg1 := msg1, i_lifecycle := Message1Created\<rparr>\<rparr>"
  have 1: "create_message_1 ini0 = (?ini1, Ok msg1)"
    using message_1_bytes_eq [of ini0] ini g(1) assms(4) by (simp add: create_message_1_def msg1_def g_x_def)
  consider (id) "length c_i \<noteq> 1 \<or> negative_id c_i"
    | (session) "length c_i = 1" "\<not> negative_id c_i" "c_i = c_r \<or> x25519 E x g_y = replicate 32 0"
    | (answer) "length c_i = 1" "\<not> negative_id c_i" "c_i \<noteq> c_r" "x25519 E x g_y \<noteq> replicate 32 0"
    by blast
  then show ?thesis
  proof cases
    case id
    from responder_refuses_connection_id [OF 1, of rsp0 y] ini g(1) assms(4) rsp(6,10) id
    obtain rsp' where "process_message_1 E rsp0 msg1 = (rsp', Err EInvalidMessage)"
      "r_lifecycle (rsp_state rsp') = Created" "rsp_eph_secret rsp' = Some y"
      by (auto simp: g_x_def)
    with 1 id show ?thesis by (auto simp: ini0_def rsp0_def)
  next
    case session
    with responder_refuses_session [OF g(1) session(1,2) rsp(10,6), of E] rsp(4) g(3)
    obtain rsp' where "process_message_1 E rsp0 msg1 = (rsp', Err EInvalidMessage)"
      "r_lifecycle (rsp_state rsp') = Failed" "rsp_eph_secret rsp' = None"
      by (auto simp: msg1_def)
    with 1 session show ?thesis by (auto simp: ini0_def rsp0_def g_y_def)
  next
    case answer
    define th_2 where "th_2 = th_2_of E g_y msg1"
    define prk where "prk = edhoc_extract (ec_base E) th_2 (x25519 E x g_y)"
    define pt where "pt = plain_2 E prk c_r (rsp_privkey rsp0) (rsp_pubkey rsp0) th_2"
    have 2: "process_message_1 E rsp0 msg1 =
        (replied E rsp0 msg1 g_x c_i th_2 prk pt, Ok (message_2 E g_y prk th_2 pt))"
      using process_message_1_eq [OF assms(1) rsp(2), of c_i y g_x] rsp(4,6,8,10) assms(5) answer g
      by (simp add: msg1_def th_2_def prk_def pt_def flip: g_y_def)
    have l: "i_lifecycle (ini_state ?ini1) = Message1Created" "ini_eph_secret ?ini1 = Some x"
      "ini_c_i ?ini1 = c_i" "i_msg1 (ini_state ?ini1) = msg1"
      using ini by simp_all
    have 3: "if identifier_read c_r = c_i
        then \<exists>self'. begin_process_message_2 E ?ini1 (message_2 E g_y prk th_2 pt) =
          (initiator_poison E self', Err EInvalidMessage)
        else begin_process_message_2 E ?ini1 (message_2 E g_y prk th_2 pt) =
          (opened_2 ?ini1 g_y th_2 prk, Ok ((pending_2 E c_r (rsp_pubkey rsp0) th_2 pt)\<lparr>pm2_c_r := identifier_read c_r\<rparr>))"
      using begin_process_message_2_read [OF assms(1) rsp(2) assms(5) l(1,2) g(2) answer(4)]
      by (simp only: l(3,4) flip: th_2_def prk_def pt_def)
    have 4: "(if negative_id c_r then [0x1F - c_r ! 0] else c_r) = identifier_read c_r"
      by (simp add: identifier_read_def)
    show ?thesis
      unfolding Let_def 4 ini0_def [symmetric] rsp0_def [symmetric]
      using 1 2 3 answer
      by (intro exI [of _ ?ini1] exI [of _ msg1])
        (auto simp: replied_def opened_2_def initiator_poison_def initiator_wipe_def identifier_read_iff
          g_x_def g_y_def split: if_splits)
  qed
qed

theorem first_messages_exact_witness:
  "\<exists>ini1 msg1 rsp1 msg2 ini2 p. create_message_1 toy_initiator = (ini1, Ok msg1) \<and>
    process_message_1 toy_edhoc (responder_with_secret toy_edhoc toy_seed_r [0x20] toy_y) msg1 = (rsp1, Ok msg2) \<and>
    r_c_i (rsp_state rsp1) = [1] \<and> begin_process_message_2 toy_edhoc ini1 msg2 = (ini2, Ok p) \<and> pm2_c_r p = [0xFF]"
proof -
  have n: "\<not> negative_id [1]" "negative_id [0x20]" by code_simp+
  have m: "(0x1F - 0x20 :: u8) = - 1" "(7 :: u8) \<noteq> 0" "[1 :: u8] \<noteq> [0x20]" "[- 1 :: u8] \<noteq> [1]" by simp_all
  let ?out = "process_message_1 toy_edhoc (responder_with_secret toy_edhoc toy_seed_r [0x20] toy_y)"
  obtain ini1 msg1 where 1: "create_message_1 toy_initiator = (ini1, Ok msg1)"
    and 2: "r_c_i (rsp_state (fst (?out msg1))) = [1]" "\<exists>msg2. snd (?out msg1) = Ok msg2 \<and>
      (\<exists>p. snd (begin_process_message_2 toy_edhoc ini1 msg2) = Ok p \<and> pm2_c_r p = [- 1])"
    using first_messages_exact [OF toy_primitives toy_seeds, of "[1]" "[0x20]" toy_x toy_y] n m
    by (auto simp: Let_def toy_shared toy_initiator_def)
  have "[0xFF :: u8] = [- 1]" by simp
  with 1 2 show ?thesis by (metis prod.collapse)
qed

end
