(* ===== verification/Formatting.thy ===== *)
theory Formatting
  imports OscoreTypes
begin

text \<open>
  What the library prints. A \<open>Debug\<close> implementation hands the formatter of the standard library a
  tree of names and values; \<open>dbg\<close> is that tree, \<open>debug_text\<close> the text of \<^verbatim>\<open>{:?}\<close> and
  \<open>debug_pretty\<close> that of \<^verbatim>\<open>{:#?}\<close>. The \<open>Display\<close> implementations of
  \<^verbatim>\<open>src/error.rs\<close>, \<^verbatim>\<open>src/lib.rs\<close> and \<^verbatim>\<open>src/seqnum.rs\<close> are functions into
  text. The lemmas show that numbers are printed injectively, that a printed tree determines its
  values, and that the text of an error determines the error.
\<close>

subsection \<open>Unsigned numbers\<close>

definition digit :: "nat \<Rightarrow> char" where
  "digit n = char_of (48 + n)"

fun decimal :: "nat \<Rightarrow> string" where
  "decimal n = (if n < 10 then [digit n] else decimal (n div 10) @ [digit (n mod 10)])"

declare decimal.simps [simp del]

text \<open>Reading a number back, digit by digit.\<close>

definition read_decimal :: "string \<Rightarrow> nat" where
  "read_decimal = foldl (\<lambda>a c. 10 * a + (of_char c - 48)) 0"

definition is_digit :: "char \<Rightarrow> bool" where
  "is_digit c \<longleftrightarrow> 48 \<le> (of_char c :: nat) \<and> (of_char c :: nat) < 58"

lemma of_char_digit: "n < 10 \<Longrightarrow> of_char (digit n) = 48 + n"
  by (simp add: digit_def)

lemma digit_is_digit: "n < 10 \<Longrightarrow> is_digit (digit n)"
  by (simp add: is_digit_def of_char_digit)

lemma decimal_digits: "\<forall>c \<in> set (decimal n). is_digit c"
proof (induction n rule: decimal.induct)
  case (1 n)
  then show ?case by (subst decimal.simps) (auto simp: digit_is_digit)
qed

lemma decimal_not_Nil [simp]: "decimal n \<noteq> []"
  by (subst decimal.simps) simp

lemma read_decimal: "read_decimal (decimal n) = n"
proof (induction n rule: decimal.induct)
  case (1 n)
  then show ?case by (subst decimal.simps) (auto simp: read_decimal_def of_char_digit)
qed

lemma decimal_inject [simp]: "decimal m = decimal n \<longleftrightarrow> m = n"
  by (metis read_decimal)

text \<open>Words: numbers, booleans and the names of variants. A text that goes on with neither a letter
  nor a digit ends the word before it.\<close>

definition is_word :: "char \<Rightarrow> bool" where
  "is_word c \<longleftrightarrow> is_digit c \<or> 65 \<le> (of_char c :: nat) \<and> (of_char c :: nat) < 91 \<or>
     97 \<le> (of_char c :: nat) \<and> (of_char c :: nat) < 123"

lemmas char_classes = is_word_def is_digit_def

definition stops :: "string \<Rightarrow> bool" where
  "stops s \<longleftrightarrow> (case s of [] \<Rightarrow> True | c # _ \<Rightarrow> \<not> is_word c)"

lemma stops_Cons: "stops (c # s) \<longleftrightarrow> \<not> is_word c"
  by (simp add: stops_def)

lemma words_split:
  assumes "\<forall>c \<in> set xs. is_word c" "\<forall>c \<in> set ys. is_word c" and "stops r" "stops q"
    and "xs @ r = ys @ q"
  shows "xs = ys \<and> r = q"
  using assms
proof (induction xs arbitrary: ys)
  case Nil
  then show ?case by (cases ys) (auto simp: stops_def)
next
  case (Cons x xs)
  then show ?case by (cases ys) (auto simp: stops_def)
qed

lemma decimal_split: "stops r \<Longrightarrow> stops q \<Longrightarrow> decimal m @ r = decimal n @ q \<longleftrightarrow> m = n \<and> r = q"
  using words_split [of "decimal m" "decimal n" r q] decimal_digits by (auto simp: is_word_def)

subsection \<open>Errors and sequence numbers\<close>

definition buffer_display :: "buffer_too_small \<Rightarrow> string" where
  "buffer_display self =
     ''buffer too small: needed '' @ decimal (needed self) @ '' bytes, available '' @ decimal (available self)"

definition oscore_error_display :: "oscore_error \<Rightarrow> string" where
  "oscore_error_display self =
     (case self of
        InvalidParam \<Rightarrow> ''invalid parameter''
      | NoContext \<Rightarrow> ''security context not found''
      | Replay \<Rightarrow> ''replay attack detected''
      | EncryptFailed \<Rightarrow> ''encryption failed''
      | DecryptFailed \<Rightarrow> ''decryption failed''
      | BufferTooSmall e \<Rightarrow> ''OSCORE '' @ buffer_display e
      | KeyDerivation \<Rightarrow> ''key derivation failed''
      | SeqExhausted \<Rightarrow> ''sender sequence exhausted, key rotation required''
      | EntropyFailure \<Rightarrow> ''entropy source failure'')"

definition oscore_error_source :: "oscore_error \<Rightarrow> buffer_too_small option" where
  "oscore_error_source self = (case self of BufferTooSmall e \<Rightarrow> Some e | _ \<Rightarrow> None)"

definition oscore_error_from :: "buffer_too_small \<Rightarrow> oscore_error" where
  "oscore_error_from e = BufferTooSmall e"

text \<open>The same implementations of the module tree, in \<^verbatim>\<open>src/error.rs\<close>.\<close>

definition oscore_error_display_mod :: "oscore_error \<Rightarrow> string" where
  "oscore_error_display_mod self =
     (case self of
        InvalidParam \<Rightarrow> ''invalid parameter''
      | NoContext \<Rightarrow> ''security context not found''
      | Replay \<Rightarrow> ''replay attack detected''
      | EncryptFailed \<Rightarrow> ''encryption failed''
      | DecryptFailed \<Rightarrow> ''decryption failed''
      | BufferTooSmall e \<Rightarrow> ''OSCORE '' @ buffer_display e
      | KeyDerivation \<Rightarrow> ''key derivation failed''
      | SeqExhausted \<Rightarrow> ''sender sequence exhausted, key rotation required''
      | EntropyFailure \<Rightarrow> ''entropy source failure'')"

definition oscore_error_source_mod :: "oscore_error \<Rightarrow> buffer_too_small option" where
  "oscore_error_source_mod self = (case self of BufferTooSmall e \<Rightarrow> Some e | _ \<Rightarrow> None)"

definition oscore_error_from_mod :: "buffer_too_small \<Rightarrow> oscore_error" where
  "oscore_error_from_mod e = BufferTooSmall e"

definition seq_display :: "oscore_seq_num \<Rightarrow> string" where
  "seq_display self = decimal (unat (get self))"

lemma buffer_display_inject [simp]: "buffer_display a = buffer_display b \<longleftrightarrow> a = b"
proof
  assume "buffer_display a = buffer_display b"
  then have "decimal (needed a) @ '' bytes, available '' @ decimal (available a) =
      decimal (needed b) @ '' bytes, available '' @ decimal (available b)"
    by (simp add: buffer_display_def)
  moreover have "stops ('' bytes, available '' @ s)" for s by (simp add: stops_Cons char_classes)
  ultimately show "a = b"
    by (simp add: decimal_split del: append_Cons)
qed simp

lemma oscore_error_display_inject: "oscore_error_display d = oscore_error_display e \<longleftrightarrow> d = e"
  by (cases d; cases e) (simp_all add: oscore_error_display_def)

lemma oscore_error_mod_same:
  "oscore_error_display_mod = oscore_error_display" "oscore_error_source_mod = oscore_error_source"
  "oscore_error_from_mod = oscore_error_from"
  by (simp_all add: fun_eq_iff oscore_error_display_mod_def oscore_error_display_def
      oscore_error_source_mod_def oscore_error_source_def oscore_error_from_mod_def oscore_error_from_def)

lemma oscore_error_chain:
  "oscore_error_source e = Some b \<longleftrightarrow> e = oscore_error_from b"
  "oscore_error_source e = Some b \<Longrightarrow> oscore_error_display e = ''OSCORE '' @ buffer_display b"
  by (cases e; simp add: oscore_error_source_def oscore_error_from_def oscore_error_display_def)+

lemma seq_display_inject: "seq_display a = seq_display b \<longleftrightarrow> a = b"
  by (cases a; cases b) (simp add: seq_display_def word_unat_eq_iff)

subsection \<open>Debug trees and their text\<close>

text \<open>
  The values that the implementations print: string literals without escapes, numbers, booleans,
  variants without fields, tuple structs, structs and lists.
\<close>

datatype dbg =
    DStr string
  | DNum nat
  | DBool bool
  | DUnit string
  | DTuple string "dbg list"
  | DStruct string "(string \<times> dbg) list"
  | DList "dbg list"

definition redacted :: dbg where "redacted = DStr ''[REDACTED]''"

fun commas :: "string list \<Rightarrow> string" where
  "commas [] = []"
| "commas [s] = s"
| "commas (s # t # ss) = s @ '', '' @ commas (t # ss)"

definition quoted :: "string \<Rightarrow> string" where
  "quoted s = [CHR 0x22] @ s @ [CHR 0x22]"

definition bool_text :: "bool \<Rightarrow> string" where
  "bool_text b = (if b then ''true'' else ''false'')"

fun debug_text :: "dbg \<Rightarrow> string" where
  "debug_text (DStr s) = quoted s"
| "debug_text (DNum n) = decimal n"
| "debug_text (DBool b) = bool_text b"
| "debug_text (DUnit name) = name"
| "debug_text (DTuple name xs) =
     (if xs = [] then name else name @ CHR ''('' # commas (map debug_text xs) @ '')'')"
| "debug_text (DStruct name fs) =
     (if fs = [] then name
      else name @ '' { '' @ commas (map (\<lambda>(f, v). f @ '': '' @ debug_text v) fs) @ '' }'')"
| "debug_text (DList xs) = CHR ''['' # commas (map debug_text xs) @ '']''"

text \<open>The alternate form: one value per line, every line of a nested value four blanks further in.\<close>

definition newline :: char where "newline = char_of (10 :: nat)"

fun pad :: "bool \<Rightarrow> string \<Rightarrow> string" where
  "pad at_start [] = []"
| "pad at_start (c # cs) = (if at_start then ''    '' else []) @ c # pad (c = newline) cs"

definition padded_lines :: "string list \<Rightarrow> string" where
  "padded_lines ss = concat (map (\<lambda>s. pad True (s @ [CHR '','', newline])) ss)"

fun debug_pretty :: "dbg \<Rightarrow> string" where
  "debug_pretty (DStr s) = quoted s"
| "debug_pretty (DNum n) = decimal n"
| "debug_pretty (DBool b) = bool_text b"
| "debug_pretty (DUnit name) = name"
| "debug_pretty (DTuple name xs) =
     (if xs = [] then name
      else name @ [CHR ''('', newline] @ padded_lines (map debug_pretty xs) @ '')'')"
| "debug_pretty (DStruct name fs) =
     (if fs = [] then name
      else name @ '' {'' @ [newline] @
        padded_lines (map (\<lambda>(f, v). f @ '': '' @ debug_pretty v) fs) @ ''}'')"
| "debug_pretty (DList xs) =
     CHR ''['' # (if xs = [] then [] else [newline]) @ padded_lines (map debug_pretty xs) @ '']''"

subsection \<open>A printed tree determines its values\<close>

text \<open>Two trees of one shape differ in their numbers, booleans and variants only.\<close>

inductive same_shape :: "dbg \<Rightarrow> dbg \<Rightarrow> bool" where
  str: "same_shape (DStr s) (DStr s)"
| num: "same_shape (DNum m) (DNum n)"
| bool: "same_shape (DBool a) (DBool b)"
| unit: "\<forall>c \<in> set u. is_word c \<Longrightarrow> \<forall>c \<in> set v. is_word c \<Longrightarrow> same_shape (DUnit u) (DUnit v)"
| tuple: "list_all2 same_shape xs ys \<Longrightarrow> same_shape (DTuple n xs) (DTuple n ys)"
| struct: "list_all2 (rel_prod (=) same_shape) fs gs \<Longrightarrow> same_shape (DStruct n fs) (DStruct n gs)"

inductive_simps same_shape_simps [simp]:
  "same_shape (DStr s) d" "same_shape (DNum m) d" "same_shape (DBool a) d" "same_shape (DUnit u) d"
  "same_shape (DTuple n xs) d" "same_shape (DStruct n fs) d"

text \<open>\<open>splits_off f x y\<close>: a text that starts with \<open>f x\<close> and also with \<open>f y\<close>, each ending where
  no word goes on, has \<open>x = y\<close>.\<close>

definition splits_off :: "('a \<Rightarrow> string) \<Rightarrow> 'a \<Rightarrow> 'a \<Rightarrow> bool" where
  "splits_off f x y \<longleftrightarrow> (\<forall>r q. stops r \<longrightarrow> stops q \<longrightarrow> f x @ r = f y @ q \<longrightarrow> x = y \<and> r = q)"

lemma splits_offD: "splits_off f x y \<Longrightarrow> f x @ r = f y @ q \<Longrightarrow> stops r \<Longrightarrow> stops q \<Longrightarrow> x = y \<and> r = q"
  by (simp add: splits_off_def)

lemma commas_split:
  assumes "list_all2 (splits_off f) xs ys" and "stops r" "stops q"
    and "commas (map f xs) @ r = commas (map f ys) @ q"
  shows "xs = ys \<and> r = q"
  using assms
proof (induction xs ys rule: list_all2_induct)
  case Nil
  then show ?case by simp
next
  case (Cons x xs y ys)
  show ?case
  proof (cases xs)
    case Nil
    with Cons.hyps Cons.prems show ?thesis by (auto dest: splits_offD)
  next
    case xs: (Cons x' xs')
    then obtain y' ys' where ys: "ys = y' # ys'" using Cons.hyps(2) by (cases ys) auto
    have c: "commas (map f (z # z' # zs)) = f z @ '', '' @ commas (map f (z' # zs))" for z z' zs by simp
    have "stops ('', '' @ s)" for s by (simp add: stops_Cons char_classes)
    from splits_offD [OF Cons.hyps(1) _ this this] Cons.prems(3)
    have "x = y" "'', '' @ commas (map f xs) @ r = '', '' @ commas (map f ys) @ q"
      by (auto simp: xs ys c simp del: append_Cons)
    with Cons.IH Cons.prems(1,2) show ?thesis by simp
  qed
qed

lemma commas_enclosed:
  assumes "list_all2 (splits_off f) xs ys" and "\<not> is_word c"
  shows "splits_off (\<lambda>zs. commas (map f zs) @ c # s) xs ys"
proof -
  have stop: "stops (c # s @ r)" for r using assms(2) by (simp add: stops_Cons)
  have "xs = ys \<and> r = q"
    if "(commas (map f xs) @ c # s) @ r = (commas (map f ys) @ c # s) @ q" for r q
  proof -
    from that have "commas (map f xs) @ (c # s @ r) = commas (map f ys) @ (c # s @ q)" by simp
    from commas_split [OF assms(1) stop stop this] show ?thesis by simp
  qed
  then show ?thesis unfolding splits_off_def by blast
qed

lemma bool_text_split: "splits_off bool_text a b"
  by (auto simp: splits_off_def bool_text_def)

lemma field_split:
  assumes "rel_prod (=) (\<lambda>d e. splits_off debug_text d e) x y"
  shows "splits_off (\<lambda>(f, v). f @ '': '' @ debug_text v) x y"
  using assms by (cases x; cases y) (auto simp: splits_off_def)

lemma debug_text_split: "same_shape d e \<Longrightarrow> splits_off debug_text d e"
proof (induction rule: same_shape.induct)
  case (num m n)
  then show ?case by (simp add: splits_off_def decimal_split)
next
  case (bool a b)
  then show ?case using bool_text_split by (auto simp: splits_off_def)
next
  case (unit u v)
  then show ?case using words_split [of u v] by (auto simp: splits_off_def)
next
  case (tuple xs ys n)
  then have "list_all2 (splits_off debug_text) xs ys" by (auto elim: list_all2_mono)
  from commas_enclosed [OF this, of "CHR '')''" "[]"]
  have "splits_off (\<lambda>zs. commas (map debug_text zs) @ '')'') xs ys" by (simp add: char_classes)
  with tuple show ?case by (auto simp: splits_off_def)
next
  case (struct fs gs n)
  then have "list_all2 (splits_off (\<lambda>(f, v). f @ '': '' @ debug_text v)) fs gs"
    by (rule list_all2_mono) (rule field_split, auto elim!: rel_prod.cases)
  from commas_enclosed [OF this, of "CHR '' ''" "''}''"]
  have "splits_off (\<lambda>zs. commas (map (\<lambda>(f, v). f @ '': '' @ debug_text v) zs) @ '' }'') fs gs"
    by (simp add: char_classes)
  with struct show ?case by (auto simp: splits_off_def)
qed (auto simp: splits_off_def)

lemma debug_text_inject: "same_shape d e \<Longrightarrow> debug_text d = debug_text e \<longleftrightarrow> d = e"
  using splits_offD [OF debug_text_split, of d e "[]" "[]"] by (auto simp: stops_def)

end
