(* ===== verification/ContextSecrets.thy ===== *)
theory ContextSecrets
  imports Formatting Group
begin

text \<open>
  What the contexts of \<^verbatim>\<open>src/lib.rs\<close>, \<^verbatim>\<open>src/context.rs\<close> and \<^verbatim>\<open>src/group.rs\<close>
  show and what they leave behind: their \<open>Debug\<close> implementations, as trees for the formatter, and
  the erasure that \<^verbatim>\<open>derive(Zeroize)\<close> and \<^verbatim>\<open>zeroize(drop)\<close> generate. The public view
  of a context is what its \<open>Debug\<close> implementation prints; the lemmas show that the text is a
  function of that view and determines it, that nothing of a context survives erasure, and how an
  erased context behaves.
\<close>

subsection \<open>Accessors\<close>

definition context_id_of :: "oscore_context \<Rightarrow> context_id" where
  "context_id_of self = ctx_context_id self"

definition context_id_of_mod :: "mod_context \<Rightarrow> context_id" where
  "context_id_of_mod self = mc_context_id self"

definition master_secret_of :: "oscore_context \<Rightarrow> bytes" where
  "master_secret_of self = ctx_master_secret self"

definition master_secret_of_mod :: "mod_context \<Rightarrow> bytes" where
  "master_secret_of_mod self = mc_master_secret self"

lemma accessors_lib:
  "context_id_of (lib_context m) = context_id_of_mod m"
  "master_secret_of (lib_context m) = master_secret_of_mod m"
  by (simp_all add: context_id_of_def context_id_of_mod_def master_secret_of_def master_secret_of_mod_def)

subsection \<open>Debug\<close>

definition seq_debug :: "oscore_seq_num \<Rightarrow> dbg" where
  "seq_debug self = DTuple ''OscoreSeqNum'' [DNum (unat (get self))]"

definition context_debug :: "oscore_context \<Rightarrow> dbg" where
  "context_debug self = DStruct ''Context'' [
     (''master_secret'', redacted),
     (''master_salt'', redacted),
     (''common_iv'', redacted),
     (''id_context_len'', DNum (unat (ctx_id_context_len self))),
     (''id_context_present'', DBool (ctx_id_context_present self)),
     (''sender_id_len'', DNum (unat (ctx_sender_id_len self))),
     (''sender_key'', redacted),
     (''sender_seq'', seq_debug (ctx_sender_seq self)),
     (''sender_seq_exhausted'', DBool (ctx_sender_seq_exhausted self)),
     (''restored'', DBool (ctx_restored self)),
     (''recipient_id_len'', DNum (unat (ctx_recipient_id_len self))),
     (''recipient_key'', redacted),
     (''recipient_seq'', seq_debug (ctx_recipient_seq self)),
     (''replay_window'', DNum (unat (ctx_replay_window self))),
     (''response_seq'', seq_debug (ctx_response_seq self)),
     (''response_window'', DNum (unat (ctx_response_window self)))]"

definition context_debug_mod :: "mod_context \<Rightarrow> dbg" where
  "context_debug_mod self = DStruct ''Context'' [
     (''master_secret'', redacted),
     (''master_salt'', redacted),
     (''common_iv'', redacted),
     (''id_context_len'', DNum (unat (mc_id_context_len self))),
     (''id_context_present'', DBool (mc_id_context_present self)),
     (''sender_id_len'', DNum (unat (mc_sender_id_len self))),
     (''sender_key'', redacted),
     (''sender_seq'', seq_debug (mc_sender_seq self)),
     (''sender_seq_exhausted'', DBool (mc_sender_seq_exhausted self)),
     (''restored'', DBool (mc_restored self)),
     (''recipient_id_len'', DNum (unat (mc_recipient_id_len self))),
     (''recipient_key'', redacted),
     (''recipient_seq'', seq_debug (mc_recipient_seq self)),
     (''replay_window'', DNum (unat (mc_replay_window self))),
     (''response_seq'', seq_debug (mc_response_seq self)),
     (''response_window'', DNum (unat (mc_response_window self)))]"

primrec group_trust_debug :: "group_trust \<Rightarrow> dbg" where
  "group_trust_debug Unknown = DUnit ''Unknown''"
| "group_trust_debug Provisioned = DUnit ''Provisioned''"
| "group_trust_debug Established = DUnit ''Established''"
| "group_trust_debug Verified = DUnit ''Verified''"

definition group_debug :: "group_context \<Rightarrow> dbg" where
  "group_debug self = DStruct ''GroupContext'' [
     (''group_name_len'', DNum (unat (gc_group_name_len self))),
     (''member_index'', DNum (unat (gc_member_index self))),
     (''trust'', group_trust_debug (gc_trust self)),
     (''member_ctx'', redacted)]"

text \<open>The fields that are printed.\<close>

definition public_view ::
    "oscore_context \<Rightarrow> u8 \<times> bool \<times> u8 \<times> oscore_seq_num \<times> bool \<times> bool \<times> u8 \<times> oscore_seq_num \<times> u32 \<times>
      oscore_seq_num \<times> u32" where
  "public_view c = (ctx_id_context_len c, ctx_id_context_present c, ctx_sender_id_len c, ctx_sender_seq c, ctx_sender_seq_exhausted c, ctx_restored c, ctx_recipient_id_len c, ctx_recipient_seq c, ctx_replay_window c, ctx_response_seq c, ctx_response_window c)"

definition group_public_view :: "group_context \<Rightarrow> u8 \<times> u8 \<times> group_trust" where
  "group_public_view gc = (gc_group_name_len gc, gc_member_index gc, gc_trust gc)"

lemma seq_debug_inject [simp]: "seq_debug a = seq_debug b \<longleftrightarrow> a = b"
  by (cases a; cases b) (simp add: seq_debug_def word_unat_eq_iff)

lemma group_trust_debug_inject [simp]: "group_trust_debug a = group_trust_debug b \<longleftrightarrow> a = b"
  by (cases a; cases b) simp_all

lemma context_debug_view: "context_debug c = context_debug d \<longleftrightarrow> public_view c = public_view d"
  by (auto simp: context_debug_def public_view_def word_unat_eq_iff)

lemma context_debug_lib: "context_debug_mod m = context_debug (lib_context m)"
  by (simp add: context_debug_def context_debug_mod_def lib_context_def)

lemma group_debug_view: "group_debug g = group_debug h \<longleftrightarrow> group_public_view g = group_public_view h"
  by (auto simp: group_debug_def group_public_view_def word_unat_eq_iff)

lemma debug_shapes:
  "same_shape (context_debug c) (context_debug d)"
  "same_shape (group_debug g) (group_debug h)"
proof -
  have "same_shape (group_trust_debug a) (group_trust_debug b)" for a b
    by (cases a; cases b) (simp_all add: char_classes)
  then show "same_shape (group_debug g) (group_debug h)"
    by (simp add: group_debug_def redacted_def)
  show "same_shape (context_debug c) (context_debug d)"
    by (simp add: context_debug_def redacted_def seq_debug_def)
qed

text \<open>So is every text of a formatter that prints the tree, and the plain text says no less.\<close>

lemma context_text:
  "debug_text (context_debug c) = debug_text (context_debug d) \<longleftrightarrow> public_view c = public_view d"
  "debug_text (group_debug g) = debug_text (group_debug h) \<longleftrightarrow> group_public_view g = group_public_view h"
  by (simp_all add: debug_text_inject debug_shapes context_debug_view group_debug_view)

subsection \<open>Erasure\<close>

text \<open>
  The derived erasure writes zeros over arrays and integers and makes a flag false. An enum without
  fields has nothing to erase, so the trust level of a group stays. An optional context is erased and
  then removed.
\<close>

definition zeroed :: "bytes \<Rightarrow> bytes" where
  "zeroed bs = map (\<lambda>_. 0) bs"

definition seq_zeroize :: "oscore_seq_num \<Rightarrow> oscore_seq_num" where
  "seq_zeroize self = OscoreSeqNum 0"

definition context_id_zeroize :: "context_id \<Rightarrow> context_id" where
  "context_id_zeroize self = ContextId (zeroed (context_id_bytes self))"

definition context_zeroize :: "oscore_context \<Rightarrow> oscore_context" where
  "context_zeroize self = \<lparr>
     ctx_master_secret = zeroed (ctx_master_secret self),
     ctx_master_salt = zeroed (ctx_master_salt self),
     ctx_master_salt_len = 0,
     ctx_common_iv = zeroed (ctx_common_iv self),
     ctx_id_context = zeroed (ctx_id_context self),
     ctx_id_context_len = 0,
     ctx_id_context_present = False,
     ctx_sender_id = zeroed (ctx_sender_id self),
     ctx_sender_id_len = 0,
     ctx_sender_key = zeroed (ctx_sender_key self),
     ctx_sender_seq = seq_zeroize (ctx_sender_seq self),
     ctx_sender_seq_exhausted = False,
     ctx_restored = False,
     ctx_active = False,
     ctx_recipient_id = zeroed (ctx_recipient_id self),
     ctx_recipient_id_len = 0,
     ctx_recipient_key = zeroed (ctx_recipient_key self),
     ctx_recipient_seq = seq_zeroize (ctx_recipient_seq self),
     ctx_replay_window = 0,
     ctx_response_seq = seq_zeroize (ctx_response_seq self),
     ctx_response_window = 0,
     ctx_response_window_initialized = False,
     ctx_received_response_seq = seq_zeroize (ctx_received_response_seq self),
     ctx_received_response_window = 0,
     ctx_received_response_window_initialized = False,
     ctx_received_response_piv_seq = seq_zeroize (ctx_received_response_piv_seq self),
     ctx_received_response_piv_window = 0,
     ctx_received_response_piv_window_initialized = False,
     ctx_allow_no_piv_response = False,
     ctx_context_id = context_id_zeroize (ctx_context_id self)\<rparr>"

definition context_zeroize_mod :: "mod_context \<Rightarrow> mod_context" where
  "context_zeroize_mod self = \<lparr>
     mc_master_secret = zeroed (mc_master_secret self),
     mc_master_salt = zeroed (mc_master_salt self),
     mc_master_salt_len = 0,
     mc_common_iv = zeroed (mc_common_iv self),
     mc_id_context = zeroed (mc_id_context self),
     mc_id_context_len = 0,
     mc_id_context_present = False,
     mc_sender_id = zeroed (mc_sender_id self),
     mc_sender_id_len = 0,
     mc_sender_key = zeroed (mc_sender_key self),
     mc_sender_seq = seq_zeroize (mc_sender_seq self),
     mc_sender_seq_exhausted = False,
     mc_restored = False,
     mc_active = False,
     mc_recipient_id = zeroed (mc_recipient_id self),
     mc_recipient_id_len = 0,
     mc_recipient_key = zeroed (mc_recipient_key self),
     mc_recipient_seq = seq_zeroize (mc_recipient_seq self),
     mc_replay_window = 0,
     mc_response_seq = seq_zeroize (mc_response_seq self),
     mc_response_window = 0,
     mc_response_window_initialized = False,
     mc_received_response_seq = seq_zeroize (mc_received_response_seq self),
     mc_received_response_window = 0,
     mc_received_response_window_initialized = False,
     mc_allow_no_piv_response = False,
     mc_context_id = context_id_zeroize (mc_context_id self)\<rparr>"

definition group_zeroize :: "group_context \<Rightarrow> group_context" where
  "group_zeroize self = \<lparr>
     gc_group_name = zeroed (gc_group_name self),
     gc_group_name_len = 0,
     gc_master_secret = zeroed (gc_master_secret self),
     gc_member_index = 0,
     gc_trust = gc_trust self,
     gc_member_ctx = None\<rparr>"

lemma zeroed_eq: "length bs = n \<Longrightarrow> zeroed bs = replicate n 0"
  by (simp add: zeroed_def map_replicate_const)

text \<open>What is left of any context.\<close>

definition erased_context :: oscore_context where
  "erased_context = \<lparr>
     ctx_master_secret = replicate 16 0, ctx_master_salt = replicate 8 0, ctx_master_salt_len = 0,
     ctx_common_iv = replicate 13 0, ctx_id_context = replicate 8 0, ctx_id_context_len = 0,
     ctx_id_context_present = False, ctx_sender_id = replicate 8 0, ctx_sender_id_len = 0,
     ctx_sender_key = replicate 16 0, ctx_sender_seq = OscoreSeqNum 0, ctx_sender_seq_exhausted = False,
     ctx_restored = False, ctx_active = False, ctx_recipient_id = replicate 8 0,
     ctx_recipient_id_len = 0, ctx_recipient_key = replicate 16 0, ctx_recipient_seq = OscoreSeqNum 0,
     ctx_replay_window = 0, ctx_response_seq = OscoreSeqNum 0, ctx_response_window = 0,
     ctx_response_window_initialized = False, ctx_received_response_seq = OscoreSeqNum 0,
     ctx_received_response_window = 0, ctx_received_response_window_initialized = False,
     ctx_received_response_piv_seq = OscoreSeqNum 0, ctx_received_response_piv_window = 0,
     ctx_received_response_piv_window_initialized = False, ctx_allow_no_piv_response = False,
     ctx_context_id = ContextId (replicate 32 0)\<rparr>"

text \<open>A context whose arrays have the sizes that their types give them.\<close>

definition context_sized :: "oscore_context \<Rightarrow> bool" where
  "context_sized c \<longleftrightarrow> wf_context c \<and> length (context_id_bytes (ctx_context_id c)) = 32"

lemma context_zeroize_eq: "context_sized c \<Longrightarrow> context_zeroize c = erased_context"
  by (simp add: context_sized_def wf_context_def context_zeroize_def erased_context_def zeroed_eq
      seq_zeroize_def context_id_zeroize_def)

lemma context_zeroize_lib:
  "lib_context (context_zeroize_mod m) = context_zeroize (lib_context m)"
  by (simp add: context_zeroize_def context_zeroize_mod_def lib_context_def seq_zeroize_def seq_default_def)

subsection \<open>An erased context that is used\<close>

text \<open>\<open>Zeroize\<close> is a public trait: a program can erase a context and go on using it. It can neither
  reserve nor protect.\<close>

lemma erased_refuses_sending:
  "reserve_sender S erased_context st = (st, erased_context, Err ReservationConflict)"
  "preflight_protect_request erased_context opts payload = Err InvalidParam"
  "preflight_protect_response erased_context opts payload kid piv = Err InvalidParam"
  "next_request_option_len erased_context = Err SeqExhausted"
  "protect_response oc C erased_context code opts payload kid piv incl = (erased_context, Err InvalidParam)"
  by (simp_all add: erased_context_def reserve_sender_def preflight_protect_request_def
      preflight_protect_response_def next_request_option_len_def protect_response_def)

text \<open>But it receives: the peer of an erased context is known to everybody.\<close>

definition zero_peer :: oscore_context where
  "zero_peer = erased_context\<lparr>ctx_recipient_id := 1 # replicate 7 0, ctx_recipient_id_len := 1\<rparr>"

definition named_erased :: oscore_context where
  "named_erased = erased_context\<lparr>ctx_sender_id := 1 # replicate 7 0, ctx_sender_id_len := 1\<rparr>"

lemma erased_pair: "wf_context zero_peer" "wf_context named_erased" "mirrored zero_peer named_erased"
  by (simp_all add: zero_peer_def named_erased_def erased_context_def wf_context_def mirrored_def
      sender_id_def recipient_id_def id_context_def seq_wf_def)

lemma erased_not_replay: "\<not> is_replay named_erased s"
proof (cases "get s = 0")
  case False
  then have "0 < get s" by (simp add: word_greater_zero_iff)
  then show ?thesis by (simp add: is_replay_def replay_check_def named_erased_def erased_context_def)
qed (simp add: is_replay_def replay_check_def named_erased_def erased_context_def WINDOW_SIZE_def)

text \<open>What a context decrypts does not depend on its own identifier, which an erased one shares with
  its peer: both are empty.\<close>

lemma unprotect_request_sender_free:
  "unprotect_request oc C (c\<lparr>ctx_sender_id := x, ctx_sender_id_len := y\<rparr>) opt ct =
     apfst (\<lambda>d. d\<lparr>ctx_sender_id := x, ctx_sender_id_len := y\<rparr>) (unprotect_request oc C c opt ct)"
proof -
  have "unprotect_request_body oc C (c\<lparr>ctx_sender_id := x, ctx_sender_id_len := y\<rparr>) = unprotect_request_body oc C c"
    by (simp add: fun_eq_iff unprotect_request_body_def recipient_id_def is_replay_def
        kid_context_mismatch_def id_context_def cong: if_cong)
  moreover have "update_replay_window (c\<lparr>ctx_sender_id := x, ctx_sender_id_len := y\<rparr>) s =
      (update_replay_window c s)\<lparr>ctx_sender_id := x, ctx_sender_id_len := y\<rparr>" for s
    by (simp add: update_replay_window_def split: prod.split)
  ultimately show ?thesis by (simp add: unprotect_request_def split: res.split prod.split)
qed

lemma erased_accepts:
  assumes C: "ccm_contract C" and s: "seq_wf s" and body: "body_ok opts payload"
    and len: "length (plaintext_of code opts payload) \<le> 256"
  shows "\<exists>ct opt d. protect_request_reserved C zero_peer s code opts payload = Ok (ct, opt) \<and>
    unprotect_request oc C erased_context opt ct = (d, Ok (code, opts, payload))"
proof -
  obtain ct opt where p: "protect_request_reserved C zero_peer s code opts payload = Ok (ct, opt)"
    using len by (auto simp: protect_request_eq [OF erased_pair(1) s C])
  note u = request_round_trip [OF erased_pair s C erased_not_replay body len p, of oc]
  have e: "named_erased\<lparr>ctx_sender_id := replicate 8 0, ctx_sender_id_len := 0\<rparr> = erased_context"
    by (simp add: named_erased_def erased_context_def)
  from unprotect_request_sender_free [where c = named_erased and x = "replicate 8 0" and y = 0, unfolded e]
  show ?thesis using p u by simp
qed

text \<open>And it can be registered, under the identifier zero, and then sends with the key zero.\<close>

lemma erased_registers:
  assumes "compare_exchange_sender S st (ContextId (replicate 32 0)) None
      \<lparr>next_sequence = 0, exhausted = False\<rparr> = (st', Ok True)"
  shows "register_fresh S erased_context st =
    (st', Ok (erased_context\<lparr>ctx_active := True, ctx_allow_no_piv_response := True\<rparr>))"
  using assms by (simp add: register_fresh_def erased_context_def sender_sequence_state_def)

end
