(* ===== verification/EdhocSecrets.thy ===== *)
theory EdhocSecrets
  imports Formatting EdhocStates
begin

text \<open>
  What the parties of the handshake show and what they leave behind: the \<open>Debug\<close> and \<open>Drop\<close>
  implementations of \<^verbatim>\<open>src/edhoc/initiator.rs\<close> and
  \<^verbatim>\<open>src/edhoc/responder.rs\<close>, the self-wiping vector and the accessors of
  \<^verbatim>\<open>src/edhoc/types.rs\<close>, and the \<open>Display\<close> of \<^verbatim>\<open>src/edhoc/mod.rs\<close>. How a
  \<^verbatim>\<open>heapless\<close> vector and an X25519 public key are printed is the argument \<open>P\<close>: it is code of
  those crates.
\<close>

subsection \<open>Errors and accessors\<close>

definition edhoc_error_display :: "edhoc_error \<Rightarrow> string" where
  "edhoc_error_display self =
     (case self of
        EInvalidState \<Rightarrow> ''invalid protocol state''
      | EInvalidMessage \<Rightarrow> ''invalid message format''
      | EUnsupportedSuite \<Rightarrow> ''unsupported cipher suite''
      | ESignatureVerification \<Rightarrow> ''signature verification failed''
      | EDecryptFailed \<Rightarrow> ''AEAD decryption failed''
      | EBufferTooSmall \<Rightarrow> ''buffer too small''
      | EKeyDerivation \<Rightarrow> ''key derivation failed'')"

lemma edhoc_error_display_inject: "edhoc_error_display d = edhoc_error_display e \<longleftrightarrow> d = e"
  by (cases d; cases e) (simp_all add: edhoc_error_display_def)

definition connection_id_as_bytes :: "bytes \<Rightarrow> bytes" where
  "connection_id_as_bytes self = self"

definition id_cred_as_bytes :: "id_cred \<Rightarrow> bytes" where
  "id_cred_as_bytes self = idc_encoded self"

definition id_cred_reference_of :: "id_cred \<Rightarrow> id_cred_reference" where
  "id_cred_reference_of self = idc_reference self"

definition pending_2_id_cred :: "pending_message_2 \<Rightarrow> id_cred" where
  "pending_2_id_cred self = pm2_id_cred self"

definition pending_3_id_cred :: "pending_message_3 \<Rightarrow> id_cred" where
  "pending_3_id_cred self = pm3_id_cred self"

subsection \<open>Debug\<close>

record crate_debug =
  vec_debug :: "bytes \<Rightarrow> dbg"
  public_key_debug :: "bytes \<Rightarrow> dbg"

definition connection_id_debug :: "crate_debug \<Rightarrow> bytes \<Rightarrow> dbg" where
  "connection_id_debug P self = DTuple ''ConnectionId'' [vec_debug P self]"

primrec lifecycle_debug :: "lifecycle \<Rightarrow> dbg" where
  "lifecycle_debug Created = DUnit ''Created''"
| "lifecycle_debug Message1Created = DUnit ''Message1Created''"
| "lifecycle_debug AwaitingMessage3 = DUnit ''AwaitingMessage3''"
| "lifecycle_debug PendingMessage2 = DUnit ''PendingMessage2''"
| "lifecycle_debug PendingMessage3 = DUnit ''PendingMessage3''"
| "lifecycle_debug Complete = DUnit ''Complete''"
| "lifecycle_debug Failed = DUnit ''Failed''"
| "lifecycle_debug Zeroized = DUnit ''Zeroized''"

definition initiator_state_debug :: "crate_debug \<Rightarrow> initiator_state \<Rightarrow> dbg" where
  "initiator_state_debug P self = DStruct ''InitiatorState'' [
     (''msg1'', vec_debug P (i_msg1 self)),
     (''g_y'', redacted),
     (''c_r'', connection_id_debug P (i_c_r self)),
     (''prk_2e'', redacted),
     (''prk_3e2m'', redacted),
     (''prk_4e3m'', redacted),
     (''th_2'', redacted),
     (''th_3'', redacted),
     (''th_4'', redacted),
     (''completed'', DBool (i_completed self)),
     (''lifecycle'', lifecycle_debug (i_lifecycle self))]"

definition initiator_debug :: "crate_debug \<Rightarrow> edhoc_initiator \<Rightarrow> dbg" where
  "initiator_debug P self = DStruct ''EdhocInitiator'' [
     (''privkey'', redacted),
     (''pubkey'', redacted),
     (''c_i'', connection_id_debug P (ini_c_i self)),
     (''eph_secret'', redacted),
     (''eph_public'', public_key_debug P (ini_eph_public self)),
     (''state'', initiator_state_debug P (ini_state self))]"

definition responder_state_debug :: "crate_debug \<Rightarrow> responder_state \<Rightarrow> dbg" where
  "responder_state_debug P self = DStruct ''ResponderState'' [
     (''msg1'', vec_debug P (r_msg1 self)),
     (''g_x'', redacted),
     (''c_i'', connection_id_debug P (r_c_i self)),
     (''prk_2e'', redacted),
     (''prk_3e2m'', redacted),
     (''prk_4e3m'', redacted),
     (''th_2'', redacted),
     (''th_3'', redacted),
     (''th_4'', redacted),
     (''completed'', DBool (r_completed self)),
     (''lifecycle'', lifecycle_debug (r_lifecycle self))]"

definition responder_debug :: "crate_debug \<Rightarrow> edhoc_responder \<Rightarrow> dbg" where
  "responder_debug P self = DStruct ''EdhocResponder'' [
     (''privkey'', redacted),
     (''pubkey'', redacted),
     (''c_r'', connection_id_debug P (rsp_c_r self)),
     (''eph_secret'', redacted),
     (''eph_public'', public_key_debug P (rsp_eph_public self)),
     (''state'', responder_state_debug P (rsp_state self))]"

text \<open>What is printed of a party: the two identifiers, the ephemeral public key, message 1, which
  went over the wire, and how far the handshake is.\<close>

definition initiator_view :: "edhoc_initiator \<Rightarrow> bytes \<times> bytes \<times> bytes \<times> bytes \<times> bool \<times> lifecycle" where
  "initiator_view a = (ini_c_i a, i_c_r (ini_state a), ini_eph_public a, i_msg1 (ini_state a),
     i_completed (ini_state a), i_lifecycle (ini_state a))"

definition responder_view :: "edhoc_responder \<Rightarrow> bytes \<times> bytes \<times> bytes \<times> bytes \<times> bool \<times> lifecycle" where
  "responder_view a = (rsp_c_r a, r_c_i (rsp_state a), rsp_eph_public a, r_msg1 (rsp_state a),
     r_completed (rsp_state a), r_lifecycle (rsp_state a))"

lemma lifecycle_debug_inject [simp]: "lifecycle_debug a = lifecycle_debug b \<longleftrightarrow> a = b"
  by (cases a; cases b) simp_all

lemmas party_debug_defs = initiator_debug_def initiator_state_debug_def responder_debug_def
  responder_state_debug_def connection_id_debug_def initiator_view_def responder_view_def

lemma party_debug_view:
  "initiator_view a = initiator_view b \<Longrightarrow> initiator_debug P a = initiator_debug P b"
  "responder_view u = responder_view v \<Longrightarrow> responder_debug P u = responder_debug P v"
  by (simp_all add: party_debug_defs)

lemma party_debug_exact:
  assumes "inj (vec_debug P)" "inj (public_key_debug P)"
  shows "initiator_debug P a = initiator_debug P b \<Longrightarrow> initiator_view a = initiator_view b"
    and "responder_debug P u = responder_debug P v \<Longrightarrow> responder_view u = responder_view v"
  using assms by (auto simp: party_debug_defs inj_eq)

subsection \<open>Drop\<close>

text \<open>Dropping a party erases it, then drops its fields: the state erases itself once more. The bytes
  of a \<open>SecretVec\<close> are overwritten, its length stays.\<close>

definition secret_vec_new :: bytes where "secret_vec_new = []"

definition secret_vec_zeroize :: "bytes \<Rightarrow> bytes" where
  "secret_vec_zeroize self = map (\<lambda>_. 0) self"

definition secret_vec_drop :: "bytes \<Rightarrow> bytes" where
  "secret_vec_drop self = map (\<lambda>_. 0) self"

definition initiator_state_drop :: "initiator_state \<Rightarrow> initiator_state" where
  "initiator_state_drop self = initiator_state_zeroize self"

definition initiator_drop :: "edhoc_crypto \<Rightarrow> edhoc_initiator \<Rightarrow> edhoc_initiator" where
  "initiator_drop E self =
     (let self = initiator_zeroize E self in self\<lparr>ini_state := initiator_state_drop (ini_state self)\<rparr>)"

definition responder_state_drop :: "responder_state \<Rightarrow> responder_state" where
  "responder_state_drop self = responder_state_zeroize self"

definition responder_drop :: "edhoc_crypto \<Rightarrow> edhoc_responder \<Rightarrow> edhoc_responder" where
  "responder_drop E self =
     (let self = responder_zeroize E self in self\<lparr>rsp_state := responder_state_drop (rsp_state self)\<rparr>)"

definition pending_2_drop :: "pending_message_2 \<Rightarrow> pending_message_2" where
  "pending_2_drop self = self\<lparr>pm2_plaintext := secret_vec_drop (pm2_plaintext self)\<rparr>"

definition pending_3_drop :: "pending_message_3 \<Rightarrow> pending_message_3" where
  "pending_3_drop self = self\<lparr>pm3_plaintext := secret_vec_drop (pm3_plaintext self)\<rparr>"

text \<open>What a dropped party still holds: its public keys, the two identifiers and a length.\<close>

definition initiator_rest :: "edhoc_initiator \<Rightarrow> bytes \<times> bytes \<times> bytes \<times> bytes \<times> nat" where
  "initiator_rest a = (ini_pubkey a, ini_c_i a, ini_eph_public a, i_c_r (ini_state a), length (i_msg1 (ini_state a)))"

definition responder_rest :: "edhoc_responder \<Rightarrow> bytes \<times> bytes \<times> bytes \<times> bytes \<times> nat" where
  "responder_rest a = (rsp_pubkey a, rsp_c_r a, rsp_eph_public a, r_c_i (rsp_state a), length (r_msg1 (rsp_state a)))"

lemma state_drop:
  "initiator_state_drop (initiator_state_zeroize st\<lparr>i_lifecycle := l\<rparr>) = initiator_state_zeroize st\<lparr>i_lifecycle := l\<rparr>"
  "responder_state_drop (responder_state_zeroize rs\<lparr>r_lifecycle := l\<rparr>) = responder_state_zeroize rs\<lparr>r_lifecycle := l\<rparr>"
  by (simp_all add: initiator_state_drop_def initiator_state_zeroize_def responder_state_drop_def
      responder_state_zeroize_def)

lemma party_drop: "initiator_drop E a = initiator_zeroize E a" "responder_drop E u = responder_zeroize E u"
  by (simp_all add: initiator_drop_def initiator_zeroize_def initiator_wipe_def state_drop
      responder_drop_def responder_zeroize_def responder_wipe_def)

lemma state_zeroize_rest:
  "i_c_r a = i_c_r b \<Longrightarrow> length (i_msg1 a) = length (i_msg1 b) \<Longrightarrow>
   initiator_state_zeroize a\<lparr>i_lifecycle := l\<rparr> = initiator_state_zeroize b\<lparr>i_lifecycle := l\<rparr>"
  "r_c_i u = r_c_i v \<Longrightarrow> length (r_msg1 u) = length (r_msg1 v) \<Longrightarrow>
   responder_state_zeroize u\<lparr>r_lifecycle := l\<rparr> = responder_state_zeroize v\<lparr>r_lifecycle := l\<rparr>"
  by (simp_all add: initiator_state_zeroize_def responder_state_zeroize_def)

lemma party_drop_rest:
  "initiator_rest a = initiator_rest b \<Longrightarrow> key_zeroize E (ini_privkey a) = key_zeroize E (ini_privkey b) \<Longrightarrow>
   initiator_drop E a = initiator_drop E b"
  "responder_rest u = responder_rest v \<Longrightarrow> key_zeroize E (rsp_privkey u) = key_zeroize E (rsp_privkey v) \<Longrightarrow>
   responder_drop E u = responder_drop E v"
  unfolding party_drop initiator_zeroize_def responder_zeroize_def
  by (simp_all add: initiator_wipe_def responder_wipe_def initiator_rest_def responder_rest_def
      state_zeroize_rest(1) [where a = "ini_state a" and b = "ini_state b"]
      state_zeroize_rest(2) [where u = "rsp_state u" and v = "rsp_state v"])

end
