(* ===== verification/SecretProperties.thy ===== *)
theory SecretProperties
  imports ContextSecrets EdhocSecrets EdhocInstances
begin

text \<open>
  What the library discloses of its secrets, across both layers: the text that its \<open>Debug\<close> and
  \<open>Display\<close> implementations print, and what erasure leaves of a context or of a party of the
  handshake.
\<close>

text \<open>C26: What is printed discloses the public fields and nothing else. The plain \<open>Debug\<close> text of a
  context, of either tree, and of a group context is the same exactly when the printed fields are: no
  key, salt, IV or identifier has any influence on it. What a party of the handshake hands to the
  formatter is a function of its identifiers, its ephemeral public key, message 1 and its progress.
  The text of an error or of a sequence number determines it.\<close>

theorem text_discloses_public_fields:
  "(debug_text (context_debug c) = debug_text (context_debug d) \<longleftrightarrow> public_view c = public_view d) \<and>
   (debug_text (context_debug_mod m) = debug_text (context_debug_mod n) \<longleftrightarrow>
     public_view (lib_context m) = public_view (lib_context n)) \<and>
   (debug_text (group_debug g) = debug_text (group_debug h) \<longleftrightarrow> group_public_view g = group_public_view h) \<and>
   (\<exists>f. \<forall>a. initiator_debug P a = f (initiator_view a)) \<and>
   (\<exists>f. \<forall>u. responder_debug P u = f (responder_view u)) \<and>
   (oscore_error_display x = oscore_error_display y \<longleftrightarrow> x = y) \<and>
   (edhoc_error_display v = edhoc_error_display w \<longleftrightarrow> v = w) \<and>
   (seq_display s = seq_display t \<longleftrightarrow> s = t)"
proof -
  have factor: "(\<And>a b. k a = k b \<Longrightarrow> p a = p b) \<Longrightarrow> \<exists>f. \<forall>a. p a = f (k a)" for p :: "'a \<Rightarrow> 'b" and k :: "'a \<Rightarrow> 'c"
    by (rule exI [of _ "\<lambda>z. p (SOME a. k a = z)"]) (metis (mono_tags, lifting) someI_ex)
  have "\<exists>f. \<forall>a. initiator_debug P a = f (initiator_view a)"
    by (rule factor) (rule party_debug_view)
  moreover have "\<exists>f. \<forall>u. responder_debug P u = f (responder_view u)"
    by (rule factor) (rule party_debug_view)
  ultimately show ?thesis
    by (simp only: context_debug_lib context_text oscore_error_display_inject edhoc_error_display_inject
        seq_display_inject simp_thms)
qed



end
