(* ===== verification/CredentialTests.thy ===== *)
theory CredentialTests
  imports EdhocCredential "HOL-Library.List_Lexorder"
begin

text \<open>
  The two helpers of \<^verbatim>\<open>src/edhoc/credential.rs\<close> that are compiled for tests only:
  \<open>copy_id_cred_value\<close>, and \<open>validate_deterministic_item\<close>, the check of a map or an array for a
  deterministic encoding. An accepted map is a sequence of pairs whose keys are strictly ascending in
  the lexicographic order of their bytes, and no input makes the check panic.
\<close>

subsection \<open>The helpers\<close>

definition copy_id_cred_value :: "bytes \<Rightarrow> (edhoc_error, bytes) res" where
  "copy_id_cred_value data = extend_err ID_CRED_MAX_LEN [] data"

text \<open>The end of the key that starts at \<open>offset\<close>.\<close>

definition map_key_end :: "bytes \<Rightarrow> nat \<Rightarrow> (edhoc_error, nat) res" where
  "map_key_end data offset =
     (if length data \<le> offset then Err EInvalidMessage
      else
        and_then (index data offset) (\<lambda>b.
        and_then
          (if b \<le> 0x17 then Ok (offset + 1)
           else if b = 0x18 then Ok (offset + 2)
           else if b = 0x19 then Ok (offset + 3)
           else if b = 0x1a then Ok (offset + 5)
           else if b = 0x1b then Ok (offset + 9)
           else if 0x60 \<le> b \<and> b \<le> 0x77 then Ok (offset + (1 + as_usize (b - 0x60)))
           else if b = 0x78 then
             if length data \<le> offset + 1 then Err EInvalidMessage
             else and_then (index data (offset + 1)) (\<lambda>n. Ok (offset + (2 + as_usize n)))
           else Err EInvalidMessage) (\<lambda>offset.
          if length data < offset then Err EInvalidMessage else Ok offset)))"

text \<open>The size of the value at \<open>offset\<close>, in a map and in an array.\<close>

definition map_value_size :: "bytes \<Rightarrow> nat \<Rightarrow> (edhoc_error, nat) res" where
  "map_value_size data offset =
     and_then (slice_from data offset) (\<lambda>tail.
       case parse_bstr tail of
         Ok (_, n) \<Rightarrow> Ok n
       | Panic \<Rightarrow> Panic
       | Err _ \<Rightarrow>
           if offset < length data \<and> data ! offset \<le> 0x17 then Ok 1
           else if offset < length data \<and> data ! offset = 0x18 \<and> offset + 1 < length data then Ok 2
           else Err EInvalidMessage)"

definition array_value_size :: "bytes \<Rightarrow> nat \<Rightarrow> (edhoc_error, nat) res" where
  "array_value_size data offset =
     and_then (slice_from data offset) (\<lambda>tail.
       case parse_bstr tail of
         Ok (_, n) \<Rightarrow> Ok n
       | Panic \<Rightarrow> Panic
       | Err _ \<Rightarrow>
           and_then (index data offset) (\<lambda>b.
             if b \<le> 0x17 then Ok 1
             else if b = 0x18 \<and> offset + 1 < length data then Ok 2
             else Err EInvalidMessage))"

primrec map_pairs :: "bytes \<Rightarrow> nat \<Rightarrow> nat \<Rightarrow> bytes option \<Rightarrow> (edhoc_error, nat) res" where
  "map_pairs data 0 offset prev_key = Ok offset"
| "map_pairs data (Suc k) offset prev_key =
     and_then (map_key_end data offset) (\<lambda>key_end.
     and_then (slice data offset key_end) (\<lambda>key.
     if (case prev_key of Some prev \<Rightarrow> key \<le> prev | None \<Rightarrow> False) then Err EInvalidMessage
     else
       and_then (map_value_size data key_end) (\<lambda>n.
         map_pairs data k (key_end + n) (Some key))))"

primrec array_items :: "bytes \<Rightarrow> nat \<Rightarrow> nat \<Rightarrow> (edhoc_error, nat) res" where
  "array_items data 0 offset = Ok offset"
| "array_items data (Suc k) offset =
     (if length data \<le> offset then Err EInvalidMessage
      else and_then (array_value_size data offset) (\<lambda>n. array_items data k (offset + n)))"

definition validate_deterministic_item :: "bytes \<Rightarrow> (edhoc_error, unit) res" where
  "validate_deterministic_item data =
     (if data = [] then Err EInvalidMessage
      else
        and_then (index data 0) (\<lambda>first.
        if first = 0xa0 then Ok ()
        else if 0xa1 \<le> first \<and> first \<le> 0xb7 then
          and_then (map_pairs data (as_usize (first - 0xa1) + 1) 1 None) (\<lambda>offset.
            guard (offset = length data) EInvalidMessage)
        else if 0x80 \<le> first \<and> first \<le> 0x97 then
          and_then (array_items data (as_usize (first - 0x80)) 1) (\<lambda>offset.
            guard (offset = length data) EInvalidMessage)
        else Err EInvalidMessage))"

subsection \<open>Maps\<close>

lemma map_key_end_Ok: "map_key_end data offset = Ok e \<Longrightarrow> offset < e \<and> e \<le> length data"
  by (auto simp: map_key_end_def res_simps split: if_splits)

lemma map_value_size_Ok: "map_value_size data offset = Ok n \<Longrightarrow> offset + n \<le> length data \<and> 1 \<le> n"
  by (auto simp: map_value_size_def res_simps slice_simps dest: parse_bstr_Ok(1) parse_bstr_Ok(2)
      split: res.splits if_splits)

text \<open>A walk over the pairs splits the bytes it passes into keys and values, with ascending keys.\<close>

lemma map_pairs_sound:
  assumes "map_pairs data k offset prev_key = Ok e" and "offset \<le> length data"
  obtains kvs where "length kvs = k" "e \<le> length data"
    "take e data = take offset data @ concat (map (\<lambda>(key, v). key @ v) kvs)"
    "sorted_wrt (<) ((case prev_key of None \<Rightarrow> [] | Some p \<Rightarrow> [p]) @ map fst kvs)"
  using assms
proof (induction k arbitrary: offset prev_key thesis)
  case 0
  then show ?case by (auto split: option.splits)
next
  case (Suc k)
  from Suc.prems(2) obtain ke n where steps: "map_key_end data offset = Ok ke"
      "map_value_size data ke = Ok n" "map_pairs data k (ke + n) (Some (take (ke - offset) (drop offset data))) = Ok e"
    and less: "\<And>p. prev_key = Some p \<Longrightarrow> p < take (ke - offset) (drop offset data)"
    by (auto simp: res_simps slice_simps split: if_splits option.splits)
  let ?key = "take (ke - offset) (drop offset data)" and ?v = "take n (drop ke data)"
  note b = map_key_end_Ok [OF steps(1)] map_value_size_Ok [OF steps(2)]
  then have "ke + n \<le> length data" by simp
  from Suc.IH [OF _ steps(3) this] obtain kvs where kvs: "length kvs = k" "e \<le> length data"
    "take e data = take (ke + n) data @ concat (map (\<lambda>(key, v). key @ v) kvs)"
    "sorted_wrt (<) (?key # map fst kvs)" by auto
  have "take (ke + n) data = take offset data @ ?key @ ?v"
    using b by (metis append.assoc le_add_diff_inverse less_imp_le take_add)
  moreover have "sorted_wrt (<) ((case prev_key of None \<Rightarrow> [] | Some p \<Rightarrow> [p]) @ map fst ((?key, ?v) # kvs))"
    using kvs(4) less by (auto split: option.splits intro: less_trans)
  ultimately show ?case using kvs by (intro Suc.prems(1) [of "(?key, ?v) # kvs"]) simp_all
qed

lemma deterministic_map_sound:
  assumes "validate_deterministic_item (first # rest) = Ok ()" and "0xa1 \<le> first" "first \<le> 0xb7"
  obtains kvs where "length kvs = unat (first - 0xa1) + 1" "rest = concat (map (\<lambda>(key, v). key @ v) kvs)"
    "sorted_wrt (<) (map fst kvs)"
proof -
  have "first \<noteq> 0xa0" using assms(2) by auto
  with assms have "map_pairs (first # rest) (unat (first - 0xa1) + 1) 1 None = Ok (length (first # rest))"
    by (auto simp: validate_deterministic_item_def index_def res_simps simp del: map_pairs.simps)
  from map_pairs_sound [OF this] obtain kvs where "length kvs = unat (first - 0xa1) + 1"
    "take (length (first # rest)) (first # rest) = take 1 (first # rest) @ concat (map (\<lambda>(key, v). key @ v) kvs)"
    "sorted_wrt (<) (map fst kvs)" by auto
  then show ?thesis by (intro that) simp_all
qed

subsection \<open>No panic\<close>

lemma value_size_no_panic:
  "offset \<le> length data \<Longrightarrow> map_value_size data offset \<noteq> Panic"
  "offset < length data \<Longrightarrow> array_value_size data offset \<noteq> Panic"
  using parse_bstr_total(1)
  by (auto simp: map_value_size_def array_value_size_def res_simps slice_simps split: res.splits if_splits)

lemma map_key_end_no_panic: "map_key_end data offset \<noteq> Panic"
  by (auto simp: map_key_end_def res_simps slice_simps split: if_splits)

lemma map_pairs_no_panic: "offset \<le> length data \<Longrightarrow> map_pairs data k offset prev_key \<noteq> Panic"
proof (induction k arbitrary: offset prev_key)
  case (Suc k)
  show ?case
  proof (cases "map_key_end data offset")
    case (Ok ke)
    note b = map_key_end_Ok [OF Ok]
    then have key: "slice data offset ke = (Ok (take (ke - offset) (drop offset data)) :: (edhoc_error, bytes) res)"
      by (simp add: slice_def)
    show ?thesis
    proof (cases "map_value_size data ke")
      case v: (Ok n)
      with map_value_size_Ok [OF v] Suc.IH show ?thesis by (simp add: Ok key split: option.splits)
    qed (use b value_size_no_panic(1) in \<open>auto simp: Ok key split: option.splits\<close>)
  qed (simp_all add: map_key_end_no_panic)
qed simp

lemma array_items_no_panic: "array_items data k offset \<noteq> Panic"
  by (induction k arbitrary: offset) (auto simp: res_simps value_size_no_panic not_le)

lemma validate_deterministic_item_no_panic: "validate_deterministic_item data \<noteq> Panic"
  by (cases data)
    (auto simp: validate_deterministic_item_def index_def res_simps array_items_no_panic
      map_pairs_no_panic simp del: map_pairs.simps)

end
