(* ===== verification/UnitTests.thy ===== *)
theory UnitTests
  imports OscoreContext
begin

text \<open>
  The unit tests of \<^verbatim>\<open>src/seqnum.rs\<close> and those of \<^verbatim>\<open>src/lib.rs\<close> that need no
  cryptography, as programs over the model: a test is a computation that ends with \<open>Ok ()\<close> when it
  passes and panics where an assertion or an \<open>unwrap\<close> of the source fails. Each lemma runs one test
  to its end.
\<close>

subsection \<open>Assertions\<close>

type_synonym test_run = "(unit, unit) res"

definition assert_that :: "bool \<Rightarrow> test_run" where
  "assert_that b = (if b then Ok () else Panic)"

definition assert_eq :: "'a \<Rightarrow> 'a \<Rightarrow> test_run" where
  "assert_eq a b = assert_that (a = b)"

definition assert_ne :: "'a \<Rightarrow> 'a \<Rightarrow> test_run" where
  "assert_ne a b = assert_that (a \<noteq> b)"

primrec unwrap :: "('e, 'a) res \<Rightarrow> (unit, 'a) res" where
  "unwrap (Ok x) = Ok x"
| "unwrap (Err e) = Panic"
| "unwrap Panic = Panic"

primrec unwrap_err :: "('e, 'a) res \<Rightarrow> (unit, 'e) res" where
  "unwrap_err (Ok x) = Panic"
| "unwrap_err (Err e) = Ok e"
| "unwrap_err Panic = Panic"

primrec is_ok :: "('e, 'a) res \<Rightarrow> (unit, bool) res" where
  "is_ok (Ok x) = Ok True"
| "is_ok (Err e) = Ok False"
| "is_ok Panic = Panic"

text \<open>A call that changes its receiver, unwrapped: the new receiver and the value or the error.\<close>

definition unwrap_call :: "'s \<times> ('e, 'a) res \<Rightarrow> (unit, 's \<times> 'a) res" where
  "unwrap_call c = and_then (unwrap (snd c)) (\<lambda>x. Ok (fst c, x))"

definition unwrap_err_call :: "'s \<times> ('e, 'a) res \<Rightarrow> (unit, 's \<times> 'e) res" where
  "unwrap_err_call c = and_then (unwrap_err (snd c)) (\<lambda>e. Ok (fst c, e))"

text \<open>The statements of a test in their order, and a \<open>for\<close> loop over them.\<close>

primrec checks :: "test_run list \<Rightarrow> test_run" where
  "checks [] = Ok ()"
| "checks (c # cs) = and_then c (\<lambda>_. checks cs)"

definition check_all :: "('a \<Rightarrow> test_run) \<Rightarrow> 'a list \<Rightarrow> test_run" where
  "check_all f xs = checks (map f xs)"

lemmas test_simps = assert_that_def assert_eq_def assert_ne_def check_all_def unwrap_call_def unwrap_err_call_def Let_def

lemma assert_that_Ok [simp]: "assert_that b = Ok u \<longleftrightarrow> b"
  by (simp add: assert_that_def)

subsection \<open>Sequence numbers\<close>

definition basic_operations :: test_run where
  "basic_operations =
     and_then (expect (seq_new 0)) (\<lambda>seq. checks [
       assert_eq (get seq) 0,
       and_then (expect (seq_increment seq)) (\<lambda>n. assert_eq (get n) 1)])"

definition test_fetch_increment :: test_run where
  "test_fetch_increment =
     and_then (expect (seq_new 0)) (\<lambda>seq.
     let (seq, r) = fetch_increment seq in
     and_then (expect r) (\<lambda>old. checks [assert_eq (get old) 0, assert_eq (get seq) 1]))"

definition increment_at_max_returns_none :: test_run where
  "increment_at_max_returns_none =
     and_then (expect (seq_new SEQ_MAX)) (\<lambda>seq.
     and_then (assert_that (seq_increment seq = None)) (\<lambda>_.
     and_then (expect (seq_new SEQ_MAX)) (\<lambda>seq_mut.
     let (seq_mut, r) = fetch_increment seq_mut in
     checks [assert_that (r = None), assert_eq (get seq_mut) SEQ_MAX])))"

definition increment_near_max_succeeds :: test_run where
  "increment_near_max_succeeds =
     and_then (expect (seq_new (ucast ((0xFFFFFFFF :: u32) - 1)))) (\<lambda>seq.
     and_then (expect (seq_increment seq)) (\<lambda>next.
       assert_eq (get next) (ucast (0xFFFFFFFF :: u32))))"

definition exhaustion_detection :: test_run where
  "exhaustion_detection = checks [
     and_then (expect (seq_new 1000)) (\<lambda>low. assert_that (\<not> is_near_exhaustion low)),
     and_then (expect (seq_new EXHAUSTION_THRESHOLD)) (\<lambda>high. assert_that (is_near_exhaustion high)),
     and_then (expect (seq_new SEQ_MAX)) (\<lambda>maximum. assert_that (is_near_exhaustion maximum))]"

definition literal_piv_boundaries_roundtrip_minimally :: test_run where
  "literal_piv_boundaries_roundtrip_minimally =
     check_all (\<lambda>(value, encoded).
       and_then (expect (seq_new value)) (\<lambda>seq.
       and_then (encode_piv seq (replicate 5 0)) (\<lambda>(piv, len).
       checks [
         and_then (slice piv 0 len) (\<lambda>p. assert_eq p encoded),
         assert_eq (from_piv encoded) (Some seq)])))
     [(0xff, [0xff]), (0x100, [1, 0]), (0xffffffff, [0xff, 0xff, 0xff, 0xff]),
      (0x100000000, [1, 0, 0, 0, 0]), (0xffffffffff, [0xff, 0xff, 0xff, 0xff, 0xff])]"

definition rejects_out_of_range_overlong_and_nonminimal_pivs :: test_run where
  "rejects_out_of_range_overlong_and_nonminimal_pivs = checks [
     assert_eq (seq_new 0x10000000000) None,
     assert_eq (from_piv [1, 0, 0, 0, 0, 0]) None,
     assert_eq (from_piv [0, 1]) None,
     assert_eq (from_piv [0, 0]) None,
     assert_eq (from_piv [0]) (seq_new 0)]"

definition conversion_traits :: test_run where
  "conversion_traits =
     (let seq = seq_from_u32 42 in
      checks [assert_eq (get seq) 42, let raw = u64_from_seq seq in assert_eq raw 42])"

text \<open>The sequence-number test of \<^verbatim>\<open>src/lib.rs\<close>: one array for all encodings.\<close>

definition piv_case :: "bytes \<Rightarrow> u64 \<Rightarrow> nat \<Rightarrow> bytes \<Rightarrow> (unit, bytes) res" where
  "piv_case piv value expected_len expected =
     and_then (expect (seq_new value)) (\<lambda>seq.
     and_then (encode_piv seq piv) (\<lambda>(piv, len).
     and_then (assert_eq len expected_len) (\<lambda>_.
     and_then (slice piv 0 expected_len) (\<lambda>p.
     and_then (assert_eq p expected) (\<lambda>_.
     and_then (slice piv 0 len) (\<lambda>p.
     and_then (expect (from_piv p)) (\<lambda>decoded.
     and_then (assert_eq (get decoded) value) (\<lambda>_.
       Ok piv))))))))"

definition test_piv_encode_decode :: test_run where
  "test_piv_encode_decode =
     and_then (piv_case (replicate PIV_MAX_LEN 0) 0 1 [0]) (\<lambda>piv.
     and_then (piv_case piv 1 1 [1]) (\<lambda>piv.
     and_then (piv_case piv 256 2 [1, 0]) (\<lambda>piv.
     and_then (piv_case piv 0x123456 3 [0x12, 0x34, 0x56]) (\<lambda>_. Ok ()))))"

subsection \<open>The option, the nonce and the inner body\<close>

definition rfc8613_nonce_formula_literal :: test_run where
  "rfc8613_nonce_formula_literal =
     assert_eq (compute_nonce [0xaa, 0xbb] [1, 2, 3] (replicate NONCE_LEN 0))
       [0x02, 0, 0, 0, 0, 0, 0xaa, 0xbb, 0, 0, 0x01, 0x02, 0x03]"

definition oscore_option_literals :: test_run where
  "oscore_option_literals = checks [
     and_then (unwrap (parse_option [])) (\<lambda>empty. checks [
       assert_eq (opt_piv_len empty) 0, assert_eq (opt_kid_len empty) 0,
       assert_that (\<not> opt_kid_present empty), assert_that (\<not> opt_kid_context_present empty)]),
     and_then (unwrap (parse_option [0x09, 0x01, 0xaa])) (\<lambda>populated. checks [
       assert_eq (piv_of populated) [0x01], assert_eq (kid_of populated) [0xaa],
       assert_that (opt_kid_present populated)]),
     and_then (unwrap (parse_option [0x19, 0x01, 0x02, 0xbb, 0xcc, 0xaa])) (\<lambda>with_context. checks [
       assert_eq (kid_context_of with_context) [0xbb, 0xcc],
       assert_that (opt_kid_context_present with_context),
       assert_that (opt_kid_present with_context)]),
     check_all (\<lambda>malformed.
         and_then (unwrap_err (parse_option malformed)) (\<lambda>e. assert_eq e InvalidParam))
       [[0x00], [0x20], [0x40], [0x80], [0x00, 0xaa], [0x01, 0xaa, 0xbb], [0x10, 0x00, 0xaa]]]"

definition request_identifiers_accept_present_empty_kid :: test_run where
  "request_identifiers_accept_present_empty_kid =
     and_then (unwrap (request_identifiers [0x09, 0x01])) (\<lambda>identifiers. checks [
       assert_eq (ri_kid_bytes identifiers) [], assert_eq (ri_piv_bytes identifiers) [0x01]])"

definition rfc7252_inner_body_literal :: test_run where
  "rfc7252_inner_body_literal =
     (let body = [0xbb] @ ascii ''.well-known'' @ [0x04] @ ascii ''core'' @ [0xff] @ ascii ''</sensors>'' in
      and_then (unwrap (parse_inner_body body)) (\<lambda>(options, payload). checks [
        assert_eq options ([0xbb] @ ascii ''.well-known'' @ [0x04] @ ascii ''core''),
        assert_eq payload (ascii ''</sensors>'')]))"

definition inner_body_preserves_ff_in_values_and_extensions :: test_run where
  "inner_body_preserves_ff_in_values_and_extensions =
     (let whole = (\<lambda>body. and_then (unwrap (parse_inner_body body)) (\<lambda>r. assert_eq r (body, []))) in
      checks [
        whole [0x13, 0xaa, 0xff, 0xbb],
        whole [0xd1, 0xff, 0xff],
        whole ((replicate 270 0)[0 := 0x0d, 1 := 0xff, 100 := 0xff])])"

definition test_find_payload_marker_skips_0xff_in_option_value :: "bool \<Rightarrow> test_run" where
  "test_find_payload_marker_skips_0xff_in_option_value oc =
     (let data = [0x11, 0xFF, 0xFF] @ ascii ''hi'' in
      and_then (unwrap (find_payload_marker oc data)) (\<lambda>marker_pos. checks [
        assert_eq marker_pos (Some 2),
        and_then (slice data 0 2) (\<lambda>options_slice. assert_eq options_slice [0x11, 0xFF]),
        and_then (slice_from data 3) (\<lambda>payload_slice. assert_eq payload_slice (ascii ''hi''))]))"

definition test_find_payload_marker_no_marker :: "bool \<Rightarrow> test_run" where
  "test_find_payload_marker_no_marker oc =
     and_then (unwrap (find_payload_marker oc [0x11, 0x42])) (\<lambda>marker_pos. assert_eq marker_pos None)"

definition test_find_payload_marker_immediate_marker :: "bool \<Rightarrow> test_run" where
  "test_find_payload_marker_immediate_marker oc =
     and_then (unwrap (find_payload_marker oc (0xFF # ascii ''pay''))) (\<lambda>marker_pos.
       assert_eq marker_pos (Some 0))"

definition test_find_payload_marker_extended_length :: "bool \<Rightarrow> test_run" where
  "test_find_payload_marker_extended_length oc =
     (let data = [0x0D, 0x00] @ replicate 13 0x42 @ [0xFF] @ ascii ''payload'' in
      and_then (unwrap (find_payload_marker oc data)) (\<lambda>marker_pos. assert_eq marker_pos (Some 15)))"

subsection \<open>They pass\<close>

text \<open>Literal numbers and encodings.\<close>

lemmas seq_eval = seq_new_def SEQ_MAX_def EXHAUSTION_THRESHOLD_def seq_wf_def is_near_exhaustion_def
  fetch_increment_def seq_increment_def checked_add_u64_def
lemmas piv_eval = encode_piv_eq piv_bytes_def be_bytes.simps slice_def from_piv_eq canonical_be_def be_val_def
lemmas option_eval = parse_option_def parse_option_piv_def parse_option_kid_context_def parse_option_kid_def
  empty_option_def piv_of_def kid_of_def kid_context_of_def slice_def slice_from_def copy_at_def index_def
  from_piv_eq canonical_be_def be_val_def
lemmas body_eval = parse_inner_body_def parse_loop_step parse_loop_end parse_loop_marker option_step_def
  nibble_value_def isize_max_def ascii_def

lemma replicate_13: "replicate 13 x = [x, x, x, x, x, x, x, x, x, x, x, x, x]"
  by (simp add: numeral_eq_Suc)

lemma basic_operations_passes: "basic_operations = Ok ()"
  by (simp add: basic_operations_def test_simps seq_eval)

lemma test_fetch_increment_passes: "test_fetch_increment = Ok ()"
  by (simp add: test_fetch_increment_def test_simps seq_eval)

lemma increment_at_max_returns_none_passes: "increment_at_max_returns_none = Ok ()"
  by (simp add: increment_at_max_returns_none_def test_simps seq_eval)

lemma increment_near_max_succeeds_passes: "increment_near_max_succeeds = Ok ()"
  by (simp add: increment_near_max_succeeds_def test_simps seq_eval)

lemma exhaustion_detection_passes: "exhaustion_detection = Ok ()"
  by (simp add: exhaustion_detection_def test_simps seq_eval)

lemma literal_piv_boundaries_roundtrip_minimally_passes:
  "literal_piv_boundaries_roundtrip_minimally = Ok ()"
  by (simp add: literal_piv_boundaries_roundtrip_minimally_def test_simps seq_eval piv_eval)

lemma rejects_out_of_range_overlong_and_nonminimal_pivs_passes:
  "rejects_out_of_range_overlong_and_nonminimal_pivs = Ok ()"
  by (simp add: rejects_out_of_range_overlong_and_nonminimal_pivs_def test_simps seq_eval piv_eval)

lemma conversion_traits_passes: "conversion_traits = Ok ()"
  by (simp add: conversion_traits_def test_simps seq_from_u32_def u64_from_seq_def)

lemma test_piv_encode_decode_passes: "test_piv_encode_decode = Ok ()"
  by (simp add: test_piv_encode_decode_def piv_case_def test_simps seq_eval piv_eval)

lemma rfc8613_nonce_formula_literal_passes: "rfc8613_nonce_formula_literal = Ok ()"
  by (simp add: rfc8613_nonce_formula_literal_def test_simps compute_nonce_def overwrite_def replicate_13
      numeral_2_eq_2)

lemma oscore_option_literals_passes: "oscore_option_literals = Ok ()"
  by (simp add: oscore_option_literals_def test_simps option_eval)

lemma request_identifiers_accept_present_empty_kid_passes:
  "request_identifiers_accept_present_empty_kid = Ok ()"
  by (simp add: request_identifiers_accept_present_empty_kid_def request_identifiers_def ri_kid_bytes_def
      ri_piv_bytes_def test_simps option_eval)

lemma rfc7252_inner_body_literal_passes: "rfc7252_inner_body_literal = Ok ()"
  by (simp add: rfc7252_inner_body_literal_def test_simps body_eval)

lemma inner_body_preserves_ff_in_values_and_extensions_passes:
  "inner_body_preserves_ff_in_values_and_extensions = Ok ()"
  by (simp add: inner_body_preserves_ff_in_values_and_extensions_def test_simps body_eval)

lemma marker_of_body:
  assumes "parse_inner_body data = Ok (opts, payload)" and "length data \<le> isize_max"
  shows "find_payload_marker oc data = Ok (if payload = [] then None else Some (length opts))"
  using parse_inner_body_find [OF assms(2,1)] .

lemma test_find_payload_marker_skips_0xff_in_option_value_passes:
  "test_find_payload_marker_skips_0xff_in_option_value oc = Ok ()"
proof -
  have "parse_inner_body ([0x11, 0xFF, 0xFF] @ ascii ''hi'') = Ok ([0x11, 0xFF], ascii ''hi'')"
    by (simp add: body_eval)
  from marker_of_body [OF this, of oc] show ?thesis
    by (simp add: test_find_payload_marker_skips_0xff_in_option_value_def test_simps ascii_def isize_max_def
        slice_def slice_from_def)
qed

lemma test_find_payload_marker_no_marker_passes: "test_find_payload_marker_no_marker oc = Ok ()"
proof -
  have "parse_inner_body [0x11, 0x42] = Ok ([0x11, 0x42], [])" by (simp add: body_eval)
  from marker_of_body [OF this, of oc] show ?thesis
    by (simp add: test_find_payload_marker_no_marker_def test_simps isize_max_def)
qed

lemma test_find_payload_marker_immediate_marker_passes:
  "test_find_payload_marker_immediate_marker oc = Ok ()"
proof -
  have "parse_inner_body (0xFF # ascii ''pay'') = Ok ([], ascii ''pay'')" by (simp add: body_eval)
  from marker_of_body [OF this, of oc] show ?thesis
    by (simp add: test_find_payload_marker_immediate_marker_def test_simps isize_max_def ascii_def)
qed

lemma test_find_payload_marker_extended_length_passes:
  "test_find_payload_marker_extended_length oc = Ok ()"
proof -
  have "parse_inner_body ([0x0D, 0x00] @ replicate 13 0x42 @ [0xFF] @ ascii ''payload'') =
      Ok ([0x0D, 0x00] @ replicate 13 0x42, ascii ''payload'')"
    by (simp add: body_eval replicate_13)
  from marker_of_body [OF this, of oc] show ?thesis
    by (simp add: test_find_payload_marker_extended_length_def test_simps isize_max_def ascii_def replicate_13)
qed

end
