(* ===== verification/TestHarness.thy ===== *)
theory TestHarness
  imports UnitTests SenderSafety Unprotect
begin

text \<open>
  What the tests of \<^verbatim>\<open>src/lib.rs\<close> share: the store and the trait they go through, and the
  symbolic execution that runs them for every HKDF and every AEAD that keep their contracts. The
  predicate \<open>paired\<close> collects what \<open>Context::new\<close> promises of two ends; with it the
  simplifier executes a test: keys, nonces and ciphertexts stay terms, while sequence numbers,
  windows, options and errors are computed.
\<close>

subsection \<open>The harness of the tests\<close>

text \<open>The master secret that most tests share.\<close>

definition test_secret :: bytes where
  "test_secret = [0x01, 0x02, 0x03, 0x04, 0x05, 0x06, 0x07, 0x08, 0x09, 0x0a, 0x0b, 0x0c, 0x0d, 0x0e, 0x0f, 0x10]"

lemma length_test_secret: "length test_secret = 16"
  by (simp add: test_secret_def)

definition for_context :: "oscore_context \<Rightarrow> test_store" where
  "for_context ctx = \<lparr>ts_context_id = ctx_context_id ctx, ts_state = sender_sequence_state ctx,
     ts_recipient = None\<rparr>"

text \<open>The trait \<open>TestProtect\<close>: a reservation over a store of the context's own, then protection.\<close>

definition test_protect_request ::
    "crypto \<Rightarrow> oscore_context \<Rightarrow> u8 \<Rightarrow> bytes \<Rightarrow> bytes \<Rightarrow>
     oscore_context \<times> (oscore_error, bytes \<times> bytes) res" where
  "test_protect_request C ctx code options payload =
     (let (_, ctx, r) = reserve_sender test_store_ops ctx (for_context ctx) in
      (ctx, and_then (map_err (\<lambda>_. SeqExhausted) r) (\<lambda>seq.
        reserved_protect_request C \<lparr>rsv_context = ctx, rsv_sequence = seq\<rparr> code options payload)))"

definition test_protect_response_with_piv ::
    "crypto \<Rightarrow> oscore_context \<Rightarrow> u8 \<Rightarrow> bytes \<Rightarrow> bytes \<Rightarrow> bytes \<Rightarrow> bytes \<Rightarrow>
     oscore_context \<times> (oscore_error, bytes \<times> bytes) res" where
  "test_protect_response_with_piv C ctx code options payload request_kid request_piv =
     (let (_, ctx, r) = reserve_sender test_store_ops ctx (for_context ctx) in
      (ctx, and_then (map_err (\<lambda>_. SeqExhausted) r) (\<lambda>seq.
        reserved_protect_response_with_piv C \<lparr>rsv_context = ctx, rsv_sequence = seq\<rparr> code options payload
          request_kid request_piv)))"

subsection \<open>What a new context promises\<close>

definition base_context :: "bytes option \<Rightarrow> bytes \<Rightarrow> bytes \<Rightarrow> oscore_context \<Rightarrow> bool" where
  "base_context ctx sid rid c \<longleftrightarrow>
     wf_context c \<and> sender_id c = sid \<and> recipient_id c = rid \<and>
     id_context c = opt_bytes ctx \<and> ctx_id_context_present c = (ctx \<noteq> None) \<and>
     ctx_sender_seq c = OscoreSeqNum 0 \<and> \<not> ctx_sender_seq_exhausted c \<and>
     \<not> ctx_restored c \<and> \<not> ctx_active c \<and> \<not> ctx_allow_no_piv_response c \<and>
     ctx_recipient_seq c = OscoreSeqNum 0 \<and> ctx_replay_window c = 0 \<and>
     ctx_response_seq c = OscoreSeqNum 0 \<and> ctx_response_window c = 0 \<and>
     \<not> ctx_response_window_initialized c \<and>
     ctx_received_response_seq c = OscoreSeqNum 0 \<and> ctx_received_response_window c = 0 \<and>
     \<not> ctx_received_response_window_initialized c \<and>
     ctx_received_response_piv_seq c = OscoreSeqNum 0 \<and> ctx_received_response_piv_window c = 0 \<and>
     \<not> ctx_received_response_piv_window_initialized c"

lemma base_context_new:
  assumes "hkdf_contract C" and "length secret = 16" and "new_params_ok salt ctx sid rid"
  obtains c where "context_new C secret salt ctx sid rid = Ok c" "base_context ctx sid rid c"
    "ctx_context_id c = derive_context_id C secret (opt_bytes salt) ctx sid"
proof -
  obtain c where c: "context_new C secret salt ctx sid rid = Ok c"
    by (rule context_new_total [OF assms(1,3)])
  note ok = context_new_Ok [OF c]
  from c have "ctx_recipient_seq c = seq_default" "ctx_replay_window c = 0"
    "ctx_response_seq c = seq_default" "ctx_response_window c = 0" "\<not> ctx_response_window_initialized c"
    "ctx_received_response_seq c = seq_default" "ctx_received_response_window c = 0"
    "\<not> ctx_received_response_window_initialized c"
    "ctx_received_response_piv_seq c = seq_default" "ctx_received_response_piv_window c = 0"
    "\<not> ctx_received_response_piv_window_initialized c"
    by (auto simp: context_new_eq split: option.splits if_splits simp del: case_prod_conv)
  with ok context_new_wf [OF assms(1,2) c] have base: "base_context ctx sid rid c"
    by (simp add: base_context_def seq_default_def)
  show ?thesis by (rule that [OF c base ok(9)])
qed

subsection \<open>Symbolic execution\<close>

lemma base_facts:
  assumes "base_context ctx sid rid c"
  shows "wf_context c" "sender_id c = sid" "recipient_id c = rid" "id_context c = opt_bytes ctx"
    "ctx_id_context_present c = (ctx \<noteq> None)" "ctx_sender_seq c = OscoreSeqNum 0"
    "\<not> ctx_sender_seq_exhausted c" "\<not> ctx_restored c" "\<not> ctx_active c" "\<not> ctx_allow_no_piv_response c"
    "ctx_recipient_seq c = OscoreSeqNum 0" "ctx_replay_window c = 0"
    "ctx_response_seq c = OscoreSeqNum 0" "ctx_response_window c = 0" "\<not> ctx_response_window_initialized c"
    "ctx_received_response_seq c = OscoreSeqNum 0" "ctx_received_response_window c = 0"
    "\<not> ctx_received_response_window_initialized c"
    "ctx_received_response_piv_seq c = OscoreSeqNum 0" "ctx_received_response_piv_window c = 0"
    "\<not> ctx_received_response_piv_window_initialized c"
  using assms unfolding base_context_def by blast+

lemma base_sizes:
  assumes "base_context ctx sid rid c"
  shows "length (ctx_sender_key c) = 16" "length (ctx_recipient_key c) = 16" "length (ctx_common_iv c) = 13"
  using base_facts(1) [OF assms] by (simp_all only: wf_context_def)

text \<open>The fields that change while a context is used leave the material alone, and keep the invariant.\<close>

lemma sender_id_update:
    "sender_id (ctx_sender_seq_update f c) = sender_id c"
    "sender_id (ctx_sender_seq_exhausted_update g c) = sender_id c"
    "sender_id (ctx_restored_update g c) = sender_id c" "sender_id (ctx_active_update g c) = sender_id c"
    "sender_id (ctx_recipient_seq_update f c) = sender_id c" "sender_id (ctx_replay_window_update h c) = sender_id c"
    "sender_id (ctx_response_seq_update f c) = sender_id c" "sender_id (ctx_response_window_update h c) = sender_id c"
    "sender_id (ctx_response_window_initialized_update g c) = sender_id c"
    "sender_id (ctx_received_response_seq_update f c) = sender_id c"
    "sender_id (ctx_received_response_window_update h c) = sender_id c"
    "sender_id (ctx_received_response_window_initialized_update g c) = sender_id c"
    "sender_id (ctx_received_response_piv_seq_update f c) = sender_id c"
    "sender_id (ctx_received_response_piv_window_update h c) = sender_id c"
    "sender_id (ctx_received_response_piv_window_initialized_update g c) = sender_id c"
    "sender_id (ctx_allow_no_piv_response_update g c) = sender_id c"
  by (simp_all add: sender_id_def)

lemma recipient_id_update:
    "recipient_id (ctx_sender_seq_update f c) = recipient_id c"
    "recipient_id (ctx_sender_seq_exhausted_update g c) = recipient_id c"
    "recipient_id (ctx_restored_update g c) = recipient_id c" "recipient_id (ctx_active_update g c) = recipient_id c"
    "recipient_id (ctx_recipient_seq_update f c) = recipient_id c"
    "recipient_id (ctx_replay_window_update h c) = recipient_id c"
    "recipient_id (ctx_response_seq_update f c) = recipient_id c"
    "recipient_id (ctx_response_window_update h c) = recipient_id c"
    "recipient_id (ctx_response_window_initialized_update g c) = recipient_id c"
    "recipient_id (ctx_received_response_seq_update f c) = recipient_id c"
    "recipient_id (ctx_received_response_window_update h c) = recipient_id c"
    "recipient_id (ctx_received_response_window_initialized_update g c) = recipient_id c"
    "recipient_id (ctx_received_response_piv_seq_update f c) = recipient_id c"
    "recipient_id (ctx_received_response_piv_window_update h c) = recipient_id c"
    "recipient_id (ctx_received_response_piv_window_initialized_update g c) = recipient_id c"
    "recipient_id (ctx_allow_no_piv_response_update g c) = recipient_id c"
  by (simp_all add: recipient_id_def)

lemma id_context_update:
    "id_context (ctx_sender_seq_update f c) = id_context c"
    "id_context (ctx_sender_seq_exhausted_update g c) = id_context c"
    "id_context (ctx_restored_update g c) = id_context c" "id_context (ctx_active_update g c) = id_context c"
    "id_context (ctx_recipient_seq_update f c) = id_context c"
    "id_context (ctx_replay_window_update h c) = id_context c"
    "id_context (ctx_response_seq_update f c) = id_context c"
    "id_context (ctx_response_window_update h c) = id_context c"
    "id_context (ctx_response_window_initialized_update g c) = id_context c"
    "id_context (ctx_received_response_seq_update f c) = id_context c"
    "id_context (ctx_received_response_window_update h c) = id_context c"
    "id_context (ctx_received_response_window_initialized_update g c) = id_context c"
    "id_context (ctx_received_response_piv_seq_update f c) = id_context c"
    "id_context (ctx_received_response_piv_window_update h c) = id_context c"
    "id_context (ctx_received_response_piv_window_initialized_update g c) = id_context c"
    "id_context (ctx_allow_no_piv_response_update g c) = id_context c"
  by (simp_all add: id_context_def)

lemma wf_update:
    "wf_context (ctx_restored_update g c) = wf_context c"
    "wf_context (ctx_active_update g c) = wf_context c"
    "wf_context (ctx_replay_window_update h c) = wf_context c"
    "wf_context (ctx_response_window_update h c) = wf_context c"
    "wf_context (ctx_response_window_initialized_update g c) = wf_context c"
    "wf_context (ctx_received_response_window_update h c) = wf_context c"
    "wf_context (ctx_received_response_window_initialized_update g c) = wf_context c"
    "wf_context (ctx_received_response_piv_window_update h c) = wf_context c"
    "wf_context (ctx_received_response_piv_window_initialized_update g c) = wf_context c"
    "wf_context (ctx_allow_no_piv_response_update g c) = wf_context c"
    "wf_context c \<Longrightarrow> seq_wf (f (ctx_recipient_seq c)) \<Longrightarrow> wf_context (ctx_recipient_seq_update f c)"
    "wf_context c \<Longrightarrow> seq_wf (f (ctx_response_seq c)) \<Longrightarrow> wf_context (ctx_response_seq_update f c)"
    "wf_context c \<Longrightarrow> seq_wf (f (ctx_received_response_seq c)) \<Longrightarrow> wf_context (ctx_received_response_seq_update f c)"
    "wf_context c \<Longrightarrow> seq_wf (f (ctx_received_response_piv_seq c)) \<Longrightarrow> wf_context (ctx_received_response_piv_seq_update f c)"
    "wf_context c \<Longrightarrow> (g (ctx_sender_seq_exhausted c) \<Longrightarrow> get (ctx_sender_seq c) = SEQ_MAX) \<Longrightarrow>
       wf_context (ctx_sender_seq_exhausted_update g c)"
    "wf_context c \<Longrightarrow> seq_wf (f (ctx_sender_seq c)) \<Longrightarrow> \<not> ctx_sender_seq_exhausted c \<Longrightarrow>
       wf_context (ctx_sender_seq_update f c)"
  by (simp_all only: wf_context_def sender_id_update recipient_id_update) simp_all

lemmas material_simps = sender_id_update recipient_id_update id_context_update wf_update

text \<open>Two ends of one pair of identifiers, and everything a run may use about them.\<close>

definition paired ::
    "crypto \<Rightarrow> bytes \<Rightarrow> bytes option \<Rightarrow> bytes option \<Rightarrow> bytes \<Rightarrow> bytes \<Rightarrow>
     oscore_context \<Rightarrow> oscore_context \<Rightarrow> bool" where
  "paired C secret salt ctx x y a b \<longleftrightarrow>
     context_new C secret salt ctx x y = Ok a \<and> context_new C secret salt ctx y x = Ok b \<and>
     base_context ctx x y a \<and> base_context ctx y x b \<and>
     ctx_recipient_key b = ctx_sender_key a \<and> ctx_recipient_key a = ctx_sender_key b \<and>
     ctx_common_iv b = ctx_common_iv a \<and>
     ctx_context_id a = derive_context_id C secret (opt_bytes salt) ctx x \<and>
     ctx_context_id b = derive_context_id C secret (opt_bytes salt) ctx y"

lemma paired_exists:
  assumes "hkdf_contract C" and "length secret = 16" and "new_params_ok salt ctx x y"
  obtains a b where "paired C secret salt ctx x y a b"
proof -
  from assms(3) have "new_params_ok salt ctx y x" by (auto simp: new_params_ok_def)
  then obtain b where b: "context_new C secret salt ctx y x = Ok b" "base_context ctx y x b"
    "ctx_context_id b = derive_context_id C secret (opt_bytes salt) ctx y"
    by (rule base_context_new [OF assms(1,2)])
  obtain a where a: "context_new C secret salt ctx x y = Ok a" "base_context ctx x y a"
    "ctx_context_id a = derive_context_id C secret (opt_bytes salt) ctx x"
    by (rule base_context_new [OF assms])
  from context_new_mirrored [OF a(1) b(1)] show ?thesis
    using a b by (intro that [of a b]) (simp add: mirrored_def paired_def)
qed

lemma secret_pair:
  assumes "hkdf_contract C"
  obtains a b where "paired C test_secret None None [0] [1] a b"
  by (rule paired_exists [OF assms length_test_secret, of None None "[0]" "[1]"]) (auto simp: new_params_ok_def)

lemma repeated_pair:
  assumes "hkdf_contract C"
  obtains a b where "paired C (replicate 16 s) None None [0] [1] a b"
  by (rule paired_exists [OF assms, of "replicate 16 s" None None "[0]" "[1]"]) (auto simp: new_params_ok_def)

lemma paired_base:
  assumes "paired C secret salt ctx x y a b"
  shows "base_context ctx x y a" "base_context ctx y x b"
  using assms unfolding paired_def by blast+

lemma paired_keys:
  assumes "paired C secret salt ctx x y a b"
  shows "context_new C secret salt ctx x y = Ok a" "context_new C secret salt ctx y x = Ok b"
    "ctx_recipient_key b = ctx_sender_key a" "ctx_recipient_key a = ctx_sender_key b"
    "ctx_common_iv b = ctx_common_iv a"
    "ctx_context_id a = derive_context_id C secret (opt_bytes salt) ctx x"
    "ctx_context_id b = derive_context_id C secret (opt_bytes salt) ctx y"
    "length (ctx_sender_key a) = 16" "length (ctx_sender_key b) = 16" "length (ctx_common_iv a) = 13"
  using assms base_sizes [OF paired_base(1) [OF assms]] base_sizes [OF paired_base(2) [OF assms]]
  unfolding paired_def by blast+

lemmas paired_simps = paired_keys base_facts [OF paired_base(1)] base_facts [OF paired_base(2)]

text \<open>The steps of a run: construction, reservation, protection, and what is in a sealed plaintext.\<close>

lemma plaintext_parts:
  "plaintext_of code opts payload ! 0 = code"
  "parse_inner_body opts = Ok (opts, []) \<Longrightarrow> length opts \<le> 1000 \<Longrightarrow> length payload \<le> 1000 \<Longrightarrow>
    split_rest oc (drop (Suc 0) (plaintext_of code opts payload)) = Ok (opts, payload)"
proof -
  assume "parse_inner_body opts = Ok (opts, [])" "length opts \<le> 1000" "length payload \<le> 1000"
  then show "split_rest oc (drop (Suc 0) (plaintext_of code opts payload)) = Ok (opts, payload)"
    unfolding plaintext_of_def
    by (simp, intro conjI impI; intro split_rest_eq) (auto simp: isize_max_def intro!: parse_inner_body_payload)
qed (simp add: plaintext_of_def)

text \<open>One equation for \<open>protect_response\<close>, the refusals included.\<close>

lemma protect_response_run:
  assumes wf: "wf_context c" and C: "ccm_contract C"
  shows "protect_response oc C c code opts payload kid rpiv incl =
    (if \<not> response_ok c kid rpiv \<or> \<not> ctx_active c \<or> \<not> incl \<and> \<not> ctx_allow_no_piv_response c
     then (c, Err InvalidParam)
     else if incl then
       (case seq_increment (ctx_sender_seq c) of
          None \<Rightarrow> (c, Err SeqExhausted)
        | Some n \<Rightarrow>
            (c\<lparr>ctx_sender_seq := n\<rparr>,
             if 272 < length (plaintext_of code opts payload)
             then Err (too_small (ct_required opts payload) 280)
             else Ok (the (ccm_seal C (ctx_sender_key c) (request_nonce c (ctx_sender_seq c))
                        (enc_structure kid rpiv) (plaintext_of code opts payload)),
                      option_encoding (piv_bytes (ctx_sender_seq c)) None None)))
     else if is_response_reuse c (the (from_piv rpiv)) then (c, Err Replay)
     else if 272 < length (plaintext_of code opts payload)
     then (c, Err (too_small (ct_required opts payload) 280))
     else case mark_response_used oc c (the (from_piv rpiv)) of
       Ok c' \<Rightarrow> (c', Ok (the (ccm_seal C (ctx_sender_key c) (compute_nonce kid rpiv (ctx_common_iv c))
                     (enc_structure kid rpiv) (plaintext_of code opts payload)), []))
     | Err e \<Rightarrow> (c, Err e) | Panic \<Rightarrow> (c, Panic))"
proof -
  consider (refused) "\<not> response_ok c kid rpiv \<or> \<not> ctx_active c \<or> \<not> incl \<and> \<not> ctx_allow_no_piv_response c"
    | (own) "response_ok c kid rpiv" "ctx_active c" "incl"
    | (reuse) "response_ok c kid rpiv" "ctx_active c" "ctx_allow_no_piv_response c" "\<not> incl"
    by blast
  then show ?thesis
  proof cases
    case refused
    then show ?thesis
      unfolding protect_response_def response_guard [OF wf] by auto
  next
    case own
    then show ?thesis by (simp add: protect_response_piv [OF wf own(1) C own(2)])
  next
    case reuse
    from reuse(1) obtain s where "from_piv rpiv = Some s" by (auto simp: response_ok_def)
    with reuse show ?thesis by (simp add: protect_response_no_piv [OF wf reuse(1) C reuse(2,3)])
  qed
qed

lemma not_32_le_1: "\<not> (32 :: u64) \<le> 1"
  by (simp add: word_le_nat_alt)

lemmas construct_simps = new_ephemeral_def restore_def context_new_fresh_def from_sender_state_def set_sender_state_def
lemmas store_simps = reserve_sender_def register_fresh_def restore_existing_def test_store_ops_def for_context_def
  sender_sequence_state_def
lemmas protect_simps = test_protect_request_def test_protect_response_with_piv_def
  reserved_protect_request_def reserved_protect_response_with_piv_def protect_request_eq protect_response_reserved_eq
  protect_response_run request_nonce_def kid_context_def option_encoding_def option_flags_def piv_bytes_def be_bytes.simps
  response_ok_def
lemmas open_simps = unprotect_request_def unprotect_request_body_def unprotect_response_def unprotect_observe_response_def
  begin_unprotect_response_def begin_unprotect_observe_response_def begin_unprotect_response_mode_def
  accept_response_def commit_def response_class_def kid_context_mismatch_def
  build_aad_cbor_eq written_def bounded_outputs_eq open_seal length_compute_nonce length_plaintext_of plaintext_parts
lemmas window_simps = is_replay_def replay_check_def update_replay_window_def replay_update_def WINDOW_SIZE_def window_defs window_reuse_def
  window_mark_def shl_one_def not_32_le_1
lemmas run_simps = construct_simps store_simps protect_simps test_simps seq_eval material_simps
lemmas exchange_simps = run_simps open_simps window_simps option_eval body_eval

end
