(* ===== verification/ContextTests.thy ===== *)
theory ContextTests
  imports TestHarness
begin

text \<open>
  The tests of \<^verbatim>\<open>src/lib.rs\<close> about construction, stores, reservation and the windows of one
  context. The two tests that start threads are modelled with the order of their two
  compare-and-swap calls as an argument: the barrier and the lock leave no other interleaving.
\<close>

subsection \<open>Construction and restoration\<close>

definition test_context_creation :: "crypto \<Rightarrow> test_run" where
  "test_context_creation C =
     and_then (unwrap (new_ephemeral C test_secret None [0x00] [0x01])) (\<lambda>ctx. checks [
       assert_eq (sender_id ctx) [0x00],
       assert_eq (recipient_id ctx) [0x01],
       and_then (expect (sender_seq ctx)) (\<lambda>s. assert_eq (get s) 0),
       and_then (unwrap_err (new_ephemeral C test_secret None [0x00] [0x00])) (\<lambda>e.
         assert_eq e InvalidParam)])"

definition id_context_over_implementation_capacity_is_rejected :: "crypto \<Rightarrow> test_run" where
  "id_context_over_implementation_capacity_is_rejected C =
     and_then (unwrap_err (context_new_fresh C (replicate KEY_LEN 0) None (Some (replicate 9 0)) [0] [1]))
       (\<lambda>e. assert_eq e InvalidParam)"

definition restored_context_continues_at_reserved_sequence :: "crypto \<Rightarrow> test_run" where
  "restored_context_continues_at_reserved_sequence C =
     and_then (unwrap (restore C test_secret None [0] [1] 0x0102 False)) (\<lambda>ctx.
     let store = for_context ctx; (store, ctx, r) = reserve_sender test_store_ops ctx store in
     and_then (unwrap r) (\<lambda>seq.
     and_then (unwrap (reserved_protect_request C \<lparr>rsv_context = ctx, rsv_sequence = seq\<rparr> 0x01 []
       (ascii ''restored''))) (\<lambda>(_, option). checks [
         assert_eq option [0x0a, 0x01, 0x02, 0x00],
         and_then (expect (sender_seq ctx)) (\<lambda>s. assert_eq (get s) 0x0103),
         assert_that (is_restored ctx),
         assert_eq (sender_sequence_state ctx) \<lparr>next_sequence = 0x0103, exhausted = False\<rparr>])))"

definition restored_context_rejects_response_without_piv :: "bool \<Rightarrow> crypto \<Rightarrow> test_run" where
  "restored_context_rejects_response_without_piv oc C =
     and_then (unwrap (restore C test_secret None [1] [0] 7 False)) (\<lambda>ctx.
     let (ctx, r) = protect_response oc C ctx 0x45 [] (ascii ''response'') [0] [3] True in
     and_then (is_ok r) (\<lambda>fine.
     and_then (assert_that fine) (\<lambda>_.
     and_then (unwrap_err_call (protect_response oc C ctx 0x45 [] (ascii ''response'') [0] [3] False))
       (\<lambda>(_, e). assert_eq e InvalidParam))))"

definition restore_rejects_invalid_sender_state :: "crypto \<Rightarrow> test_run" where
  "restore_rejects_invalid_sender_state C = checks [
     and_then (unwrap_err (restore C test_secret None [0] [1] (SEQ_MAX + 1) False)) (\<lambda>e. assert_eq e InvalidParam),
     and_then (unwrap_err (restore C test_secret None [0] [1] 7 True)) (\<lambda>e. assert_eq e InvalidParam)]"

definition oscore_option_has_literal_implementation_capacity :: "crypto \<Rightarrow> test_run" where
  "oscore_option_has_literal_implementation_capacity C =
     and_then (unwrap (from_sender_state C (replicate KEY_LEN 0x48) None
       (Some [0x10, 0x11, 0x12, 0x13, 0x14, 0x15, 0x16, 0x17]) [0x00, 0x01, 0x02, 0x03, 0x04, 0x05, 0x06] [0x20]
       Ephemeral)) (\<lambda>ctx.
     and_then (expect (seq_new SEQ_MAX)) (\<lambda>s.
     let ctx = ctx\<lparr>ctx_sender_seq := s\<rparr>; store = for_context ctx;
         (store, ctx, r) = reserve_sender test_store_ops ctx store in
     and_then (unwrap r) (\<lambda>seq.
     and_then (unwrap (reserved_protect_request C \<lparr>rsv_context = ctx, rsv_sequence = seq\<rparr> 0x01 [] []))
       (\<lambda>(_, option). checks [
         assert_eq (length option) OSCORE_OPTION_MAX_LEN,
         assert_eq option [0x1d, 0xff, 0xff, 0xff, 0xff, 0xff, 0x08, 0x10, 0x11, 0x12, 0x13, 0x14, 0x15, 0x16, 0x17,
           0x00, 0x01, 0x02, 0x03, 0x04, 0x05, 0x06]]))))"

definition terminal_sender_sequence_is_used_once_then_exhausted :: "crypto \<Rightarrow> test_run" where
  "terminal_sender_sequence_is_used_once_then_exhausted C =
     and_then (unwrap (new_ephemeral C test_secret None [0x00] [0x01])) (\<lambda>ctx.
     and_then (expect (seq_new SEQ_MAX)) (\<lambda>s.
     let ctx = ctx\<lparr>ctx_sender_seq := s\<rparr> in
     and_then (unwrap_call (test_protect_request C ctx 0x01 [] (ascii ''last''))) (\<lambda>(ctx, _, option).
     and_then (assert_eq option [0x0d, 0xff, 0xff, 0xff, 0xff, 0xff, 0x00]) (\<lambda>_.
     and_then (assert_eq (sender_seq ctx) None) (\<lambda>_.
     and_then (unwrap_err_call (test_protect_request C ctx 0x01 [] (ascii ''again''))) (\<lambda>(ctx, e).
     and_then (assert_eq e SeqExhausted) (\<lambda>_.
     and_then (unwrap_err_call (test_protect_response_with_piv C ctx 0x45 [] (ascii ''again'') [1] [0]))
       (\<lambda>(ctx, e).
     and_then (assert_eq e SeqExhausted) (\<lambda>_.
       assert_eq (sender_seq ctx) None)))))))))"

subsection \<open>Stores\<close>

definition restored_contexts_race_and_exactly_one_can_encrypt :: "crypto \<Rightarrow> test_run" where
  "restored_contexts_race_and_exactly_one_can_encrypt C =
     (let secret = replicate KEY_LEN 0x42 in
      and_then (unwrap (restore C secret None [0] [1] 9 False)) (\<lambda>first.
      and_then (unwrap (restore C secret None [0] [1] 9 False)) (\<lambda>second.
      let store = for_context first; (store, first, r) = reserve_sender test_store_ops first store in
      and_then (unwrap r) (\<lambda>seq.
      and_then (unwrap (reserved_protect_request C \<lparr>rsv_context = first, rsv_sequence = seq\<rparr> 0x01 []
        (ascii ''winner''))) (\<lambda>(_, option).
      and_then (assert_eq option [0x09, 0x09, 0x00]) (\<lambda>_.
      let (store, second, r) = reserve_sender test_store_ops second store in
      checks [
        assert_that (r = Err ReservationConflict),
        assert_eq (next_sequence (sender_sequence_state second)) 9,
        assert_eq (next_sequence (ts_state store)) 10]))))))"

definition sender_store_rejects_a_context_using_b_record :: "crypto \<Rightarrow> test_run" where
  "sender_store_rejects_a_context_using_b_record C =
     (let secret = replicate KEY_LEN 0x43 in
      and_then (unwrap (new_ephemeral C secret None [0] [1])) (\<lambda>context_a.
      and_then (unwrap (new_ephemeral C secret None [2] [1])) (\<lambda>context_b.
      let store = for_context context_b; (store, context_a, r) = reserve_sender test_store_ops context_a store in
      checks [assert_that (r = Err ReservationConflict), assert_eq (next_sequence (ts_state store)) 0])))"

definition context_id_is_stable_directional_context_bound_and_recipient_independent :: "crypto \<Rightarrow> test_run" where
  "context_id_is_stable_directional_context_bound_and_recipient_independent C =
     (let secret = replicate KEY_LEN 0x46 in
      and_then (unwrap (context_new_fresh C secret (Some [7]) (Some [8]) [0] [1])) (\<lambda>first.
      and_then (unwrap (context_new_fresh C secret (Some [7]) (Some [8]) [0] [1])) (\<lambda>same.
      and_then (unwrap (context_new_fresh C secret (Some [7]) (Some [8]) [0] [2])) (\<lambda>other_recipient.
      and_then (unwrap (context_new_fresh C secret (Some [7]) (Some [8]) [1] [0])) (\<lambda>reverse.
      and_then (unwrap (context_new_fresh C secret (Some [7]) (Some [9]) [0] [1])) (\<lambda>other_context. checks [
        assert_eq (ctx_context_id first) (ctx_context_id same),
        assert_eq (ctx_context_id first) (ctx_context_id other_recipient),
        assert_ne (ctx_context_id first) (ctx_context_id reverse),
        assert_ne (ctx_context_id first) (ctx_context_id other_context)]))))))"

definition same_sender_material_with_different_recipients_shares_sequence_record :: "crypto \<Rightarrow> test_run" where
  "same_sender_material_with_different_recipients_shares_sequence_record C =
     (let secret = replicate KEY_LEN 0x4b in
      and_then (unwrap (new_ephemeral C secret (Some [7]) [0] [1])) (\<lambda>first.
      and_then (unwrap (new_ephemeral C secret (Some [7]) [0] [2])) (\<lambda>other_recipient.
      let store = for_context first in
      and_then (assert_eq (ctx_context_id first) (ctx_context_id other_recipient)) (\<lambda>_.
      let (store, first, r) = reserve_sender test_store_ops first store in
      and_then (unwrap r) (\<lambda>_.
      let (store, other_recipient, r) = reserve_sender test_store_ops other_recipient store in
      assert_that (r = Err ReservationConflict))))))"

text \<open>\<open>EmptyStore\<close> of the registration test holds at most one record; that of the restoration
  test holds none and must not be written.\<close>

type_synonym single_record = "(context_id \<times> sender_sequence_state) option"

definition single_load :: "single_record \<Rightarrow> context_id \<Rightarrow> sender_sequence_state option" where
  "single_load st k =
     (case st of Some (stored_id, state) \<Rightarrow> if stored_id = k then Some state else None | None \<Rightarrow> None)"

definition empty_store_ops :: "(single_record, unit) context_state_store" where
  "empty_store_ops = \<lparr>
     load_sender = (\<lambda>st k. (st, Ok (single_load st k))),
     compare_exchange_sender = (\<lambda>st k expected next.
       if single_load st k \<noteq> expected then (st, Ok False) else (Some (k, next), Ok True)),
     load_recipient = (\<lambda>st k. (st, Ok None)),
     save_recipient = (\<lambda>st k state. (st, Ok ()))\<rparr>"

definition fresh_context_activates_only_after_atomic_registration :: "bool \<Rightarrow> crypto \<Rightarrow> test_run" where
  "fresh_context_activates_only_after_atomic_registration oc C =
     (let secret = replicate KEY_LEN 0x4c in
      and_then (unwrap (context_new_fresh C secret None None [1] [0])) (\<lambda>ctx.
      and_then (unwrap_err_call (protect_response oc C ctx 0x45 [] (ascii ''response'') [0] [3] True))
        (\<lambda>(ctx, e).
      and_then (assert_eq e InvalidParam) (\<lambda>_.
      let store = None; (store, r) = register_fresh empty_store_ops ctx store in
      and_then (unwrap r) (\<lambda>ctx.
      let (ctx, r) = protect_response oc C ctx 0x45 [] (ascii ''response'') [0] [3] True in
      and_then (is_ok r) assert_that)))))"

definition supplied_material_restores_authoritative_state_and_disables_no_piv :: "bool \<Rightarrow> crypto \<Rightarrow> test_run" where
  "supplied_material_restores_authoritative_state_and_disables_no_piv oc C =
     (let secret = replicate KEY_LEN 0x44 in
      and_then (unwrap (new_ephemeral C secret None [1] [0])) (\<lambda>template.
      let store = \<lparr>ts_context_id = ctx_context_id template,
                   ts_state = \<lparr>next_sequence = 7, exhausted = False\<rparr>, ts_recipient = None\<rparr> in
      and_then (unwrap (context_new C secret None None [1] [0])) (\<lambda>ctx.
      let (store, r) = restore_existing test_store_ops ctx store in
      and_then (unwrap r) (\<lambda>ctx.
      and_then (assert_eq (sender_sequence_state ctx) (ts_state store)) (\<lambda>_.
      let (ctx, r) = protect_response oc C ctx 0x45 [] (ascii ''response'') [0] [3] True in
      and_then (is_ok r) (\<lambda>fine.
      and_then (assert_that fine) (\<lambda>_.
      and_then (unwrap_err_call (protect_response oc C ctx 0x45 [] (ascii ''response'') [0] [3] False))
        (\<lambda>(_, e). assert_eq e InvalidParam))))))))"

definition read_only_store_ops :: "(unit, unit) context_state_store" where
  "read_only_store_ops = \<lparr>
     load_sender = (\<lambda>st k. (st, Ok None)),
     compare_exchange_sender = (\<lambda>st k expected next. (st, Panic)),
     load_recipient = (\<lambda>st k. (st, Ok None)),
     save_recipient = (\<lambda>st k state. (st, Ok ()))\<rparr>"

definition supplied_material_requires_existing_durable_state :: "crypto \<Rightarrow> test_run" where
  "supplied_material_requires_existing_durable_state C =
     and_then (unwrap (context_new C (replicate KEY_LEN 0x44) None None [1] [0])) (\<lambda>ctx.
     let (_, r) = restore_existing read_only_store_ops ctx () in
     assert_that (case r of Err Missing \<Rightarrow> True | _ \<Rightarrow> False))"

definition crash_after_reservation_skips_sequence_after_restore :: "crypto \<Rightarrow> test_run" where
  "crash_after_reservation_skips_sequence_after_restore C =
     (let secret = replicate KEY_LEN 0x24 in
      and_then (unwrap (restore C secret None [0] [1] 3 False)) (\<lambda>crashed.
      let store = for_context crashed; (store, crashed, r) = reserve_sender test_store_ops crashed store in
      and_then (unwrap r) (\<lambda>_.
      and_then (unwrap (restore C secret None [0] [1] (next_sequence (ts_state store)) (exhausted (ts_state store))))
        (\<lambda>restarted.
      let (store, restarted, r) = reserve_sender test_store_ops restarted store in
      and_then (unwrap r) (\<lambda>seq.
      and_then (unwrap (reserved_protect_request C \<lparr>rsv_context = restarted, rsv_sequence = seq\<rparr> 0x01 []
        (ascii ''after crash''))) (\<lambda>(_, option). checks [
          assert_eq option [0x09, 0x04, 0x00],
          assert_eq (next_sequence (ts_state store)) 5]))))))"

subsection \<open>Two threads over one store\<close>

definition shared_store_ops :: "(context_id \<times> sender_sequence_state, unit) context_state_store" where
  "shared_store_ops = \<lparr>
     load_sender = (\<lambda>st k. (st, Ok (if k = fst st then Some (snd st) else None))),
     compare_exchange_sender = (\<lambda>st k expected next.
       if k \<noteq> fst st \<or> expected \<noteq> Some (snd st) then (st, Ok False) else ((fst st, next), Ok True)),
     load_recipient = (\<lambda>st k. (st, Ok None)),
     save_recipient = (\<lambda>st k state. (st, Ok ()))\<rparr>"

definition independent_store_handles_race_one_durable_record :: "bool \<Rightarrow> crypto \<Rightarrow> test_run" where
  "independent_store_handles_race_one_durable_record first_wins C =
     (let secret = replicate KEY_LEN 0x45 in
      and_then (unwrap (new_ephemeral C secret None [0] [1])) (\<lambda>template.
      let stored = (ctx_context_id template, sender_sequence_state template) in
      and_then (unwrap (context_new C secret None None [0] [1])) (\<lambda>first.
      let (stored, r) = restore_existing shared_store_ops first stored in
      and_then (unwrap r) (\<lambda>first.
      and_then (unwrap (context_new C secret None None [0] [1])) (\<lambda>second.
      let (stored, r) = restore_existing shared_store_ops second stored in
      and_then (unwrap r) (\<lambda>second.
      let (stored, r1, r2) =
        (if first_wins then
           let (stored, _, r1) = reserve_sender shared_store_ops first stored;
               (stored, _, r2) = reserve_sender shared_store_ops second stored in (stored, r1, r2)
         else
           let (stored, _, r2) = reserve_sender shared_store_ops second stored;
               (stored, _, r1) = reserve_sender shared_store_ops first stored in (stored, r1, r2)) in
      and_then (is_ok r1) (\<lambda>ok1.
      and_then (is_ok r2) (\<lambda>ok2. checks [
        assert_ne ok1 ok2, assert_eq (next_sequence (snd stored)) 1]))))))))"

definition shared_empty_store_ops :: "(single_record, unit) context_state_store" where
  "shared_empty_store_ops = \<lparr>
     load_sender = (\<lambda>st k. (st, Ok (single_load st k))),
     compare_exchange_sender = (\<lambda>st k expected next.
       let current = single_load st k in
       if current \<noteq> expected then (st, Ok False) else (Some (k, next), Ok True)),
     load_recipient = (\<lambda>st k. (st, Ok None)),
     save_recipient = (\<lambda>st k state. (st, Ok ()))\<rparr>"

definition fresh_context_registration_race_has_one_winner :: "bool \<Rightarrow> crypto \<Rightarrow> test_run" where
  "fresh_context_registration_race_has_one_winner first_wins C =
     (let secret = replicate KEY_LEN 0x47 in
      and_then (unwrap (context_new_fresh C secret None None [0] [1])) (\<lambda>first.
      and_then (unwrap (context_new_fresh C secret None None [0] [1])) (\<lambda>second.
      let stored = None;
          (stored, r1, r2) =
        (if first_wins then
           let (stored, r1) = register_fresh shared_empty_store_ops first stored;
               (stored, r2) = register_fresh shared_empty_store_ops second stored in (stored, r1, r2)
         else
           let (stored, r2) = register_fresh shared_empty_store_ops second stored;
               (stored, r1) = register_fresh shared_empty_store_ops first stored in (stored, r1, r2)) in
      and_then (is_ok r1) (\<lambda>ok1.
      and_then (is_ok r2) (\<lambda>ok2.
      and_then (assert_ne ok1 ok2) (\<lambda>_.
      and_then (expect stored) (\<lambda>entry.
        assert_eq (next_sequence (snd entry)) 0)))))))"

subsection \<open>The windows of one context\<close>

definition test_replay_window :: "crypto \<Rightarrow> test_run" where
  "test_replay_window C =
     and_then (unwrap (new_ephemeral C test_secret None [0] [1])) (\<lambda>ctx.
     and_then (expect (seq_new 0)) (\<lambda>s0.
     and_then (expect (seq_new 1)) (\<lambda>s1.
     and_then (expect (seq_new 50)) (\<lambda>s50.
     and_then (expect (seq_new 100)) (\<lambda>s100.
     and_then (assert_that (\<not> is_replay ctx s0)) (\<lambda>_.
     let ctx = update_replay_window ctx s0 in
     and_then (assert_that (is_replay ctx s0)) (\<lambda>_.
     and_then (assert_that (\<not> is_replay ctx s1)) (\<lambda>_.
     let ctx = update_replay_window ctx s1 in
     and_then (assert_that (is_replay ctx s0)) (\<lambda>_.
     and_then (assert_that (\<not> is_replay ctx s100)) (\<lambda>_.
     let ctx = update_replay_window ctx s100 in
     assert_that (is_replay ctx s50)))))))))))"

definition response_without_piv_requires_requester_identity :: "bool \<Rightarrow> crypto \<Rightarrow> test_run" where
  "response_without_piv_requires_requester_identity oc C =
     and_then (unwrap (new_ephemeral C test_secret None [0x01] [0x00])) (\<lambda>responder.
     and_then (unwrap_err_call (protect_response oc C responder 0x45 [] (ascii ''response'') [0x02] [0x00] False))
       (\<lambda>(responder, e).
     and_then (assert_eq e InvalidParam) (\<lambda>_.
     and_then (unwrap_call (protect_response oc C responder 0x45 [] (ascii ''response'') [0x00] [0x00] False))
       (\<lambda>_. Ok ()))))"

definition response_with_piv_requires_requester_identity :: "crypto \<Rightarrow> test_run" where
  "response_with_piv_requires_requester_identity C =
     and_then (unwrap (new_ephemeral C test_secret None [0x01] [0x00])) (\<lambda>responder.
     and_then (unwrap_err_call (test_protect_response_with_piv C responder 0x45 [] (ascii ''response'') [0x02] [0x00]))
       (\<lambda>(_, e). assert_eq e InvalidParam))"

definition response_without_piv_is_one_shot_per_request :: "bool \<Rightarrow> crypto \<Rightarrow> test_run" where
  "response_without_piv_is_one_shot_per_request oc C =
     and_then (unwrap (new_ephemeral C test_secret None [0x01] [0x00])) (\<lambda>responder.
     and_then (unwrap_call (protect_response oc C responder 0x45 [] (ascii ''first'') [0x00] [0x07] False))
       (\<lambda>(responder, _).
     and_then (unwrap_err_call (protect_response oc C responder 0x45 [] (ascii ''second'') [0x00] [0x07] False))
       (\<lambda>(responder, e).
     and_then (assert_eq e Replay) (\<lambda>_.
     and_then (unwrap_call (protect_response oc C responder 0x45 [] (ascii ''later'') [0x00] [0x28] False))
       (\<lambda>(responder, _).
     and_then (unwrap_err_call (protect_response oc C responder 0x45 [] (ascii ''stale'') [0x00] [0x07] False))
       (\<lambda>(_, e). assert_eq e Replay))))))"

subsection \<open>They pass\<close>

lemma test_context_creation_passes:
  assumes "hkdf_contract C"
  shows "test_context_creation C = Ok ()"
proof (rule secret_pair [OF assms(1)])
  fix a b assume p: "paired C test_secret None None [0] [1] a b"
  show ?thesis
    using assms by (simp add: test_context_creation_def exchange_simps paired_simps [OF p] context_new_eq [of _ _ _ _ "[0]" "[0]"] new_params_ok_def sender_seq_def)
qed

lemma restored_context_continues_at_reserved_sequence_passes:
  assumes "hkdf_contract C" and "ccm_contract C"
  shows "restored_context_continues_at_reserved_sequence C = Ok ()"
proof (rule secret_pair [OF assms(1)])
  fix a b assume p: "paired C test_secret None None [0] [1] a b"
  show ?thesis
    using assms by (simp add: restored_context_continues_at_reserved_sequence_def exchange_simps paired_simps [OF p] sender_seq_def is_restored_def)
qed

lemma restored_context_rejects_response_without_piv_passes:
  assumes "hkdf_contract C" and "ccm_contract C"
  shows "restored_context_rejects_response_without_piv oc C = Ok ()"
proof (rule secret_pair [OF assms(1)])
  fix a b assume p: "paired C test_secret None None [0] [1] a b"
  show ?thesis
    using assms by (simp add: restored_context_rejects_response_without_piv_def exchange_simps paired_simps [OF p])
qed

lemma restore_rejects_invalid_sender_state_passes:
  assumes "hkdf_contract C"
  shows "restore_rejects_invalid_sender_state C = Ok ()"
proof (rule secret_pair [OF assms(1)])
  fix a b assume p: "paired C test_secret None None [0] [1] a b"
  show ?thesis
    using assms by (simp add: restore_rejects_invalid_sender_state_def exchange_simps paired_simps [OF p])
qed

lemma oscore_option_has_literal_implementation_capacity_passes:
  assumes "hkdf_contract C" and "ccm_contract C"
  shows "oscore_option_has_literal_implementation_capacity C = Ok ()"
proof -
  have "length (replicate 16 0x48) = 16" "new_params_ok None (Some [0x10, 0x11, 0x12, 0x13, 0x14, 0x15, 0x16, 0x17]) [0, 1, 2, 3, 4, 5, 6] [0x20]"
    by (simp_all add: length_test_secret new_params_ok_def)
  then obtain a b where p: "paired C (replicate 16 0x48) None (Some [0x10, 0x11, 0x12, 0x13, 0x14, 0x15, 0x16, 0x17]) [0, 1, 2, 3, 4, 5, 6] [0x20] a b"
    by (rule paired_exists [OF assms(1)])
  show ?thesis
    using assms by (simp add: oscore_option_has_literal_implementation_capacity_def exchange_simps paired_simps [OF p])
qed

lemma terminal_sender_sequence_is_used_once_then_exhausted_passes:
  assumes "hkdf_contract C" and "ccm_contract C"
  shows "terminal_sender_sequence_is_used_once_then_exhausted C = Ok ()"
proof (rule secret_pair [OF assms(1)])
  fix a b assume p: "paired C test_secret None None [0] [1] a b"
  show ?thesis
    using assms by (simp add: terminal_sender_sequence_is_used_once_then_exhausted_def exchange_simps paired_simps [OF p] sender_seq_def)
qed

lemma restored_contexts_race_and_exactly_one_can_encrypt_passes:
  assumes "hkdf_contract C" and "ccm_contract C"
  shows "restored_contexts_race_and_exactly_one_can_encrypt C = Ok ()"
proof (rule repeated_pair [OF assms(1)])
  fix a b assume p: "paired C (replicate 16 0x42) None None [0] [1] a b"
  show ?thesis
    using assms by (simp add: restored_contexts_race_and_exactly_one_can_encrypt_def exchange_simps paired_simps [OF p])
qed

lemma fresh_context_activates_only_after_atomic_registration_passes:
  assumes "hkdf_contract C" and "ccm_contract C"
  shows "fresh_context_activates_only_after_atomic_registration oc C = Ok ()"
proof (rule repeated_pair [OF assms(1)])
  fix a b assume p: "paired C (replicate 16 0x4c) None None [0] [1] a b"
  show ?thesis
    using assms by (simp add: fresh_context_activates_only_after_atomic_registration_def exchange_simps paired_simps [OF p] empty_store_ops_def single_load_def)
qed

lemma supplied_material_restores_authoritative_state_and_disables_no_piv_passes:
  assumes "hkdf_contract C" and "ccm_contract C"
  shows "supplied_material_restores_authoritative_state_and_disables_no_piv oc C = Ok ()"
proof (rule repeated_pair [OF assms(1)])
  fix a b assume p: "paired C (replicate 16 0x44) None None [0] [1] a b"
  show ?thesis
    using assms by (simp add: supplied_material_restores_authoritative_state_and_disables_no_piv_def exchange_simps paired_simps [OF p])
qed

lemma supplied_material_requires_existing_durable_state_passes:
  assumes "hkdf_contract C"
  shows "supplied_material_requires_existing_durable_state C = Ok ()"
proof (rule repeated_pair [OF assms(1)])
  fix a b assume p: "paired C (replicate 16 0x44) None None [0] [1] a b"
  show ?thesis
    using assms by (simp add: supplied_material_requires_existing_durable_state_def exchange_simps paired_simps [OF p] read_only_store_ops_def)
qed

lemma crash_after_reservation_skips_sequence_after_restore_passes:
  assumes "hkdf_contract C" and "ccm_contract C"
  shows "crash_after_reservation_skips_sequence_after_restore C = Ok ()"
proof (rule repeated_pair [OF assms(1)])
  fix a b assume p: "paired C (replicate 16 0x24) None None [0] [1] a b"
  show ?thesis
    using assms by (simp add: crash_after_reservation_skips_sequence_after_restore_def exchange_simps paired_simps [OF p])
qed

lemma independent_store_handles_race_one_durable_record_passes:
  assumes "hkdf_contract C"
  shows "independent_store_handles_race_one_durable_record first_wins C = Ok ()"
proof (rule repeated_pair [OF assms(1)])
  fix a b assume p: "paired C (replicate 16 0x45) None None [0] [1] a b"
  show ?thesis
    using assms by (simp add: independent_store_handles_race_one_durable_record_def exchange_simps paired_simps [OF p] shared_store_ops_def)
qed

lemma fresh_context_registration_race_has_one_winner_passes:
  assumes "hkdf_contract C"
  shows "fresh_context_registration_race_has_one_winner first_wins C = Ok ()"
proof (rule repeated_pair [OF assms(1)])
  fix a b assume p: "paired C (replicate 16 0x47) None None [0] [1] a b"
  show ?thesis
    using assms by (simp add: fresh_context_registration_race_has_one_winner_def exchange_simps paired_simps [OF p] shared_empty_store_ops_def single_load_def)
qed

lemma test_replay_window_passes:
  assumes "hkdf_contract C"
  shows "test_replay_window C = Ok ()"
proof (rule secret_pair [OF assms(1)])
  fix a b assume p: "paired C test_secret None None [0] [1] a b"
  show ?thesis
    using assms by (simp add: test_replay_window_def exchange_simps paired_simps [OF p])
qed

lemma response_without_piv_requires_requester_identity_passes:
  assumes "hkdf_contract C" and "ccm_contract C"
  shows "response_without_piv_requires_requester_identity oc C = Ok ()"
proof (rule secret_pair [OF assms(1)])
  fix a b assume p: "paired C test_secret None None [0] [1] a b"
  show ?thesis
    using assms by (simp add: response_without_piv_requires_requester_identity_def exchange_simps paired_simps [OF p])
qed

lemma response_with_piv_requires_requester_identity_passes:
  assumes "hkdf_contract C" and "ccm_contract C"
  shows "response_with_piv_requires_requester_identity C = Ok ()"
proof (rule secret_pair [OF assms(1)])
  fix a b assume p: "paired C test_secret None None [0] [1] a b"
  show ?thesis
    using assms by (simp add: response_with_piv_requires_requester_identity_def exchange_simps paired_simps [OF p])
qed

lemma response_without_piv_is_one_shot_per_request_passes:
  assumes "hkdf_contract C" and "ccm_contract C"
  shows "response_without_piv_is_one_shot_per_request oc C = Ok ()"
proof (rule secret_pair [OF assms(1)])
  fix a b assume p: "paired C test_secret None None [0] [1] a b"
  show ?thesis
    using assms by (simp add: response_without_piv_is_one_shot_per_request_def exchange_simps paired_simps [OF p])
qed

text \<open>Contexts of different senders have different identifiers as long as SHA-256 does not collide on
  the inputs that name them.\<close>

definition context_id_input :: "bytes \<Rightarrow> bytes \<Rightarrow> bytes option \<Rightarrow> bytes \<Rightarrow> bytes" where
  "context_id_input secret salt ctx sid =
     ascii ''LICHEN OSCORE sender context'' @ [0] @ concat (map len_prefixed [secret, salt]) @
     [if ctx = None then 0 else 1] @ (case ctx of None \<Rightarrow> [] | Some ic \<Rightarrow> len_prefixed ic) @ len_prefixed sid"

lemma derive_context_id_input: "derive_context_id C secret salt ctx sid = ContextId (sha256 C (context_id_input secret salt ctx sid))"
  by (simp add: derive_context_id_def context_id_input_def)

lemma context_id_input_inject:
  "length secret < 256 \<Longrightarrow> length salt < 256 \<Longrightarrow> length (opt_bytes ctx) = length (opt_bytes ctx') \<Longrightarrow>
   context_id_input secret salt ctx sid = context_id_input secret salt ctx' sid' \<Longrightarrow> ctx = ctx' \<and> sid = sid'"
  by (auto simp: context_id_input_def len_prefixed_def split: option.splits if_splits)

lemma id_context_over_implementation_capacity_is_rejected_passes:
  "id_context_over_implementation_capacity_is_rejected C = Ok ()"
  by (simp add: id_context_over_implementation_capacity_is_rejected_def context_new_fresh_def context_new_eq
      new_params_ok_def test_simps)

lemma same_sender_material_with_different_recipients_shares_sequence_record_passes:
  assumes "hkdf_contract C"
  shows "same_sender_material_with_different_recipients_shares_sequence_record C = Ok ()"
proof -
  have "length (replicate 16 0x4b :: bytes) = 16" "new_params_ok (Some [7]) None [0] [1]" "new_params_ok (Some [7]) None [0] [2]"
    by (simp_all add: new_params_ok_def)
  then obtain a b where a: "context_new C (replicate 16 0x4b) (Some [7]) None [0] [1] = Ok a" "base_context None [0] [1] a"
      "ctx_context_id a = derive_context_id C (replicate 16 0x4b) (opt_bytes (Some [7])) None [0]"
    and b: "context_new C (replicate 16 0x4b) (Some [7]) None [0] [2] = Ok b" "base_context None [0] [2] b"
      "ctx_context_id b = derive_context_id C (replicate 16 0x4b) (opt_bytes (Some [7])) None [0]"
    by (metis base_context_new [OF assms])
  show ?thesis
    by (simp add: same_sender_material_with_different_recipients_shares_sequence_record_def a(1,3) b(1,3)
        base_facts [OF a(2)] base_facts [OF b(2)] run_simps)
qed

lemma sender_store_rejects_a_context_using_b_record_passes:
  assumes "hkdf_contract C"
    and "inj_on (sha256 C) {context_id_input (replicate 16 0x43) [] None [0], context_id_input (replicate 16 0x43) [] None [2]}"
  shows "sender_store_rejects_a_context_using_b_record C = Ok ()"
proof -
  have "length (replicate 16 0x43 :: bytes) = 16" "new_params_ok None None [0] [1]" "new_params_ok None None [2] [1]"
    by (simp_all add: new_params_ok_def)
  then obtain a b where a: "context_new C (replicate 16 0x43) None None [0] [1] = Ok a" "base_context None [0] [1] a"
      "ctx_context_id a = derive_context_id C (replicate 16 0x43) (opt_bytes None) None [0]"
    and b: "context_new C (replicate 16 0x43) None None [2] [1] = Ok b" "base_context None [2] [1] b"
      "ctx_context_id b = derive_context_id C (replicate 16 0x43) (opt_bytes None) None [2]"
    by (metis base_context_new [OF assms(1)])
  have "context_id_input (replicate 16 0x43) [] None [0] \<noteq> context_id_input (replicate 16 0x43) [] None [2]"
    using context_id_input_inject [of "replicate 16 0x43" "[]" None None "[0]" "[2]"] by auto
  with assms(2) have "ctx_context_id a \<noteq> ctx_context_id b"
    by (auto simp: a(3) b(3) derive_context_id_input inj_on_def)
  then show ?thesis
    by (simp add: sender_store_rejects_a_context_using_b_record_def a(1) b(1)
        base_facts [OF a(2)] base_facts [OF b(2)] run_simps)
qed

lemma context_id_is_stable_directional_context_bound_and_recipient_independent_passes:
  assumes "hkdf_contract C"
    and "inj_on (sha256 C) {context_id_input (replicate 16 0x46) [7] (Some [8]) [0],
      context_id_input (replicate 16 0x46) [7] (Some [8]) [1], context_id_input (replicate 16 0x46) [7] (Some [9]) [0]}"
  shows "context_id_is_stable_directional_context_bound_and_recipient_independent C = Ok ()"
proof -
  let ?s = "replicate 16 0x46 :: bytes"
  have "length ?s = 16" "new_params_ok (Some [7]) (Some [8]) [0] [1]" "new_params_ok (Some [7]) (Some [8]) [0] [2]"
    "new_params_ok (Some [7]) (Some [8]) [1] [0]" "new_params_ok (Some [7]) (Some [9]) [0] [1]"
    by (simp_all add: new_params_ok_def)
  then obtain a b c d where new: "context_new C ?s (Some [7]) (Some [8]) [0] [1] = Ok a"
      "context_new C ?s (Some [7]) (Some [8]) [0] [2] = Ok b"
      "context_new C ?s (Some [7]) (Some [8]) [1] [0] = Ok c" "context_new C ?s (Some [7]) (Some [9]) [0] [1] = Ok d"
    and ids: "ctx_context_id a = derive_context_id C ?s [7] (Some [8]) [0]"
      "ctx_context_id b = derive_context_id C ?s [7] (Some [8]) [0]"
      "ctx_context_id c = derive_context_id C ?s [7] (Some [8]) [1]"
      "ctx_context_id d = derive_context_id C ?s [7] (Some [9]) [0]"
    by (metis base_context_new [OF assms(1)] option.case(2))
  have "context_id_input ?s [7] (Some [8]) [0] \<noteq> context_id_input ?s [7] (Some [8]) [1]"
    "context_id_input ?s [7] (Some [8]) [0] \<noteq> context_id_input ?s [7] (Some [9]) [0]"
    using context_id_input_inject [of ?s "[7]" "Some [8]" "Some [8]" "[0]" "[1]"]
      context_id_input_inject [of ?s "[7]" "Some [8]" "Some [9]" "[0]" "[0]"] by auto
  with assms(2) have "ctx_context_id a \<noteq> ctx_context_id c" "ctx_context_id a \<noteq> ctx_context_id d"
    unfolding inj_on_def ids derive_context_id_input by auto
  then show ?thesis
    using ids(1,2)
    by (simp add: context_id_is_stable_directional_context_bound_and_recipient_independent_def
        context_new_fresh_def new test_simps)
qed

end
