(* ===== verification/ExchangeTests.thy ===== *)
theory ExchangeTests
  imports TestHarness Instances
begin

text \<open>
  The tests of \<^verbatim>\<open>src/lib.rs\<close> in which two contexts exchange messages: requests, responses in
  both forms, observations, replays, losses and malformed messages. All of them pass for every HKDF
  and every AEAD that keep their contracts; the two that flip a bit of a ciphertext also need the
  AEAD to notice that.
\<close>

subsection \<open>Requests\<close>

definition test_protect_unprotect_roundtrip :: "bool \<Rightarrow> crypto \<Rightarrow> test_run" where
  "test_protect_unprotect_roundtrip oc C =
     and_then (unwrap (new_ephemeral C test_secret None [0x00] [0x01])) (\<lambda>sender_ctx.
     and_then (unwrap (new_ephemeral C test_secret None [0x01] [0x00])) (\<lambda>recipient_ctx.
     let code = 0x01; payload = ascii ''hello'' in
     and_then (unwrap_call (test_protect_request C sender_ctx code [] payload)) (\<lambda>(_, ciphertext, oscore_opt).
     and_then (unwrap_call (unprotect_request oc C recipient_ctx oscore_opt ciphertext))
       (\<lambda>(_, dec_code, _, dec_payload). checks [
         assert_eq dec_code code, assert_eq dec_payload payload]))))"

definition five_byte_replay_ordering_and_duplicates :: "bool \<Rightarrow> crypto \<Rightarrow> test_run" where
  "five_byte_replay_ordering_and_duplicates oc C =
     and_then (unwrap (new_ephemeral C test_secret None [0] [1])) (\<lambda>sender.
     and_then (unwrap (new_ephemeral C test_secret None [1] [0])) (\<lambda>recipient.
     and_then (expect (seq_new 0x100000000)) (\<lambda>s.
     let sender = sender\<lparr>ctx_sender_seq := s\<rparr> in
     and_then (unwrap_call (test_protect_request C sender 0x01 [] (ascii ''first''))) (\<lambda>(sender, first).
     and_then (unwrap_call (test_protect_request C sender 0x01 [] (ascii ''second''))) (\<lambda>(sender, second).
     and_then (slice (snd first) 1 6) (\<lambda>piv.
     and_then (assert_eq piv [0x01, 0x00, 0x00, 0x00, 0x00]) (\<lambda>_.
     and_then (unwrap_call (unprotect_request oc C recipient (snd second) (fst second))) (\<lambda>(recipient, _).
     and_then (unwrap_call (unprotect_request oc C recipient (snd first) (fst first))) (\<lambda>(recipient, _).
     and_then (unwrap_err_call (unprotect_request oc C recipient (snd first) (fst first))) (\<lambda>(_, e).
       assert_eq e Replay))))))))))"

definition empty_request_kid_still_requires_k_flag :: "bool \<Rightarrow> crypto \<Rightarrow> test_run" where
  "empty_request_kid_still_requires_k_flag oc C =
     and_then (unwrap (new_ephemeral C test_secret None [] [0x01])) (\<lambda>sender.
     and_then (unwrap (new_ephemeral C test_secret None [0x01] [])) (\<lambda>recipient.
     and_then (unwrap_call (test_protect_request C sender 0x01 [] (ascii ''request''))) (\<lambda>(_, ciphertext, option).
     and_then (assert_eq option [0x09, 0x00]) (\<lambda>_.
     and_then (unwrap_err_call (unprotect_request oc C recipient [0x09, 0x00, 0x02] ciphertext)) (\<lambda>(recipient, e).
     and_then (assert_eq e NoContext) (\<lambda>_.
     and_then (unwrap_err_call (unprotect_request oc C recipient [0x01, 0x00] ciphertext)) (\<lambda>(recipient, e).
     and_then (assert_eq e InvalidParam) (\<lambda>_.
     and_then (unwrap_call (unprotect_request oc C recipient option ciphertext)) (\<lambda>_. Ok ())))))))))"

definition with_literal_id_context :: "oscore_context \<Rightarrow> (unit, oscore_context) res" where
  "with_literal_id_context ctx =
     and_then (store_at (ctx_id_context ctx) 0 0xaa) (\<lambda>ic.
       Ok (ctx\<lparr>ctx_id_context := ic, ctx_id_context_len := 1, ctx_id_context_present := True\<rparr>))"

definition unprotect_request_compares_literal_id_context :: "bool \<Rightarrow> crypto \<Rightarrow> test_run" where
  "unprotect_request_compares_literal_id_context oc C =
     and_then (unwrap (new_ephemeral C test_secret None [0x00] [0x01])) (\<lambda>sender.
     and_then (unwrap_call (test_protect_request C sender 0x01 [] (ascii ''request''))) (\<lambda>(_, ciphertext, _).
     and_then (unwrap (new_ephemeral C test_secret None [0x01] [0x00])) (\<lambda>matching.
     and_then (with_literal_id_context matching) (\<lambda>matching.
     and_then (unwrap_call (unprotect_request oc C matching [0x19, 0x00, 0x01, 0xaa, 0x00] ciphertext)) (\<lambda>_.
     and_then (unwrap (new_ephemeral C test_secret None [0x01] [0x00])) (\<lambda>tampered.
     and_then (with_literal_id_context tampered) (\<lambda>tampered.
     and_then (unwrap_err_call (unprotect_request oc C tampered [0x19, 0x00, 0x01, 0xbb, 0x00] ciphertext))
       (\<lambda>(_, e). assert_eq e NoContext))))))))"

definition oversized_request_does_not_poison_valid_same_sequence_retry :: "bool \<Rightarrow> crypto \<Rightarrow> test_run" where
  "oversized_request_does_not_poison_valid_same_sequence_retry oc C =
     (let secret = replicate KEY_LEN 0x49 in
      and_then (unwrap (new_ephemeral C secret None [0] [1])) (\<lambda>oversized_sender.
      and_then (unwrap (new_ephemeral C secret None [0] [1])) (\<lambda>valid_sender.
      and_then (unwrap (new_ephemeral C secret None [1] [0])) (\<lambda>recipient.
      and_then (unwrap_call (test_protect_request C oversized_sender 0x02 [] (replicate 129 0x55))) (\<lambda>(_, oversized).
      and_then (unwrap_call (test_protect_request C valid_sender 0x02 [] (ascii ''valid''))) (\<lambda>(_, valid).
      let (recipient, r) = unprotect_request oc C recipient (snd oversized) (fst oversized) in
      and_then (assert_that (case r of Err (BufferTooSmall _) \<Rightarrow> True | _ \<Rightarrow> False)) (\<lambda>_.
      and_then (unwrap_call (unprotect_request oc C recipient (snd valid) (fst valid))) (\<lambda>(_, _, _, payload).
        assert_eq payload (ascii ''valid'')))))))))"

definition public_roundtrip_preserves_embedded_ff_option_value :: "bool \<Rightarrow> crypto \<Rightarrow> test_run" where
  "public_roundtrip_preserves_embedded_ff_option_value oc C =
     and_then (unwrap (new_ephemeral C test_secret None [0] [1])) (\<lambda>sender.
     and_then (unwrap (new_ephemeral C test_secret None [1] [0])) (\<lambda>recipient.
     let options = [0x13, 0xaa, 0xff, 0xbb] in
     and_then (unwrap_call (test_protect_request C sender 0x02 options (ascii ''payload'')))
       (\<lambda>(_, ciphertext, oscore_option).
     and_then (unwrap_call (unprotect_request oc C recipient oscore_option ciphertext))
       (\<lambda>(_, code, decoded_options, payload). checks [
         assert_eq code 0x02, assert_eq decoded_options options, assert_eq payload (ascii ''payload'')]))))"

definition test_roundtrip_with_0xff_in_class_e_options :: "bool \<Rightarrow> crypto \<Rightarrow> test_run" where
  "test_roundtrip_with_0xff_in_class_e_options oc C =
     and_then (unwrap (new_ephemeral C test_secret None [0x00] [0x01])) (\<lambda>sender_ctx.
     and_then (unwrap (new_ephemeral C test_secret None [0x01] [0x00])) (\<lambda>recipient_ctx.
     let code = 0x01; class_e_options = [0x12, 0xFF, 0x42]; payload = ascii ''test payload'' in
     and_then (unwrap_call (test_protect_request C sender_ctx code class_e_options payload))
       (\<lambda>(_, ciphertext, oscore_opt).
     and_then (unwrap_call (unprotect_request oc C recipient_ctx oscore_opt ciphertext))
       (\<lambda>(_, dec_code, dec_options, dec_payload). checks [
         assert_eq dec_code code, assert_eq dec_options class_e_options, assert_eq dec_payload payload]))))"

definition malformed_inner_options :: "bytes list" where
  "malformed_inner_options =
     [[0xf0], [0x0f], [0xd0], [0xe0, 0x00], [0x0d], [0x0e, 0x00], [0x02, 0xaa], [0xff], [0xe0, 0xfe, 0xf2, 0x10]]"

definition public_unprotect_rejects_malformed_inner_options :: "bool \<Rightarrow> crypto \<Rightarrow> test_run" where
  "public_unprotect_rejects_malformed_inner_options oc C =
     check_all (\<lambda>options.
       and_then (unwrap (new_ephemeral C test_secret None [0] [1])) (\<lambda>sender.
       and_then (unwrap (new_ephemeral C test_secret None [1] [0])) (\<lambda>recipient.
       and_then (unwrap_call (test_protect_request C sender 0x02 options [])) (\<lambda>(_, ciphertext, oscore_option).
       and_then (unwrap_err_call (unprotect_request oc C recipient oscore_option ciphertext)) (\<lambda>(_, e).
         assert_eq e InvalidParam)))))
     malformed_inner_options"

definition public_unprotect_rejects_nonminimal_piv :: "bool \<Rightarrow> crypto \<Rightarrow> test_run" where
  "public_unprotect_rejects_nonminimal_piv oc C =
     and_then (unwrap (new_ephemeral C test_secret None [0] [1])) (\<lambda>sender.
     and_then (unwrap (new_ephemeral C test_secret None [1] [0])) (\<lambda>recipient.
     and_then (unwrap_call (test_protect_request C sender 0x01 [] (ascii ''request''))) (\<lambda>(_, ciphertext, _).
     and_then (unwrap_err_call (unprotect_request oc C recipient [0x0a, 0x00, 0x00, 0x00] ciphertext)) (\<lambda>(_, e).
       assert_eq e InvalidParam))))"

subsection \<open>Ordinary responses\<close>

text \<open>What most of these tests begin with: two ends, and the Partial IV of a first request.\<close>

definition test_request_piv :: "crypto \<Rightarrow> oscore_context \<Rightarrow> bytes \<Rightarrow> (unit, oscore_context \<times> bytes) res" where
  "test_request_piv C alice payload =
     and_then (unwrap_call (test_protect_request C alice 0x01 [] payload)) (\<lambda>(alice, _, request_option).
     and_then (slice request_option 1 2) (\<lambda>request_piv. Ok (alice, request_piv)))"

text \<open>The same with the length of the Partial IV read from the flags of the option.\<close>

definition test_request_piv_by_flags ::
    "crypto \<Rightarrow> oscore_context \<Rightarrow> bytes \<Rightarrow> (unit, oscore_context \<times> bytes) res" where
  "test_request_piv_by_flags C alice payload =
     and_then (unwrap_call (test_protect_request C alice 0x01 [] payload)) (\<lambda>(alice, _, request_opt).
     and_then (index request_opt 0) (\<lambda>flags.
     let request_piv_len = as_usize (flags AND 0x07) in
     and_then (slice request_opt 1 (1 + request_piv_len)) (\<lambda>request_piv. Ok (alice, request_piv))))"

text \<open>\<open>v[i] ^= 1\<close>.\<close>

definition flip_at :: "bytes \<Rightarrow> nat \<Rightarrow> (unit, bytes) res" where
  "flip_at v i = and_then (index v i) (\<lambda>b. store_at v i (b XOR 1))"

definition test_unprotect_response_with_piv :: "bool \<Rightarrow> crypto \<Rightarrow> test_run" where
  "test_unprotect_response_with_piv oc C =
     and_then (unwrap (new_ephemeral C test_secret None [0x00] [0x01])) (\<lambda>alice_ctx.
     and_then (unwrap (new_ephemeral C test_secret None [0x01] [0x00])) (\<lambda>bob_ctx.
     and_then (test_request_piv_by_flags C alice_ctx (ascii ''request'')) (\<lambda>(alice_ctx, request_piv).
     let request_kid = sender_id alice_ctx; response_code = 0x45 in
     and_then (unwrap_call (protect_response oc C bob_ctx response_code [] (ascii ''response'') request_kid
       request_piv True)) (\<lambda>(bob_ctx, response_ciphertext, response_opt).
     and_then (flip_at response_ciphertext (length response_ciphertext - 1)) (\<lambda>forged.
     and_then (unwrap_err_call (unprotect_response oc C alice_ctx response_opt forged request_piv)) (\<lambda>(alice_ctx, e).
     and_then (assert_eq e DecryptFailed) (\<lambda>_.
     and_then (unwrap_call (unprotect_response oc C alice_ctx response_opt response_ciphertext request_piv))
       (\<lambda>(alice_ctx, dec_code, _, dec_payload).
     and_then (assert_eq dec_code response_code) (\<lambda>_.
     and_then (assert_eq dec_payload (ascii ''response'')) (\<lambda>_.
     and_then (unwrap_err_call (unprotect_response oc C alice_ctx response_opt response_ciphertext request_piv))
       (\<lambda>(_, e). assert_eq e Replay)))))))))))"

definition test_unprotect_response_without_piv_uses_request_piv :: "bool \<Rightarrow> crypto \<Rightarrow> test_run" where
  "test_unprotect_response_without_piv_uses_request_piv oc C =
     and_then (unwrap (new_ephemeral C test_secret None [0x00] [0x01])) (\<lambda>alice_ctx.
     and_then (unwrap (new_ephemeral C test_secret None [0x01] [0x00])) (\<lambda>bob_ctx.
     and_then (test_request_piv_by_flags C alice_ctx (ascii ''request'')) (\<lambda>(alice_ctx, request_piv).
     let request_kid = sender_id alice_ctx; response_code = 0x45; payload = ascii ''response'' in
     and_then (unwrap_call (protect_response oc C bob_ctx response_code [] payload request_kid request_piv False))
       (\<lambda>(bob_ctx, response_ciphertext, response_opt).
     and_then (assert_that (response_opt = [])) (\<lambda>_.
     and_then (unwrap_call (unprotect_response oc C alice_ctx response_opt response_ciphertext request_piv))
       (\<lambda>(alice_ctx, dec_code, _, dec_payload).
     and_then (assert_eq dec_code response_code) (\<lambda>_.
     and_then (assert_eq dec_payload payload) (\<lambda>_.
     and_then (unwrap_err_call (unprotect_response oc C alice_ctx response_opt response_ciphertext request_piv))
       (\<lambda>(_, e). assert_eq e Replay)))))))))"

definition oversized_explicit_piv_response_does_not_poison_valid_retry :: "bool \<Rightarrow> crypto \<Rightarrow> test_run" where
  "oversized_explicit_piv_response_does_not_poison_valid_retry oc C =
     (let secret = replicate KEY_LEN 0x4a in
      and_then (unwrap (new_ephemeral C secret None [0] [1])) (\<lambda>client.
      and_then (unwrap (new_ephemeral C secret None [1] [0])) (\<lambda>oversized_server.
      and_then (unwrap (new_ephemeral C secret None [1] [0])) (\<lambda>valid_server.
      and_then (test_request_piv C client []) (\<lambda>(client, request_piv).
      and_then (unwrap_call (test_protect_response_with_piv C oversized_server 0x45 [] (replicate 129 0x55) [0]
        request_piv)) (\<lambda>(_, oversized).
      and_then (unwrap_call (test_protect_response_with_piv C valid_server 0x45 [] (ascii ''valid'') [0] request_piv))
        (\<lambda>(_, valid).
      let (client, r) = unprotect_response oc C client (snd oversized) (fst oversized) request_piv in
      and_then (assert_that (case r of Err (BufferTooSmall _) \<Rightarrow> True | _ \<Rightarrow> False)) (\<lambda>_.
      and_then (unwrap_call (unprotect_response oc C client (snd valid) (fst valid) request_piv))
        (\<lambda>(_, _, _, payload). assert_eq payload (ascii ''valid''))))))))))"

definition ordinary_response_rejects_duplicate_request_piv :: "bool \<Rightarrow> crypto \<Rightarrow> test_run" where
  "ordinary_response_rejects_duplicate_request_piv oc C =
     and_then (unwrap (new_ephemeral C test_secret None [0] [1])) (\<lambda>alice.
     and_then (unwrap (new_ephemeral C test_secret None [1] [0])) (\<lambda>bob.
     and_then (test_request_piv C alice (ascii ''request'')) (\<lambda>(alice, request_piv).
     and_then (unwrap_call (test_protect_response_with_piv C bob 0x45 [] (ascii ''response'') [0] request_piv))
       (\<lambda>(bob, response).
     and_then (unwrap_call (unprotect_response oc C alice (snd response) (fst response) request_piv)) (\<lambda>(alice, _).
     and_then (unwrap_err_call (unprotect_response oc C alice (snd response) (fst response) request_piv))
       (\<lambda>(_, e). assert_eq e Replay))))))"

definition dropped_pending_response_preserves_committed_window_across_large_jump :: "bool \<Rightarrow> crypto \<Rightarrow> test_run" where
  "dropped_pending_response_preserves_committed_window_across_large_jump oc C =
     and_then (unwrap (new_ephemeral C test_secret None [0] [1])) (\<lambda>alice.
     and_then (unwrap (new_ephemeral C test_secret None [1] [0])) (\<lambda>bob.
     let prior_piv = [0]; current_piv = [64] in
     and_then (unwrap_call (test_protect_response_with_piv C bob 0x45 [] (ascii ''prior'') [0] prior_piv))
       (\<lambda>(bob, prior).
     and_then (unwrap_call (test_protect_response_with_piv C bob 0x45 [] (ascii ''current'') [0] current_piv))
       (\<lambda>(bob, current).
     and_then (unwrap_call (unprotect_response oc C alice (snd prior) (fst prior) prior_piv)) (\<lambda>(alice, _).
     and_then (unwrap (begin_unprotect_response oc C alice (snd current) (fst current) current_piv)) (\<lambda>_.
     and_then (unwrap_err_call (unprotect_response oc C alice (snd prior) (fst prior) prior_piv)) (\<lambda>(alice, e).
     and_then (assert_eq e Replay) (\<lambda>_.
     and_then (unwrap (begin_unprotect_response oc C alice (snd current) (fst current) current_piv)) (\<lambda>pending.
     and_then (unwrap_call (commit oc alice pending)) (\<lambda>(alice, _, _, payload).
     and_then (assert_eq payload (ascii ''current'')) (\<lambda>_.
     and_then (unwrap_err_call (unprotect_response oc C alice (snd current) (fst current) current_piv))
       (\<lambda>(_, e). assert_eq e Replay))))))))))))"

text \<open>One pass of the loop over invalid response codes.\<close>

definition invalid_code_pass ::
    "bool \<Rightarrow> crypto \<Rightarrow> oscore_context \<Rightarrow> bytes \<Rightarrow> oscore_context \<Rightarrow> u8 \<Rightarrow> (unit, oscore_context) res" where
  "invalid_code_pass oc C alice request_piv bob code =
     and_then (unwrap_call (test_protect_response_with_piv C bob code [] (ascii ''invalid'') [0] request_piv))
       (\<lambda>(bob, invalid).
     and_then (assert_that (begin_unprotect_response oc C alice (snd invalid) (fst invalid) request_piv = Err InvalidParam))
       (\<lambda>_. Ok bob))"

definition invalid_response_code_does_not_consume_request_piv :: "bool \<Rightarrow> crypto \<Rightarrow> test_run" where
  "invalid_response_code_does_not_consume_request_piv oc C =
     and_then (unwrap (new_ephemeral C test_secret None [0] [1])) (\<lambda>alice.
     and_then (unwrap (new_ephemeral C test_secret None [1] [0])) (\<lambda>bob.
     and_then (test_request_piv C alice (ascii ''request'')) (\<lambda>(alice, request_piv).
     and_then (invalid_code_pass oc C alice request_piv bob 0x01) (\<lambda>bob.
     and_then (invalid_code_pass oc C alice request_piv bob 0xc1) (\<lambda>bob.
     and_then (unwrap_call (test_protect_response_with_piv C bob 0x45 [] (ascii ''valid'') [0] request_piv))
       (\<lambda>(bob, valid).
     and_then (unwrap_call (unprotect_response oc C alice (snd valid) (fst valid) request_piv))
       (\<lambda>(_, _, _, payload). assert_eq payload (ascii ''valid''))))))))"

definition delayed_explicit_piv_ordinary_response_ignores_peer_replay_window :: "bool \<Rightarrow> crypto \<Rightarrow> test_run" where
  "delayed_explicit_piv_ordinary_response_ignores_peer_replay_window oc C =
     and_then (unwrap (new_ephemeral C test_secret None [0] [1])) (\<lambda>alice.
     and_then (unwrap (new_ephemeral C test_secret None [1] [0])) (\<lambda>bob.
     and_then (test_request_piv C alice (ascii ''request'')) (\<lambda>(alice, request_piv).
     and_then (expect (seq_new 0x100000000)) (\<lambda>s.
     let bob = bob\<lparr>ctx_sender_seq := s\<rparr> in
     and_then (unwrap_call (test_protect_response_with_piv C bob 0x45 [] (ascii ''delayed'') [0] request_piv))
       (\<lambda>(bob, delayed).
     and_then (assert_eq (snd delayed) [0x05, 0x01, 0x00, 0x00, 0x00, 0x00]) (\<lambda>_.
     and_then (expect (seq_new 0x100000020)) (\<lambda>s.
     let alice = alice\<lparr>ctx_recipient_seq := s, ctx_replay_window := 0xFFFFFFFF\<rparr> in
     and_then (unwrap_call (unprotect_response oc C alice (snd delayed) (fst delayed) request_piv)) (\<lambda>(alice, _).
     and_then (unwrap_err_call (unprotect_response oc C alice (snd delayed) (fst delayed) request_piv))
       (\<lambda>(_, e). assert_eq e Replay)))))))))"

definition response_kid_mismatch_does_not_consume_request :: "bool \<Rightarrow> crypto \<Rightarrow> test_run" where
  "response_kid_mismatch_does_not_consume_request oc C =
     and_then (unwrap (new_ephemeral C test_secret None [0] [1])) (\<lambda>alice.
     and_then (unwrap (new_ephemeral C test_secret None [1] [0])) (\<lambda>bob.
     and_then (test_request_piv C alice (ascii ''request'')) (\<lambda>(alice, request_piv).
     and_then (unwrap_call (test_protect_response_with_piv C bob 0x45 [] (ascii ''response'') [0] request_piv))
       (\<lambda>(bob, response).
     and_then (unwrap_err_call (unprotect_response oc C alice [0x09, 0x00, 0x02] (fst response) request_piv))
       (\<lambda>(alice, e).
     and_then (assert_eq e NoContext) (\<lambda>_.
     and_then (unwrap_call (unprotect_response oc C alice (snd response) (fst response) request_piv)) (\<lambda>_. Ok ())))))))"

definition response_id_context_is_checked_before_decryption :: "bool \<Rightarrow> crypto \<Rightarrow> test_run" where
  "response_id_context_is_checked_before_decryption oc C =
     and_then (unwrap (new_ephemeral C test_secret None [0x00] [0x01])) (\<lambda>alice.
     and_then (unwrap (new_ephemeral C test_secret None [0x01] [0x00])) (\<lambda>bob.
     and_then (test_request_piv C alice (ascii ''request'')) (\<lambda>(alice, request_piv).
     and_then (unwrap_call (test_protect_response_with_piv C bob 0x45 [] (ascii ''response'') [0x00] request_piv))
       (\<lambda>(_, ciphertext, _).
     and_then (with_literal_id_context alice) (\<lambda>alice.
     and_then (unwrap_err_call (unprotect_response oc C alice [0x11, 0x00, 0x01, 0xbb] ciphertext request_piv))
       (\<lambda>(_, e). assert_eq e NoContext))))))"

subsection \<open>Observations\<close>

definition observe_accepts_multiple_fresh_responder_pivs_for_one_request :: "bool \<Rightarrow> crypto \<Rightarrow> test_run" where
  "observe_accepts_multiple_fresh_responder_pivs_for_one_request oc C =
     and_then (unwrap (new_ephemeral C test_secret None [0] [1])) (\<lambda>alice.
     and_then (unwrap (new_ephemeral C test_secret None [1] [0])) (\<lambda>bob.
     and_then (test_request_piv C alice (ascii ''observe'')) (\<lambda>(alice, request_piv).
     and_then (unwrap_call (test_protect_response_with_piv C bob 0x45 [] (ascii ''first'') [0] request_piv))
       (\<lambda>(bob, first).
     and_then (unwrap_call (test_protect_response_with_piv C bob 0x45 [] (ascii ''second'') [0] request_piv))
       (\<lambda>(bob, second).
     and_then (unwrap_call (unprotect_observe_response oc C alice (snd first) (fst first) request_piv))
       (\<lambda>(alice, _, _, payload).
     and_then (assert_eq payload (ascii ''first'')) (\<lambda>_.
     and_then (unwrap_call (unprotect_observe_response oc C alice (snd second) (fst second) request_piv))
       (\<lambda>(alice, _, _, payload).
     and_then (assert_eq payload (ascii ''second'')) (\<lambda>_.
     and_then (unwrap (new_ephemeral C test_secret None [0] [1])) (\<lambda>ordinary.
     and_then (unwrap_call (unprotect_response oc C ordinary (snd first) (fst first) request_piv)) (\<lambda>(ordinary, _).
     and_then (unwrap_err_call (unprotect_response oc C ordinary (snd second) (fst second) request_piv))
       (\<lambda>(_, e). assert_eq e Replay))))))))))))"

text \<open>The closure \<open>make_response\<close>: a responder of its own for every sequence number.\<close>

definition make_response :: "crypto \<Rightarrow> bytes \<Rightarrow> u64 \<Rightarrow> string \<Rightarrow> (unit, bytes \<times> bytes) res" where
  "make_response C request_piv sequence payload =
     and_then (unwrap (new_ephemeral C test_secret None [1] [0])) (\<lambda>responder.
     and_then (expect (seq_new sequence)) (\<lambda>s.
     let responder = responder\<lparr>ctx_sender_seq := s\<rparr> in
     and_then (unwrap_call (test_protect_response_with_piv C responder 0x45 [] (ascii payload) [0] request_piv))
       (\<lambda>(_, response). Ok response)))"

definition observe_replay_window_accepts_out_of_order_once_and_rejects_old :: "bool \<Rightarrow> crypto \<Rightarrow> test_run" where
  "observe_replay_window_accepts_out_of_order_once_and_rejects_old oc C =
     and_then (unwrap (new_ephemeral C test_secret None [0] [1])) (\<lambda>alice.
     and_then (unwrap (new_ephemeral C test_secret None [0] [1])) (\<lambda>request_sender.
     and_then (test_request_piv C request_sender (ascii ''observe'')) (\<lambda>(_, request_piv).
     and_then (make_response C request_piv 10 ''ten'') (\<lambda>ten.
     and_then (make_response C request_piv 12 ''twelve'') (\<lambda>twelve.
     and_then (make_response C request_piv 11 ''eleven'') (\<lambda>eleven.
     and_then (make_response C request_piv 44 ''forty-four'') (\<lambda>forty_four.
     and_then (unwrap_call (unprotect_observe_response oc C alice (snd ten) (fst ten) request_piv)) (\<lambda>(alice, _).
     and_then (unwrap_call (unprotect_observe_response oc C alice (snd twelve) (fst twelve) request_piv)) (\<lambda>(alice, _).
     and_then (unwrap_call (unprotect_observe_response oc C alice (snd eleven) (fst eleven) request_piv)) (\<lambda>(alice, _).
     and_then (assert_that (begin_unprotect_observe_response oc C alice (snd eleven) (fst eleven) request_piv = Err Replay))
       (\<lambda>_.
     and_then (unwrap_call (unprotect_observe_response oc C alice (snd forty_four) (fst forty_four) request_piv))
       (\<lambda>(alice, _).
       assert_that (begin_unprotect_observe_response oc C alice (snd twelve) (fst twelve) request_piv = Err Replay)))))))))))))"

definition observe_failure_and_dropped_pending_do_not_advance_replay_state :: "bool \<Rightarrow> crypto \<Rightarrow> test_run" where
  "observe_failure_and_dropped_pending_do_not_advance_replay_state oc C =
     and_then (unwrap (new_ephemeral C test_secret None [0] [1])) (\<lambda>alice.
     and_then (unwrap (new_ephemeral C test_secret None [1] [0])) (\<lambda>bob.
     and_then (test_request_piv C alice (ascii ''observe'')) (\<lambda>(alice, request_piv).
     and_then (unwrap_call (test_protect_response_with_piv C bob 0x45 [] (ascii ''notification'') [0] request_piv))
       (\<lambda>(bob, response).
     and_then (flip_at (fst response) 0) (\<lambda>corrupt.
     and_then (assert_that (begin_unprotect_observe_response oc C alice (snd response) corrupt request_piv = Err DecryptFailed))
       (\<lambda>_.
     and_then (index (snd response) 0) (\<lambda>flags.
     and_then (store_at (snd response) 0 (flags OR 0x08)) (\<lambda>wrong_kid.
     and_then (unwrap (vec_push OSCORE_OPTION_MAX_LEN () wrong_kid 2)) (\<lambda>wrong_kid.
     and_then (assert_that (begin_unprotect_observe_response oc C alice wrong_kid (fst response) request_piv = Err NoContext))
       (\<lambda>_.
     and_then (unwrap (begin_unprotect_observe_response oc C alice (snd response) (fst response) request_piv)) (\<lambda>_.
     and_then (unwrap_call (unprotect_observe_response oc C alice (snd response) (fst response) request_piv))
       (\<lambda>(alice, _).
       assert_that (begin_unprotect_observe_response oc C alice (snd response) (fst response) request_piv = Err Replay)))))))))))))"

definition observe_requires_explicit_piv_and_accepts_terminal_40_bit_piv_once :: "bool \<Rightarrow> crypto \<Rightarrow> test_run" where
  "observe_requires_explicit_piv_and_accepts_terminal_40_bit_piv_once oc C =
     and_then (unwrap (new_ephemeral C test_secret None [0] [1])) (\<lambda>alice.
     and_then (unwrap (new_ephemeral C test_secret None [1] [0])) (\<lambda>bob.
     and_then (test_request_piv C alice (ascii ''observe'')) (\<lambda>(alice, request_piv).
     and_then (unwrap_call (protect_response oc C bob 0x45 [] (ascii ''one-shot'') [0] request_piv False))
       (\<lambda>(bob, no_piv).
     and_then (assert_that (begin_unprotect_observe_response oc C alice (snd no_piv) (fst no_piv) request_piv = Err InvalidParam))
       (\<lambda>_.
     and_then (expect (seq_new SEQ_MAX)) (\<lambda>s.
     let bob = bob\<lparr>ctx_sender_seq := s\<rparr> in
     and_then (unwrap_call (test_protect_response_with_piv C bob 0x45 [] (ascii ''terminal'') [0] request_piv))
       (\<lambda>(bob, terminal).
     and_then (assert_eq (snd terminal) [0x05, 0xff, 0xff, 0xff, 0xff, 0xff]) (\<lambda>_.
     and_then (unwrap_call (unprotect_observe_response oc C alice (snd terminal) (fst terminal) request_piv))
       (\<lambda>(alice, _).
     and_then (assert_that (begin_unprotect_observe_response oc C alice (snd terminal) (fst terminal) request_piv = Err Replay))
       (\<lambda>_.
     and_then (unwrap_err_call (test_protect_response_with_piv C bob 0x45 [] (ascii ''exhausted'') [0] request_piv))
       (\<lambda>(_, e). assert_eq e SeqExhausted)))))))))))"

subsection \<open>They pass\<close>

lemma base_id_context:
  assumes "base_context ctx sid rid c"
  shows "ctx_id_context c \<noteq> []"
  using base_facts(1) [OF assms] by (auto simp: wf_context_def)

lemma literal_id_context:
  fixes d :: oscore_context
  assumes "xs \<noteq> []"
  shows "id_context (d\<lparr>ctx_id_context := xs[0 := x], ctx_id_context_len := 1, ctx_id_context_present := True\<rparr>) = [x]"
    "sender_id (d\<lparr>ctx_id_context := xs[0 := x], ctx_id_context_len := 1, ctx_id_context_present := True\<rparr>) = sender_id d"
    "recipient_id (d\<lparr>ctx_id_context := xs[0 := x], ctx_id_context_len := 1, ctx_id_context_present := True\<rparr>) = recipient_id d"
  using assms by (cases xs; simp add: id_context_def sender_id_def recipient_id_def)+


lemma test_protect_unprotect_roundtrip_passes:
  assumes "hkdf_contract C" and "ccm_contract C"
  shows "test_protect_unprotect_roundtrip oc C = Ok ()"
proof (rule secret_pair [OF assms(1)])
  fix a b assume p: "paired C test_secret None None [0] [1] a b"
  show ?thesis
    using assms by (simp add: test_protect_unprotect_roundtrip_def exchange_simps paired_simps [OF p])
qed

lemma five_byte_replay_ordering_and_duplicates_passes:
  assumes "hkdf_contract C" and "ccm_contract C"
  shows "five_byte_replay_ordering_and_duplicates oc C = Ok ()"
proof (rule secret_pair [OF assms(1)])
  fix a b assume p: "paired C test_secret None None [0] [1] a b"
  show ?thesis
    using assms by (simp add: five_byte_replay_ordering_and_duplicates_def exchange_simps paired_simps [OF p])
qed

lemma unprotect_request_compares_literal_id_context_passes:
  assumes "hkdf_contract C" and "ccm_contract C"
  shows "unprotect_request_compares_literal_id_context oc C = Ok ()"
proof (rule secret_pair [OF assms(1)])
  fix a b assume p: "paired C test_secret None None [0] [1] a b"
  show ?thesis
    using assms by (simp add: unprotect_request_compares_literal_id_context_def exchange_simps paired_simps [OF p]
      with_literal_id_context_def store_at_def base_id_context [OF paired_base(2) [OF p]] literal_id_context)
qed

lemma oversized_request_does_not_poison_valid_same_sequence_retry_passes:
  assumes "hkdf_contract C" and "ccm_contract C"
  shows "oversized_request_does_not_poison_valid_same_sequence_retry oc C = Ok ()"
proof (rule repeated_pair [OF assms(1)])
  fix a b assume p: "paired C (replicate 16 0x49) None None [0] [1] a b"
  show ?thesis
    using assms by (simp add: oversized_request_does_not_poison_valid_same_sequence_retry_def exchange_simps paired_simps [OF p])
qed

lemma public_roundtrip_preserves_embedded_ff_option_value_passes:
  assumes "hkdf_contract C" and "ccm_contract C"
  shows "public_roundtrip_preserves_embedded_ff_option_value oc C = Ok ()"
proof (rule secret_pair [OF assms(1)])
  fix a b assume p: "paired C test_secret None None [0] [1] a b"
  show ?thesis
    using assms by (simp add: public_roundtrip_preserves_embedded_ff_option_value_def exchange_simps paired_simps [OF p])
qed

lemma test_roundtrip_with_0xff_in_class_e_options_passes:
  assumes "hkdf_contract C" and "ccm_contract C"
  shows "test_roundtrip_with_0xff_in_class_e_options oc C = Ok ()"
proof (rule secret_pair [OF assms(1)])
  fix a b assume p: "paired C test_secret None None [0] [1] a b"
  show ?thesis
    using assms by (simp add: test_roundtrip_with_0xff_in_class_e_options_def exchange_simps paired_simps [OF p])
qed

lemma public_unprotect_rejects_nonminimal_piv_passes:
  assumes "hkdf_contract C" and "ccm_contract C"
  shows "public_unprotect_rejects_nonminimal_piv oc C = Ok ()"
proof (rule secret_pair [OF assms(1)])
  fix a b assume p: "paired C test_secret None None [0] [1] a b"
  show ?thesis
    using assms by (simp add: public_unprotect_rejects_nonminimal_piv_def exchange_simps paired_simps [OF p])
qed

lemma test_unprotect_response_without_piv_uses_request_piv_passes:
  assumes "hkdf_contract C" and "ccm_contract C"
  shows "test_unprotect_response_without_piv_uses_request_piv oc C = Ok ()"
proof (rule secret_pair [OF assms(1)])
  fix a b assume p: "paired C test_secret None None [0] [1] a b"
  show ?thesis
    using assms by (simp add: test_unprotect_response_without_piv_uses_request_piv_def exchange_simps paired_simps [OF p] test_request_piv_by_flags_def)
qed

lemma oversized_explicit_piv_response_does_not_poison_valid_retry_passes:
  assumes "hkdf_contract C" and "ccm_contract C"
  shows "oversized_explicit_piv_response_does_not_poison_valid_retry oc C = Ok ()"
proof (rule repeated_pair [OF assms(1)])
  fix a b assume p: "paired C (replicate 16 0x4a) None None [0] [1] a b"
  show ?thesis
    using assms by (simp add: oversized_explicit_piv_response_does_not_poison_valid_retry_def exchange_simps paired_simps [OF p] test_request_piv_def)
qed

lemma ordinary_response_rejects_duplicate_request_piv_passes:
  assumes "hkdf_contract C" and "ccm_contract C"
  shows "ordinary_response_rejects_duplicate_request_piv oc C = Ok ()"
proof (rule secret_pair [OF assms(1)])
  fix a b assume p: "paired C test_secret None None [0] [1] a b"
  show ?thesis
    using assms by (simp add: ordinary_response_rejects_duplicate_request_piv_def exchange_simps paired_simps [OF p] test_request_piv_def)
qed

lemma dropped_pending_response_preserves_committed_window_across_large_jump_passes:
  assumes "hkdf_contract C" and "ccm_contract C"
  shows "dropped_pending_response_preserves_committed_window_across_large_jump oc C = Ok ()"
proof (rule secret_pair [OF assms(1)])
  fix a b assume p: "paired C test_secret None None [0] [1] a b"
  show ?thesis
    using assms by (simp add: dropped_pending_response_preserves_committed_window_across_large_jump_def exchange_simps paired_simps [OF p] test_request_piv_def)
qed

lemma invalid_response_code_does_not_consume_request_piv_passes:
  assumes "hkdf_contract C" and "ccm_contract C"
  shows "invalid_response_code_does_not_consume_request_piv oc C = Ok ()"
proof (rule secret_pair [OF assms(1)])
  fix a b assume p: "paired C test_secret None None [0] [1] a b"
  show ?thesis
    using assms by (simp add: invalid_response_code_does_not_consume_request_piv_def exchange_simps paired_simps [OF p] test_request_piv_def invalid_code_pass_def)
qed

lemma delayed_explicit_piv_ordinary_response_ignores_peer_replay_window_passes:
  assumes "hkdf_contract C" and "ccm_contract C"
  shows "delayed_explicit_piv_ordinary_response_ignores_peer_replay_window oc C = Ok ()"
proof (rule secret_pair [OF assms(1)])
  fix a b assume p: "paired C test_secret None None [0] [1] a b"
  show ?thesis
    using assms by (simp add: delayed_explicit_piv_ordinary_response_ignores_peer_replay_window_def exchange_simps paired_simps [OF p] test_request_piv_def)
qed

lemma response_kid_mismatch_does_not_consume_request_passes:
  assumes "hkdf_contract C" and "ccm_contract C"
  shows "response_kid_mismatch_does_not_consume_request oc C = Ok ()"
proof (rule secret_pair [OF assms(1)])
  fix a b assume p: "paired C test_secret None None [0] [1] a b"
  show ?thesis
    using assms by (simp add: response_kid_mismatch_does_not_consume_request_def exchange_simps paired_simps [OF p] test_request_piv_def)
qed

lemma response_id_context_is_checked_before_decryption_passes:
  assumes "hkdf_contract C" and "ccm_contract C"
  shows "response_id_context_is_checked_before_decryption oc C = Ok ()"
proof (rule secret_pair [OF assms(1)])
  fix a b assume p: "paired C test_secret None None [0] [1] a b"
  show ?thesis
    using assms by (simp add: response_id_context_is_checked_before_decryption_def exchange_simps paired_simps [OF p]
      with_literal_id_context_def store_at_def test_request_piv_def base_id_context [OF paired_base(1) [OF p]] literal_id_context)
qed

lemma observe_accepts_multiple_fresh_responder_pivs_for_one_request_passes:
  assumes "hkdf_contract C" and "ccm_contract C"
  shows "observe_accepts_multiple_fresh_responder_pivs_for_one_request oc C = Ok ()"
proof (rule secret_pair [OF assms(1)])
  fix a b assume p: "paired C test_secret None None [0] [1] a b"
  show ?thesis
    using assms by (simp add: observe_accepts_multiple_fresh_responder_pivs_for_one_request_def exchange_simps paired_simps [OF p] test_request_piv_def)
qed

lemma observe_replay_window_accepts_out_of_order_once_and_rejects_old_passes:
  assumes "hkdf_contract C" and "ccm_contract C"
  shows "observe_replay_window_accepts_out_of_order_once_and_rejects_old oc C = Ok ()"
proof (rule secret_pair [OF assms(1)])
  fix a b assume p: "paired C test_secret None None [0] [1] a b"
  show ?thesis
    using assms by (simp add: observe_replay_window_accepts_out_of_order_once_and_rejects_old_def exchange_simps paired_simps [OF p] test_request_piv_def make_response_def)
qed

lemma observe_requires_explicit_piv_and_accepts_terminal_40_bit_piv_once_passes:
  assumes "hkdf_contract C" and "ccm_contract C"
  shows "observe_requires_explicit_piv_and_accepts_terminal_40_bit_piv_once oc C = Ok ()"
proof (rule secret_pair [OF assms(1)])
  fix a b assume p: "paired C test_secret None None [0] [1] a b"
  show ?thesis
    using assms by (simp add: observe_requires_explicit_piv_and_accepts_terminal_40_bit_piv_once_def exchange_simps paired_simps [OF p] test_request_piv_def)
qed

lemma empty_request_kid_still_requires_k_flag_passes:
  assumes "hkdf_contract C" and "ccm_contract C"
  shows "empty_request_kid_still_requires_k_flag oc C = Ok ()"
proof -
  have "length test_secret = 16" "new_params_ok None None [] [1]"
    by (simp_all add: length_test_secret new_params_ok_def)
  then obtain a b where p: "paired C test_secret None None [] [1] a b"
    by (rule paired_exists [OF assms(1)])
  show ?thesis
    using assms by (simp add: empty_request_kid_still_requires_k_flag_def exchange_simps paired_simps [OF p])
qed

text \<open>The nine malformed option lists are rejected by the split of the decrypted body.\<close>

lemma split_malformed:
  assumes "opts \<in> set malformed_inner_options"
  shows "split_rest oc opts = Err InvalidParam" and "length opts \<le> 4"
proof -
  have "\<forall>opts \<in> set malformed_inner_options. split_rest oc opts = Err InvalidParam \<and> length opts \<le> 4"
    by (simp add: malformed_inner_options_def split_rest_def find_payload_marker_def find_loop_simps
        marker_option_def marker_delta_def marker_length_def slice_simps slice_from_def index_def add_u16_def checked_add_u16_def checked_add_usize_def usize_max_def Let_def nibbles_15)
  with assms show "split_rest oc opts = Err InvalidParam" "length opts \<le> 4" by blast+
qed

lemma check_all_Ok: "(\<And>x. x \<in> set xs \<Longrightarrow> f x = Ok ()) \<Longrightarrow> check_all f xs = Ok ()"
  by (induction xs) (simp_all add: check_all_def)

lemma public_unprotect_rejects_malformed_inner_options_passes:
  assumes "hkdf_contract C" and "ccm_contract C"
  shows "public_unprotect_rejects_malformed_inner_options oc C = Ok ()"
  unfolding public_unprotect_rejects_malformed_inner_options_def
proof (rule check_all_Ok, rule secret_pair [OF assms(1)])
  fix opts a b
  assume o: "opts \<in> set malformed_inner_options" and p: "paired C test_secret None None [0] [1] a b"
  have plain: "drop (Suc 0) (plaintext_of code opts []) = opts" for code by (simp add: plaintext_of_def)
  show "and_then (unwrap (new_ephemeral C test_secret None [0] [1])) (\<lambda>sender.
     and_then (unwrap (new_ephemeral C test_secret None [1] [0])) (\<lambda>recipient.
     and_then (unwrap_call (test_protect_request C sender 0x02 opts [])) (\<lambda>(_, ciphertext, oscore_option).
     and_then (unwrap_err_call (unprotect_request oc C recipient oscore_option ciphertext)) (\<lambda>(_, e).
       assert_eq e InvalidParam)))) = Ok ()"
    using assms split_malformed [OF o] by (simp add: exchange_simps paired_simps [OF p] plain)
qed

subsection \<open>Forged ciphertexts\<close>

text \<open>The AEAD notices a flipped bit: what a flip of the lowest bit of any byte of a sealed message
  leaves does not open. (For AES-CCM this holds up to the probability of a forgery.)\<close>

definition notices_flips :: "crypto \<Rightarrow> bool" where
  "notices_flips C \<longleftrightarrow> (\<forall>key cipher nonce aad pt s i.
     ccm_new C key = Some cipher \<and> ccm_seal C key nonce aad pt = Some s \<and> i < length s \<longrightarrow>
     (let forged = s[i := s ! i XOR 1]; n = length s - 8 in
      ccm_decrypt C cipher nonce aad (take n forged) (drop n forged) = None))"

lemma open_flipped:
  fixes aad :: bytes
  assumes C: "ccm_contract C" "notices_flips C" and sizes: "length key = 16" "length nonce = 13" "length pt \<le> 256"
    and i: "i < length pt + 8"
  defines "s \<equiv> the (ccm_seal C key nonce aad pt)"
  shows "open_ciphertext C key nonce aad (s[i := s ! i XOR 1]) = Err DecryptFailed"
proof -
  have small: "length pt < 2 ^ 16" using sizes by simp
  obtain cipher ct tag where new: "ccm_new C key = Some cipher" and len: "length ct = length pt" "length tag = 8"
    and sealed: "ccm_seal C key nonce aad pt = Some (ct @ tag)"
    using ccm_seal_Some [OF C(1) sizes(1,2) small] by metis
  let ?f = "s[i := s ! i XOR 1]"
  have s: "ccm_seal C key nonce aad pt = Some s" "length s = length pt + 8"
    using sealed len by (simp_all add: s_def)
  then have "ccm_decrypt C cipher nonce aad (take (length s - 8) ?f) (drop (length s - 8) ?f) = None"
    using C(2) new i unfolding notices_flips_def Let_def by metis
  then show ?thesis
    using new s(2) sizes(3)
    by (simp add: open_ciphertext_def slice_from_def slice_def vec_extend_def Let_def)
qed

lemma sealed_not_Nil:
  "ccm_contract C \<Longrightarrow> length key = 16 \<Longrightarrow> length nonce = 13 \<Longrightarrow> length pt \<le> 256 \<Longrightarrow>
   the (ccm_seal C key nonce aad pt) \<noteq> []"
  using open_seal(2) [of C key nonce pt aad] by auto

lemma test_unprotect_response_with_piv_passes:
  assumes "hkdf_contract C" and "ccm_contract C" and "notices_flips C"
  shows "test_unprotect_response_with_piv oc C = Ok ()"
proof (rule secret_pair [OF assms(1)])
  fix a b assume p: "paired C test_secret None None [0] [1] a b"
  show ?thesis
    using assms by (simp add: test_unprotect_response_with_piv_def exchange_simps paired_simps [OF p]
        test_request_piv_by_flags_def flip_at_def store_at_def open_flipped)
qed

lemma observe_failure_and_dropped_pending_do_not_advance_replay_state_passes:
  assumes "hkdf_contract C" and "ccm_contract C" and "notices_flips C"
  shows "observe_failure_and_dropped_pending_do_not_advance_replay_state oc C = Ok ()"
proof (rule secret_pair [OF assms(1)])
  fix a b assume p: "paired C test_secret None None [0] [1] a b"
  show ?thesis
    using assms by (simp add: observe_failure_and_dropped_pending_do_not_advance_replay_state_def exchange_simps
        paired_simps [OF p] test_request_piv_def flip_at_def store_at_def vec_push_def open_flipped sealed_not_Nil)
qed

text \<open>The checksum cipher of the witnesses notices flips, so the hypotheses can hold together.\<close>

lemma checksum_val: "checksum bs = of_nat (length bs) + sum_list bs"
proof -
  have "foldl (\<lambda>a b. a + b + 1) (k :: u8) bs = k + of_nat (length bs) + sum_list bs" for k
    by (induction bs arbitrary: k) simp_all
  then show ?thesis by (simp add: checksum_def)
qed

lemma sum_list_update_u8:
  fixes xs :: bytes
  shows "i < length xs \<Longrightarrow> sum_list (xs[i := v]) = sum_list xs - xs ! i + v"
  by (induction xs arbitrary: i) (simp_all split: nat.split)

lemma flip_neq: "(b :: u8) XOR 1 \<noteq> b"
  by (simp add: xor_one_eq)

lemma toy_notices_flips: "notices_flips toy_crypto"
  unfolding notices_flips_def
proof (intro allI impI, elim conjE)
  fix key cipher nonce aad pt s i
  assume new: "ccm_new toy_crypto key = Some cipher" and sealed: "ccm_seal toy_crypto key nonce aad pt = Some s"
    and i: "i < length s"
  have c: "cipher = key" using new by (simp add: toy_crypto_def split: if_splits)
  let ?tag = "toy_tag key nonce aad"
  have s: "s = pt @ ?tag pt" using new sealed by (simp add: ccm_seal_def c) (simp add: toy_crypto_def)
  have len: "length (?tag x) = 8" for x by (simp add: toy_tag_def)
  have "?tag (take (length pt) (s[i := s ! i XOR 1])) \<noteq> drop (length pt) (s[i := s ! i XOR 1])"
  proof (cases "i < length pt")
    case True
    have "checksum (key @ nonce @ aad @ pt[i := pt ! i XOR 1]) \<noteq> checksum (key @ nonce @ aad @ pt)"
      using flip_neq [of "pt ! i"] by (simp add: checksum_val sum_list_update_u8 True)
    then show ?thesis using True by (simp add: s list_update_append nth_append toy_tag_def)
  next
    case False
    then have d: "drop (length pt) (s[i := s ! i XOR 1]) = (?tag pt)[i - length pt := ?tag pt ! (i - length pt) XOR 1]"
      by (simp add: s list_update_append nth_append)
    have t: "take (length pt) (s[i := s ! i XOR 1]) = pt" using False by (simp add: s list_update_append)
    have "i - length pt < 8" using i False len by (simp add: s)
    then have "(?tag pt)[i - length pt := ?tag pt ! (i - length pt) XOR 1] \<noteq> ?tag pt"
      using flip_neq len by (metis nth_list_update_eq)
    then show ?thesis unfolding d t by metis
  qed
  then show "let forged = s[i := s ! i XOR 1]; n = length s - 8 in
      ccm_decrypt toy_crypto cipher nonce aad (take n forged) (drop n forged) = None"
    by (simp add: toy_crypto_def c s len Let_def)
qed

end
