(* ===== verification/GroupTests.thy ===== *)
theory GroupTests
  imports Group TestHarness
begin

text \<open>
  The unit tests of \<^verbatim>\<open>src/group.rs\<close> over the model of group contexts, run for every HKDF
  that keeps its contract and every SHA-256 that returns 32 bytes. The tests of the dead-drop
  constructor are left out, because the functions they call are in no file of the repository, and so
  is the one that compares the identifiers of two names, which is a statement about SHA-256 alone.
\<close>

definition group_context_creation :: "crypto \<Rightarrow> test_run" where
  "group_context_creation C =
     and_then (unwrap (group_context_new C (ascii ''confessions'') test_secret 0)) (\<lambda>gc. checks [
       assert_eq (group_name gc) (ascii ''confessions''),
       assert_eq (member_index gc) 0,
       assert_eq (group_trust_of gc) Unknown,
       assert_that (member_context gc \<noteq> None)])"

definition group_context_trust_escalation :: "crypto \<Rightarrow> test_run" where
  "group_context_trust_escalation C =
     and_then (unwrap (group_context_new C (ascii ''group-a'') test_secret 0)) (\<lambda>gc.
     and_then (assert_eq (group_trust_of gc) Unknown) (\<lambda>_.
     and_then (unwrap_call (escalate_trust gc Provisioned)) (\<lambda>(gc, _).
     and_then (assert_eq (group_trust_of gc) Provisioned) (\<lambda>_.
     and_then (unwrap_call (escalate_trust gc Verified)) (\<lambda>(gc, _).
     and_then (assert_eq (group_trust_of gc) Verified) (\<lambda>_.
     and_then (unwrap_err_call (escalate_trust gc Provisioned)) (\<lambda>(_, e).
       assert_eq e InvalidParam)))))))"

definition group_members_share_sender_context_id :: "crypto \<Rightarrow> test_run" where
  "group_members_share_sender_context_id C =
     and_then (unwrap (group_context_new C (ascii ''shared-sender'') test_secret 0)) (\<lambda>gc0.
     and_then (unwrap (group_context_new C (ascii ''shared-sender'') test_secret 1)) (\<lambda>gc1.
     and_then (expect (member_context gc0)) (\<lambda>ctx0.
     and_then (expect (member_context gc1)) (\<lambda>ctx1. checks [
       assert_eq (sender_id_mod ctx0) (sender_id_mod ctx1),
       assert_eq (mc_context_id ctx0) (mc_context_id ctx1)]))))"

definition group_members_have_distinct_recipient_ids :: "crypto \<Rightarrow> test_run" where
  "group_members_have_distinct_recipient_ids C =
     and_then (unwrap (group_context_new C (ascii ''distinct-recip'') test_secret 0)) (\<lambda>gc0.
     and_then (unwrap (group_context_new C (ascii ''distinct-recip'') test_secret 1)) (\<lambda>gc1.
     and_then (expect (member_context gc0)) (\<lambda>ctx0.
     and_then (expect (member_context gc1)) (\<lambda>ctx1. checks [
       assert_eq (recipient_id_mod ctx0) [0],
       assert_eq (recipient_id_mod ctx1) [1]]))))"

definition group_receive_context_can_decrypt_peer_message :: "crypto \<Rightarrow> test_run" where
  "group_receive_context_can_decrypt_peer_message C =
     and_then (unwrap (group_context_new C (ascii ''crypt-recv'') test_secret 0)) (\<lambda>gc_sender.
     and_then (unwrap (group_context_new C (ascii ''crypt-recv'') test_secret 1)) (\<lambda>gc_receiver.
     and_then (unwrap (group_receive_context C gc_receiver 0)) (\<lambda>recv_ctx. checks [
       and_then (expect (member_context gc_sender)) (\<lambda>m.
         assert_eq (sender_id_mod m) (recipient_id_mod recv_ctx)),
       and_then (expect (member_context gc_sender)) (\<lambda>m.
         assert_eq (mc_sender_key m) (mc_recipient_key recv_ctx))])))"

definition group_receive_context_matches_sender_keys :: "crypto \<Rightarrow> test_run" where
  "group_receive_context_matches_sender_keys C =
     and_then (unwrap (group_context_new C (ascii ''key-match'') test_secret 0)) (\<lambda>gc0.
     and_then (unwrap (group_context_new C (ascii ''key-match'') test_secret 1)) (\<lambda>gc1.
     and_then (expect (member_context gc0)) (\<lambda>send_ctx.
     and_then (unwrap (group_receive_context C gc1 0)) (\<lambda>recv_ctx. checks [
       assert_eq (mc_sender_key send_ctx) (mc_recipient_key recv_ctx),
       assert_eq (sender_id_mod send_ctx) (recipient_id_mod recv_ctx)]))))"

definition common_sender_id_is_deterministic :: "crypto \<Rightarrow> test_run" where
  "common_sender_id_is_deterministic C =
     and_then (unwrap (common_sender_id C (ascii ''group-x''))) (\<lambda>id1.
     and_then (unwrap (common_sender_id C (ascii ''group-x''))) (\<lambda>id2. assert_eq id1 id2))"

definition group_name_too_long :: "crypto \<Rightarrow> test_run" where
  "group_name_too_long C =
     (let long_name = replicate (GROUP_NAME_MAX_LEN + 1) 0x41 in
      and_then (unwrap_err (group_context_new C long_name test_secret 0)) (\<lambda>e. assert_eq e InvalidParam))"

definition member_index_out_of_bounds :: "crypto \<Rightarrow> test_run" where
  "member_index_out_of_bounds C =
     and_then (unwrap_err (group_context_new C (ascii ''test'') test_secret (as_u8 GROUP_MAX_MEMBERS)))
       (\<lambda>e. assert_eq e InvalidParam)"

definition group_receive_context_rejects_invalid_index :: "crypto \<Rightarrow> test_run" where
  "group_receive_context_rejects_invalid_index C =
     and_then (unwrap (group_context_new C (ascii ''inv-idx'') test_secret 0)) (\<lambda>gc.
     and_then (unwrap_err (group_receive_context C gc (as_u8 GROUP_MAX_MEMBERS))) (\<lambda>e.
       assert_eq e InvalidParam))"

subsection \<open>They pass\<close>

text \<open>What two members of a group and the context that receives from the first know of each other.\<close>

definition test_group :: "crypto \<Rightarrow> bytes \<Rightarrow> group_context \<Rightarrow> group_context \<Rightarrow> mod_context \<Rightarrow> mod_context \<Rightarrow> mod_context \<Rightarrow> bool" where
  "test_group C name g0 g1 m0 m1 r \<longleftrightarrow>
     group_context_new C name test_secret 0 = Ok g0 \<and> group_context_new C name test_secret 1 = Ok g1 \<and>
     group_receive_context C g1 0 = Ok r \<and>
     member_context g0 = Some m0 \<and> member_context g1 = Some m1 \<and>
     group_name g0 = name \<and> member_index g0 = 0 \<and> group_trust_of g0 = Unknown \<and>
     sender_id_mod m1 = sender_id_mod m0 \<and> mc_context_id m1 = mc_context_id m0 \<and>
     recipient_id_mod m0 = [0] \<and> recipient_id_mod m1 = [1] \<and>
     recipient_id_mod r = sender_id_mod m0 \<and> mc_recipient_key r = mc_sender_key m0"

lemma test_group_exists:
  assumes "hkdf_contract C" "sha_contract C" and "length name \<le> 16"
  obtains g0 g1 m0 m1 r where "test_group C name g0 g1 m0 m1 r"
proof -
  have "unat (0 :: u8) < 32" "unat (1 :: u8) < 32" by simp_all
  then obtain g0 m0 g1 m1 r where
    g0: "group_context_new C name test_secret 0 = Ok g0" "member_context g0 = Some m0" "group_name g0 = name"
      "member_index g0 = 0" "group_trust_of g0 = Unknown"
    and g1: "group_context_new C name test_secret 1 = Ok g1" "member_context g1 = Some m1" "group_name g1 = name"
      "gc_master_secret g1 = test_secret"
    and r: "group_receive_context C g1 0 = Ok r"
    and new: "context_new_mod C test_secret None (Some (group_idctx C name)) (group_sid C name) [0] = Ok m0"
      "context_new_mod C test_secret None (Some (group_idctx C name)) (group_sid C name) [1] = Ok m1"
      "context_new_mod C (gc_master_secret g1) None (Some (group_idctx C (group_name g1))) [0] (group_sid C (group_name g1)) = Ok r"
    by (metis group_context_new_total [OF assms] group_receive_context_total [OF assms(1,2)])
  note m0 = context_new_Ok [OF lib_res_new_Ok [OF new(1)]]
  note m1 = context_new_Ok [OF lib_res_new_Ok [OF new(2)]]
  note mr = context_new_Ok [OF lib_res_new_Ok [OF new(3) [unfolded g1(3,4)]]]
  have "test_group C name g0 g1 m0 m1 r"
    using g0 g1 r m0(2,3,6,9) m1(2,3,9) mr(3,7) by (simp add: test_group_def)
  then show ?thesis by (rule that)
qed

lemma test_groupD:
  assumes "test_group C name g0 g1 m0 m1 r"
  shows "group_context_new C name test_secret 0 = Ok g0" "group_context_new C name test_secret 1 = Ok g1"
    "group_receive_context C g1 0 = Ok r" "member_context g0 = Some m0" "member_context g1 = Some m1"
    "group_name g0 = name" "member_index g0 = 0" "group_trust_of g0 = Unknown"
    "sender_id_mod m1 = sender_id_mod m0" "mc_context_id m1 = mc_context_id m0"
    "recipient_id_mod m0 = [0]" "recipient_id_mod m1 = [1]"
    "recipient_id_mod r = sender_id_mod m0" "mc_recipient_key r = mc_sender_key m0"
  using assms unfolding test_group_def by blast+

lemma group_context_creation_passes:
  assumes "hkdf_contract C" and "sha_contract C"
  shows "group_context_creation C = Ok ()"
proof (rule test_group_exists [OF assms, of "ascii ''confessions''"])
  fix g0 g1 m0 m1 r assume g: "test_group C (ascii ''confessions'') g0 g1 m0 m1 r"
  show ?thesis
    by (simp only: group_context_creation_def) (simp add: test_simps test_groupD [OF g])
qed (simp add: ascii_def)

lemma group_members_share_sender_context_id_passes:
  assumes "hkdf_contract C" and "sha_contract C"
  shows "group_members_share_sender_context_id C = Ok ()"
proof (rule test_group_exists [OF assms, of "ascii ''shared-sender''"])
  fix g0 g1 m0 m1 r assume g: "test_group C (ascii ''shared-sender'') g0 g1 m0 m1 r"
  show ?thesis
    by (simp only: group_members_share_sender_context_id_def) (simp add: test_simps test_groupD [OF g])
qed (simp add: ascii_def)

lemma group_members_have_distinct_recipient_ids_passes:
  assumes "hkdf_contract C" and "sha_contract C"
  shows "group_members_have_distinct_recipient_ids C = Ok ()"
proof (rule test_group_exists [OF assms, of "ascii ''distinct-recip''"])
  fix g0 g1 m0 m1 r assume g: "test_group C (ascii ''distinct-recip'') g0 g1 m0 m1 r"
  show ?thesis
    by (simp only: group_members_have_distinct_recipient_ids_def) (simp add: test_simps test_groupD [OF g])
qed (simp add: ascii_def)

lemma group_receive_context_can_decrypt_peer_message_passes:
  assumes "hkdf_contract C" and "sha_contract C"
  shows "group_receive_context_can_decrypt_peer_message C = Ok ()"
proof (rule test_group_exists [OF assms, of "ascii ''crypt-recv''"])
  fix g0 g1 m0 m1 r assume g: "test_group C (ascii ''crypt-recv'') g0 g1 m0 m1 r"
  show ?thesis
    by (simp only: group_receive_context_can_decrypt_peer_message_def) (simp add: test_simps test_groupD [OF g])
qed (simp add: ascii_def)

lemma group_receive_context_matches_sender_keys_passes:
  assumes "hkdf_contract C" and "sha_contract C"
  shows "group_receive_context_matches_sender_keys C = Ok ()"
proof (rule test_group_exists [OF assms, of "ascii ''key-match''"])
  fix g0 g1 m0 m1 r assume g: "test_group C (ascii ''key-match'') g0 g1 m0 m1 r"
  show ?thesis
    by (simp only: group_receive_context_matches_sender_keys_def) (simp add: test_simps test_groupD [OF g])
qed (simp add: ascii_def)

lemma group_receive_context_rejects_invalid_index_passes:
  assumes "hkdf_contract C" and "sha_contract C"
  shows "group_receive_context_rejects_invalid_index C = Ok ()"
proof (rule test_group_exists [OF assms, of "ascii ''inv-idx''"])
  fix g0 g1 m0 m1 r assume g: "test_group C (ascii ''inv-idx'') g0 g1 m0 m1 r"
  show ?thesis
    by (simp only: group_receive_context_rejects_invalid_index_def) (simp add: test_simps test_groupD [OF g] group_receive_context_def GROUP_MAX_MEMBERS_def)
qed (simp add: ascii_def)

lemma group_context_trust_escalation_passes:
  assumes "hkdf_contract C" and "sha_contract C"
  shows "group_context_trust_escalation C = Ok ()"
proof (rule test_group_exists [OF assms, of "ascii ''group-a''"])
  fix g0 g1 m0 m1 r assume g: "test_group C (ascii ''group-a'') g0 g1 m0 m1 r"
  show ?thesis
    using test_groupD(8) [OF g]
    by (simp add: group_context_trust_escalation_def test_simps test_groupD(1) [OF g] escalate_trust_def escalate_def
        group_trust_of_def less_group_trust_def)
qed (simp add: ascii_def)

lemma common_sender_id_is_deterministic_passes:
  assumes "sha_contract C"
  shows "common_sender_id_is_deterministic C = Ok ()"
  by (simp add: common_sender_id_is_deterministic_def test_simps group_ids [OF assms])

lemma group_name_too_long_passes: "group_name_too_long C = Ok ()"
  by (simp add: group_name_too_long_def group_context_new_refused GROUP_NAME_MAX_LEN_def test_simps)

lemma member_index_out_of_bounds_passes: "member_index_out_of_bounds C = Ok ()"
  by (simp add: member_index_out_of_bounds_def group_context_new_refused GROUP_MAX_MEMBERS_def test_simps)

end
