(* ===== verification/Spec2Isabelle.thy ===== *)
theory Spec2Isabelle
  imports OscoreProperties ModProperties EdhocProperties SecretProperties CredentialTests ContextTests
    ExchangeTests GroupTests
begin

text \<open>
  A verification library for the crate \<^verbatim>\<open>rust-oscore\<close>: OSCORE (RFC 8613), which
  protects CoAP requests and responses with an AEAD under a shared context, and EDHOC (RFC 9528,
  method 0, suite 0), the three-message handshake that ends in such a context.

  \<^bold>\<open>The program.\<close> \<^verbatim>\<open>src/lib.rs\<close> holds the OSCORE side: a \<^verbatim>\<open>Context\<close> is
  built from a master secret, registered with or restored from a durable store, reserves sender
  sequence numbers by compare-and-swap, protects messages, and verifies messages against four
  sliding windows. \<^verbatim>\<open>src/seqnum.rs\<close> holds the 40-bit sequence numbers,
  \<^verbatim>\<open>src/error.rs\<close> an error. \<^verbatim>\<open>src/edhoc/\<close> holds the handshake: \<^verbatim>\<open>cbor.rs\<close>
  and \<^verbatim>\<open>credential.rs\<close> the encodings, \<^verbatim>\<open>kdf.rs\<close> and \<^verbatim>\<open>transcript.rs\<close> the
  key schedule, \<^verbatim>\<open>sign.rs\<close> the signature schemes, \<^verbatim>\<open>initiator.rs\<close> and
  \<^verbatim>\<open>responder.rs\<close> the two state machines, whose export calls \<^verbatim>\<open>Context::new_fresh\<close>.
  Beside them lies a second copy of the OSCORE side, the module tree \<^verbatim>\<open>context.rs\<close>,
  \<^verbatim>\<open>types.rs\<close>, \<^verbatim>\<open>crypto.rs\<close>, \<^verbatim>\<open>option.rs\<close>, \<^verbatim>\<open>protect.rs\<close> and
  \<^verbatim>\<open>unprotect.rs\<close>, which \<^verbatim>\<open>lib.rs\<close> does not declare, and on top of it
  \<^verbatim>\<open>group.rs\<close>, contexts that the members of a group share.

  \<^bold>\<open>How the code is modelled.\<close> A struct is a record, an enum a datatype, a machine integer a word
  of its width, a \<^verbatim>\<open>usize\<close> a natural number, a byte string or a bounded vector a list whose
  capacity is an argument of the operations that extend it. A fallible function returns \<open>('e, 'a) res\<close>:
  a value, an error, or \<open>Panic\<close>, the branch for an index or slice out of range, an overflow with
  checks on, or a failed \<^verbatim>\<open>expect\<close>; so freedom from panics is a theorem and not an assumption.
  A method that changes its receiver returns the new receiver beside its result, on errors too.
  Crates (hash, HKDF, AES-CCM, the signature schemes, X25519, curve points), entropy and the store
  are records of functions that every definition takes as an argument; what a property needs of them
  is a predicate such as \<open>ccm_contract\<close>, \<open>hkdf_contract\<close>, \<open>primitives_ok\<close> or
  \<open>store_contract\<close>, and \<open>Instances\<close> and \<open>EdhocInstances\<close> have primitives that keep them.
  The theories \<open>OscoreProperties\<close>, \<open>ModProperties\<close>, \<open>EdhocProperties\<close> and
  \<open>SecretProperties\<close> state the properties C1 to C40. Definitions of the module tree carry the suffix \<open>_mod\<close>.

  \<^bold>\<open>The theories.\<close>
  \<^item> \<open>Prelude\<close>: results, indexing and slicing, bounded vectors, words, with the collections of
    rewrite rules that evaluate them.
  \<^item> \<open>Seqnum\<close>: sequence numbers and the Partial IV, minimal big-endian in both directions.
  \<^item> \<open>OscoreTypes\<close>, \<open>OscoreCrypto\<close>: errors, the store interface, the primitives; info
    structure, additional data, nonce and key derivation in closed form, injective in their parts.
  \<^item> \<open>OptionCodec\<close>, \<open>InnerBody\<close>: the OSCORE option, characterised exactly; the option parser of
    the inner message and the search for the payload marker, with the difference between them.
  \<^item> \<open>Window\<close>, \<open>OscoreContext\<close>: the shared window step and its locale \<open>replay_window\<close>,
    interpreted on the four windows of the context; construction, snapshots, registration,
    restoration, reservation, and the invariant \<open>wf_context\<close>.
  \<^item> \<open>Protect\<close>, \<open>Unprotect\<close>, \<open>Protocol\<close>: both directions of requests and responses, their closed
    forms, and two mirrored contexts in exchange.
  \<^item> \<open>SenderSafety\<close>: contexts that register, restore, reserve and crash over one store, as a step
    relation; the locale \<open>sender_store\<close> and its interpretation on the store of the tests.
  \<^item> \<open>ModCodec\<close>, \<open>ModContext\<close>, \<open>ModProtect\<close>, \<open>ModUnprotect\<close>: the module tree. Its
    codec equals that of \<^verbatim>\<open>lib.rs\<close>; the map \<open>lib_context\<close> sends its context to one of
    \<^verbatim>\<open>lib.rs\<close>, and the operations commute with it, up to the differences that are proved.
  \<^item> \<open>Group\<close>, \<open>ModProtocol\<close>: trust, group contexts and their registration; the messages of a peer in
    any order, restarts, and two members over one store.
  \<^item> \<open>DeviceHistories\<close>: devices with contexts of the module tree and members of groups over one
    store, as a step relation, simulated by the one of \<open>SenderSafety\<close>.
  \<^item> \<open>EdhocCbor\<close>, \<open>EdhocCredential\<close>, \<open>CborItems\<close>: byte strings, identifiers, suites, credential
    references, peer credentials; a grammar that the recursive walk over a value decides.
    \<open>CredentialTests\<close>: the check of deterministic encodings that the tests use.
  \<^item> \<open>EdhocSign\<close>, \<open>EdhocTranscript\<close>, \<open>EdhocKdf\<close>: the primitives of the handshake, the lifecycle
    and the locale \<open>party\<close> of its runs; the transcript and the signed structures; the key schedule
    against HKDF-Expand, and the exporter.
  \<^item> \<open>EdhocInitiator\<close>, \<open>EdhocResponder\<close>: the two structs and all their methods, interpretations of
    \<open>party\<close>; what a success has checked, and that nothing panics.
  \<^item> \<open>EdhocStates\<close>: what an error leaves behind: the struct as it was, or one that is erased.
  \<^item> \<open>EdhocHandshake\<close>: both parties together, message by message, up to the exported contexts.
  \<^item> \<open>EdhocAgreement\<close>: any number of sessions of both keys with an attacker between them; what the
    ends of a completed session agree on, up to forgeries and collisions.
  \<^item> \<open>Formatting\<close>, \<open>ContextSecrets\<close>, \<open>EdhocSecrets\<close>: the text that errors, sequence numbers,
    contexts and parties are printed as, with the redaction of their secrets, and what erasure and
    drop leave of them.
  \<^item> \<open>UnitTests\<close>, \<open>TestHarness\<close>, \<open>ContextTests\<close>, \<open>ExchangeTests\<close>, \<open>GroupTests\<close>: the tests
    that stand beside the code in \<^verbatim>\<open>seqnum.rs\<close>, \<^verbatim>\<open>lib.rs\<close> and \<^verbatim>\<open>group.rs\<close>, as
    programs over the model that are executed symbolically: all of them pass, for every HKDF, AEAD
    and hash that keep their contracts, and under both profiles of integer overflow.

  \<^bold>\<open>What is shown.\<close> OSCORE: what one end protects the other decrypts to the same message (C1,
  C21), for well-formed options and payloads of up to 128 bytes and a plaintext of up to 256; a request
  of 257 or 258 bytes is protected and then refused (C38). Requests and responses are accepted once (C2, C9), no sequence number is reserved twice over
  any history of the store (C3), messages that carry a Partial IV of their own have different nonces,
  and requests different additional data, whenever sender or number differ (C4), a request's nonce
  serves one response at most (C10), a new context starts with empty windows (C36), all operations but
  the erasure keep the invariant (C8), and without overflow checks no received bytes make the
  verification panic (C22; with them C32 has the one overflow). The module tree does what
  \<^verbatim>\<open>lib.rs\<close> does (C15), except that it takes a marker with nothing behind it for an empty payload (C17), keeps
  one window for all numbers of a peer (C19) and forgets its windows in a restart (C27); its contexts
  exchange responses, restored ones too (C20). Any number of its devices, group members among them, over one store
  behave like the abstract system of reservations and reserve no nonce twice (C18). Groups: every
  member decrypts what a registered or restored member sends with any reserved number (C28), members with separate stores use the same nonces (C29),
  only one member can register with one store (C30). EDHOC: two honest parties whose
  identifiers the messages can carry complete and export mirrored contexts that work (C5, C16). Not
  all identifiers that the constructors accept are of this kind: C40 gives the outcome of the first two
  messages for every one of them. The responder refuses a \<open>C_I\<close> that is not one byte, or is one from
  0x20 to 0x37, and the initiator reads such a byte as a different \<open>C_R\<close>.
  When an attacker decides every message, a party that completes agrees with a session of its peer on
  the messages, identifiers, transcript and key, or the run holds a forged signature or a collision
  that the statement names (C6, C7); it completes only on a message that the peer's credential signed
  over its own transcript (C12, C13), in the order of its steps (C14), and after an error it is
  unchanged or erased (C24). What is printed of a context or a party is a function of its public
  fields (C26), and erasure leaves no secret (C25). Several properties record where the code departs
  from its intention: C17, C25, C27, C29, C30, C32, C38, C39 and
  C40.

  \<^bold>\<open>Bounds.\<close> Nothing is bounded by fuel: every loop is structural or has a measure. The capacities
  of the vectors are those of the code. \<open>C32\<close> distinguishes the two build profiles of integer
  overflow by a flag, \<open>edhoc_crypto\<close> the two signature schemes.

  \<^bold>\<open>Not modelled.\<close> The tests that compare with literal outputs of AES-CCM, HKDF or SHA-256, and the
  files \<^verbatim>\<open>src/tests.rs\<close>, \<^verbatim>\<open>src/edhoc/tests.rs\<close> and \<^verbatim>\<open>tests/vectors.rs\<close>, whose
  scenarios the properties cover in general. The text of a handshake party depends on how \<^verbatim>\<open>heapless\<close> and
  \<^verbatim>\<open>x25519_dalek\<close> print their types, which is an argument, and copies of secrets that the compiler
  leaves in registers or on the stack are outside the model of erasure.
  \<^verbatim>\<open>Context::from_peer_key\<close>, which \<^verbatim>\<open>group.rs\<close> calls for its dead-drop contexts, is in no
  file of the repository and is an argument of the model. Secrecy and unforgeability are properties of
  the primitives and outside a functional model.
\<close>

end
